(* ===== verification/Prelude.thy ===== *)
theory Prelude
  imports Main "HOL-Library.Sublist"
begin

text \<open>
  The vocabulary the components share: Qt's value types as far as the sources use them.
  A \<open>QString\<close> is an Isabelle \<open>string\<close>; the model's character set is Latin-1 (one
  \<open>char\<close> is one UTF-16 unit below 256), so \<open>length\<close>, \<open>left\<close>, \<open>right\<close>, \<open>mid\<close> and
  \<open>indexOf\<close> count what Qt counts. Case mapping is that of the ASCII letters, other
  characters are left alone. \<open>int\<close> stands for Qt's 32-bit \<open>int\<close> where no operation can
  leave the range; \<open>toInt\<close> rejects what does not fit. The collection \<open>qt_simps\<close> gathers
  the evaluation rules of these operations.
\<close>

named_theorems qt_simps

section \<open>Characters\<close>

definition code :: "char \<Rightarrow> nat" where
  "code c = of_char c"

definition isSpace :: "char \<Rightarrow> bool" where
  "isSpace c \<longleftrightarrow> code c = 32 \<or> (9 \<le> code c \<and> code c \<le> 13) \<or> code c = 133 \<or> code c = 160"

definition lowerChar :: "char \<Rightarrow> char" where
  "lowerChar c = (if 65 \<le> code c \<and> code c \<le> 90 then char_of (code c + 32) else c)"

definition upperChar :: "char \<Rightarrow> char" where
  "upperChar c = (if 97 \<le> code c \<and> code c \<le> 122 then char_of (code c - 32) else c)"

definition toLower :: "string \<Rightarrow> string" where
  "toLower s = map lowerChar s"

definition toUpper :: "string \<Rightarrow> string" where
  "toUpper s = map upperChar s"

section \<open>Substrings\<close>

text \<open>A length that is negative or at least the size gives the whole string, as in Qt 5.\<close>

definition qleft :: "string \<Rightarrow> int \<Rightarrow> string" where
  "qleft s n = (if n < 0 \<or> int (length s) \<le> n then s else take (nat n) s)"

definition qright :: "string \<Rightarrow> int \<Rightarrow> string" where
  "qright s n = (if n < 0 \<or> int (length s) \<le> n then s else drop (length s - nat n) s)"

definition qmid :: "string \<Rightarrow> int \<Rightarrow> int \<Rightarrow> string" where
  "qmid s p n =
     (let sz = int (length s) in
      if sz < p then []
      else if p < 0 then
        (if n < 0 \<or> sz \<le> n + p then s
         else if n + p \<le> 0 then [] else take (nat (n + p)) s)
      else if n < 0 \<or> sz - p < n then drop (nat p) s
      else take (nat n) (drop (nat p) s))"

fun find_sub :: "string \<Rightarrow> string \<Rightarrow> nat option" where
  "find_sub p [] = (if p = [] then Some 0 else None)"
| "find_sub p (c # cs) =
     (if prefix p (c # cs) then Some 0 else map_option Suc (find_sub p cs))"

fun find_last :: "char \<Rightarrow> string \<Rightarrow> nat option" where
  "find_last a [] = None"
| "find_last a (c # cs) =
     (case find_last a cs of Some i \<Rightarrow> Some (Suc i) | None \<Rightarrow> if c = a then Some 0 else None)"

definition index_or_minus_one :: "nat option \<Rightarrow> int" where
  "index_or_minus_one r = (case r of None \<Rightarrow> -1 | Some i \<Rightarrow> int i)"

definition indexOf :: "string \<Rightarrow> string \<Rightarrow> int" where
  "indexOf s p = index_or_minus_one (find_sub p s)"

definition lastIndexOf :: "string \<Rightarrow> char \<Rightarrow> int" where
  "lastIndexOf s a = index_or_minus_one (find_last a s)"

definition contains :: "string \<Rightarrow> string \<Rightarrow> bool" where
  "contains s p \<longleftrightarrow> find_sub p s \<noteq> None"

definition containsCI :: "string \<Rightarrow> string \<Rightarrow> bool" where
  "containsCI s p \<longleftrightarrow> contains (toLower s) (toLower p)"

definition startsWith :: "string \<Rightarrow> string \<Rightarrow> bool" where
  "startsWith s p \<longleftrightarrow> prefix p s"

definition startsWithCI :: "string \<Rightarrow> string \<Rightarrow> bool" where
  "startsWithCI s p \<longleftrightarrow> prefix (toLower p) (toLower s)"

section \<open>Trimming, splitting, joining, replacing\<close>

definition trimmed :: "string \<Rightarrow> string" where
  "trimmed s = rev (dropWhile isSpace (rev (dropWhile isSpace s)))"

fun splitOn :: "char \<Rightarrow> string \<Rightarrow> string list" where
  "splitOn a [] = [[]]"
| "splitOn a (c # cs) =
     (if c = a then [] # splitOn a cs
      else (case splitOn a cs of [] \<Rightarrow> [[c]] | w # ws \<Rightarrow> (c # w) # ws))"

fun joinWith :: "string \<Rightarrow> string list \<Rightarrow> string" where
  "joinWith sep [] = []"
| "joinWith sep [w] = w"
| "joinWith sep (w # v # ws) = w @ sep @ joinWith sep (v # ws)"

text \<open>\<open>simplified()\<close>: whitespace at both ends removed, inner runs replaced by one space.\<close>

fun simp_words :: "string \<Rightarrow> string list" where
  "simp_words [] = [[]]"
| "simp_words (c # cs) =
     (if isSpace c then [] # simp_words cs
      else (case simp_words cs of [] \<Rightarrow> [[c]] | w # ws \<Rightarrow> (c # w) # ws))"

definition simplified :: "string \<Rightarrow> string" where
  "simplified s = joinWith '' '' (filter (\<lambda>w. w \<noteq> []) (simp_words s))"

function qreplace :: "string \<Rightarrow> string \<Rightarrow> string \<Rightarrow> string" where
  "qreplace s before after =
     (if s = [] \<or> before = [] then s
      else if prefix before s then after @ qreplace (drop (length before) s) before after
      else hd s # qreplace (tl s) before after)"
  by pat_completeness auto
termination
  by (relation "measure (\<lambda>(s, b, a). length s)") (auto simp: length_greater_0_conv [symmetric] simp del: length_greater_0_conv)

declare qreplace.simps [simp del]

section \<open>Numbers\<close>

definition digitValue :: "char \<Rightarrow> nat option" where
  "digitValue c = (if 48 \<le> code c \<and> code c \<le> 57 then Some (code c - 48) else None)"

definition digitChar :: "nat \<Rightarrow> char" where
  "digitChar d = char_of (48 + d)"

fun natDigits :: "nat \<Rightarrow> string" where
  "natDigits n = (if n < 10 then [digitChar n] else natDigits (n div 10) @ [digitChar (n mod 10)])"

declare natDigits.simps [simp del]

text \<open>\<open>QString::number\<close> and \<open>arg(int)\<close>: decimal, a minus sign in front.\<close>

definition number :: "int \<Rightarrow> string" where
  "number i = (if i < 0 then CHR ''-'' # natDigits (nat (- i)) else natDigits (nat i))"

fun parseDigits :: "nat \<Rightarrow> string \<Rightarrow> nat option" where
  "parseDigits acc [] = Some acc"
| "parseDigits acc (c # cs) =
     (case digitValue c of None \<Rightarrow> None | Some d \<Rightarrow> parseDigits (10 * acc + d) cs)"

definition parseNat :: "string \<Rightarrow> nat option" where
  "parseNat s = (if s = [] then None else parseDigits 0 s)"

definition inInt32 :: "int \<Rightarrow> bool" where
  "inInt32 i \<longleftrightarrow> - (2 ^ 31) \<le> i \<and> i < 2 ^ 31"

text \<open>
  \<open>toInt(&ok)\<close>: whitespace around the number is skipped, one sign is allowed, and a value
  outside the 32-bit range fails. \<open>toInt()\<close> gives 0 for a failure.
\<close>

definition toIntOk :: "string \<Rightarrow> int option" where
  "toIntOk s =
     (let t = trimmed s;
          (neg, body) = (case t of
              [] \<Rightarrow> (False, [])
            | c # cs \<Rightarrow> if c = CHR ''-'' then (True, cs)
                        else if c = CHR ''+'' then (False, cs) else (False, c # cs))
      in case parseNat body of
           None \<Rightarrow> None
         | Some n \<Rightarrow> (let v = (if neg then - int n else int n) in
                      if inInt32 v then Some v else None))"

definition toInt :: "string \<Rightarrow> int" where
  "toInt s = (case toIntOk s of None \<Rightarrow> 0 | Some i \<Rightarrow> i)"

section \<open>Place markers\<close>

text \<open>
  \<open>QString::arg\<close> replaces every occurrence of the lowest-numbered place marker of the
  string it is called on (one or two digits, an optional \<open>L\<close> in front), and leaves the
  string alone when there is none. The replaced text is part of the string the next
  \<open>arg\<close> scans.
\<close>

datatype argTok = Ch char | Mark nat string

fun scanArgs :: "string \<Rightarrow> argTok list" where
  "scanArgs [] = []"
| "scanArgs (c # cs) =
     (if c \<noteq> CHR ''%'' then Ch c # scanArgs cs
      else (case cs of
          [] \<Rightarrow> [Ch c]
        | d # ds \<Rightarrow>
            (if d = CHR ''L'' then
               (case ds of
                  [] \<Rightarrow> [Ch c, Ch d]
                | e # es \<Rightarrow>
                    (case digitValue e of
                       None \<Rightarrow> Ch c # Ch d # scanArgs ds
                     | Some n \<Rightarrow>
                         (case es of
                            [] \<Rightarrow> [Mark n [c, d, e]]
                          | f # fs \<Rightarrow>
                              (case digitValue f of
                                 None \<Rightarrow> Mark n [c, d, e] # scanArgs es
                               | Some m \<Rightarrow> Mark (10 * n + m) [c, d, e, f] # scanArgs fs))))
             else
               (case digitValue d of
                  None \<Rightarrow> Ch c # scanArgs cs
                | Some n \<Rightarrow>
                    (case ds of
                       [] \<Rightarrow> [Mark n [c, d]]
                     | f # fs \<Rightarrow>
                         (case digitValue f of
                            None \<Rightarrow> Mark n [c, d] # scanArgs ds
                          | Some m \<Rightarrow> Mark (10 * n + m) [c, d, f] # scanArgs fs))))))"

fun lowestMark :: "argTok list \<Rightarrow> nat option" where
  "lowestMark [] = None"
| "lowestMark (Ch c # ts) = lowestMark ts"
| "lowestMark (Mark n w # ts) =
     (case lowestMark ts of None \<Rightarrow> Some n | Some m \<Rightarrow> Some (min n m))"

fun fillMark :: "nat \<Rightarrow> string \<Rightarrow> argTok list \<Rightarrow> string" where
  "fillMark m a [] = []"
| "fillMark m a (Ch c # ts) = c # fillMark m a ts"
| "fillMark m a (Mark n w # ts) = (if n = m then a else w) @ fillMark m a ts"

definition qarg :: "string \<Rightarrow> string \<Rightarrow> string" where
  "qarg s a =
     (case lowestMark (scanArgs s) of
        None \<Rightarrow> s
      | Some m \<Rightarrow> fillMark m a (scanArgs s))"

text \<open>Lines as \<open>QTextStream::readLine\<close> gives them until \<open>atEnd()\<close>.\<close>

definition stripCR :: "string \<Rightarrow> string" where
  "stripCR l = (if l \<noteq> [] \<and> last l = CHR 0x0D then butlast l else l)"

definition textLines :: "string \<Rightarrow> string list" where
  "textLines s =
     (let ls = splitOn CHR 0x0A s in
      map stripCR (if last ls = [] then butlast ls else ls))"

text \<open>A file opened with \<open>QIODevice::Text\<close>: every carriage return is taken out while reading.\<close>

definition textRead :: "string \<Rightarrow> string" where
  "textRead t = filter (\<lambda>c. c \<noteq> CHR 0x0D) t"

text \<open>UTF-8 of a Latin-1 text (\<open>toUtf8\<close>), as a string of bytes.\<close>

definition utf8Char :: "char \<Rightarrow> string" where
  "utf8Char c = (if code c < 128 then [c]
                 else [char_of (192 + code c div 64), char_of (128 + code c mod 64)])"

definition utf8 :: "string \<Rightarrow> string" where
  "utf8 s = concat (map utf8Char s)"

text \<open>\<open>QProcess::ProcessError\<close>.\<close>

datatype procError = FailedToStart | Crashed | Timedout | WriteError | ReadError | UnknownError

section \<open>Lemmas\<close>

lemma utf8_Nil [simp]: "utf8 [] = []"
  and utf8_Cons [simp]: "utf8 (c # s) = utf8Char c @ utf8 s"
  by (simp_all add: utf8_def)

lemma code_less_256 [simp]: "code c < 256"
  by (simp add: code_def)

lemma char_of_code [simp]: "char_of (code c) = c"
  by (simp add: code_def)

lemma toLower_append [simp]: "toLower (a @ b) = toLower a @ toLower b"
  by (simp add: toLower_def)

text \<open>Case mapping on the bits of a character, for evaluation.\<close>

lemma lowerChar_Char [simp, code]:
  "lowerChar (Char b0 b1 b2 b3 b4 b5 b6 b7) =
     Char b0 b1 b2 b3 b4
       (b5 \<or> (b6 \<and> \<not> b7 \<and> (b0 \<or> b1 \<or> b2 \<or> b3 \<or> b4) \<and> \<not> (b4 \<and> b3 \<and> (b2 \<or> (b1 \<and> b0)))))
       b6 b7"
  unfolding lowerChar_def code_def
  by (cases b0; cases b1; cases b2; cases b3; cases b4; cases b5; cases b6; cases b7;
      simp add: char_of_def bit_0)

lemma upperChar_Char [simp, code]:
  "upperChar (Char b0 b1 b2 b3 b4 b5 b6 b7) =
     Char b0 b1 b2 b3 b4
       (b5 \<and> \<not> (b6 \<and> \<not> b7 \<and> (b0 \<or> b1 \<or> b2 \<or> b3 \<or> b4) \<and> \<not> (b4 \<and> b3 \<and> (b2 \<or> (b1 \<and> b0)))))
       b6 b7"
  unfolding upperChar_def code_def
  by (cases b0; cases b1; cases b2; cases b3; cases b4; cases b5; cases b6; cases b7;
      simp add: char_of_def bit_0)

lemma toLower_Nil [simp]: "toLower [] = []"
  and toLower_Cons [simp]: "toLower (c # s) = lowerChar c # toLower s"
  and toUpper_Nil [simp]: "toUpper [] = []"
  and toUpper_Cons [simp]: "toUpper (c # s) = upperChar c # toUpper s"
  by (simp_all add: toLower_def toUpper_def)

lemma length_toLower [simp]: "length (toLower s) = length s"
  by (simp add: toLower_def)

lemma prefix_code [simp]: "prefix (a # as) (b # bs) \<longleftrightarrow> a = b \<and> prefix as bs"
  by (rule Cons_prefix_Cons)

lemma qmid_at: "qmid (a @ b) (int (length a)) (int n) = take n b"
  by (simp add: qmid_def)

lemma qleft_append: "b \<noteq> [] \<Longrightarrow> qleft (a @ b) (int (length a)) = a"
  by (cases b) (simp_all add: qleft_def)

lemma qleft_neg [simp]: "qleft a (-1) = a"
  by (simp add: qleft_def)

lemma find_sub_None_iff: "find_sub p s = None \<longleftrightarrow> \<not> sublist p s"
  by (induction s) (auto simp: sublist_Cons_right)

lemma contains_sublist: "contains s p \<longleftrightarrow> sublist p s"
  using find_sub_None_iff [of p s] by (simp add: contains_def)

lemma contains_append: "contains (a @ p @ b) p"
  by (auto simp: contains_sublist sublist_def)

lemma contains_toLower: "contains l p \<Longrightarrow> containsCI l p"
  unfolding containsCI_def contains_sublist sublist_def by (metis toLower_append)

lemma find_sub_head:
  "p \<noteq> [] \<Longrightarrow> hd p \<notin> set w \<Longrightarrow> find_sub p (w @ p @ r) = Some (length w)"
proof (induction w)
  case Nil
  then show ?case by (cases p) auto
next
  case (Cons c w)
  then show ?case by (cases p) auto
qed

lemma find_sub_prefix_Some:
  "find_sub p s = Some i \<Longrightarrow> i \<le> length s \<and> prefix p (drop i s)"
  by (induction s arbitrary: i) (auto split: if_splits)

lemma find_sub_least: "find_sub p s = Some i \<Longrightarrow> j < i \<Longrightarrow> \<not> prefix p (drop j s)"
proof (induction s arbitrary: i j)
  case (Cons c s)
  then show ?case by (cases j) (auto split: if_splits)
qed (simp split: if_splits)

lemma find_sub_at:
  assumes "\<not> contains (pre @ butlast p) p" and "p \<noteq> []"
  shows "find_sub p (pre @ p @ rest) = Some (length pre)"
proof -
  let ?s = "pre @ p @ rest"
  obtain i where i: "find_sub p ?s = Some i"
    using contains_append [of pre p rest] by (auto simp: contains_def)
  have "i \<le> length pre"
    using find_sub_least [OF i, of "length pre"] by (cases "length pre < i") auto
  moreover have False if "i < length pre"
  proof -
    from find_sub_prefix_Some [OF i] obtain t where t: "drop i ?s = p @ t" by (auto simp: prefix_def)
    have "take (length p) (drop i ?s) = p" using t by simp
    moreover have "take (length p) (drop i ?s) = take (length p) (drop i (pre @ butlast p))"
    proof -
      have "length p \<le> length (drop i (pre @ butlast p))" using that assms(2) by (cases p) auto
      then have "take (length p) (drop i (pre @ butlast p) @ last p # rest) =
          take (length p) (drop i (pre @ butlast p))" by simp
      moreover have "drop i ?s = drop i (pre @ butlast p) @ last p # rest"
        using that arg_cong [OF append_butlast_last_id [OF assms(2)], of "\<lambda>x. x @ rest"] by simp
      ultimately show ?thesis by simp
    qed
    ultimately have "p = take (length p) (drop i (pre @ butlast p))" by simp
    then have "sublist p (pre @ butlast p)"
      by (metis sublist_order.order.trans sublist_take sublist_drop)
    with assms(1) show False by (simp add: contains_sublist)
  qed
  ultimately show ?thesis using i by (cases "i < length pre") auto
qed

lemma indexOf_at: "\<lbrakk>\<not> contains (pre @ butlast p) p; p \<noteq> []\<rbrakk> \<Longrightarrow> indexOf (pre @ p @ rest) p = int (length pre)"
  by (simp add: indexOf_def index_or_minus_one_def find_sub_at)

lemma indexOf_None: "\<not> contains s p \<Longrightarrow> indexOf s p = -1"
  by (simp add: indexOf_def index_or_minus_one_def contains_def)

lemma find_sub_Cons_fresh:
  "a \<notin> set w \<Longrightarrow> find_sub [a] (w @ a # r) = Some (length w)"
  by (induction w) auto

lemma find_sub_fresh_None: "a \<notin> set w \<Longrightarrow> find_sub [a] w = None"
  by (induction w) auto

lemma find_last_fresh [simp]: "a \<notin> set w \<Longrightarrow> find_last a w = None"
  by (induction w) auto

lemma find_last_append:
  "a \<notin> set w \<Longrightarrow> find_last a (v @ a # w) = Some (length v)"
  by (induction v) (auto split: option.splits)

lemma splitOn_neq_Nil [simp]: "splitOn a s \<noteq> []"
  by (cases s) (auto split: list.splits)

lemma splitOn_fresh [simp]: "a \<notin> set w \<Longrightarrow> splitOn a w = [w]"
  by (induction w) auto

lemma splitOn_Cons_sep [simp]: "a \<notin> set w \<Longrightarrow> splitOn a (w @ a # r) = w # splitOn a r"
  by (induction w) auto

lemma splitOn_pieces_fresh: "w \<in> set (splitOn a s) \<Longrightarrow> a \<notin> set w"
  by (induction s arbitrary: w) (auto split: list.splits if_splits)

lemma joinWith_Cons: "ws \<noteq> [] \<Longrightarrow> joinWith sep (w # ws) = w @ sep @ joinWith sep ws"
  by (cases ws) auto

lemma joinWith_Cons_head: "joinWith sep ((c # w) # ws) = c # joinWith sep (w # ws)"
  by (cases ws) auto

lemma joinWith_splitOn [simp]: "joinWith [a] (splitOn a s) = s"
proof (induction s)
  case Nil
  then show ?case by simp
next
  case (Cons c s)
  then show ?case
    by (cases "splitOn a s") (auto simp: joinWith_Cons joinWith_Cons_head)
qed

lemma splitOn_sublist: "w \<in> set (splitOn a s) \<Longrightarrow> sublist w s"
proof (induction s arbitrary: w)
  case (Cons c s)
  show ?case
  proof (cases "c = a")
    case True
    with Cons show ?thesis by (auto simp: sublist_Cons_right)
  next
    case False
    obtain v ws where v: "splitOn a s = v # ws" by (cases "splitOn a s") auto
    have "prefix v s" using v
      by (metis append_Nil2 joinWith.simps(2) joinWith_Cons joinWith_splitOn prefixI list.exhaust)
    with Cons v False show ?thesis by (auto simp: sublist_Cons_right)
  qed
qed simp

lemma splitOn_joinWith:
  assumes "ws \<noteq> []" and "\<forall>w \<in> set ws. a \<notin> set w"
  shows "splitOn a (joinWith [a] ws) = ws"
  using assms by (induction "[a]" ws rule: joinWith.induct) auto


subsection \<open>Decimal numbers\<close>

lemma code_digitChar: "d < 10 \<Longrightarrow> code (digitChar d) = 48 + d"
  by (simp add: digitChar_def code_def of_char_of)

lemma digitValue_digitChar [simp]: "d < 10 \<Longrightarrow> digitValue (digitChar d) = Some d"
  by (simp add: digitValue_def code_digitChar)

lemma natDigits_neq_Nil [simp]: "natDigits n \<noteq> []"
  by (subst natDigits.simps) simp

lemma natDigits_codes: "c \<in> set (natDigits n) \<Longrightarrow> 48 \<le> code c \<and> code c \<le> 57"
proof (induction n rule: natDigits.induct)
  case (1 n)
  then show ?case
    by (subst (asm) (2) natDigits.simps) (auto simp: code_digitChar split: if_splits)
qed

lemma parseDigits_append:
  "parseDigits acc (a @ b) =
     (case parseDigits acc a of None \<Rightarrow> None | Some n \<Rightarrow> parseDigits n b)"
  by (induction a arbitrary: acc) (auto split: option.splits)

lemma parseDigits_natDigits: "parseDigits 0 (natDigits n) = Some n"
proof (induction n rule: natDigits.induct)
  case (1 n)
  show ?case
  proof (cases "n < 10")
    case True
    then show ?thesis by (subst natDigits.simps) simp
  next
    case False
    with "1.IH" show ?thesis
      by (subst natDigits.simps) (simp add: parseDigits_append)
  qed
qed

lemma parseNat_natDigits [simp]: "parseNat (natDigits n) = Some n"
  by (simp add: parseNat_def parseDigits_natDigits)

lemma number_codes:
  "c \<in> set (number i) \<Longrightarrow> code c = 45 \<or> (48 \<le> code c \<and> code c \<le> 57)"
  using natDigits_codes by (auto simp: number_def code_def split: if_splits)

lemma number_neq_Nil [simp]: "number i \<noteq> []"
  by (simp add: number_def)

lemma number_fresh:
  "code c \<noteq> 45 \<Longrightarrow> code c < 48 \<or> 57 < code c \<Longrightarrow> c \<notin> set (number i)"
  using number_codes [of c i] by auto

lemma number_no_percent [simp]: "CHR ''%'' \<notin> set (number i)"
  by (rule number_fresh) (simp_all add: code_def)

lemma number_no_semicolon [simp]: "CHR '';'' \<notin> set (number i)"
  by (rule number_fresh) (simp_all add: code_def)

lemma number_no_space: "c \<in> set (number i) \<Longrightarrow> \<not> isSpace c"
  using number_codes [of c i] by (auto simp: isSpace_def)

lemma trimmed_no_space: "(\<And>c. c \<in> set s \<Longrightarrow> \<not> isSpace c) \<Longrightarrow> trimmed s = s"
proof -
  assume h: "\<And>c. c \<in> set s \<Longrightarrow> \<not> isSpace c"
  have d: "dropWhile isSpace t = t" if "\<And>c. c \<in> set t \<Longrightarrow> \<not> isSpace c" for t
    using that by (cases t) auto
  show ?thesis using d [of s] d [of "rev s"] h by (simp add: trimmed_def)
qed

lemma trimmed_number [simp]: "trimmed (number i) = number i"
  by (rule trimmed_no_space) (rule number_no_space)

lemma natDigits_sign: "natDigits n = c # cs \<Longrightarrow> c \<noteq> CHR ''-'' \<and> c \<noteq> CHR ''+''"
  using natDigits_codes [of c n] by (auto simp: code_def)

lemma toIntOk_number: "inInt32 i \<Longrightarrow> toIntOk (number i) = Some i"
proof (cases "i < 0")
  case True
  assume "inInt32 i"
  moreover have "trimmed (CHR ''-'' # natDigits (nat (- i))) = CHR ''-'' # natDigits (nat (- i))"
    using True trimmed_number [of i] by (simp add: number_def)
  ultimately show ?thesis using True by (simp add: toIntOk_def number_def)
next
  case False
  assume b: "inInt32 i"
  obtain c cs where ds: "natDigits (nat i) = c # cs"
    by (cases "natDigits (nat i)") auto
  have t: "trimmed (natDigits (nat i)) = natDigits (nat i)"
    using False trimmed_number [of i] by (simp add: number_def)
  have "parseNat (c # cs) = Some (nat i)" using parseNat_natDigits [of "nat i"] ds by simp
  with False b natDigits_sign [OF ds] show ?thesis
    by (simp add: toIntOk_def number_def t [unfolded ds] ds)
qed

lemma number_digits [qt_simps]:
  "number 0 = ''0''" "number 1 = ''1''" "number 2 = ''2''" "number 3 = ''3''" "number 4 = ''4''"
  "number 5 = ''5''" "number 6 = ''6''" "number 7 = ''7''" "number 8 = ''8''" "number 9 = ''9''"
  "number (-1) = ''-1''"
  by (simp_all add: number_def digitChar_def natDigits.simps [of 0] natDigits.simps [of 1]
    natDigits.simps [of "Suc 0"]
    natDigits.simps [of 2] natDigits.simps [of 3] natDigits.simps [of 4] natDigits.simps [of 5]
    natDigits.simps [of 6] natDigits.simps [of 7] natDigits.simps [of 8] natDigits.simps [of 9]
    char_of_def bit_0 bit_numeral_rec)

lemma toInt_number [simp]: "inInt32 i \<Longrightarrow> toInt (number i) = i"
  by (simp add: toInt_def toIntOk_number)

lemma toIntOk_range: "toIntOk s = Some i \<Longrightarrow> inInt32 i"
  by (auto simp: toIntOk_def Let_def split: option.splits list.splits prod.splits if_splits)

lemma toInt_range: "inInt32 (toInt s)"
  by (auto simp: toInt_def inInt32_def dest: toIntOk_range [unfolded inInt32_def] split: option.splits)

subsection \<open>Place markers\<close>

lemma scanArgs_fresh_append [simp]:
  "CHR ''%'' \<notin> set a \<Longrightarrow> scanArgs (a @ b) = map Ch a @ scanArgs b"
  by (induction a) auto

lemma scanArgs_fresh [simp]: "CHR ''%'' \<notin> set a \<Longrightarrow> scanArgs a = map Ch a"
  using scanArgs_fresh_append [of a "[]"] by simp

lemma lowestMark_map_Ch_append [simp]: "lowestMark (map Ch a @ ts) = lowestMark ts"
  by (induction a) auto

lemma lowestMark_map_Ch [simp]: "lowestMark (map Ch a) = None"
  by (induction a) auto

lemma fillMark_map_Ch_append [simp]: "fillMark m x (map Ch a @ ts) = a @ fillMark m x ts"
  by (induction a) auto

lemma fillMark_map_Ch [simp]: "fillMark m x (map Ch a) = a"
  by (induction a) auto

lemma digitValue_lits [simp]:
  "digitValue CHR ''0'' = Some 0" "digitValue CHR ''1'' = Some 1" "digitValue CHR ''2'' = Some 2"
  "digitValue CHR ''3'' = Some 3" "digitValue CHR ''4'' = Some 4" "digitValue CHR ''5'' = Some 5"
  "digitValue CHR ''6'' = Some 6" "digitValue CHR '';'' = None" "digitValue CHR '' '' = None"
  "digitValue CHR ''/'' = None" "digitValue CHR 0x0A = None" "digitValue CHR ''.'' = None"
  by (simp_all add: digitValue_def code_def)

lemma qarg_fresh_prefix: "CHR ''%'' \<notin> set a \<Longrightarrow> qarg (a @ b) x = a @ qarg b x"
  by (simp add: qarg_def split: option.splits)

text \<open>The message templates of the sources, with the arguments filled in one after another.\<close>

lemma qarg_1 [qt_simps]: "qarg ''%1'' a = a"
  by (simp add: qarg_def)

lemma qarg_tail1 [qt_simps]: "qarg ''%1;0'' a = a @ '';0''" "qarg ''%1;1'' a = a @ '';1''"
  "qarg ''%1;2'' a = a @ '';2''" "qarg ''%1;3'' a = a @ '';3''" "qarg ''%1;5'' a = a @ '';5''"
  "qarg ''%1;6'' a = a @ '';6''"
  by (simp_all add: qarg_def)

lemma qarg_12 [qt_simps]:
  "CHR ''%'' \<notin> set a \<Longrightarrow> qarg (qarg ''%1;%2'' a) b = a @ '';'' @ b"
  by (simp add: qarg_def)

lemma qarg_12345 [qt_simps]:
  assumes "CHR ''%'' \<notin> set a" "CHR ''%'' \<notin> set b" "CHR ''%'' \<notin> set c" "CHR ''%'' \<notin> set d"
  shows "qarg (qarg (qarg (qarg (qarg ''%1;%2;%3;%4;%5'' a) b) c) d) e =
    a @ '';'' @ b @ '';'' @ c @ '';'' @ d @ '';'' @ e"
  using assms by (simp add: qarg_def)

end
