(* ===== verification/Wire.thy ===== *)
theory Wire
  imports Prelude "HOL-Library.Word"
begin

text \<open>
  The message format on the local socket between client and service: a 64-bit block size,
  then command and parameters as \<open>QDataStream\<close> (version Qt 4.6) writes a \<open>QString\<close>: the
  number of bytes in 32 bits, then the UTF-16 units, everything big-endian. \<open>sendRequest\<close>
  models both sides' sender, \<open>getBlock\<close> and \<open>drain\<close> the common part of the receivers
  (\<open>slotStartRead\<close> of service and client). The locale \<open>frame_receiver\<close> states what a
  receiver of framed messages promises; its lemmas say that the messages arrive in order
  whatever the chunks the socket delivers.
\<close>

type_synonym byte = "8 word"
type_synonym unit16 = "16 word"

section \<open>Writing\<close>

fun be :: "nat \<Rightarrow> nat \<Rightarrow> byte list" where
  "be 0 n = []"
| "be (Suc k) n = be k (n div 256) @ [word_of_nat (n mod 256)]"

definition putString :: "unit16 list \<Rightarrow> byte list" where
  "putString u = be 4 (2 * length u) @ concat (map (\<lambda>w. be 2 (unat w)) u)"

text \<open>
  The size is first written as 0, then the stream seeks to the start and overwrites it.
\<close>

definition sendRequest :: "unit16 list \<Rightarrow> unit16 list \<Rightarrow> byte list" where
  "sendRequest command params =
     (let block = be 8 0 @ putString command @ putString params
      in be 8 (length block - 8) @ drop 8 block)"

section \<open>Reading\<close>

fun unbe :: "byte list \<Rightarrow> nat" where
  "unbe bs = foldl (\<lambda>a b. 256 * a + unat b) 0 bs"

declare unbe.simps [simp del]

definition readI64 :: "byte list \<Rightarrow> int \<times> byte list" where
  "readI64 bs = (if length bs < 8 then (0, [])
                 else (sint (word_of_nat (unbe (take 8 bs)) :: 64 word), drop 8 bs))"

definition readU32 :: "byte list \<Rightarrow> nat \<times> byte list" where
  "readU32 bs = (if length bs < 4 then (0, []) else (unbe (take 4 bs), drop 4 bs))"

fun unitsOf :: "byte list \<Rightarrow> unit16 list" where
  "unitsOf (a # b # bs) = word_of_nat (256 * unat a + unat b) # unitsOf bs"
| "unitsOf bs = []"

text \<open>
  A null string has length 0xFFFFFFFF; an odd length is corrupt data; a length past the
  end reads what is there and fails. The string is empty in all three cases.
\<close>

definition readString :: "byte list \<Rightarrow> unit16 list \<times> byte list" where
  "readString bs =
     (let (n, rest) = readU32 bs in
      if n = 0xFFFFFFFF \<or> n = 0 \<or> odd n then ([], rest)
      else if length rest < n then ([], [])
      else (unitsOf (take n rest), drop n rest))"

record rx =
  blockSize :: int
  inbuf :: "byte list"

type_synonym msg = "unit16 list \<times> unit16 list"

definition idle :: rx where
  "idle = \<lparr>blockSize = 0, inbuf = []\<rparr>"

text \<open>
  One pass of the receiver up to the point where the command is known: no result while
  the size or the block is incomplete. \<open>bytesAvailable()\<close> is cast to 32 bits for the first
  test only.
\<close>

definition takeBlock :: "rx \<Rightarrow> rx \<times> msg option" where
  "takeBlock r =
     (if int (length (inbuf r)) < blockSize r then (r, None)
      else (let (command, rest) = readString (inbuf r);
                (params, rest') = readString rest
            in (\<lparr>blockSize = 0, inbuf = rest'\<rparr>, Some (command, params))))"

definition getBlock :: "rx \<Rightarrow> rx \<times> msg option" where
  "getBlock r =
     (if blockSize r = 0 then
        (if length (inbuf r) mod 2 ^ 32 < 8 then (r, None)
         else (let (n, rest) = readI64 (inbuf r)
               in takeBlock \<lparr>blockSize = n, inbuf = rest\<rparr>))
      else takeBlock r)"

lemma readU32_shrinks: "readU32 bs = (n, rest) \<Longrightarrow> rest = [] \<or> length rest < length bs"
  by (auto simp: readU32_def split: if_splits)

lemma readString_shrinks: "readString bs = (u, rest) \<Longrightarrow> rest = [] \<or> length rest < length bs"
  by (auto simp: readString_def split: prod.splits if_splits dest!: readU32_shrinks)

lemma takeBlock_shrinks:
  assumes "takeBlock r = (r', Some m)" and "inbuf r' \<noteq> []"
  shows "length (inbuf r') < length (inbuf r)"
proof -
  obtain c rest where c: "readString (inbuf r) = (c, rest)" by fastforce
  obtain p rest' where p: "readString rest = (p, rest')" by fastforce
  from assms c p have "inbuf r' = rest'" "rest' \<noteq> []"
    by (auto simp: takeBlock_def split: if_splits)
  with readString_shrinks [OF c] readString_shrinks [OF p] show ?thesis by auto
qed

lemma getBlock_shrinks:
  assumes "getBlock r = (r', Some m)" and "inbuf r' \<noteq> []"
  shows "length (inbuf r') < length (inbuf r)"
proof (cases "blockSize r = 0")
  case False
  with assms show ?thesis by (auto simp: getBlock_def dest: takeBlock_shrinks)
next
  case True
  obtain n rest where h: "readI64 (inbuf r) = (n, rest)" by fastforce
  with True assms(1) have "takeBlock \<lparr>blockSize = n, inbuf = rest\<rparr> = (r', Some m)"
    by (auto simp: getBlock_def split: if_splits)
  from takeBlock_shrinks [OF this assms(2)] h show ?thesis
    by (auto simp: readI64_def split: if_splits)
qed

text \<open>
  \<open>slotStartRead\<close> handles one block and calls itself again when bytes are left; a handler
  that returns early (second component \<open>False\<close>) leaves them in the socket.
\<close>

function drain :: "('s \<Rightarrow> msg \<Rightarrow> 's \<times> bool) \<Rightarrow> 's \<Rightarrow> rx \<Rightarrow> 's \<times> rx" where
  "drain h s r =
     (case getBlock r of
        (r', None) \<Rightarrow> (s, r')
      | (r', Some m) \<Rightarrow>
          (case h s m of
             (s', go) \<Rightarrow> if go \<and> inbuf r' \<noteq> [] then drain h s' r' else (s', r')))"
  by pat_completeness auto
termination
  by (relation "measure (\<lambda>(h, s, r). length (inbuf r))") (auto dest!: sym [of _ "getBlock _"] dest: getBlock_shrinks)

declare drain.simps [simp del]

text \<open>What every handled message keeps, reading keeps.\<close>

lemma drain_invariant:
  assumes "\<And>s m. P s \<Longrightarrow> P (fst (h s m))" and "P s"
  shows "P (fst (drain h s r))"
  using assms
proof (induction h s r rule: drain.induct)
  case (1 h s r)
  obtain r' x where g: "getBlock r = (r', x)" by fastforce
  show ?case
  proof (cases x)
    case None
    with g 1 show ?thesis by (simp add: drain.simps [of h s r])
  next
    case (Some m)
    obtain s' go where h: "h s m = (s', go)" by fastforce
    have "P s'" using 1(2) [OF 1(3), of m] h by simp
    with g h Some 1 show ?thesis by (simp add: drain.simps [of h s r])
  qed
qed

definition push :: "rx \<Rightarrow> byte list \<Rightarrow> rx" where
  "push r bs = r\<lparr>inbuf := inbuf r @ bs\<rparr>"

text \<open>\<open>readyRead\<close>: a chunk has arrived.\<close>

definition onReadyRead :: "('s \<Rightarrow> msg \<Rightarrow> 's \<times> bool) \<Rightarrow> 's \<times> rx \<Rightarrow> byte list \<Rightarrow> 's \<times> rx" where
  "onReadyRead h st chunk = drain h (fst st) (push (snd st) chunk)"

section \<open>The contract of a receiver\<close>

locale frame_receiver =
  fixes frame :: "'m \<Rightarrow> 'b list"
    and valid :: "'m \<Rightarrow> bool"
    and limit :: nat
    and content :: "'r \<Rightarrow> 'b list"
    and good :: "'r \<Rightarrow> bool"
    and add :: "'r \<Rightarrow> 'b list \<Rightarrow> 'r"
    and run :: "('s \<Rightarrow> 'm \<Rightarrow> 's \<times> bool) \<Rightarrow> 's \<Rightarrow> 'r \<Rightarrow> 's \<times> 'r"
  assumes frame_not_Nil: "frame m \<noteq> []"
    and add_content: "good r \<Longrightarrow> good (add r bs) \<and> content (add r bs) = content r @ bs"
    and run_short: "\<lbrakk>good r; valid m; content r @ x = frame m; x \<noteq> []; length (frame m) < limit\<rbrakk>
      \<Longrightarrow> \<exists>r'. run h s r = (s, r') \<and> good r' \<and> content r' = content r"
    and run_full: "\<lbrakk>good r; valid m; content r = frame m @ rest; length (content r) < limit;
        h s m = (s', True)\<rbrakk>
      \<Longrightarrow> \<exists>r'. good r' \<and> content r' = rest \<and>
            run h s r = (if rest = [] then (s', r') else run h s' r')"
    and run_empty: "\<lbrakk>good r; content r = []\<rbrakk>
      \<Longrightarrow> \<exists>r'. run h s r = (s, r') \<and> good r' \<and> content r' = []"
begin

abbreviation stream :: "'m list \<Rightarrow> 'b list" where
  "stream ms \<equiv> concat (map frame ms)"

text \<open>One call: a whole number of messages is handled, the rest stays buffered.\<close>

lemma run_stream:
  assumes "good r" and "content r @ rest = stream ms" and "length (stream ms) < limit"
    and "\<forall>m \<in> set ms. valid m" and "\<forall>s. \<forall>m \<in> set ms. h s m = (g s m, True)"
  shows "\<exists>k r'. run h s r = (foldl g s (take k ms), r') \<and> k \<le> length ms \<and> good r' \<and>
    content r' @ rest = stream (drop k ms) \<and> (rest = [] \<longrightarrow> k = length ms)"
  using assms
proof (induction ms arbitrary: s r)
  case Nil
  then show ?case using run_empty [of r h s] by auto
next
  case (Cons m ms)
  show ?case
  proof (cases "length (content r) < length (frame m)")
    case True
    define x where "x = drop (length (content r)) (frame m)"
    have split: "content r @ rest = frame m @ stream ms" using Cons.prems(2) by simp
    have cx: "content r @ x = frame m" and x: "x \<noteq> []"
      using True arg_cong [OF split, of "take (length (content r))"]
        append_take_drop_id [of "length (content r)" "frame m"]
      by (simp_all add: x_def)
    have "rest \<noteq> []" using split True by auto
    moreover obtain r' where "run h s r = (s, r')" "good r'" "content r' = content r"
      using run_short [OF Cons.prems(1) _ cx x, of h s] Cons.prems(3,4) by auto
    ultimately show ?thesis using Cons.prems(2) by (intro exI [of _ 0] exI [of _ r']) auto
  next
    case False
    define b where "b = drop (length (frame m)) (content r)"
    have split: "content r @ rest = frame m @ stream ms" using Cons.prems(2) by simp
    have cr: "content r = frame m @ b" and bs: "b @ rest = stream ms"
      using False arg_cong [OF split, of "take (length (frame m))"]
        arg_cong [OF split, of "drop (length (frame m))"]
        append_take_drop_id [of "length (frame m)" "content r"]
      by (simp_all add: b_def)
    have "length (content r) < limit"
      using arg_cong [OF split, of length] Cons.prems(3) by simp
    then obtain r' where r': "good r'" "content r' = b"
      "run h s r = (if b = [] then (g s m, r') else run h (g s m) r')"
      using run_full [OF Cons.prems(1) _ cr, of h s "g s m"] Cons.prems(4,5) by auto
    show ?thesis
    proof (cases "b = []")
      case True
      have "rest = [] \<longrightarrow> ms = []" using bs True frame_not_Nil by (cases ms) auto
      with True r' bs show ?thesis by (intro exI [of _ 1] exI [of _ r']) auto
    next
      case False
      obtain k r'' where k: "run h (g s m) r' = (foldl g (g s m) (take k ms), r'')"
        "k \<le> length ms" "good r''" "content r'' @ rest = stream (drop k ms)"
        "rest = [] \<longrightarrow> k = length ms"
        using Cons.IH [OF r'(1)] bs r'(2) Cons.prems(3,4,5) by force
      with False r' show ?thesis
        by (intro exI [of _ "Suc k"] exI [of _ r'']) simp
    qed
  qed
qed

text \<open>Any number of calls: all messages have been handled, in order, once each.\<close>

lemma run_chunks:
  assumes "good r" and "content r @ concat chunks = stream ms" and "length (stream ms) < limit"
    and "\<forall>m \<in> set ms. valid m" and "\<forall>s. \<forall>m \<in> set ms. h s m = (g s m, True)"
    and "chunks \<noteq> []"
  shows "\<exists>r'. foldl (\<lambda>st c. run h (fst st) (add (snd st) c)) (s, r) chunks =
      (foldl g s ms, r') \<and> good r' \<and> content r' = []"
  using assms
proof (induction chunks arbitrary: s r ms)
  case Nil
  then show ?case by simp
next
  case (Cons c chunks)
  have ac: "good (add r c)" "content (add r c) = content r @ c"
    using add_content [OF Cons.prems(1)] by auto
  have eq: "content (add r c) @ concat chunks = stream ms" using ac(2) Cons.prems(2) by simp
  obtain k r' where k: "run h s (add r c) = (foldl g s (take k ms), r')" "k \<le> length ms" "good r'"
    "content r' @ concat chunks = stream (drop k ms)" "concat chunks = [] \<longrightarrow> k = length ms"
    using run_stream [OF ac(1) eq Cons.prems(3,4,5)] by blast
  show ?case
  proof (cases "chunks = []")
    case True
    with k show ?thesis by auto
  next
    case False
    have "length (stream (drop k ms)) \<le> length (stream ms)"
      by (metis append_take_drop_id concat_append length_append le_add2 map_append)
    then have "length (stream (drop k ms)) < limit" using Cons.prems(3) by linarith
    moreover have "\<forall>m \<in> set (drop k ms). valid m"
      "\<forall>s. \<forall>m \<in> set (drop k ms). h s m = (g s m, True)"
      using Cons.prems(4,5) by (auto dest: in_set_dropD)
    ultimately have "\<exists>r''. foldl (\<lambda>st c. run h (fst st) (add (snd st) c))
        (foldl g s (take k ms), r') chunks = (foldl g (foldl g s (take k ms)) (drop k ms), r'') \<and>
        good r'' \<and> content r'' = []"
      using Cons.IH [OF k(3,4) _ _ _ False] by blast
    moreover have "foldl g (foldl g s (take k ms)) (drop k ms) = foldl g s ms"
      by (metis append_take_drop_id foldl_append)
    ultimately show ?thesis using k(1) by simp
  qed
qed

end

section \<open>The model's receiver meets the contract\<close>

lemma length_be [simp]: "length (be k n) = k"
  by (induction k arbitrary: n) auto

lemma unbe_append_last: "unbe (bs @ [b]) = 256 * unbe bs + unat b"
  by (simp add: unbe.simps)

lemma unbe_be: "unbe (be k n) = n mod 256 ^ k"
proof (induction k arbitrary: n)
  case 0
  then show ?case by (simp add: unbe.simps)
next
  case (Suc k)
  have "256 * (n div 256 mod 256 ^ k) + n mod 256 = n mod (256 * 256 ^ k)"
    by (simp add: mod_mult2_eq)
  with Suc show ?case
    by (simp add: unbe_append_last unat_of_nat take_bit_eq_mod)
qed

lemma unitsOf_concat [simp]: "unitsOf (concat (map (\<lambda>w. be 2 (unat w)) u)) = u"
proof (induction u)
  case Nil
  then show ?case by simp
next
  case (Cons w u)
  have b: "unat w < 65536" using unsigned_less [of w, where ?'a = nat] by simp
  have "be 2 (unat w) = [word_of_nat (unat w div 256 mod 256), word_of_nat (unat w mod 256)]"
    by (simp add: numeral_2_eq_2)
  moreover have "256 * (unat w div 256 mod 256) + unat w mod 256 = unat w"
    using b by (simp add: mod_less)
  ultimately show ?case using Cons by (simp add: unat_of_nat take_bit_eq_mod)
qed

lemma length_concat_units: "length (concat (map (\<lambda>w. be 2 (unat w)) u)) = 2 * length u"
  by (induction u) auto

lemma readString_putString:
  assumes "2 * length u < 2 ^ 32 - 1"
  shows "readString (putString u @ rest) = (u, rest)"
proof -
  have "unbe (be 4 (2 * length u)) = 2 * length u" using assms by (simp add: unbe_be)
  then have "readU32 (putString u @ rest) = (2 * length u, concat (map (\<lambda>w. be 2 (unat w)) u) @ rest)"
    by (simp add: readU32_def putString_def)
  then show ?thesis using assms
    by (auto simp: readString_def length_concat_units)
qed

definition validMsg :: "msg \<Rightarrow> bool" where
  "validMsg m \<longleftrightarrow> 2 * length (fst m) < 2 ^ 32 - 1 \<and> 2 * length (snd m) < 2 ^ 32 - 1"

definition bodyOf :: "msg \<Rightarrow> byte list" where
  "bodyOf m = putString (fst m) @ putString (snd m)"

definition frameOf :: "msg \<Rightarrow> byte list" where
  "frameOf m = sendRequest (fst m) (snd m)"

definition bufContent :: "rx \<Rightarrow> byte list" where
  "bufContent r = (if blockSize r = 0 then inbuf r else be 8 (nat (blockSize r)) @ inbuf r)"

definition goodRx :: "rx \<Rightarrow> bool" where
  "goodRx r \<longleftrightarrow> 0 \<le> blockSize r \<and> blockSize r < 2 ^ 63"

lemma frameOf_eq: "frameOf m = be 8 (length (bodyOf m)) @ bodyOf m"
  by (simp add: frameOf_def sendRequest_def bodyOf_def)

lemma length_putString [simp]: "length (putString u) = 4 + 2 * length u"
  by (simp add: putString_def length_concat_units)

lemma bodyOf_pos: "8 \<le> length (bodyOf m)"
  by (simp add: bodyOf_def)

lemma readI64_be:
  assumes "n < 2 ^ 63"
  shows "readI64 (be 8 n @ rest) = (int n, rest)"
proof -
  have "unbe (be 8 n) = n" using assms by (simp add: unbe_be)
  moreover have "sint (word_of_nat n :: 64 word) = int n"
    using assms by (simp add: sint_uint uint_nat unat_of_nat take_bit_eq_mod signed_take_bit_eq_take_bit_shift)
  ultimately show ?thesis by (simp add: readI64_def)
qed

lemma takeBlock_body:
  "validMsg m \<Longrightarrow> takeBlock \<lparr>blockSize = int (length (bodyOf m)), inbuf = bodyOf m @ rest\<rparr> =
     (\<lparr>blockSize = 0, inbuf = rest\<rparr>, Some m)"
  by (cases m) (auto simp: takeBlock_def bodyOf_def validMsg_def readString_putString)


lemma be_inj:
  assumes "be 8 a = be 8 b" and "a < 2 ^ 63" and "b < 2 ^ 63"
  shows "a = b"
  using arg_cong [OF assms(1), of unbe] assms(2,3) by (simp add: unbe_be)

text \<open>The pending block of a receiver, once its size is known.\<close>

definition sized :: "rx \<Rightarrow> msg \<Rightarrow> byte list \<Rightarrow> bool" where
  "sized r m b \<longleftrightarrow>
     (blockSize r = 0 \<and> inbuf r = be 8 (length (bodyOf m)) @ b) \<or>
     (blockSize r = int (length (bodyOf m)) \<and> inbuf r = b)"

lemma getBlock_sized:
  assumes "sized r m b" and "length (inbuf r) < 2 ^ 32" and "length (bodyOf m) < 2 ^ 63"
  shows "getBlock r = takeBlock \<lparr>blockSize = int (length (bodyOf m)), inbuf = b\<rparr>"
proof (cases "blockSize r = 0")
  case True
  with assms(1) bodyOf_pos [of m] have "inbuf r = be 8 (length (bodyOf m)) @ b"
    by (auto simp: sized_def)
  with True assms(2,3) show ?thesis by (simp add: getBlock_def readI64_be)
next
  case False
  with assms(1) have "r = \<lparr>blockSize = int (length (bodyOf m)), inbuf = b\<rparr>"
    by (cases r) (auto simp: sized_def)
  with False show ?thesis by (simp add: getBlock_def)
qed

lemma sized_content:
  assumes "goodRx r" and "bufContent r = be 8 (length (bodyOf m)) @ b"
    and "length (bodyOf m) < 2 ^ 63"
  shows "sized r m b"
proof (cases "blockSize r = 0")
  case True
  with assms(2) show ?thesis by (simp add: sized_def bufContent_def)
next
  case False
  with assms(2) have "be 8 (nat (blockSize r)) = be 8 (length (bodyOf m))" "inbuf r = b"
    by (auto simp: bufContent_def)
  with be_inj [of "nat (blockSize r)" "length (bodyOf m)"] assms(1,3) show ?thesis
    by (auto simp: sized_def goodRx_def)
qed

lemma length_inbuf_content: "length (inbuf r) \<le> length (bufContent r)"
  by (simp add: bufContent_def)

lemma drain_stuck: "getBlock r = (r', None) \<Longrightarrow> drain h s r = (s, r')"
  by (simp add: drain.simps [of h s r])

lemma drain_short:
  assumes "goodRx r" and "bufContent r @ x = frameOf m" and "x \<noteq> []"
    and "length (frameOf m) < 2 ^ 32"
  shows "\<exists>r'. drain h s r = (s, r') \<and> goodRx r' \<and> bufContent r' = bufContent r"
proof (cases "length (bufContent r) < 8")
  case True
  then have "blockSize r = 0" by (auto simp: bufContent_def split: if_splits)
  with True have "getBlock r = (r, None)" by (simp add: getBlock_def bufContent_def)
  with assms(1) show ?thesis by (auto simp: drain_stuck)
next
  case False
  define b where "b = drop 8 (bufContent r)"
  have eq: "bufContent r @ x = be 8 (length (bodyOf m)) @ bodyOf m"
    using assms(2) by (simp add: frameOf_eq)
  have n: "length (bodyOf m) < 2 ^ 63" using assms(4) by (simp add: frameOf_eq)
  have c: "bufContent r = be 8 (length (bodyOf m)) @ b" and bx: "b @ x = bodyOf m"
    using False arg_cong [OF eq, of "take 8"] arg_cong [OF eq, of "drop 8"]
      append_take_drop_id [of 8 "bufContent r"] by (simp_all add: b_def)
  have "length (inbuf r) < 2 ^ 32"
    using length_inbuf_content [of r] arg_cong [OF assms(2), of length] assms(4) by simp
  then have "getBlock r = takeBlock \<lparr>blockSize = int (length (bodyOf m)), inbuf = b\<rparr>"
    using getBlock_sized [OF sized_content [OF assms(1) c n]] n by simp
  moreover have "length b < length (bodyOf m)" using arg_cong [OF bx, of length] assms(3) by (cases x) simp_all
  ultimately have "getBlock r = (\<lparr>blockSize = int (length (bodyOf m)), inbuf = b\<rparr>, None)"
    by (simp add: takeBlock_def)
  then show ?thesis using c n bodyOf_pos [of m]
    by (auto simp: drain_stuck goodRx_def bufContent_def)
qed

lemma getBlock_full:
  assumes "goodRx r" and "validMsg m" and "bufContent r = frameOf m @ rest"
    and "length (bufContent r) < 2 ^ 32"
  shows "getBlock r = (\<lparr>blockSize = 0, inbuf = rest\<rparr>, Some m)"
proof -
  have n: "length (bodyOf m) < 2 ^ 63" using assms(3,4) by (simp add: frameOf_eq)
  have "sized r m (bodyOf m @ rest)"
    using assms(3) by (intro sized_content assms(1) n) (simp add: frameOf_eq)
  moreover have "length (inbuf r) < 2 ^ 32"
    using length_inbuf_content [of r] assms(4) by simp
  ultimately show ?thesis using n assms(2) by (simp add: getBlock_sized takeBlock_body)
qed

lemma be8_neq_Nil [simp]: "be 8 n \<noteq> []"
  using length_be [of 8 n] by fastforce

lemma frameOf_neq_Nil: "frameOf m \<noteq> []"
  by (simp add: frameOf_eq)

lemma bufContent_Nil: "bufContent r = [] \<longleftrightarrow> r = idle"
  by (cases r) (simp add: bufContent_def idle_def)

lemma getBlock_idle: "getBlock idle = (idle, None)"
  by (simp add: getBlock_def idle_def)

interpretation wire: frame_receiver frameOf validMsg "2 ^ 32" bufContent goodRx push drain
proof
  show "frameOf m \<noteq> []" for m by (rule frameOf_neq_Nil)
  show "goodRx (push r bs) \<and> bufContent (push r bs) = bufContent r @ bs" if "goodRx r" for r bs
    using that by (simp add: goodRx_def push_def bufContent_def)
  show "\<exists>r'. drain h s r = (s, r') \<and> goodRx r' \<and> bufContent r' = bufContent r"
    if "goodRx r" "bufContent r @ x = frameOf m" "x \<noteq> []" "length (frameOf m) < 2 ^ 32"
    for r m x h and s :: 'a
    using that by (rule drain_short)
  show "\<exists>r'. goodRx r' \<and> bufContent r' = rest \<and>
      drain h s r = (if rest = [] then (s', r') else drain h s' r')"
    if "goodRx r" "validMsg m" "bufContent r = frameOf m @ rest" "length (bufContent r) < 2 ^ 32"
      "h s m = (s', True)" for r m rest h and s s' :: 'a
    using getBlock_full [OF that(1-4)] that(5)
    by (intro exI [of _ "\<lparr>blockSize = 0, inbuf = rest\<rparr>"])
      (simp add: drain.simps [of h s r] goodRx_def bufContent_def)
  show "\<exists>r'. drain h s r = (s, r') \<and> goodRx r' \<and> bufContent r' = []"
    if "goodRx r" "bufContent r = []" for r h and s :: 'a
    using that drain_stuck [OF getBlock_idle, of h s] by (simp add: bufContent_Nil)
qed

section \<open>Texts and units\<close>

text \<open>A text of the model's character set as units, and back where all units fit.\<close>

definition units :: "string \<Rightarrow> unit16 list" where
  "units s = map (\<lambda>c. word_of_nat (code c)) s"

definition unitsText :: "unit16 list \<Rightarrow> string option" where
  "unitsText u = (if \<forall>w \<in> set u. unat w < 256 then Some (map (\<lambda>w. char_of (unat w)) u) else None)"

lemma unat_units [simp]: "unat (word_of_nat (code c) :: unit16) = code c"
proof -
  have "code c < 65536" by (rule less_trans [OF code_less_256]) simp
  then show ?thesis by (simp add: unat_of_nat take_bit_eq_mod)
qed

lemma unitsText_units [simp]: "unitsText (units s) = Some s"
proof -
  have "map (\<lambda>w. char_of (unat w)) (units s) = s"
    by (induction s) (simp_all add: units_def)
  moreover have "\<forall>w \<in> set (units s). unat w < 256"
    by (auto simp: units_def)
  ultimately show ?thesis by (simp add: unitsText_def)
qed

lemma length_units [simp]: "length (units s) = length s"
  by (simp add: units_def)

definition textMsg :: "string \<Rightarrow> string \<Rightarrow> msg" where
  "textMsg command params = (units command, units params)"

text \<open>
  C2. A sequence of messages written by \<open>sendRequest\<close> and delivered by the socket in any
  chunks reaches the handler of \<open>slotStartRead\<close> completely, once each and in order, and
  leaves the receiver idle, as long as no handler returns early (stream below 4 GiB, the
  range of the receiver's 32-bit cast).
\<close>

theorem messages_survive_chunking:
  assumes "concat chunks = concat (map (\<lambda>m. sendRequest (fst m) (snd m)) ms)"
    and "chunks \<noteq> []" and "length (concat chunks) < 2 ^ 32"
    and "\<forall>m \<in> set ms. validMsg m"
    and "\<forall>s. \<forall>m \<in> set ms. h s m = (g s m, True)"
  shows "foldl (onReadyRead h) (s, idle) chunks = (foldl g s ms, idle)"
proof -
  have "concat (map frameOf ms) = concat chunks" by (simp add: frameOf_def [abs_def] assms(1))
  then have "\<exists>r'. foldl (\<lambda>st c. drain h (fst st) (push (snd st) c)) (s, idle) chunks =
      (foldl g s ms, r') \<and> goodRx r' \<and> bufContent r' = []"
    using assms by (intro wire.run_chunks) (simp_all add: goodRx_def idle_def bufContent_def)
  then show ?thesis by (auto simp: bufContent_Nil onReadyRead_def [abs_def])
qed

text \<open>Two messages, cut inside the second size field.\<close>

definition collect :: "msg list \<Rightarrow> msg \<Rightarrow> msg list \<times> bool" where
  "collect ms m = (ms @ [m], True)"

lemma messages_survive_chunking_witness:
  "let f1 = sendRequest (units ''STATUS'') (units ''3''); f2 = sendRequest (units ''DUMMY'') []
   in foldl (onReadyRead collect) ([], idle) [f1 @ take 3 f2, drop 3 f2] =
        ([(units ''STATUS'', units ''3''), (units ''DUMMY'', [])], idle)"
proof -
  define f1 where "f1 = sendRequest (units ''STATUS'') (units ''3'')"
  define f2 where "f2 = sendRequest (units ''DUMMY'') []"
  let ?ms = "[(units ''STATUS'', units ''3''), (units ''DUMMY'', [])]"
  have "foldl (onReadyRead collect) ([], idle) [f1 @ take 3 f2, drop 3 f2] =
      (foldl (\<lambda>s m. s @ [m]) [] ?ms, idle)"
    by (rule messages_survive_chunking [where ms = ?ms])
      (simp_all add: f1_def f2_def validMsg_def collect_def sendRequest_def)
  then show ?thesis by (simp add: f1_def f2_def Let_def)
qed

end
