(* ===== verification/Stores.thy ===== *)
theory Stores
  imports Prelude
begin

text \<open>
  The keyed stores of the program and their common contract. \<open>keyed_list\<close> is what a list
  that is searched from the front, appended to and cut by key promises as long as a key is
  added once only (\<open>vpnList\<close>, \<open>SslConnections\<close>, \<open>ServiceLogData\<close>); \<open>keyed_store\<close> adds
  that writing an existing key overwrites it (files, registry). The file system as far as the
  service uses it (\<open>QFile\<close>, \<open>QDir\<close>) is here too; paths use \<open>/\<close>.
\<close>

section \<open>Contracts\<close>

locale keyed_list =
  fixes look :: "'s \<Rightarrow> 'k \<Rightarrow> 'v option"
    and put :: "'k \<Rightarrow> 'v \<Rightarrow> 's \<Rightarrow> 's"
    and del :: "'k \<Rightarrow> 's \<Rightarrow> 's"
    and ok :: "'s \<Rightarrow> bool"
  assumes look_put_fresh: "\<lbrakk>ok s; look s k = None\<rbrakk>
      \<Longrightarrow> look (put k v s) k' = (if k' = k then Some v else look s k')"
    and look_del: "ok s \<Longrightarrow> look (del k s) k' = (if k' = k then None else look s k')"
    and ok_put: "\<lbrakk>ok s; look s k = None\<rbrakk> \<Longrightarrow> ok (put k v s)"
    and ok_del: "ok s \<Longrightarrow> ok (del k s)"
begin

text \<open>Removing and adding a key: how a client replaces an element.\<close>

lemma look_replace:
  "ok s \<Longrightarrow> look (put k v (del k s)) k' = (if k' = k then Some v else look s k')"
  by (simp add: look_put_fresh look_del ok_del)

lemma ok_replace: "ok s \<Longrightarrow> ok (put k v (del k s))"
  by (simp add: ok_put look_del ok_del)

lemma del_put: "\<lbrakk>ok s; look s k = None\<rbrakk> \<Longrightarrow> look (del k (put k v s)) k' = look s k'"
  by (simp add: look_put_fresh look_del ok_put)

lemma look_del_all:
  "ok s \<Longrightarrow> look (fold del ks s) k' = (if k' \<in> set ks then None else look s k')"
  by (induction ks arbitrary: s) (auto simp: look_del ok_del)

end

locale keyed_store = keyed_list +
  assumes look_put: "ok s \<Longrightarrow> look (put k v s) k' = (if k' = k then Some v else look s k')"
    and ok_put_any: "ok s \<Longrightarrow> ok (put k v s)"
begin

lemma put_twice: "ok s \<Longrightarrow> look (put k v (put k w s)) k' = look (put k v s) k'"
  by (simp add: look_put ok_put_any)

end

section \<open>Lists of pairs searched from the front\<close>

definition assoc_put :: "'k \<Rightarrow> 'v \<Rightarrow> ('k \<times> 'v) list \<Rightarrow> ('k \<times> 'v) list" where
  "assoc_put k v l = l @ [(k, v)]"

fun assoc_del :: "'k \<Rightarrow> ('k \<times> 'v) list \<Rightarrow> ('k \<times> 'v) list" where
  "assoc_del k [] = []"
| "assoc_del k ((k', v) # l) = (if k' = k then l else (k', v) # assoc_del k l)"

definition distinct_keys :: "('k \<times> 'v) list \<Rightarrow> bool" where
  "distinct_keys l \<longleftrightarrow> distinct (map fst l)"

fun assoc_upd :: "'k \<Rightarrow> ('v \<Rightarrow> 'v) \<Rightarrow> ('k \<times> 'v) list \<Rightarrow> ('k \<times> 'v) list" where
  "assoc_upd k f [] = []"
| "assoc_upd k f ((k', v) # l) = (if k' = k then (k', f v) # l else (k', v) # assoc_upd k f l)"

lemma map_of_append_single:
  "map_of (l @ [(k, v)]) k' =
     (case map_of l k' of Some w \<Rightarrow> Some w | None \<Rightarrow> if k' = k then Some v else None)"
  by (induction l) auto

lemma set_assoc_del: "x \<in> set (assoc_del k l) \<Longrightarrow> x \<in> set l"
  by (induction l) (auto split: if_splits)

lemma keys_assoc_del: "x \<in> fst ` set (assoc_del k l) \<Longrightarrow> x \<in> fst ` set l"
  using set_assoc_del by fastforce

lemma distinct_assoc_del: "distinct (map fst l) \<Longrightarrow> distinct (map fst (assoc_del k l))"
  by (induction k l rule: assoc_del.induct) (auto dest: set_assoc_del)

lemma map_of_assoc_del:
  "distinct (map fst l) \<Longrightarrow> map_of (assoc_del k l) k' = (if k' = k then None else map_of l k')"
proof (induction k l rule: assoc_del.induct)
  case (1 k)
  then show ?case by simp
next
  case (2 k k'' v l)
  have "k \<notin> fst ` set l \<Longrightarrow> map_of l k = None" by (simp add: map_of_eq_None_iff)
  with 2 show ?case by (cases "k'' = k"; cases "k' = k") simp_all
qed

lemma keys_assoc_upd [simp]: "map fst (assoc_upd k f l) = map fst l"
  by (induction l) auto

lemma distinct_keys_upd [simp]: "distinct_keys (assoc_upd k f l) = distinct_keys l"
  by (simp add: distinct_keys_def)

lemma map_of_assoc_upd:
  "map_of (assoc_upd k f l) k' =
     (if k' = k then map_option f (map_of l k) else map_of l k')"
  by (induction l) auto

interpretation assoc: keyed_list map_of assoc_put assoc_del distinct_keys
proof
  show "map_of (assoc_put k v s) k' = (if k' = k then Some v else map_of s k')"
    if "map_of s k = None" for s k k' and v :: 'b
    using that by (cases "map_of s k'") (auto simp: assoc_put_def map_add_def)
  show "map_of (assoc_del k s) k' = (if k' = k then None else map_of s k')"
    if "distinct_keys s" for k k' and s :: "('a \<times> 'b) list"
    using that by (simp add: distinct_keys_def map_of_assoc_del)
  show "distinct_keys (assoc_put k v s)" if "distinct_keys s" "map_of s k = None"
    for s k and v :: 'b
    using that by (simp add: distinct_keys_def assoc_put_def map_of_eq_None_iff)
  show "distinct_keys (assoc_del k s)" if "distinct_keys s" for k and s :: "('a \<times> 'b) list"
    using that by (simp add: distinct_keys_def distinct_assoc_del)
qed

section \<open>Files and directories\<close>

record fsys =
  files :: "(string \<times> string) list"
  dirs :: "string list"

definition readFile :: "fsys \<Rightarrow> string \<Rightarrow> string option" where
  "readFile d p = map_of (files d) p"

definition writeFile :: "string \<Rightarrow> string \<Rightarrow> fsys \<Rightarrow> fsys" where
  "writeFile p c d = d\<lparr>files := (p, c) # filter (\<lambda>f. fst f \<noteq> p) (files d)\<rparr>"

definition removeFile :: "string \<Rightarrow> fsys \<Rightarrow> fsys" where
  "removeFile p d = d\<lparr>files := filter (\<lambda>f. fst f \<noteq> p) (files d)\<rparr>"

definition dirExists :: "fsys \<Rightarrow> string \<Rightarrow> bool" where
  "dirExists d p \<longleftrightarrow> p \<in> set (dirs d)"

text \<open>A path and its ancestors; \<open>mkpath\<close> creates those that are missing.\<close>

definition ancestors :: "string \<Rightarrow> string list" where
  "ancestors p = map (\<lambda>i. take i p) (filter (\<lambda>i. i = length p \<or> (0 < i \<and> p ! i = CHR ''/''))
     [0..<Suc (length p)])"

definition mkpath :: "string \<Rightarrow> fsys \<Rightarrow> fsys" where
  "mkpath p d = d\<lparr>dirs := filter (\<lambda>q. q \<notin> set (dirs d)) (ancestors p) @ dirs d\<rparr>"

definition under :: "string \<Rightarrow> string \<Rightarrow> bool" where
  "under p q \<longleftrightarrow> q = p \<or> prefix (p @ ''/'') q"

definition removeRecursively :: "string \<Rightarrow> fsys \<Rightarrow> fsys" where
  "removeRecursively p d =
     d\<lparr>files := filter (\<lambda>f. \<not> under p (fst f)) (files d),
       dirs := filter (\<lambda>q. \<not> under p q) (dirs d)\<rparr>"

text \<open>A direct entry of a directory; \<open>QDir::count\<close> without \<open>.\<close> and \<open>..\<close>.\<close>

definition entryOf :: "string \<Rightarrow> string \<Rightarrow> bool" where
  "entryOf p q \<longleftrightarrow> prefix (p @ ''/'') q \<and> length (p @ ''/'') < length q \<and>
     CHR ''/'' \<notin> set (drop (length (p @ ''/'')) q)"

definition entryCount :: "string \<Rightarrow> fsys \<Rightarrow> nat" where
  "entryCount p d =
     length (filter (entryOf p) (map fst (files d))) + length (filter (entryOf p) (dirs d))"

definition okFiles :: "fsys \<Rightarrow> bool" where
  "okFiles d \<longleftrightarrow> distinct_keys (files d)"

lemma map_of_filter_key:
  "map_of (filter (\<lambda>f. P (fst f)) l) k = (if P k then map_of l k else None)"
  by (induction l) auto

lemma map_of_filter_ne:
  "map_of (filter (\<lambda>f. fst f \<noteq> k) l) k' = (if k' = k then None else map_of l k')"
  by (auto simp: map_of_filter_key [where P = "\<lambda>x. x \<noteq> k"])

lemma readFile_write: "readFile (writeFile p c d) q = (if q = p then Some c else readFile d q)"
  by (auto simp: readFile_def writeFile_def map_of_filter_ne)

lemma readFile_remove: "readFile (removeFile p d) q = (if q = p then None else readFile d q)"
  by (simp add: readFile_def removeFile_def map_of_filter_ne)

lemma readFile_mkpath [simp]: "readFile (mkpath p d) q = readFile d q"
  by (simp add: readFile_def mkpath_def)

lemma readFile_removeRecursively:
  "readFile (removeRecursively p d) q = (if under p q then None else readFile d q)"
  by (simp add: readFile_def removeRecursively_def map_of_filter_key [where P = "\<lambda>x. \<not> under p x"])

lemma dirExists_removeRecursively:
  "dirExists (removeRecursively p d) q \<longleftrightarrow> dirExists d q \<and> \<not> under p q"
  by (auto simp: dirExists_def removeRecursively_def)

lemma under_child: "under p (p @ ''/'' @ q)"
  by (simp add: under_def prefix_def)

interpretation fs: keyed_store readFile writeFile removeFile okFiles
proof
  show "readFile (writeFile p c d) q = (if q = p then Some c else readFile d q)" for p c d q
    by (rule readFile_write)
  then show "readFile (writeFile p c d) q = (if q = p then Some c else readFile d q)" for p c d q .
  show "readFile (removeFile p d) q = (if q = p then None else readFile d q)" for p d q
    by (rule readFile_remove)
  show "okFiles (writeFile p c d)" if "okFiles d" for p c d
    using that by (auto simp: okFiles_def distinct_keys_def writeFile_def distinct_map_filter)
  then show "okFiles (writeFile p c d)" if "okFiles d" for p c d using that .
  show "okFiles (removeFile p d)" if "okFiles d" for p d
    using that by (simp add: okFiles_def distinct_keys_def removeFile_def distinct_map_filter)
qed

subsection \<open>Well-formed trees\<close>

text \<open>Paths have no empty part, every ancestor of an entry is a directory, and no path is both.\<close>

definition normalized :: "string \<Rightarrow> bool" where
  "normalized p \<longleftrightarrow> [] \<notin> set (splitOn CHR ''/'' p)"

definition paths :: "fsys \<Rightarrow> string set" where
  "paths d = fst ` set (files d) \<union> set (dirs d)"

definition wfFs :: "fsys \<Rightarrow> bool" where
  "wfFs d \<longleftrightarrow> (\<forall>q \<in> paths d. normalized q \<and> (\<forall>a. a \<noteq> [] \<and> prefix (a @ ''/'') q \<longrightarrow> a \<in> set (dirs d))) \<and>
     fst ` set (files d) \<inter> set (dirs d) = {}"

lemma splitOn_append_sep: "splitOn a (w @ a # r) = splitOn a w @ splitOn a r"
  by (induction w) (auto split: list.splits)

lemma entry_below:
  assumes "normalized q" and "prefix (p @ ''/'') q"
  shows "entryOf p q \<or> (\<exists>a. a \<noteq> [] \<and> prefix (a @ ''/'') q \<and> entryOf p a)"
proof -
  from assms(2) obtain rest where q: "q = p @ CHR ''/'' # rest" by (auto simp: prefix_def)
  then have n: "[] \<notin> set (splitOn CHR ''/'' rest)"
    using assms(1) by (auto simp: normalized_def splitOn_append_sep)
  show ?thesis
  proof (cases "CHR ''/'' \<in> set rest")
    case False
    with n q show ?thesis by (cases rest) (auto simp: entryOf_def)
  next
    case True
    then obtain x y where xy: "rest = x @ CHR ''/'' # y" "CHR ''/'' \<notin> set x"
      by (metis split_list_first)
    with n have "x \<noteq> []" by auto
    with xy q have "entryOf p (p @ CHR ''/'' # x)" "prefix ((p @ CHR ''/'' # x) @ ''/'') q"
      by (auto simp: entryOf_def)
    then show ?thesis by blast
  qed
qed

lemma wfFs_removeFile:
  assumes "wfFs d"
  shows "wfFs (removeFile p d)"
proof -
  have sub: "fst ` set (files (removeFile p d)) \<subseteq> fst ` set (files d)"
    and eq: "dirs (removeFile p d) = dirs d"
    by (auto simp: removeFile_def)
  then have "paths (removeFile p d) \<subseteq> paths d" by (auto simp: paths_def)
  moreover have "fst ` set (files (removeFile p d)) \<inter> set (dirs d) = {}"
    using sub assms unfolding wfFs_def by (meson disjoint_eq_subset_Compl order_trans)
  moreover have "\<forall>q \<in> paths d. normalized q \<and> (\<forall>a. a \<noteq> [] \<and> prefix (a @ ''/'') q \<longrightarrow> a \<in> set (dirs d))"
    using assms by (simp add: wfFs_def)
  ultimately show ?thesis unfolding wfFs_def eq by (meson subsetD)
qed

lemma empty_dir_below:
  assumes "wfFs d" and "entryCount p d = 0" and "q \<in> paths d" and "under p q"
  shows "q = p"
proof (rule ccontr)
  assume "q \<noteq> p"
  with assms(4) have pre: "prefix (p @ ''/'') q" by (simp add: under_def)
  have none: "\<not> entryOf p x" if "x \<in> paths d" for x
    using assms(2) that by (auto simp: entryCount_def paths_def filter_empty_conv)
  have "normalized q" using assms(1,3) by (simp add: wfFs_def)
  then consider "entryOf p q" | a where "a \<noteq> []" "prefix (a @ ''/'') q" "entryOf p a"
    using entry_below [OF _ pre] by blast
  then show False
  proof cases
    case 1
    with none assms(3) show False by blast
  next
    case 2
    with assms(1,3) have "a \<in> set (dirs d)" by (auto simp: wfFs_def)
    with none [of a] 2(3) show False by (simp add: paths_def)
  qed
qed

lemma readFile_empty_dir:
  assumes "wfFs d" and "entryCount p d = 0" and "dirExists d p"
  shows "readFile (removeRecursively p d) q = readFile d q"
proof (cases "under p q")
  case True
  have "readFile d q = None"
  proof (rule ccontr)
    assume "readFile d q \<noteq> None"
    then have q: "q \<in> fst ` set (files d)" by (auto simp: readFile_def map_of_eq_None_iff)
    then have "q = p" using empty_dir_below [OF assms(1,2) _ True] by (simp add: paths_def)
    with q assms(1,3) show False by (auto simp: wfFs_def dirExists_def)
  qed
  then show ?thesis by (simp add: readFile_removeRecursively)
qed (simp add: readFile_removeRecursively)

lemma dirExists_empty_dir:
  assumes "wfFs d" and "entryCount p d = 0" and "q \<noteq> p"
  shows "dirExists (removeRecursively p d) q = dirExists d q"
proof -
  have "\<not> under p q" if "dirExists d q"
    using empty_dir_below [OF assms(1,2), of q] that assms(3) by (auto simp: paths_def dirExists_def)
  then show ?thesis by (auto simp: dirExists_removeRecursively)
qed

text \<open>A directory that does not exist has no files in it.\<close>

lemma no_dir_no_file:
  assumes "wfFs d" and "\<not> dirExists d p" and "p \<noteq> []" and "under p q" and "q \<noteq> p"
  shows "readFile d q = None"
proof (rule ccontr)
  assume "readFile d q \<noteq> None"
  then have "q \<in> paths d" by (auto simp: readFile_def paths_def map_of_eq_None_iff)
  moreover have "prefix (p @ ''/'') q" using assms(4,5) by (simp add: under_def)
  ultimately have "p \<in> set (dirs d)" using assms(1,3) by (auto simp: wfFs_def)
  with assms(2) show False by (simp add: dirExists_def)
qed

end
