(* ===== verification/OpenVpn.thy ===== *)
theory OpenVpn
  imports Stores
begin

text \<open>
  One VPN session of the service: the class \<open>OpenVpn\<close> of \<open>service/openvpn.cpp\<close>. The record
  \<open>openvpn\<close> holds its members, \<open>process\<close> the state of its \<open>QProcess\<close> as the class uses it.
  A slot is a function on \<open>run\<close>: the object, the disk, and what it has emitted in order, a
  message to the client (\<open>_srvCLI->send(text, kind)\<close>) or the signal
  \<open>removeItemFromList\<close>. What the operating system answers is in \<open>env\<close>. Writing to the
  debug log is left out.
\<close>

section \<open>Environment and state\<close>

record env =
  portable :: bool
  appDir :: string
  wow64 :: bool
  programExists :: "string \<Rightarrow> bool"
  startsOk :: "string \<Rightarrow> string list \<Rightarrow> bool"
  eventOk :: bool
  mayRead :: "string \<Rightarrow> bool"
  mayRemove :: "string \<Rightarrow> bool"
  mayWrite :: "string \<Rightarrow> bool"
  mayMkpath :: "string \<Rightarrow> bool"

record process =
  writable :: bool
  bound :: bool
  workDir :: string
  program :: string
  arguments :: "string list"
  stdin :: "string list"
  killed :: bool

record openvpn =
  onDisconnect :: bool
  useNoInteract :: bool
  connectionStable :: bool
  connecting :: bool
  vpnId :: int
  retryMultiHostCount :: int
  lastAction :: int
  configName :: string
  configPath :: string
  fullConfigPathValue :: string
  vaultDirName :: string
  originConfigPath :: string
  userVaultDirName :: string
  connectionIP :: string
  connectionLineBak :: string
  proc :: process
  proxyString :: string
  challangeUserName :: string
  connectionIsAOtpConnection :: bool

text \<open>
  \<open>SetExitEvent\<close> is the named Windows event a session sets; OpenVPN waits for the one given by
  its option \<open>--service\<close>.
\<close>

datatype out = Send string string | EmitRemove int | SetExitEvent string

record run =
  self :: openvpn
  disk :: fsys
  outs :: "out list"

abbreviation modify :: "(openvpn \<Rightarrow> openvpn) \<Rightarrow> run \<Rightarrow> run" where
  "modify f r \<equiv> r\<lparr>self := f (self r)\<rparr>"

definition emit :: "out \<Rightarrow> run \<Rightarrow> run" where
  "emit e r = r\<lparr>outs := outs r @ [e]\<rparr>"

definition newProcess :: process where
  "newProcess = \<lparr>writable = False, bound = False, workDir = [], program = [], arguments = [], stdin = [],
     killed = False\<rparr>"

definition newOpenVpn :: openvpn where
  "newOpenVpn = \<lparr>onDisconnect = False, useNoInteract = False, connectionStable = False,
     connecting = False, vpnId = -1, retryMultiHostCount = 0, lastAction = -1, configName = [],
     configPath = [], fullConfigPathValue = [], vaultDirName = [], originConfigPath = [],
     userVaultDirName = [], connectionIP = [], connectionLineBak = [], proc = newProcess,
     proxyString = [], challangeUserName = [], connectionIsAOtpConnection = False\<rparr>"

definition nl :: string where
  "nl = [CHR 0x0A]"

text \<open>The templates \<open>%1;%2\<close> with the id in front.\<close>

definition idText :: "openvpn \<Rightarrow> string \<Rightarrow> string" where
  "idText v t = qarg (qarg ''%1;%2'' (number (vpnId v))) t"

section \<open>Setters\<close>

definition setId :: "int \<Rightarrow> openvpn \<Rightarrow> openvpn" where
  "setId i v = v\<lparr>vpnId := i\<rparr>"

definition setConfigName :: "string \<Rightarrow> openvpn \<Rightarrow> openvpn" where
  "setConfigName n v = v\<lparr>configName := n\<rparr>"

definition setConfigPath :: "string \<Rightarrow> openvpn \<Rightarrow> openvpn" where
  "setConfigPath p v = v\<lparr>configPath := p\<rparr>"

definition setUseInteract :: "string \<Rightarrow> openvpn \<Rightarrow> openvpn" where
  "setUseInteract i v = v\<lparr>useNoInteract := (i = ''1'')\<rparr>"

definition setProxyString :: "string \<Rightarrow> openvpn \<Rightarrow> openvpn" where
  "setProxyString p v = v\<lparr>proxyString := p\<rparr>"

definition setVaultDirName :: "string \<Rightarrow> openvpn \<Rightarrow> openvpn" where
  "setVaultDirName n v = v\<lparr>vaultDirName := n\<rparr>"

definition setUserVaultDirName :: "string \<Rightarrow> openvpn \<Rightarrow> openvpn" where
  "setUserVaultDirName n v = v\<lparr>userVaultDirName := n\<rparr>"

definition setOriginConfigPath :: "string \<Rightarrow> openvpn \<Rightarrow> openvpn" where
  "setOriginConfigPath p v = v\<lparr>originConfigPath := p\<rparr>"

section \<open>Answers written to the process\<close>

text \<open>\<open>c_str()\<close> ends at the first NUL.\<close>

definition answerBytes :: "string \<Rightarrow> string" where
  "answerBytes s = utf8 (takeWhile (\<lambda>c. c \<noteq> CHR 0x00) s) @ nl"

definition writeProc :: "string \<Rightarrow> openvpn \<Rightarrow> openvpn" where
  "writeProc s v = v\<lparr>proc := (proc v)\<lparr>stdin := stdin (proc v) @ [answerBytes s]\<rparr>, lastAction := -1\<rparr>"

definition setUsername :: "string \<Rightarrow> openvpn \<Rightarrow> openvpn" where
  "setUsername u v =
     (if writable (proc v) then
        writeProc u (if challangeUserName v = [] then v\<lparr>challangeUserName := u\<rparr> else v)
      else v)"

definition setPassword :: "string \<Rightarrow> openvpn \<Rightarrow> openvpn" where
  "setPassword p v = (if writable (proc v) then writeProc p v else v)"

definition setPrivateKey :: "string \<Rightarrow> openvpn \<Rightarrow> openvpn" where
  "setPrivateKey k v = (if writable (proc v) then writeProc k v else v)"

definition setChallengeKey :: "string \<Rightarrow> openvpn \<Rightarrow> openvpn" where
  "setChallengeKey k v = (if writable (proc v) then writeProc k v else v)"

section \<open>Status and process signals\<close>

definition sendStatus :: "run \<Rightarrow> run" where
  "sendStatus r =
     (let v = self r in
      emit (Send (qarg (qarg (qarg (qarg (qarg ''%1;%2;%3;%4;%5'' (number (vpnId v)))
          (if connectionStable v then ''1'' else ''0''))
          (if connecting v then ''1'' else ''0''))
          (number (lastAction v)))
          (connectionIP v)) ''STATUS'') r)"

definition processFinished :: "run \<Rightarrow> run" where
  "processFinished r =
     modify (\<lambda>v. v\<lparr>connectionStable := False, connecting := False, lastAction := -1\<rparr>)
       (emit (EmitRemove (vpnId (self r)))
         (modify (\<lambda>v. v\<lparr>proc := (proc v)\<lparr>bound := False, writable := False\<rparr>\<rparr>) r))"

fun errMessage :: "procError \<Rightarrow> string" where
  "errMessage FailedToStart = ''The process failed to start. Either the invoked program is missing, or you may have insufficient permissions to invoke the program.''"
| "errMessage Crashed = ''The process crashed some time after starting successfully.''"
| "errMessage Timedout = ''The last waitFor...() function timed out. The state of QProcess is unchanged, and you can try calling waitFor...() again.''"
| "errMessage WriteError = ''An error occurred when attempting to write to the process. For example, the process may not be running, or it may have closed its input channel.''"
| "errMessage ReadError = ''An error occurred when attempting to read from the process. For example, the process may not be running.''"
| "errMessage UnknownError = ''An unknown error occurred. This is the default return value of error().''"

definition showProcessError :: "procError \<Rightarrow> run \<Rightarrow> run" where
  "showProcessError e r =
     (let r1 = modify (\<lambda>v. v\<lparr>connectionStable := False\<rparr>) r in
      if onDisconnect (self r1) then r1
      else (let r2 = emit (Send (number (vpnId (self r1)) @ '';'' @ errMessage e) ''ERROR'') r1 in
            if e = FailedToStart then emit (EmitRemove (vpnId (self r2))) r2 else r2))"

section \<open>connectToVpn\<close>

text \<open>
  A line counts when its first six characters, trimmed and in lower case, are \<open>remote\<close>.
\<close>

definition countRemotes :: "string \<Rightarrow> int" where
  "countRemotes content =
     int (length (filter (\<lambda>line. qleft (toLower (trimmed line)) 6 = ''remote'') (textLines content)))"

definition tlsCiphers :: string where
  "tlsCiphers = ''TLS-DHE-RSA-WITH-AES-256-CBC-SHA:TLS-DHE-RSA-WITH-CAMELLIA-256-CBC-SHA:TLS-DHE-RSA-WITH-3DES-EDE-CBC-SHA:TLS-DHE-RSA-WITH-AES-128-CBC-SHA:TLS-DHE-RSA-WITH-SEED-CBC-SHA:TLS-DHE-RSA-WITH-CAMELLIA-128-CBC-SHA:TLS-DHE-RSA-WITH-DES-CBC-SHA:TLS-DHE-RSA-WITH-AES-256-GCM-SHA384:TLS-DHE-RSA-WITH-AES-256-CBC-SHA256:TLS-DHE-RSA-WITH-AES-128-GCM-SHA256:TLS-DHE-RSA-WITH-AES-128-CBC-SHA256''"

definition exitEvent :: "int \<Rightarrow> string" where
  "exitEvent i = qarg ''openvpngui_exit_%1'' (number i)"

definition vpnArguments :: "openvpn \<Rightarrow> string list" where
  "vpnArguments v =
     [''--service'', exitEvent (vpnId v), ''0'', ''--config'', fullConfigPathValue v,
      ''--mute'', ''0''] @
     (if trimmed (proxyString v) \<noteq> [] then splitOn CHR '' '' (proxyString v) else []) @
     (if \<not> useNoInteract v then [''--auth-retry'', ''interact''] else []) @
     [''--tls-cipher'', tlsCiphers]"

definition vpnProgram :: "env \<Rightarrow> string" where
  "vpnProgram e =
     (let arch = (if wow64 e then ''x64'' else ''x32'');
          prog = (if portable e then qarg ''/bin/%1/openvpn.exe'' arch else ''/bin/openvpn.exe'')
      in appDir e @ prog)"

text \<open>
  A process that fails to start reports it by its error signal, which is bound to
  \<open>showProcessError\<close> before \<open>start\<close>; \<open>waitForStarted\<close> then gives false.
\<close>

definition startProgram :: "env \<Rightarrow> string list \<Rightarrow> run \<Rightarrow> run" where
  "startProgram e args r =
     (let prog = vpnProgram e in
      if \<not> programExists e prog then emit (EmitRemove (vpnId (self r))) r
      else (let r1 = modify (\<lambda>v. v\<lparr>proc := (proc v)\<lparr>program := prog, arguments := args\<rparr>\<rparr>) r in
            if startsOk e prog args then
              modify (\<lambda>v. v\<lparr>proc := (proc v)\<lparr>writable := True\<rparr>\<rparr>) r1
            else (let r2 = showProcessError FailedToStart r1
                  in emit (EmitRemove (vpnId (self r2))) r2)))"

definition connectToVpn :: "env \<Rightarrow> run \<Rightarrow> run" where
  "connectToVpn e r =
     (if vpnId (self r) = -1 then r
      else (let r1 = modify (\<lambda>v. v\<lparr>connecting := True, lastAction := -1,
                        fullConfigPathValue := configPath v @ ''/'' @ configName v @ ''.ovpn''\<rparr>) r;
                path = fullConfigPathValue (self r1)
            in case (if mayRead e path then readFile (disk r1) path else None) of
                 None \<Rightarrow>
                   (let r2 = modify (\<lambda>v. v\<lparr>connecting := False, connectionStable := False\<rparr>) r1
                    in emit (Send (idText (self r2) (''Failed to read '' @ path)) ''ERROR'') r2)
               | Some content \<Rightarrow>
                   (let r2 = modify (\<lambda>v. v\<lparr>retryMultiHostCount :=
                          retryMultiHostCount v + countRemotes content\<rparr>) r1;
                        args = vpnArguments (self r2);
                        r3 = modify (\<lambda>v. v\<lparr>proc := (proc v)\<lparr>bound := True,
                          workDir := originConfigPath v @ ''/''\<rparr>\<rparr>) r2
                    in startProgram e args r3)))"

section \<open>disconnectVpn\<close>

definition userVault :: "openvpn \<Rightarrow> string" where
  "userVault v = vaultDirName v @ ''/'' @ userVaultDirName v"

definition clearVault :: "env \<Rightarrow> openvpn \<Rightarrow> fsys \<Rightarrow> fsys" where
  "clearVault e v d =
     (let d1 = (if readFile d (fullConfigPathValue v) \<noteq> None \<and> mayRemove e (fullConfigPathValue v)
                then removeFile (fullConfigPathValue v) d else d)
      in if entryCount (userVault v) d1 = 0 \<and> dirExists d1 (userVault v)
         then removeRecursively (userVault v) d1 else d1)"

definition disconnectVpn :: "env \<Rightarrow> bool \<Rightarrow> run \<Rightarrow> run" where
  "disconnectVpn e silent r =
     (let r1 = modify (\<lambda>v. v\<lparr>proc := (proc v)\<lparr>bound := False\<rparr>, onDisconnect := True,
                 configName := [], configPath := [], connectionStable := False,
                 connecting := False\<rparr>) r
      in if \<not> eventOk e then r1
         else (let r2 = modify (\<lambda>v. v\<lparr>proc := (proc v)\<lparr>writable := False\<rparr>\<rparr>)
                     (emit (SetExitEvent (''openvpngui_exit_'' @ number (vpnId (self r1)))) r1);
                   r3 = (if portable e then r2
                         else r2\<lparr>disk := clearVault e (self r2) (disk r2)\<rparr>)
               in if silent then r3
                  else emit (Send (number (vpnId (self r3))) ''DISCONNECTED'')
                         (emit (EmitRemove (vpnId (self r3))) r3)))"

section \<open>readProcessData\<close>

text \<open>
  The prompts of OpenVPN: the kind of input asked from the user, and whether the output is
  to be logged (second component of the result).
\<close>

definition askInput :: "int \<Rightarrow> string \<Rightarrow> run \<Rightarrow> run" where
  "askInput action template r =
     emit (Send (qarg template (number (vpnId (self r)))) ''INPUT'')
       (modify (\<lambda>v. v\<lparr>lastAction := action\<rparr>) r)"

definition handlePrompt :: "string \<Rightarrow> run \<Rightarrow> run \<times> bool" where
  "handlePrompt line r =
     (if containsCI line ''Enter Private Key Password:'' then (askInput 3 ''%1;3'' r, False)
      else if line = ''Enter Auth Username:'' \<or> line = ''Enter Challenge Username:'' then
        (if line = ''Enter Challenge Username:'' \<and> challangeUserName (self r) \<noteq> []
         then (modify (setUsername (challangeUserName (self r))) r, False)
         else (askInput 0 ''%1;0'' r, False))
      else if line = ''Enter Auth Password:'' then (askInput 1 ''%1;1'' r, False)
      else if line = ''Enter Challenge Password:''
              \<or> contains line ''CHALLENGE: Please enter token PIN'' then (askInput 2 ''%1;2'' r, False)
      else if contains line ''Enter HTTP Proxy Username:'' then (askInput 5 ''%1;5'' r, False)
      else if contains line ''Enter HTTP Proxy Password:'' then (askInput 6 ''%1;6'' r, False)
      else (r, True))"

text \<open>The address in the DHCP notification: a window of 15 characters at offset 56.\<close>

definition driverNote :: string where
  "driverNote = ''Notified TAP-Windows driver''"

definition extractIP :: "string \<Rightarrow> string" where
  "extractIP singleLine =
     (let connIP = qmid singleLine (indexOf singleLine driverNote + 56) 15;
          i = indexOf connIP ''/''
      in if i \<noteq> 0 then qleft connIP i
         else (let j = indexOf connIP '' '' in if j \<noteq> 0 then qleft connIP j else connIP))"

definition scanLine :: "string \<Rightarrow> string \<Rightarrow> openvpn \<Rightarrow> openvpn" where
  "scanLine lineOut singleLine v =
     (if -1 < indexOf singleLine driverNote then
        v\<lparr>lastAction := -1, connectionIP := extractIP singleLine, connectionStable := True,
          connectionLineBak := lineOut\<rparr>
      else v)"

definition scanLines :: "string \<Rightarrow> openvpn \<Rightarrow> openvpn" where
  "scanLines lineOut v = fold (scanLine lineOut) (splitOn CHR 0x0A lineOut) v"

record verdict =
  errorOcurred :: bool
  tlsHandshakeFailed :: bool
  errorMessage :: string

definition noError :: verdict where
  "noError = \<lparr>errorOcurred = False, tlsHandshakeFailed = False, errorMessage = []\<rparr>"

definition anError :: "string \<Rightarrow> verdict" where
  "anError t = \<lparr>errorOcurred = True, tlsHandshakeFailed = False, errorMessage = t\<rparr>"

text \<open>A failed attempt on one of several hosts uses up one retry; the last one ends it.\<close>

definition failedHost :: "string \<Rightarrow> run \<Rightarrow> run \<times> verdict" where
  "failedHost t r =
     (if retryMultiHostCount (self r) \<le> 0 then (r, (anError t)\<lparr>tlsHandshakeFailed := True\<rparr>)
      else (modify (\<lambda>v. v\<lparr>retryMultiHostCount := retryMultiHostCount v - 1\<rparr>) r, anError t))"

definition noRoute :: "run \<Rightarrow> run \<times> verdict" where
  "noRoute r =
     (let t = ''No Route to Host!'' @ nl @ ''See log for details'';
          r1 = emit (Send (idText (self r) t) ''ERROR'') r
      in (if retryMultiHostCount (self r1) \<le> 0
          then modify (\<lambda>v. v\<lparr>onDisconnect := True, connectionStable := False,
                 proc := (proc v)\<lparr>killed := True\<rparr>\<rparr>) r1
          else modify (\<lambda>v. v\<lparr>retryMultiHostCount := retryMultiHostCount v - 1\<rparr>) r1,
          noError\<lparr>errorMessage := t\<rparr>))"

definition tapNeeded :: "run \<Rightarrow> run" where
  "tapNeeded r = emit (Send ''NEEDED'' ''TAPINSTALL'') r"

definition catchError :: "string \<Rightarrow> run \<Rightarrow> run \<times> verdict" where
  "catchError lineOut r =
     (let has = containsCI lineOut in
      if has ''All TAP-Windows adapters on this system are currently in use'' then
        (tapNeeded r, anError ''All TAP-Windows adapters on this system are currently in use'')
      else if has ''There are no TAP-Windows adapters on this system'' then
        (tapNeeded r, anError ''There are no TAP-Windows adapters on this system'')
      else if has ''TLS Error: Need PEM pass phrase for private key'' then
        (r, anError ''TLS Error: Need PEM pass phrase for private key'')
      else if has ''TLS Error: TLS handshake failed'' then failedHost ''TLS error! See log for details'' r
      else if has ''RESOLVE: Cannot resolve host address:'' then
        failedHost ''Connection error! See log for details'' r
      else if has ''EVP_DecryptFinal:bad decrypt'' then (r, anError ''EVP_DecryptFinal:bad decrypt'')
      else if has ''PKCS12_parse:mac verify failure'' then (r, anError ''PKCS12_parse:mac verify failure'')
      else if has ''Received control message: AUTH_FAILED'' then
        (r, anError ''Received AUTH_FAILED control message'')
      else if has ''Auth username is empty'' then (r, anError ''Auth username is empty'')
      else if has ''error=certificate has expired'' then (r, anError ''error=certificate has expired'')
      else if has ''error=certificate is not yet valid'' then
        (r, anError ''error=certificate is not yet valid'')
      else if has ''Proxy Authentication Required'' then (r, anError ''Proxy Authentication Required'')
      else if has ''Cannot load certificate file'' then (r, anError ''Cannot load certificate file'')
      else if has ''Exiting'' then (r, anError ''Application Exiting!'')
      else if has ''Use --help for more information.'' then
        (r, anError (''OpenVPN parameter error!'' @ nl @ ''See log for details''))
      else if has ''will try again in 5 seconds'' then
        (r, noError\<lparr>errorMessage := ''OpenVPN connection error!'' @ nl @ ''See log for details''\<rparr>)
      else if has ''No Route to Host'' then noRoute r
      else (r, noError))"

text \<open>What turns an error back into none, and the token prompt of a one-time password.\<close>

definition overrides :: "string \<Rightarrow> run \<times> verdict \<times> bool \<Rightarrow> run \<times> verdict \<times> bool" where
  "overrides lineOut st =
     (case st of (r, ver, showLine) \<Rightarrow>
        (let ver1 = (if contains lineOut ''Proxy requires authentication''
                       \<and> \<not> contains lineOut ''process exiting''
                     then ver\<lparr>errorOcurred := False, errorMessage := []\<rparr> else ver);
             ver2 = (if containsCI lineOut ''SIGTERM[hard,] received, process exiting''
                     then ver1\<lparr>errorOcurred := False\<rparr> else ver1)
         in if containsCI lineOut ''Please enter token PIN''
            then (modify (\<lambda>v. v\<lparr>connectionIsAOtpConnection := True\<rparr>) r,
                  ver2\<lparr>errorOcurred := False\<rparr>, False)
            else (r, ver2, showLine)))"

definition reportError :: "verdict \<Rightarrow> run \<Rightarrow> run" where
  "reportError ver r =
     (if errorOcurred ver
      then emit (Send (idText (self r) (errorMessage ver)) ''ERROR'')
             (modify (\<lambda>v. v\<lparr>connectionStable := False\<rparr>) r)
      else r)"

definition removeUserData :: "string \<Rightarrow> run \<Rightarrow> run" where
  "removeUserData lineOut r =
     (if containsCI lineOut ''Received control message: AUTH_FAILED''
         \<and> \<not> connectionIsAOtpConnection (self r)
      then emit (Send (qarg ''%1'' (number (vpnId (self r)))) ''REMOVE_USER_DATA'') r else r)"

definition logLine :: "bool \<Rightarrow> string \<Rightarrow> run \<Rightarrow> run" where
  "logLine showLine line r = (if showLine then emit (Send (idText (self r) line) ''LOG'') r else r)"

definition restartNote :: string where
  "restartNote = ''Timeout[Maybe your cetificates are not valid. Please check if it is revoked], restart pause will be ignored! Shuting down OpenVPN ...''"

definition restartPause :: "string \<Rightarrow> verdict \<Rightarrow> run \<Rightarrow> run" where
  "restartPause lineOut ver r =
     (if containsCI lineOut ''Restart pause'' then
        (if \<not> tlsHandshakeFailed ver
         then emit (Send (qarg ''%1'' (number (vpnId (self r)))) ''RESTART'') r
         else emit (Send (idText (self r) restartNote) ''LOG'') r)
      else r)"

definition initCompleted :: "string \<Rightarrow> run \<Rightarrow> run" where
  "initCompleted lineOut r =
     (if containsCI lineOut ''Initialization Sequence Completed'' then
        (let r1 = modify (\<lambda>v. v\<lparr>connectionStable := True, connecting := False\<rparr>) r;
             r2 = emit (Send (idText (self r1) (connectionLineBak (self r1))) ''LOG'') r1
         in emit (Send (idText (self r2) (connectionIP (self r2))) ''RECEIVEDIP'') r2)
      else r)"

text \<open>The slot: standard error first, standard output when there is none.\<close>

definition readProcessData :: "env \<Rightarrow> string \<Rightarrow> string \<Rightarrow> run \<Rightarrow> run" where
  "readProcessData e stdErr stdOut r =
     (if onDisconnect (self r) then r
      else (let line = (if stdErr = [] then stdOut else stdErr) in
            if line = [] then r
            else (let (r1, showLine) = handlePrompt line r;
                      r2 = modify (scanLines line) r1;
                      (r3, ver) = catchError line r2;
                      (r4, ver', show') = overrides line (r3, ver, showLine);
                      r5 = logLine show' line (removeUserData line (reportError ver' r4));
                      r6 = (if tlsHandshakeFailed ver' then disconnectVpn e False r5 else r5)
                  in initCompleted line (restartPause line ver' r6))))"

section \<open>The life of a session\<close>

text \<open>
  What happens to a session object: the calls of its connection and the signals of its
  process, which arrive only while they are bound.
\<close>

datatype event =
    Connect env | Query | Disconnect env bool
  | User string | Pwd string | PKey string | Challenge string
  | Output env string string | ProcFinished | ProcError procError

definition ifBound :: "(run \<Rightarrow> run) \<Rightarrow> run \<Rightarrow> run" where
  "ifBound f r = (if bound (proc (self r)) then f r else r)"

fun sessionStep :: "event \<Rightarrow> run \<Rightarrow> run" where
  "sessionStep (Connect e) r = connectToVpn e r"
| "sessionStep Query r = sendStatus r"
| "sessionStep (Disconnect e silent) r = disconnectVpn e silent r"
| "sessionStep (User u) r = modify (setUsername u) r"
| "sessionStep (Pwd p) r = modify (setPassword p) r"
| "sessionStep (PKey k) r = modify (setPrivateKey k) r"
| "sessionStep (Challenge k) r = modify (setChallengeKey k) r"
| "sessionStep (Output e err out) r = ifBound (readProcessData e err out) r"
| "sessionStep ProcFinished r = ifBound processFinished r"
| "sessionStep (ProcError x) r = ifBound (showProcessError x) r"

definition freshRun :: "openvpn \<Rightarrow> fsys \<Rightarrow> run" where
  "freshRun v d = \<lparr>self = v, disk = d, outs = []\<rparr>"

lemma self_emit [simp]: "self (emit x r) = self r"
  and disk_emit [simp]: "disk (emit x r) = disk r"
  and outs_emit [simp]: "outs (emit x r) = outs r @ [x]"
  by (simp_all add: emit_def)

lemma idText_eq [simp]: "idText v t = number (vpnId v) @ '';'' @ t"
  by (simp add: idText_def qarg_12)

lemma exitEvent_eq: "exitEvent i = ''openvpngui_exit_'' @ number i"
  by (simp add: exitEvent_def qarg_def)

lemmas setter_defs = setUsername_def setPassword_def setPrivateKey_def setChallengeKey_def writeProc_def

lemma setters_keep [simp]:
  "vpnId (setUsername u v) = vpnId v" "vpnId (setPassword u v) = vpnId v"
  "vpnId (setPrivateKey u v) = vpnId v" "vpnId (setChallengeKey u v) = vpnId v"
  by (simp_all add: setter_defs)

lemma scanLine_keeps [simp]:
  "vpnId (scanLine l s v) = vpnId v" "proc (scanLine l s v) = proc v"
  "onDisconnect (scanLine l s v) = onDisconnect v"
  "retryMultiHostCount (scanLine l s v) = retryMultiHostCount v"
  "connectionIsAOtpConnection (scanLine l s v) = connectionIsAOtpConnection v"
  by (simp_all add: scanLine_def)

lemma scanLines_keeps [simp]:
  "vpnId (scanLines l v) = vpnId v" "proc (scanLines l v) = proc v"
  "onDisconnect (scanLines l v) = onDisconnect v"
  "retryMultiHostCount (scanLines l v) = retryMultiHostCount v"
  "connectionIsAOtpConnection (scanLines l v) = connectionIsAOtpConnection v"
proof -
  have "vpnId (fold (scanLine l) ls v) = vpnId v \<and> proc (fold (scanLine l) ls v) = proc v \<and>
    onDisconnect (fold (scanLine l) ls v) = onDisconnect v \<and>
    retryMultiHostCount (fold (scanLine l) ls v) = retryMultiHostCount v \<and>
    connectionIsAOtpConnection (fold (scanLine l) ls v) = connectionIsAOtpConnection v" for ls
    by (induction ls arbitrary: v) simp_all
  then show "vpnId (scanLines l v) = vpnId v" "proc (scanLines l v) = proc v"
    "onDisconnect (scanLines l v) = onDisconnect v"
    "retryMultiHostCount (scanLines l v) = retryMultiHostCount v"
    "connectionIsAOtpConnection (scanLines l v) = connectionIsAOtpConnection v"
    by (simp_all add: scanLines_def)
qed

subsection \<open>Invariants of the emitted messages\<close>

text \<open>
  A predicate on runs that every state change and every message of the object keeps: the
  contract from which \<open>readProcessData\<close> and with it every step follows.
\<close>

locale session_invariant =
  fixes inv :: "run \<Rightarrow> bool"
  assumes inv_connect: "inv r \<Longrightarrow> inv (connectToVpn e r)"
    and inv_status: "inv r \<Longrightarrow> inv (sendStatus r)"
    and inv_disconnect: "inv r \<Longrightarrow> inv (disconnectVpn e silent r)"
    and inv_user: "inv r \<Longrightarrow> inv (modify (setUsername t) r)"
    and inv_pwd: "inv r \<Longrightarrow> inv (modify (setPassword t) r)"
    and inv_pkey: "inv r \<Longrightarrow> inv (modify (setPrivateKey t) r)"
    and inv_challenge: "inv r \<Longrightarrow> inv (modify (setChallengeKey t) r)"
    and inv_finished: "inv r \<Longrightarrow> inv (processFinished r)"
    and inv_error: "inv r \<Longrightarrow> inv (showProcessError x r)"
    and inv_prompt: "inv r \<Longrightarrow> inv (fst (handlePrompt l r))"
    and inv_scan: "inv r \<Longrightarrow> inv (modify (scanLines l) r)"
    and inv_catch: "inv r \<Longrightarrow> inv (fst (catchError l r))"
    and inv_overrides: "inv r \<Longrightarrow> inv (fst (overrides l (r, ver, b)))"
    and inv_report: "inv r \<Longrightarrow> inv (reportError ver r)"
    and inv_remove: "inv r \<Longrightarrow> inv (removeUserData l r)"
    and inv_log: "inv r \<Longrightarrow> inv (logLine b l r)"
    and inv_restart: "inv r \<Longrightarrow> inv (restartPause l ver r)"
    and inv_init: "inv r \<Longrightarrow> inv (initCompleted l r)"
begin

lemma inv_read:
  assumes "inv r"
  shows "inv (readProcessData e err out r)"
proof -
  define line where "line = (if err = [] then out else err)"
  obtain r1 show1 where p: "handlePrompt line r = (r1, show1)" by fastforce
  obtain r3 ver where c: "catchError line (modify (scanLines line) r1) = (r3, ver)" by fastforce
  obtain r4 ver' show2 where o: "overrides line (r3, ver, show1) = (r4, ver', show2)"
    by (cases "overrides line (r3, ver, show1)") auto
  have "inv r1" using inv_prompt [OF assms, of line] p by simp
  then have "inv r3" using inv_catch [OF inv_scan, of r1 line line] c by simp
  then have "inv r4" using inv_overrides [of r3 line ver show1] o by simp
  then show ?thesis
    using assms p c o
    by (simp add: readProcessData_def Let_def line_def [symmetric] inv_report inv_remove inv_log
      inv_restart inv_init inv_disconnect)
qed

lemma inv_step: "inv r \<Longrightarrow> inv (sessionStep ev r)"
  by (cases ev) (simp_all add: ifBound_def inv_connect inv_status inv_disconnect inv_user inv_pwd
    inv_pkey inv_challenge inv_read inv_finished inv_error)

lemma inv_life: "inv r \<Longrightarrow> inv (fold sessionStep evs r)"
  by (induction evs arbitrary: r) (simp_all add: inv_step)

end

end
