(* ===== verification/Encoding.thy ===== *)
theory Encoding
  imports Prelude
begin

text \<open>
  Base64 as \<open>QByteArray::toBase64\<close> and \<open>fromBase64\<close> of Qt 5 compute it: the client sends
  the configuration encoded, the service decodes it. A byte is a \<open>char\<close>. The decoder skips
  every character that is not in the alphabet, the padding included.
\<close>

definition b64Digit :: "nat \<Rightarrow> char" where
  "b64Digit d =
     (if d < 26 then char_of (65 + d) else if d < 52 then char_of (71 + d)
      else if d < 62 then char_of (d - 4) else if d = 62 then CHR ''+'' else CHR ''/'')"

definition b64Value :: "char \<Rightarrow> nat option" where
  "b64Value c =
     (let n = code c in
      if 65 \<le> n \<and> n \<le> 90 then Some (n - 65) else if 97 \<le> n \<and> n \<le> 122 then Some (n - 71)
      else if 48 \<le> n \<and> n \<le> 57 then Some (n + 4)
      else if n = 43 then Some 62 else if n = 47 then Some 63 else None)"

fun toBase64 :: "string \<Rightarrow> string" where
  "toBase64 (a # b # c # bs) =
     (let n = code a * 65536 + code b * 256 + code c
      in b64Digit (n div 262144) # b64Digit (n div 4096 mod 64) # b64Digit (n div 64 mod 64) #
         b64Digit (n mod 64) # toBase64 bs)"
| "toBase64 [a, b] =
     (let n = code a * 1024 + code b * 4
      in [b64Digit (n div 4096), b64Digit (n div 64 mod 64), b64Digit (n mod 64), CHR ''=''])"
| "toBase64 [a] = (let n = code a * 16 in [b64Digit (n div 64), b64Digit (n mod 64), CHR ''='', CHR ''=''])"
| "toBase64 [] = []"

text \<open>The decoder: a buffer, the number of bits in it, and the bytes so far.\<close>

fun decode64 :: "nat \<Rightarrow> nat \<Rightarrow> string \<Rightarrow> string" where
  "decode64 buf nbits [] = []"
| "decode64 buf nbits (c # cs) =
     (case b64Value c of
        None \<Rightarrow> decode64 buf nbits cs
      | Some d \<Rightarrow>
          (let buf' = buf * 64 + d; n' = nbits + 6 in
           if 8 \<le> n' then char_of (buf' div 2 ^ (n' - 8) mod 256) # decode64 (buf' mod 2 ^ (n' - 8)) (n' - 8) cs
           else decode64 buf' n' cs))"

definition fromBase64 :: "string \<Rightarrow> string" where
  "fromBase64 s = decode64 0 0 s"

lemma b64Value_Digit [simp]: "d < 64 \<Longrightarrow> b64Value (b64Digit d) = Some d"
  by (auto simp: b64Value_def b64Digit_def code_def of_char_of Let_def)

lemma b64Value_pad [simp]: "b64Value CHR ''='' = None"
  by (simp add: b64Value_def code_def)

lemma decode64_step:
  "d < 64 \<Longrightarrow> decode64 buf nbits (b64Digit d # cs) =
     (if 2 \<le> nbits then char_of ((buf * 64 + d) div 2 ^ (nbits - 2) mod 256) #
        decode64 ((buf * 64 + d) mod 2 ^ (nbits - 2)) (nbits - 2) cs
      else decode64 (buf * 64 + d) (nbits + 6) cs)"
  by (simp add: Let_def)

lemma div_of: "(r::nat) < k \<Longrightarrow> n = q * k + r \<Longrightarrow> n div k = q"
  and mod_of: "(r::nat) < k \<Longrightarrow> n = q * k + r \<Longrightarrow> n mod k = r"
  by auto

text \<open>The four digits of three bytes, in terms of the bytes' upper and lower parts.\<close>

lemma digits_of_group:
  assumes "a0 < 4" "b1 < 16" "b0 < 16" "c1 < 4" "c0 < (64::nat)"
  shows "((4 * a1 + a0) * 65536 + (16 * b1 + b0) * 256 + (64 * c1 + c0)) div 262144 = a1"
    and "((4 * a1 + a0) * 65536 + (16 * b1 + b0) * 256 + (64 * c1 + c0)) div 4096 mod 64 = 16 * a0 + b1"
    and "((4 * a1 + a0) * 65536 + (16 * b1 + b0) * 256 + (64 * c1 + c0)) div 64 mod 64 = 4 * b0 + c1"
    and "((4 * a1 + a0) * 65536 + (16 * b1 + b0) * 256 + (64 * c1 + c0)) mod 64 = c0"
proof -
  let ?n = "(4 * a1 + a0) * 65536 + (16 * b1 + b0) * 256 + (64 * c1 + c0)"
  show "?n div 262144 = a1"
    by (rule div_of [of "a0 * 65536 + b1 * 4096 + b0 * 256 + c1 * 64 + c0"]) (use assms in simp_all)
  have "?n div 4096 = 64 * a1 + 16 * a0 + b1"
    by (rule div_of [of "b0 * 256 + c1 * 64 + c0"]) (use assms in simp_all)
  moreover have "(64 * a1 + 16 * a0 + b1) mod 64 = 16 * a0 + b1"
    by (rule mod_of [of _ _ _ a1]) (use assms in simp_all)
  ultimately show "?n div 4096 mod 64 = 16 * a0 + b1" by (simp only:)
  have "?n div 64 = 4096 * a1 + 1024 * a0 + 64 * b1 + 4 * b0 + c1"
    by (rule div_of [of c0]) (use assms in simp_all)
  moreover have "(4096 * a1 + 1024 * a0 + 64 * b1 + 4 * b0 + c1) mod 64 = 4 * b0 + c1"
    by (rule mod_of [of _ _ _ "64 * a1 + 16 * a0 + b1"]) (use assms in simp_all)
  ultimately show "?n div 64 mod 64 = 4 * b0 + c1" by (simp only:)
  show "?n mod 64 = c0"
    by (rule mod_of [of _ _ _ "4096 * a1 + 1024 * a0 + 64 * b1 + 4 * b0 + c1"]) (use assms in simp_all)
qed

lemma decode_digits:
  assumes "a1 < 64" "a0 < 4" "b1 < 16" "b0 < 16" "c1 < 4" "c0 < (64::nat)"
  shows "decode64 0 0 (b64Digit a1 # b64Digit (16 * a0 + b1) # b64Digit (4 * b0 + c1) # b64Digit c0 # cs) =
    char_of (4 * a1 + a0) # char_of (16 * b1 + b0) # char_of (64 * c1 + c0) # decode64 0 0 cs"
proof -
  have "(a1 * 64 + (16 * a0 + b1)) div 16 = 4 * a1 + a0" "(a1 * 64 + (16 * a0 + b1)) mod 16 = b1"
    by (rule div_of [of b1], use assms in simp_all) (rule mod_of [of _ _ _ "4 * a1 + a0"], use assms in simp_all)
  moreover have "(b1 * 64 + (4 * b0 + c1)) div 4 = 16 * b1 + b0" "(b1 * 64 + (4 * b0 + c1)) mod 4 = c1"
    by (rule div_of [of c1], use assms in simp_all) (rule mod_of [of _ _ _ "16 * b1 + b0"], use assms in simp_all)
  ultimately show ?thesis using assms by (simp add: decode64_step)
qed

lemma decode_digits2:
  assumes "a1 < 64" "a0 < 4" "b1 < 16" "b0 < (16::nat)"
  shows "decode64 0 0 [b64Digit a1, b64Digit (16 * a0 + b1), b64Digit (4 * b0), CHR ''=''] =
    [char_of (4 * a1 + a0), char_of (16 * b1 + b0)]"
proof -
  have "(a1 * 64 + (16 * a0 + b1)) div 16 = 4 * a1 + a0" "(a1 * 64 + (16 * a0 + b1)) mod 16 = b1"
    by (rule div_of [of b1], use assms in simp_all) (rule mod_of [of _ _ _ "4 * a1 + a0"], use assms in simp_all)
  moreover have "(b1 * 64 + 4 * b0) div 4 = 16 * b1 + b0"
    by (rule div_of [of 0]) (use assms in simp_all)
  ultimately show ?thesis using assms by (simp add: decode64_step)
qed

lemma decode_digits1:
  assumes "a1 < 64" "a0 < (4::nat)"
  shows "decode64 0 0 [b64Digit a1, b64Digit (16 * a0), CHR ''='', CHR ''=''] = [char_of (4 * a1 + a0)]"
proof -
  have "(a1 * 64 + 16 * a0) div 16 = 4 * a1 + a0" by (rule div_of [of 0]) (use assms in simp_all)
  then show ?thesis using assms by (simp add: decode64_step)
qed

lemma byte_parts:
  assumes "0 < (k::nat)"
  obtains q r where "code c = k * q + r" "r < k" "q * k < 256"
proof
  show "code c = k * (code c div k) + code c mod k" by simp
  show "code c mod k < k" using assms by simp
  show "code c div k * k < 256"
    by (rule order.strict_trans1 [OF div_times_less_eq_dividend code_less_256])
qed

lemma fromBase64_toBase64 [simp]: "fromBase64 (toBase64 s) = s"
  unfolding fromBase64_def
proof (induction s rule: toBase64.induct)
  case (1 a b c bs)
  obtain a1 a0 where a: "code a = 4 * a1 + a0" "a0 < 4" "a1 * 4 < 256" using byte_parts [of 4 a] by auto
  obtain b1 b0 where b: "code b = 16 * b1 + b0" "b0 < 16" "b1 * 16 < 256" using byte_parts [of 16 b] by auto
  obtain c1 c0 where c: "code c = 64 * c1 + c0" "c0 < 64" "c1 * 64 < 256" using byte_parts [of 64 c] by auto
  have "b1 < 16" "c1 < 4" "a1 < 64" using a b c by simp_all
  then have "decode64 0 0 (toBase64 (a # b # c # bs)) =
      char_of (4 * a1 + a0) # char_of (16 * b1 + b0) # char_of (64 * c1 + c0) # decode64 0 0 (toBase64 bs)"
    using a b c by (simp only: toBase64.simps Let_def digits_of_group decode_digits)
  with 1 show ?case by (simp add: a(1) [symmetric] b(1) [symmetric] c(1) [symmetric])
next
  case (2 a b)
  obtain a1 a0 where a: "code a = 4 * a1 + a0" "a0 < 4" "a1 * 4 < 256" using byte_parts [of 4 a] by auto
  obtain b1 b0 where b: "code b = 16 * b1 + b0" "b0 < 16" "b1 * 16 < 256" using byte_parts [of 16 b] by auto
  have l: "b1 < 16" "a1 < 64" using a b by simp_all
  let ?n = "(4 * a1 + a0) * 1024 + (16 * b1 + b0) * 4"
  have n: "?n div 4096 = a1"
    by (rule div_of [of "a0 * 1024 + b1 * 64 + b0 * 4"]) (use a b l in simp_all)
  have "?n div 64 = 64 * a1 + 16 * a0 + b1" by (rule div_of [of "b0 * 4"]) (use b in simp_all)
  moreover have "(64 * a1 + 16 * a0 + b1) mod 64 = 16 * a0 + b1"
    by (rule mod_of [of _ _ _ a1]) (use a l in simp_all)
  ultimately have m: "?n div 64 mod 64 = 16 * a0 + b1" by (simp only:)
  have k: "?n mod 64 = 4 * b0" by (rule mod_of [of _ _ _ "64 * a1 + 16 * a0 + b1"]) (use b in simp_all)
  show ?case unfolding toBase64.simps Let_def a(1) b(1) n m k
    using a b l by (simp only: decode_digits2) (simp add: a(1) [symmetric] b(1) [symmetric])
next
  case (3 a)
  obtain a1 a0 where a: "code a = 4 * a1 + a0" "a0 < 4" "a1 * 4 < 256" using byte_parts [of 4 a] by auto
  have l: "a1 < 64" using a by simp
  have n: "(4 * a1 + a0) * 16 div 64 = a1" by (rule div_of [of "16 * a0"]) (use a in simp_all)
  have m: "(4 * a1 + a0) * 16 mod 64 = 16 * a0" by (rule mod_of [of _ _ _ a1]) (use a in simp_all)
  show ?case unfolding toBase64.simps Let_def a(1) n m
    using a l by (simp only: decode_digits1) (simp add: a(1) [symmetric])
qed simp

lemma b64Digit_code: "d < 64 \<Longrightarrow> code (b64Digit d) \<in> {43, 47} \<union> {48..57} \<union> {65..90} \<union> {97..122}"
  by (auto simp: b64Digit_def code_def of_char_of)

lemma b64Digit_no_semicolon: "d < 64 \<Longrightarrow> b64Digit d \<noteq> CHR '';''"
  using b64Digit_code [of d] by (auto simp: code_def)

lemma toBase64_no_semicolon: "CHR '';'' \<notin> set (toBase64 s)"
proof (induction s rule: toBase64.induct)
  case (1 a b c bs)
  have "(code a * 65536 + code b * 256 + code c) div 262144 < 64"
    by (rule less_mult_imp_div_less)
      (use code_less_256 [of a] code_less_256 [of b] code_less_256 [of c] in linarith)
  with 1 show ?case by (simp add: Let_def b64Digit_no_semicolon [symmetric])
next
  case (2 a b)
  have "(code a * 1024 + code b * 4) div 4096 < 64"
    by (rule less_mult_imp_div_less) (use code_less_256 [of a] code_less_256 [of b] in linarith)
  then show ?case by (simp add: Let_def b64Digit_no_semicolon [symmetric])
next
  case (3 a)
  have "code a * 16 div 64 < 64"
    by (rule less_mult_imp_div_less) (use code_less_256 [of a] in linarith)
  then show ?case by (simp add: Let_def b64Digit_no_semicolon [symmetric])
qed simp

end
