(* ===== verification/TapDriver.thy ===== *)
theory TapDriver
  imports Prelude
begin

text \<open>
  The TAP driver tool of the service (\<open>service/tapdriver.cpp\<close>) with the time limits of
  \<open>service/settings.cpp\<close>. The helper \<open>tapinstall.exe\<close> is outside the program: \<open>tapTool\<close>
  gives, for a command line, the chunks of output with their times and when it ends. The
  record \<open>tapDriver\<close> holds the members of the class and the commands it has started.
\<close>

section \<open>Settings\<close>

record settings =
  tapDeviceTimeoutValue :: int
  tapInstallTimeoutValue :: int
  tapRemoveTimeoutValue :: int
  tapCheckTimeoutValue :: int

definition newSettings :: settings where
  "newSettings = \<lparr>tapDeviceTimeoutValue = 40000, tapInstallTimeoutValue = 180000,
     tapRemoveTimeoutValue = 60000, tapCheckTimeoutValue = 30000\<rparr>"

definition setTapDeviceTimeout :: "int \<Rightarrow> settings \<Rightarrow> settings" where
  "setTapDeviceTimeout t s = s\<lparr>tapDeviceTimeoutValue := t\<rparr>"

definition setTapInstallTimeout :: "int \<Rightarrow> settings \<Rightarrow> settings" where
  "setTapInstallTimeout t s = s\<lparr>tapInstallTimeoutValue := t\<rparr>"

definition setTapRemoveTimeout :: "int \<Rightarrow> settings \<Rightarrow> settings" where
  "setTapRemoveTimeout t s = s\<lparr>tapRemoveTimeoutValue := t\<rparr>"

definition setTapCheckTimeout :: "int \<Rightarrow> settings \<Rightarrow> settings" where
  "setTapCheckTimeout t s = s\<lparr>tapCheckTimeoutValue := t\<rparr>"

section \<open>The tool and the driver object\<close>

text \<open>
  One run of the tool: chunks of output (time in milliseconds, standard output, standard
  error) in order, and the time it ends, \<open>None\<close> when it never does or does not start.
\<close>

record toolRun =
  chunks :: "(int \<times> string \<times> string) list"
  endsAt :: "int option"

record tapEnv =
  tapPortable :: bool
  tapWow64 :: bool
  tapAppDir :: string
  winMajor :: "nat option"
  tapTool :: "string \<Rightarrow> string list \<Rightarrow> toolRun"
  tapSettings :: settings

record tapDriver =
  tapDriverAvailable :: bool
  tapDriverInstalledSuccess :: bool
  tapDriverRemovedSuccess :: bool
  tapCount :: int
  waiting :: bool
  arch :: string
  started :: "(string \<times> string list) list"

definition newTapDriver :: "tapEnv \<Rightarrow> tapDriver" where
  "newTapDriver e = \<lparr>tapDriverAvailable = False, tapDriverInstalledSuccess = False,
     tapDriverRemovedSuccess = False, tapCount = 0, waiting = False,
     arch = (if tapWow64 e then ''x64'' else ''x32''), started = []\<rparr>"

definition binDir :: "tapEnv \<Rightarrow> tapDriver \<Rightarrow> string" where
  "binDir e t = ''/bin'' @ (if tapPortable e then qarg ''/%1'' (arch t) else [])"

definition toolPath :: "tapEnv \<Rightarrow> tapDriver \<Rightarrow> string" where
  "toolPath e t = tapAppDir e @ binDir e t @ ''/tapinstall.exe''"

text \<open>\<open>readDriverData\<close>: standard output first; the first text that fits sets one flag.\<close>

definition readDriverData :: "string \<Rightarrow> string \<Rightarrow> tapDriver \<Rightarrow> tapDriver" where
  "readDriverData out err t =
     (let line = (if out = [] then err else out) in
      if line = [] then t
      else if containsCI line ''TAP-Windows'' then t\<lparr>tapDriverAvailable := True\<rparr>
      else if containsCI line ''Drivers installed successfully.'' then t\<lparr>tapDriverInstalledSuccess := True\<rparr>
      else if containsCI line ''device(s) were removed.'' then t\<lparr>tapDriverRemovedSuccess := True\<rparr>
      else t)"

text \<open>
  \<open>waitForFinished\<close> delivers the output until the tool ends or the time is up, and says
  which.
\<close>

definition finishesIn :: "int \<Rightarrow> toolRun \<Rightarrow> bool" where
  "finishesIn limit r \<longleftrightarrow> (case endsAt r of None \<Rightarrow> False | Some t \<Rightarrow> limit < 0 \<or> t \<le> limit)"

definition outputIn :: "int \<Rightarrow> toolRun \<Rightarrow> (string \<times> string) list" where
  "outputIn limit r =
     map snd (if finishesIn limit r then chunks r else filter (\<lambda>c. fst c \<le> limit) (chunks r))"

definition runTool :: "tapEnv \<Rightarrow> int \<Rightarrow> string list \<Rightarrow> tapDriver \<Rightarrow> tapDriver \<times> bool" where
  "runTool e limit args t =
     (let run = tapTool e (toolPath e t) args;
          t1 = t\<lparr>started := started t @ [(toolPath e t, args)]\<rparr>
      in (fold (\<lambda>(out, err). readDriverData out err) (outputIn limit run) t1, finishesIn limit run))"

definition checkTapDriver :: "tapEnv \<Rightarrow> tapDriver \<Rightarrow> tapDriver" where
  "checkTapDriver e t = fst (runTool e (tapCheckTimeoutValue (tapSettings e)) [''hwids'', ''tap0901''] t)"

definition isTapDriverInstalled :: "tapEnv \<Rightarrow> tapDriver \<Rightarrow> tapDriver \<times> bool" where
  "isTapDriverInstalled e t =
     (let t1 = checkTapDriver e (t\<lparr>tapDriverAvailable := False\<rparr>) in (t1, tapDriverAvailable t1))"

text \<open>The driver description: Windows 10 is assumed unless an older version is found.\<close>

definition driverPath :: "tapEnv \<Rightarrow> tapDriver \<Rightarrow> string" where
  "driverPath e t =
     (let old = tapAppDir e @ binDir e t @ ''/driver/OemVista.inf'' in
      if \<not> tapPortable e then old
      else (case winMajor e of
              None \<Rightarrow> tapAppDir e @ binDir e t @ ''/driver/win10/OemVista.inf''
            | Some v \<Rightarrow> if v < 10 then old else tapAppDir e @ binDir e t @ ''/driver/win10/OemVista.inf''))"

definition installTapDriver :: "tapEnv \<Rightarrow> tapDriver \<Rightarrow> tapDriver \<times> bool" where
  "installTapDriver e t =
     (let t1 = t\<lparr>tapDriverInstalledSuccess := False\<rparr>;
          (t2, finished) = runTool e (tapInstallTimeoutValue (tapSettings e))
             [''install'', driverPath e t1, ''tap0901''] t1
      in (t2, finished \<and> tapDriverInstalledSuccess t2))"

definition removeTapDriver :: "tapEnv \<Rightarrow> tapDriver \<Rightarrow> tapDriver \<times> bool" where
  "removeTapDriver e t =
     (case isTapDriverInstalled e t of
        (t1, present) \<Rightarrow>
          if \<not> present then (t1, True)
          else (let (t2, finished) = runTool e (tapRemoveTimeoutValue (tapSettings e))
                      [''remove'', ''tap0901''] (t1\<lparr>tapDriverRemovedSuccess := False\<rparr>)
                in (t2, finished \<and> tapDriverRemovedSuccess t2)))"

section \<open>Counting the devices\<close>

definition countText :: string where
  "countText = ''matching device(s) found.''"

fun splitCRLF :: "string \<Rightarrow> string list" where
  "splitCRLF (c # d # ds) =
     (if c = CHR 0x0D \<and> d = CHR 0x0A then [] # splitCRLF ds
      else (c # hd (splitCRLF (d # ds))) # tl (splitCRLF (d # ds)))"
| "splitCRLF [c] = [[c]]"
| "splitCRLF [] = [[]]"

definition countLine :: "string \<Rightarrow> int \<Rightarrow> int" where
  "countLine s n =
     (if contains s countText then
        (case toIntOk (trimmed (qleft s (indexOf s countText))) of Some v \<Rightarrow> v | None \<Rightarrow> n)
      else n)"

definition readTapCount :: "string \<Rightarrow> string \<Rightarrow> tapDriver \<Rightarrow> tapDriver" where
  "readTapCount out err t =
     (let line = (if err = [] then out else err) in
      if line = [] then t
      else if containsCI line countText then
        t\<lparr>tapCount := fold countLine (splitCRLF line) 0, waiting := False\<rparr>
      else if startsWith line ''No matching devices found.'' then t\<lparr>tapCount := 0, waiting := False\<rparr>
      else t)"

text \<open>The loop ends at the first chunk that clears the flag, or when the time is up.\<close>

fun awaitCount :: "int \<Rightarrow> (int \<times> string \<times> string) list \<Rightarrow> tapDriver \<Rightarrow> tapDriver" where
  "awaitCount limit [] t = (if waiting t then t\<lparr>tapCount := -1\<rparr> else t)"
| "awaitCount limit ((time, out, err) # cs) t =
     (if \<not> waiting t then t
      else if limit < time then t\<lparr>tapCount := -1\<rparr>
      else awaitCount limit cs (readTapCount out err t))"

definition deviceCount :: "tapEnv \<Rightarrow> tapDriver \<Rightarrow> tapDriver \<times> int" where
  "deviceCount e t =
     (let args = [''hwids'', ''tap0901'']; run = tapTool e (toolPath e t) args;
          t1 = t\<lparr>waiting := True, started := started t @ [(toolPath e t, args)]\<rparr>;
          t2 = awaitCount (tapDeviceTimeoutValue (tapSettings e)) (chunks run) t1
      in (t2, tapCount t2))"

section \<open>What the results mean\<close>

text \<open>The output that one call of \<open>readDriverData\<close> looks at.\<close>

definition seen :: "string \<times> string \<Rightarrow> string" where
  "seen c = (if fst c = [] then snd c else fst c)"

definition tellsInstalled :: "string \<Rightarrow> bool" where
  "tellsInstalled l \<longleftrightarrow> \<not> containsCI l ''TAP-Windows'' \<and> containsCI l ''Drivers installed successfully.''"

definition tellsRemoved :: "string \<Rightarrow> bool" where
  "tellsRemoved l \<longleftrightarrow> \<not> containsCI l ''TAP-Windows'' \<and>
     \<not> containsCI l ''Drivers installed successfully.'' \<and> containsCI l ''device(s) were removed.''"

lemma contains_Nil [simp]: "p \<noteq> [] \<Longrightarrow> \<not> containsCI [] p"
  by (cases p) (simp_all add: containsCI_def contains_def)

lemma readDriverData_flags:
  "tapDriverInstalledSuccess (readDriverData out err t) \<longleftrightarrow>
     tapDriverInstalledSuccess t \<or> tellsInstalled (seen (out, err))"
  "tapDriverRemovedSuccess (readDriverData out err t) \<longleftrightarrow>
     tapDriverRemovedSuccess t \<or> tellsRemoved (seen (out, err))"
  "tapDriverAvailable (readDriverData out err t) \<longleftrightarrow>
     tapDriverAvailable t \<or> containsCI (seen (out, err)) ''TAP-Windows''"
  "started (readDriverData out err t) = started t"
  by (simp_all add: readDriverData_def tellsInstalled_def tellsRemoved_def seen_def Let_def)

lemma fold_readDriverData:
  "tapDriverInstalledSuccess (fold (\<lambda>(out, err). readDriverData out err) cs t) \<longleftrightarrow>
     tapDriverInstalledSuccess t \<or> (\<exists>c \<in> set cs. tellsInstalled (seen c))"
  "tapDriverRemovedSuccess (fold (\<lambda>(out, err). readDriverData out err) cs t) \<longleftrightarrow>
     tapDriverRemovedSuccess t \<or> (\<exists>c \<in> set cs. tellsRemoved (seen c))"
  "tapDriverAvailable (fold (\<lambda>(out, err). readDriverData out err) cs t) \<longleftrightarrow>
     tapDriverAvailable t \<or> (\<exists>c \<in> set cs. containsCI (seen c) ''TAP-Windows'')"
  "started (fold (\<lambda>(out, err). readDriverData out err) cs t) = started t"
  by (induction cs arbitrary: t) (auto simp: readDriverData_flags)

lemma fold_arch [simp]: "arch (fold (\<lambda>(out, err). readDriverData out err) cs t) = arch t"
  by (induction cs arbitrary: t) (auto simp: readDriverData_def Let_def)

lemma toolPath_cong: "arch t = arch t' \<Longrightarrow> toolPath e t = toolPath e t'"
  by (simp add: toolPath_def binDir_def)

lemma runTool_result:
  "snd (runTool e limit args t) = finishesIn limit (tapTool e (toolPath e t) args)"
  "tapDriverInstalledSuccess (fst (runTool e limit args t)) \<longleftrightarrow> tapDriverInstalledSuccess t \<or>
     (\<exists>c \<in> set (outputIn limit (tapTool e (toolPath e t) args)). tellsInstalled (seen c))"
  "tapDriverRemovedSuccess (fst (runTool e limit args t)) \<longleftrightarrow> tapDriverRemovedSuccess t \<or>
     (\<exists>c \<in> set (outputIn limit (tapTool e (toolPath e t) args)). tellsRemoved (seen c))"
  "tapDriverAvailable (fst (runTool e limit args t)) \<longleftrightarrow> tapDriverAvailable t \<or>
     (\<exists>c \<in> set (outputIn limit (tapTool e (toolPath e t) args)). containsCI (seen c) ''TAP-Windows'')"
  "started (fst (runTool e limit args t)) = started t @ [(toolPath e t, args)]"
  "arch (fst (runTool e limit args t)) = arch t"
  by (simp_all add: runTool_def Let_def fold_readDriverData)

text \<open>
  Installing succeeds exactly when the tool ended within the time limit and told so, and
  one command was started, the installation of the driver for this Windows version; removing
  succeeds without starting the removal when no device is there, and otherwise exactly when
  the tool ended in time and told so.
\<close>

theorem tap_results_are_the_tools:
  shows "(let path = toolPath e t; install = [''install'', driverPath e t, ''tap0901''];
       limit = tapInstallTimeoutValue (tapSettings e)
     in snd (installTapDriver e t) =
          (finishesIn limit (tapTool e path install) \<and>
           (\<exists>c \<in> set (outputIn limit (tapTool e path install)). tellsInstalled (seen c))) \<and>
        started (fst (installTapDriver e t)) = started t @ [(path, install)]) \<and>
   (let path = toolPath e t; check = [''hwids'', ''tap0901'']; remove = [''remove'', ''tap0901''];
       limit = tapRemoveTimeoutValue (tapSettings e);
       present = (\<exists>c \<in> set (outputIn (tapCheckTimeoutValue (tapSettings e)) (tapTool e path check)).
         containsCI (seen c) ''TAP-Windows'')
     in snd (removeTapDriver e t) =
          (if present then finishesIn limit (tapTool e path remove) \<and>
             (\<exists>c \<in> set (outputIn limit (tapTool e path remove)). tellsRemoved (seen c))
           else True) \<and>
        started (fst (removeTapDriver e t)) =
          started t @ (path, check) # (if present then [(path, remove)] else []))"
proof -
  have p: "toolPath e (t'\<lparr>tapDriverInstalledSuccess := b\<rparr>) = toolPath e t'"
    "toolPath e (t'\<lparr>tapDriverAvailable := b\<rparr>) = toolPath e t'"
    "toolPath e (t'\<lparr>tapDriverRemovedSuccess := b\<rparr>) = toolPath e t'" for t' b
    by (rule toolPath_cong, simp)+
  have d: "driverPath e (t\<lparr>tapDriverInstalledSuccess := False\<rparr>) = driverPath e t"
    by (simp add: driverPath_def binDir_def split: option.splits)
  define t1 where "t1 = checkTapDriver e (t\<lparr>tapDriverAvailable := False\<rparr>)"
  have t1: "tapDriverAvailable t1 \<longleftrightarrow> (\<exists>c \<in> set (outputIn (tapCheckTimeoutValue (tapSettings e))
       (tapTool e (toolPath e t) [''hwids'', ''tap0901''])). containsCI (seen c) ''TAP-Windows'')"
    "started t1 = started t @ [(toolPath e t, [''hwids'', ''tap0901''])]"
    by (simp_all add: t1_def checkTapDriver_def runTool_result p)
  have t2: "toolPath e t1 = toolPath e t"
    by (rule toolPath_cong) (simp add: t1_def checkTapDriver_def runTool_result)
  have i: "snd (installTapDriver e t) =
      (finishesIn (tapInstallTimeoutValue (tapSettings e))
         (tapTool e (toolPath e t) [''install'', driverPath e t, ''tap0901'']) \<and>
       (\<exists>c \<in> set (outputIn (tapInstallTimeoutValue (tapSettings e))
         (tapTool e (toolPath e t) [''install'', driverPath e t, ''tap0901''])). tellsInstalled (seen c)))"
    "started (fst (installTapDriver e t)) =
       started t @ [(toolPath e t, [''install'', driverPath e t, ''tap0901''])]"
    by (simp_all add: installTapDriver_def Let_def case_prod_beta runTool_result p d)
  have r: "snd (removeTapDriver e t) = (if tapDriverAvailable t1 then
        finishesIn (tapRemoveTimeoutValue (tapSettings e)) (tapTool e (toolPath e t) [''remove'', ''tap0901'']) \<and>
        (\<exists>c \<in> set (outputIn (tapRemoveTimeoutValue (tapSettings e))
          (tapTool e (toolPath e t) [''remove'', ''tap0901''])). tellsRemoved (seen c))
      else True)"
    "started (fst (removeTapDriver e t)) =
       started t1 @ (if tapDriverAvailable t1 then [(toolPath e t, [''remove'', ''tap0901''])] else [])"
    by (simp_all add: removeTapDriver_def isTapDriverInstalled_def Let_def case_prod_beta t1_def [symmetric]
      runTool_result p t2)
  show ?thesis unfolding Let_def i r t1 by simp
qed

lemma splitCRLF_line:
  "CHR 0x0D \<notin> set w \<Longrightarrow> splitCRLF (w @ CHR 0x0D # CHR 0x0A # r) = w # splitCRLF r"
proof (induction w)
  case (Cons c w)
  then show ?case by (cases w) auto
qed simp

lemma awaitCount_done: "\<not> waiting t \<Longrightarrow> awaitCount limit cs t = t"
  by (cases cs) auto

lemma number_no_control: "code c < 45 \<Longrightarrow> c \<notin> set (number i)"
  using number_codes [of c i] by auto

lemma trimmed_number_space: "trimmed (number i @ '' '') = number i"
proof -
  have n: "\<not> isSpace (hd (number i))" "\<not> isSpace (last (number i))"
    using number_no_space [of _ i] by (simp_all add: hd_in_set)
  then have "dropWhile isSpace (number i @ '' '') = number i @ '' ''"
    by (simp add: dropWhile_eq_self_iff)
  moreover have "isSpace CHR '' ''" by (simp add: isSpace_def code_def)
  moreover have "dropWhile isSpace (rev (number i)) = rev (number i)"
    using n by (simp add: dropWhile_eq_self_iff hd_rev)
  ultimately show ?thesis by (simp add: trimmed_def)
qed

text \<open>
  When the tool reports \<open>n\<close> matching devices on a line of its own, after lines that say
  nothing of the kind and before the time is up, the count is \<open>n\<close>.
\<close>

theorem device_count_is_reported:
  assumes "inInt32 n" and "now \<le> tapDeviceTimeoutValue (tapSettings e)"
    and "CHR 0x0D \<notin> set pre" and "\<not> contains pre countText"
    and "chunks (tapTool e (toolPath e t) [''hwids'', ''tap0901'']) =
      (now, pre @ CHR 0x0D # CHR 0x0A # number n @ '' '' @ countText @ [CHR 0x0D, CHR 0x0A], []) # later"
  shows "snd (deviceCount e t) = n"
proof -
  let ?l = "number n @ '' '' @ countText"
  let ?out = "pre @ CHR 0x0D # CHR 0x0A # ?l @ [CHR 0x0D, CHR 0x0A]"
  have "CHR 0x0D \<notin> set ?l"
    using number_no_control [of "CHR 0x0D" n] by (simp add: countText_def code_def)
  then have s: "splitCRLF ?out = [pre, ?l, []]"
    using splitCRLF_line [OF assms(3), of "?l @ [CHR 0x0D, CHR 0x0A]"] splitCRLF_line [of ?l "[]"] by simp
  have "CHR ''m'' \<notin> set (number n @ '' '')" using number_fresh [of "CHR ''m''" n] by (simp add: code_def)
  then have "find_sub countText ?l = Some (length (number n @ '' ''))"
    using find_sub_head [of countText "number n @ '' ''" "[]"] by (simp add: countText_def)
  then have i: "contains ?l countText" "qleft ?l (indexOf ?l countText) = number n @ '' ''"
    using qleft_append [of countText "number n @ '' ''"]
    by (simp_all add: contains_def indexOf_def index_or_minus_one_def countText_def)
  have "countLine ?l 0 = n"
    using assms(1) i toIntOk_number by (simp add: countLine_def trimmed_number_space)
  moreover have "\<not> contains [] countText" by (simp add: contains_def countText_def)
  ultimately have "fold countLine (splitCRLF ?out) 0 = n"
    unfolding s using assms(4) by (simp add: countLine_def [of pre] countLine_def [of "[]"])
  moreover have "containsCI ?out countText"
    using contains_append [of "pre @ CHR 0x0D # CHR 0x0A # number n @ '' ''" countText]
    by (intro contains_toLower) simp
  ultimately have "tapCount (readTapCount ?out [] t') = n \<and> \<not> waiting (readTapCount ?out [] t')" for t'
    by (simp add: readTapCount_def Let_def)
  then show ?thesis using assms(2,5)
    by (simp add: deviceCount_def Let_def awaitCount_done)
qed

lemma device_count_is_reported_witness:
  "snd (deviceCount \<lparr>tapPortable = False, tapWow64 = True, tapAppDir = ''C:/SSL'', winMajor = None,
      tapTool = (\<lambda>p a. \<lparr>chunks = [(10, ''ROOT'' @ CHR 0x0D # CHR 0x0A # number 2 @ '' '' @ countText @
        [CHR 0x0D, CHR 0x0A], [])], endsAt = Some 20\<rparr>), tapSettings = newSettings\<rparr>
      \<lparr>tapDriverAvailable = False, tapDriverInstalledSuccess = False, tapDriverRemovedSuccess = False,
        tapCount = 0, waiting = False, arch = ''x64'', started = []\<rparr>) = 2"
  by (rule device_count_is_reported [where now = 10 and pre = "''ROOT''" and later = "[]"])
    (simp_all add: inInt32_def newSettings_def contains_def countText_def)

end
