(* ===== verification/Connection.thy ===== *)
theory Connection
  imports Wire OpenVpn Encoding TapDriver
begin

text \<open>
  The connections of the service: \<open>service/sslserverconnection.cpp\<close> with the list of
  \<open>service/sslconnections.cpp\<close> and the sender of \<open>service/srvcli.cpp\<close>. The state \<open>svc\<close>
  holds the connections in the order of the server's list, keyed by their thread id, the disk
  and the registry; a command is a function on it, called by one connection. Each branch of
  \<open>slotStartRead\<close> is one definition; \<open>dispatch\<close> composes them. The commands run one after
  another in the server's thread, and nested event processing is taken to deliver nothing.
\<close>

section \<open>State\<close>

record conn =
  connId :: nat
  connName :: string
  online :: bool
  sent :: "(string \<times> string) list"
  vpnList :: "(int \<times> openvpn) list"
  receiver :: rx

text \<open>
  \<open>misuse\<close> is set when the code reads outside a list, which C++ leaves undefined.
\<close>

record svc =
  conns :: "(nat \<times> conn) list"
  sdisk :: fsys
  registry :: "(string \<times> string) list"
  nextThread :: nat
  signals :: "string list"
  misuse :: bool

text \<open>
  What the connection asks of its surroundings besides \<open>env\<close>: the hash function (lower-case
  hexadecimal of a byte string), the decoder of UTF-8, a fresh UUID, the TAP tool.
\<close>

record senv =
  os :: env
  sha256hex :: "string \<Rightarrow> string"
  fromUtf8 :: "string \<Rightarrow> string"
  uuid :: string
  tap :: tapEnv

datatype outcome = Continue | Return

section \<open>SslConnections\<close>

text \<open>
  \<open>element\<close> checks the upper bound only: a negative index is out of range.
\<close>

datatype 'a element = Null | Element 'a | OutOfRange

definition element :: "int \<Rightarrow> 'a list \<Rightarrow> 'a element" where
  "element i l = (if i < int (length l) then (if 0 \<le> i then Element (l ! nat i) else OutOfRange) else Null)"

definition addConnection :: "nat \<Rightarrow> conn \<Rightarrow> (nat \<times> conn) list \<Rightarrow> (nat \<times> conn) list" where
  "addConnection t c l = assoc_put t c l"

definition removeConnection :: "nat \<Rightarrow> (nat \<times> conn) list \<Rightarrow> (nat \<times> conn) list" where
  "removeConnection t l = assoc_del t l"

fun indexOfConnection :: "nat \<Rightarrow> (nat \<times> conn) list \<Rightarrow> int" where
  "indexOfConnection t [] = -1"
| "indexOfConnection t ((t', c) # l) =
     (if t' = t then 0 else (let i = indexOfConnection t l in if i = -1 then -1 else i + 1))"

section \<open>Sending\<close>

text \<open>
  \<open>SrvCLI::send(command, params)\<close>: \<open>params\<close> is the kind of the message and goes first. A
  \<open>LOG\<close> text longer than 300 characters is skipped.
\<close>

definition sendText :: "string \<Rightarrow> string \<Rightarrow> conn \<Rightarrow> conn" where
  "sendText text kind c =
     (if \<not> online c then c
      else if toUpper kind = ''LOG'' \<and> 300 < length text then c
      else c\<lparr>sent := sent c @ [(kind, text)]\<rparr>)"

definition getConn :: "nat \<Rightarrow> svc \<Rightarrow> conn option" where
  "getConn t s = map_of (conns s) t"

definition onConn :: "nat \<Rightarrow> (conn \<Rightarrow> conn) \<Rightarrow> svc \<Rightarrow> svc" where
  "onConn t f s = s\<lparr>conns := assoc_upd t f (conns s)\<rparr>"

definition tell :: "nat \<Rightarrow> string \<Rightarrow> string \<Rightarrow> svc \<Rightarrow> svc" where
  "tell t text kind s = onConn t (sendText text kind) s"

section \<open>Sessions of a connection\<close>

definition foundItemInList :: "int \<Rightarrow> conn \<Rightarrow> openvpn option" where
  "foundItemInList i c = map_of (vpnList c) i"

definition removeItemFromList :: "int \<Rightarrow> conn \<Rightarrow> conn" where
  "removeItemFromList i c = c\<lparr>vpnList := assoc_del i (vpnList c)\<rparr>"

text \<open>What a session emits is delivered in order: messages by the connection's sender.\<close>

fun deliver :: "nat \<Rightarrow> out \<Rightarrow> svc \<Rightarrow> svc" where
  "deliver t (Send text kind) s = tell t text kind s"
| "deliver t (EmitRemove i) s = onConn t (removeItemFromList i) s"
| "deliver t (SetExitEvent n) s = s\<lparr>signals := signals s @ [n]\<rparr>"

definition lookupVpn :: "nat \<Rightarrow> int \<Rightarrow> svc \<Rightarrow> openvpn option" where
  "lookupVpn t i s = (case getConn t s of None \<Rightarrow> None | Some c \<Rightarrow> foundItemInList i c)"

definition onVpn :: "nat \<Rightarrow> int \<Rightarrow> (run \<Rightarrow> run) \<Rightarrow> svc \<Rightarrow> svc" where
  "onVpn t i f s =
     (case lookupVpn t i s of
        None \<Rightarrow> s
      | Some v \<Rightarrow>
          (let r = f \<lparr>self = v, disk = sdisk s, outs = []\<rparr>;
               s1 = onConn t (\<lambda>c. c\<lparr>vpnList := assoc_upd i (\<lambda>_. self r) (vpnList c)\<rparr>) s
           in fold (deliver t) (outs r) (s1\<lparr>sdisk := disk r\<rparr>)))"

section \<open>OPEN\<close>

record request =
  configId :: int
  username :: string
  userSID :: string
  configFullPath :: string
  content64 :: string
  interact :: string
  proxy :: string

definition parseOpen :: "string \<Rightarrow> request option" where
  "parseOpen params =
     (let fields = splitOn CHR '';'' params in
      if length fields = 8 then
        Some \<lparr>configId = toInt (fields ! 0), username = fields ! 1, userSID = fields ! 2,
          configFullPath = fields ! 3, content64 = fields ! 4, interact = fields ! 5,
          proxy = fields ! 6\<rparr>
      else None)"

definition directoryOf :: "string \<Rightarrow> string" where
  "directoryOf p = qleft p (lastIndexOf p CHR ''/'')"

definition baseNameOf :: "string \<Rightarrow> string" where
  "baseNameOf p =
     (let n = qright p (int (length p) - lastIndexOf p CHR ''/'' - 1) in qleft n (int (length n) - 5))"

text \<open>The loop over the lines: \<open>None\<close> when the configuration is rejected.\<close>

definition scriptSecurityError :: "string \<Rightarrow> bool" where
  "scriptSecurityError line =
     (let keyValue = splitOn CHR '' '' line in
      if length keyValue \<noteq> 2 then True else \<not> (keyValue ! 1 = ''0'' \<or> keyValue ! 1 = ''1''))"

fun sanitize :: "string list \<Rightarrow> string list option" where
  "sanitize [] = Some []"
| "sanitize (l # ls) =
     (let line = simplified l in
      if startsWith line ''#'' then sanitize ls
      else if startsWith (toLower line) ''win-sys'' then sanitize ls
      else if startsWith (toLower line) ''script-security'' \<and> scriptSecurityError line then None
      else map_option ((#) line) (sanitize ls))"

definition configLines :: "string \<Rightarrow> string list" where
  "configLines content = splitOn CHR 0x0A (qreplace content [CHR 0x0D, CHR 0x0A] [CHR 0x0A])"

definition checksumKey :: "string \<Rightarrow> int \<Rightarrow> string" where
  "checksumKey sid i = qarg (qarg ''Users/%1/Security/%2/Checksum'' sid) (number i)"

definition regValue :: "string \<Rightarrow> svc \<Rightarrow> string" where
  "regValue k s = (case map_of (registry s) k of None \<Rightarrow> [] | Some v \<Rightarrow> v)"

text \<open>
  The steps of a request outside portable mode: \<open>Inl\<close> is a refusal (the error has been sent),
  \<open>Inr\<close> what the next step gets.
\<close>

definition refuse :: "nat \<Rightarrow> string \<Rightarrow> svc \<Rightarrow> svc + 'a" where
  "refuse t text s = Inl (tell t text ''ERROR'' s)"

definition checkChecksum :: "senv \<Rightarrow> nat \<Rightarrow> request \<Rightarrow> svc \<Rightarrow> svc + string \<times> svc" where
  "checkChecksum e t q s =
     (let content = fromUtf8 e (fromBase64 (utf8 (content64 q))) in
      if content = [] then
        refuse t (qarg (qarg (''%1;Empty configuration file found %2'' @ nl) (number (configId q)))
          (configFullPath q)) s
      else
        (let hash = sha256hex e (utf8 content);
             registryHash = regValue (checksumKey (userSID q) (configId q)) s
         in if simplified registryHash = [] then Inr (content, s)
            else if registryHash \<noteq> hash then
              refuse t (qarg (qarg (qarg (qarg (''%1;Checksum error, rejecting connect request! %2 Getting %3 expecting %4.'' @ nl)
                (number (configId q))) (configFullPath q)) hash) registryHash) s
            else Inr (content, tell t (qarg (qarg (''%1;Checksum %2 is okay'' @ nl)
                   (number (configId q))) hash) ''LOG'' s)))"

definition scriptSecurityText :: string where
  "scriptSecurityText = ''Unsafe configuration found: use of script-security greater than 1. This connection is rejected! For further informations see: https://openvpn.net/community-resources/reference-manual-for-openvpn-2-4, section: script-security level''"

definition vaultOf :: "senv \<Rightarrow> string" where
  "vaultOf e = appDir (os e) @ ''/vault''"

definition writeVault :: "senv \<Rightarrow> nat \<Rightarrow> request \<Rightarrow> string \<Rightarrow> svc \<Rightarrow> svc + string \<times> svc" where
  "writeVault e t q content s =
     (let allUsersVault = vaultOf e;
          usersVault = appDir (os e) @ ''/vault/'' @ userSID q;
          name = qreplace (qreplace (uuid e) ''{'' []) ''}'' [];
          d1 = (if dirExists (sdisk s) allUsersVault then removeRecursively allUsersVault (sdisk s)
                else sdisk s);
          s1 = s\<lparr>sdisk := d1\<rparr>
      in if \<not> mayMkpath (os e) usersVault then
           refuse t (qarg (''%1;Can'' @ [CHR 0x27] @ ''t create configuration vault.'' @ nl) (number (configId q))) s1
         else
           (let s2 = s1\<lparr>sdisk := mkpath usersVault d1\<rparr>;
                file = usersVault @ ''/'' @ name @ ''.ovpn''
            in if \<not> mayWrite (os e) file then
                 refuse t (qarg (''%1;Can'' @ [CHR 0x27] @ ''t write configuration file.'' @ nl) (number (configId q))) s2
               else Inr (name, s2\<lparr>sdisk := writeFile file (utf8 content) (sdisk s2)\<rparr>)))"

definition prepareConfig :: "senv \<Rightarrow> nat \<Rightarrow> request \<Rightarrow> svc \<Rightarrow> svc + string \<times> svc" where
  "prepareConfig e t q s =
     (case checkChecksum e t q s of
        Inl s1 \<Rightarrow> Inl s1
      | Inr (content, s1) \<Rightarrow>
          (case sanitize (configLines content) of
             None \<Rightarrow> refuse t (qarg (qarg ''%1;%2'' (number (configId q))) scriptSecurityText) s1
           | Some ls \<Rightarrow> writeVault e t q (joinWith [CHR 0x0A] ls) s1))"

text \<open>The new object, its place in the list, the notice and the call of \<open>connectToVpn\<close>.\<close>

definition buildVpn :: "request \<Rightarrow> string \<Rightarrow> string \<Rightarrow> string \<Rightarrow> string \<Rightarrow> openvpn" where
  "buildVpn q path name userVaultName allVaults =
     setOriginConfigPath (directoryOf (configFullPath q)) (setVaultDirName allVaults
       (setUserVaultDirName userVaultName (setId (configId q) (setProxyString (proxy q)
         (setUseInteract (interact q) (setConfigName name (setConfigPath path newOpenVpn)))))))"

definition startSession :: "senv \<Rightarrow> nat \<Rightarrow> request \<Rightarrow> string \<Rightarrow> string \<Rightarrow> string \<Rightarrow> string \<Rightarrow> svc \<Rightarrow> svc" where
  "startSession e t q path name userVaultName allVaults s =
     (let v = buildVpn q path name userVaultName allVaults;
          s1 = onConn t (\<lambda>c. c\<lparr>vpnList := assoc_put (configId q) v (vpnList c)\<rparr>) s;
          s2 = tell t (qarg (qarg (qarg (''%2;Try to start OpenVPN connection %1 %3'' @ nl) name)
                 (number (configId q))) path) ''LOG'' s1
      in onVpn t (configId q) (connectToVpn (os e)) s2)"

definition openNew :: "senv \<Rightarrow> nat \<Rightarrow> request \<Rightarrow> svc \<Rightarrow> svc \<times> outcome" where
  "openNew e t q s =
     (if portable (os e) then
        (startSession e t q (directoryOf (configFullPath q)) (baseNameOf (configFullPath q)) [] [] s,
         Continue)
      else (case prepareConfig e t q s of
              Inl s1 \<Rightarrow> (s1, Return)
            | Inr (name, s1) \<Rightarrow>
                (startSession e t q (appDir (os e) @ ''/vault/'' @ userSID q) name (userSID q)
                   (vaultOf e) s1, Continue)))"

definition cmdOpen :: "senv \<Rightarrow> nat \<Rightarrow> string \<Rightarrow> svc \<Rightarrow> svc \<times> outcome" where
  "cmdOpen e t params s =
     (case parseOpen params of
        None \<Rightarrow> (s, Continue)
      | Some q \<Rightarrow>
          (case lookupVpn t (configId q) s of
             Some v \<Rightarrow>
               (if connectionStable v \<or> connecting v then (onVpn t (configId q) sendStatus s, Continue)
                else openNew e t q (onConn t (removeItemFromList (vpnId v)) s))
           | None \<Rightarrow> openNew e t q s))"

section \<open>Rewriting a path of the configuration\<close>

text \<open>
  \<open>rewriteConfigPath\<close> is not called any more. For a value with a backslash it passes a
  pointer one before the literal to \<open>lastIndexOf\<close>, which C++ leaves undefined (\<open>None\<close>).
\<close>

datatype configPathType = CA | CERT | EXTRA_CERTS | KEY | AUTH | DH | SECRET | TLS_AUTH | PKCS12 | TLS_CRYPT

fun settingName :: "configPathType \<Rightarrow> string" where
  "settingName CA = ''ca''" | "settingName CERT = ''cert''" | "settingName KEY = ''key''"
| "settingName AUTH = ''auth-user-pass''" | "settingName EXTRA_CERTS = ''extra-certs''"
| "settingName SECRET = ''secret''" | "settingName TLS_AUTH = ''tls-auth''"
| "settingName DH = ''dh''" | "settingName PKCS12 = ''pkcs12''" | "settingName TLS_CRYPT = ''tls-crypt''"

definition rewriteConfigPath :: "string \<Rightarrow> string \<Rightarrow> configPathType \<Rightarrow> string option" where
  "rewriteConfigPath origin newPathDirectory ty =
     (let p = indexOf origin '' '' in
      if newPathDirectory = [] \<or> p = -1 then Some []
      else (let name = simplified (qreplace (qreplace (qright origin (int (length origin) - p - 1))
                  [CHR 0x27] []) [CHR 0x22] [])
            in if -1 < indexOf name [CHR 0x5C] then None
               else Some (qarg (qarg (qarg ([CHR ''%'', CHR ''1'', CHR '' '', CHR 0x22] @ ''%2'' @
                      [CHR 0x5C, CHR 0x5C] @ ''%3'' @ [CHR 0x22]) (settingName ty))
                      (qreplace newPathDirectory ''/'' [CHR 0x5C, CHR 0x5C])) name)))"

section \<open>CLOSE and STATUS\<close>

text \<open>The first other connection with the id given; \<open>getId()\<close> is a 32-bit unsigned number.\<close>

definition otherWithId :: "nat \<Rightarrow> int \<Rightarrow> svc \<Rightarrow> nat option" where
  "otherWithId t clientId s =
     map_option fst (find (\<lambda>(t', c). t' \<noteq> t \<and> connId c = nat (clientId mod 2 ^ 32)) (conns s))"

definition cmdClose :: "senv \<Rightarrow> nat \<Rightarrow> string \<Rightarrow> svc \<Rightarrow> svc \<times> outcome" where
  "cmdClose e t params s =
     (if params = [] then (s, Continue)
      else if 0 < indexOf params '';'' then
        (let ids = splitOn CHR '';'' params in
         if length ids \<noteq> 2 then (s, Continue)
         else (case otherWithId t (toInt (ids ! 0)) s of
                 None \<Rightarrow> (s, Continue)
               | Some t' \<Rightarrow> (onVpn t' (toInt (ids ! 1)) (disconnectVpn (os e) False) s, Continue)))
      else (onVpn t (toInt params) (disconnectVpn (os e) False) s, Continue))"

definition cmdStatus :: "nat \<Rightarrow> string \<Rightarrow> svc \<Rightarrow> svc \<times> outcome" where
  "cmdStatus t params s =
     (if params = [] then (s, Continue)
      else (case lookupVpn t (toInt params) s of
              None \<Rightarrow> (tell t (qarg (qarg (qarg (qarg (qarg ''%1;%2;%3;%4;%5'' (number (toInt params)))
                   ''0'') ''0'') (number (-1))) []) ''STATUS'' s, Continue)
            | Some v \<Rightarrow> (onVpn t (toInt params) sendStatus s, Continue)))"

section \<open>Answers of the user\<close>

text \<open>\<open>id;answer\<close>: everything after the first semicolon is the answer.\<close>

definition answer :: "(string \<Rightarrow> openvpn \<Rightarrow> openvpn) \<Rightarrow> nat \<Rightarrow> string \<Rightarrow> svc \<Rightarrow> svc \<times> outcome" where
  "answer setter t params s =
     (if params = [] then (s, Continue)
      else (let index = indexOf params '';'' in
            if index \<noteq> -1 then
              (onVpn t (toInt (qleft params index))
                 (modify (setter (qright params (int (length params) - index - 1)))) s, Continue)
            else (s, Continue)))"

definition cmdUserNeeded :: "nat \<Rightarrow> string \<Rightarrow> svc \<Rightarrow> svc \<times> outcome" where
  "cmdUserNeeded = answer setUsername"

definition cmdPkNeeded :: "nat \<Rightarrow> string \<Rightarrow> svc \<Rightarrow> svc \<times> outcome" where
  "cmdPkNeeded = answer setPrivateKey"

definition cmdPwdNeeded :: "nat \<Rightarrow> string \<Rightarrow> svc \<Rightarrow> svc \<times> outcome" where
  "cmdPwdNeeded = answer setPassword"

definition cmdCkNeeded :: "nat \<Rightarrow> string \<Rightarrow> svc \<Rightarrow> svc \<times> outcome" where
  "cmdCkNeeded = answer setChallengeKey"

definition cmdHttpUserNeeded :: "nat \<Rightarrow> string \<Rightarrow> svc \<Rightarrow> svc \<times> outcome" where
  "cmdHttpUserNeeded = answer setUsername"

definition cmdHttpPassNeeded :: "nat \<Rightarrow> string \<Rightarrow> svc \<Rightarrow> svc \<times> outcome" where
  "cmdHttpPassNeeded = answer setPassword"

section \<open>TAP devices\<close>

definition cmdAddTap :: "senv \<Rightarrow> nat \<Rightarrow> svc \<Rightarrow> svc \<times> outcome" where
  "cmdAddTap e t s =
     (if snd (installTapDriver (tap e) (newTapDriver (tap e)))
      then (tell t ''OK'' ''TAPINSTALL'' s, Continue)
      else (tell t ''ERROR'' ''TAPINSTALL'' s, Continue))"

definition cmdTapCount :: "senv \<Rightarrow> nat \<Rightarrow> svc \<Rightarrow> svc \<times> outcome" where
  "cmdTapCount e t s =
     (tell t (qarg ''%1'' (number (snd (deviceCount (tap e) (newTapDriver (tap e)))))) ''TAPCOUNT'' s,
      Continue)"

definition cmdRemoveTap :: "senv \<Rightarrow> nat \<Rightarrow> svc \<Rightarrow> svc \<times> outcome" where
  "cmdRemoveTap e t s =
     (if snd (removeTapDriver (tap e) (newTapDriver (tap e)))
      then (tell t ''OK'' ''TAPREMOVE'' s, Continue)
      else (tell t ''ERROR'' ''TAPREMOVE'' s, Continue))"

section \<open>Commands between clients\<close>

definition cmdDummy :: "nat \<Rightarrow> string \<Rightarrow> svc \<Rightarrow> svc \<times> outcome" where
  "cmdDummy t params s =
     (let s1 = onConn t (\<lambda>c. c\<lparr>connName := params\<rparr>) s in
      (case getConn t s1 of
         None \<Rightarrow> (s1, Continue)
       | Some c \<Rightarrow> (tell t (qarg ''Ok;%1'' (number (int (connId c)))) ''DUMMY'' s1, Continue)))"

definition clientEntry :: "conn \<Rightarrow> string" where
  "clientEntry c = connName c @ qarg '' %1'' (number (int (connId c))) @ nl"

definition cmdGetClients :: "nat \<Rightarrow> svc \<Rightarrow> svc \<times> outcome" where
  "cmdGetClients t s =
     (tell t (concat (map (clientEntry \<circ> snd) (filter (\<lambda>(t', c). t' \<noteq> t) (conns s)))) ''GET_CLIENTS'' s,
      Continue)"

text \<open>
  Routing by list index: the part before the first semicolon names the connection, \<open>forward\<close>
  makes the text for it from the rest, \<open>failure\<close> is the text for the sender.
\<close>

definition route :: "(string \<Rightarrow> string) \<Rightarrow> string \<Rightarrow> string \<Rightarrow> nat \<Rightarrow> string \<Rightarrow> svc \<Rightarrow> svc" where
  "route forward kind failure t params s =
     (let index = indexOf params '';'' in
      if index = -1 then s
      else (case element (toInt (qleft params index)) (conns s) of
              OutOfRange \<Rightarrow> s\<lparr>misuse := True\<rparr>
            | Null \<Rightarrow> tell t failure ''ERROR'' s
            | Element (t', c) \<Rightarrow>
                tell t' (forward (qright params (int (length params) - index - 1))) kind s))"

definition askText :: "nat \<Rightarrow> svc \<Rightarrow> string \<Rightarrow> string" where
  "askText t s rest =
     (let own = (case getConn t s of None \<Rightarrow> 0 | Some c \<Rightarrow> connId c) in
      qarg (qarg ''%1;%2'' (number (int own))) (number (toInt rest)))"

definition cmdGetLog :: "nat \<Rightarrow> string \<Rightarrow> svc \<Rightarrow> svc \<times> outcome" where
  "cmdGetLog t params s = (route (askText t s) ''GETLOG'' ''GETLOG'' t params s, Continue)"

definition cmdGetLogResp :: "nat \<Rightarrow> string \<Rightarrow> svc \<Rightarrow> svc \<times> outcome" where
  "cmdGetLogResp t params s = (route (\<lambda>rest. rest) ''VPN_LOG'' ''GETLOG'' t params s, Return)"

definition cmdGetError :: "nat \<Rightarrow> string \<Rightarrow> svc \<Rightarrow> svc \<times> outcome" where
  "cmdGetError t params s = (route (askText t s) ''GET_ERROR'' ''GET_ERROR'' t params s, Continue)"

definition cmdGetErrorResp :: "nat \<Rightarrow> string \<Rightarrow> svc \<Rightarrow> svc \<times> outcome" where
  "cmdGetErrorResp t params s = (route (\<lambda>rest. rest) ''VPN_ERROR'' ''GET_ERROR'' t params s, Return)"

definition cmdStopClients :: "nat \<Rightarrow> svc \<Rightarrow> svc \<times> outcome" where
  "cmdStopClients t s =
     (tell t ''STOP'' ''STUFF''
        (fold (\<lambda>(t', c) s'. tell t' [] ''STOP_CLIENT'' s') (conns s) s), Return)"

definition cmdAllStatus :: "nat \<Rightarrow> svc \<Rightarrow> svc \<times> outcome" where
  "cmdAllStatus t s = (tell t ''DATA'' ''ALL_STATUS'' s, Return)"

section \<open>Checksums\<close>

definition regRemove :: "string \<Rightarrow> (string \<times> string) list \<Rightarrow> (string \<times> string) list" where
  "regRemove k l = filter (\<lambda>(k', v). \<not> under k k') l"

definition regAllKeys :: "string \<Rightarrow> (string \<times> string) list \<Rightarrow> string list" where
  "regAllKeys g l = map fst (filter (\<lambda>(k, v). prefix (g @ ''/'') k) l)"

definition cmdWriteChecksum :: "nat \<Rightarrow> string \<Rightarrow> svc \<Rightarrow> svc \<times> outcome" where
  "cmdWriteChecksum t params s = (s, Continue)"

definition cmdChecksum :: "nat \<Rightarrow> string \<Rightarrow> svc \<Rightarrow> svc \<times> outcome" where
  "cmdChecksum t params s = (s, Continue)"

definition cmdRemoveChecksum :: "senv \<Rightarrow> nat \<Rightarrow> string \<Rightarrow> svc \<Rightarrow> svc \<times> outcome" where
  "cmdRemoveChecksum e t params s =
     (let fields = splitOn CHR '';'' params in
      if length fields \<noteq> 4 then (s, Continue)
      else if portable (os e) then (s, Return)
      else (let sid = fields ! 2;
                reg = regRemove (qarg (qarg ''Users/%1/Security/%2'' sid) (number (toInt (fields ! 0))))
                        (registry s);
                user = qarg ''Users/%1'' sid
            in (s\<lparr>registry := (if regAllKeys user reg = [] then regRemove user reg else reg)\<rparr>, Continue)))"

section \<open>The dispatcher\<close>

definition dispatch :: "senv \<Rightarrow> nat \<Rightarrow> string \<Rightarrow> string \<Rightarrow> svc \<Rightarrow> svc \<times> outcome" where
  "dispatch e t cmd params s =
     (if cmd = [] then (s, Continue)
      else (let command = toUpper (trimmed cmd) in
        if command = ''OPEN'' then cmdOpen e t params s
        else if command = ''CLOSE'' then cmdClose e t params s
        else if command = ''STATUS'' then cmdStatus t params s
        else if command = ''UNEEDED'' then cmdUserNeeded t params s
        else if command = ''PKNEEDED'' then cmdPkNeeded t params s
        else if command = ''PWDNEEDED'' then cmdPwdNeeded t params s
        else if command = ''CKNEEDED'' then cmdCkNeeded t params s
        else if command = ''HTTPUSERNEEDED'' then cmdHttpUserNeeded t params s
        else if command = ''HTTPPASSNEEDED'' then cmdHttpPassNeeded t params s
        else if command = ''ADDTAP'' then cmdAddTap e t s
        else if command = ''TAPCOUNT'' then cmdTapCount e t s
        else if command = ''REMOVETAP'' then cmdRemoveTap e t s
        else if command = ''DUMMY'' then cmdDummy t params s
        else if command = ''GET_CLIENTS'' then cmdGetClients t s
        else if command = ''GETLOG'' then cmdGetLog t params s
        else if command = ''GETLOG_RESP'' then cmdGetLogResp t params s
        else if command = ''GET_ERROR'' then cmdGetError t params s
        else if command = ''GET_ERROR_RESP'' then cmdGetErrorResp t params s
        else if command = ''STOP_CLIENTS'' then cmdStopClients t s
        else if command = ''ALL_STATUS'' then cmdAllStatus t s
        else if command = ''WRITE_CHECKSUM'' then cmdWriteChecksum t params s
        else if command = ''CHECKSUM'' then cmdChecksum t params s
        else if command = ''REMOVE_CHECKSUM'' then cmdRemoveChecksum e t params s
        else (s, Continue)))"

section \<open>Connections opening and closing\<close>

text \<open>
  A new connection: the constructor takes the next internal id, the server appends the object
  and sets its id to its index in the list. The socket descriptor is passed on as 16 bits.
\<close>

definition newConn :: conn where
  "newConn = \<lparr>connId = 0, connName = [], online = True, sent = [], vpnList = [], receiver = idle\<rparr>"

definition descriptor16 :: "32 word \<Rightarrow> 16 word" where
  "descriptor16 d = ucast d"

definition acceptConnection :: "svc \<Rightarrow> svc" where
  "acceptConnection s =
     (let t = nextThread s;
          l = addConnection t newConn (conns s);
          s1 = s\<lparr>conns := l, nextThread := t + 1\<rparr>
      in onConn t (\<lambda>c. c\<lparr>connId := nat (indexOfConnection t l)\<rparr>) s1)"

text \<open>
  The destructor disconnects the sessions silently, in order; the server takes the
  connection off its list first (\<open>slotThreadFinished\<close>). Messages of a session cannot be sent
  any more.
\<close>

definition endSession :: "env \<Rightarrow> openvpn \<Rightarrow> svc \<Rightarrow> svc" where
  "endSession e v s =
     (let r = disconnectVpn e True \<lparr>self = v, disk = sdisk s, outs = []\<rparr>
      in s\<lparr>sdisk := disk r,
           signals := signals s @ concat (map (\<lambda>x. case x of SetExitEvent n \<Rightarrow> [n] | _ \<Rightarrow> []) (outs r))\<rparr>)"

definition closeConnection :: "senv \<Rightarrow> nat \<Rightarrow> svc \<Rightarrow> svc" where
  "closeConnection e t s =
     (case getConn t s of
        None \<Rightarrow> s
      | Some c \<Rightarrow> fold (\<lambda>(i, v). endSession (os e) v) (vpnList c)
                    (s\<lparr>conns := removeConnection t (conns s)\<rparr>))"

text \<open>A chunk of bytes arrives at a connection: the blocks it completes are dispatched.\<close>

definition handleMsg :: "senv \<Rightarrow> nat \<Rightarrow> svc \<Rightarrow> msg \<Rightarrow> svc \<times> bool" where
  "handleMsg e t s m =
     (case (unitsText (fst m), unitsText (snd m)) of
        (Some cmd, Some params) \<Rightarrow>
          (case dispatch e t cmd params s of (s', r) \<Rightarrow> (s', r = Continue))
      | _ \<Rightarrow> (s, True))"

definition receive :: "senv \<Rightarrow> nat \<Rightarrow> byte list \<Rightarrow> svc \<Rightarrow> svc" where
  "receive e t chunk s =
     (case getConn t s of
        None \<Rightarrow> s
      | Some c \<Rightarrow>
          (case onReadyRead (handleMsg e t) (s, receiver c) chunk of
             (s', r) \<Rightarrow> onConn t (\<lambda>c. c\<lparr>receiver := r\<rparr>) s'))"

end
