(* ===== verification/Sessions.thy ===== *)
theory Sessions
  imports OpenVpn
begin

text \<open>
  What a VPN session guarantees to its connection and to the client: its messages carry its
  own id, prompts are answered by one request, failed hosts are counted down, an established
  connection is reported with its address, and disconnecting removes the session's own
  configuration only. The invariants are interpretations of \<open>session_invariant\<close>.
\<close>

section \<open>Messages carry the session's id\<close>

definition idOf :: "string \<Rightarrow> int" where
  "idOf t = toInt (takeWhile (\<lambda>c. c \<noteq> CHR '';'') t)"

fun tagged :: "int \<Rightarrow> out \<Rightarrow> bool" where
  "tagged i (Send t k) \<longleftrightarrow> (t = ''NEEDED'' \<and> k = ''TAPINSTALL'') \<or> idOf t = i"
| "tagged i (EmitRemove j) \<longleftrightarrow> j = i"
| "tagged i (SetExitEvent n) \<longleftrightarrow> n = exitEvent i"

lemma takeWhile_number [simp]:
  "takeWhile (\<lambda>c. c \<noteq> CHR '';'') (number i @ CHR '';'' # t) = number i"
  "takeWhile (\<lambda>c. c \<noteq> CHR '';'') (number i) = number i"
proof -
  have "\<forall>c \<in> set (number i). c \<noteq> CHR '';''" using number_no_semicolon [of i] by metis
  then show "takeWhile (\<lambda>c. c \<noteq> CHR '';'') (number i @ CHR '';'' # t) = number i"
    "takeWhile (\<lambda>c. c \<noteq> CHR '';'') (number i) = number i"
    by (simp_all add: takeWhile_append takeWhile_eq_all_conv)
qed

lemma idOf_tag [simp]:
  "inInt32 i \<Longrightarrow> idOf (number i @ CHR '';'' # t) = i" "inInt32 i \<Longrightarrow> idOf (number i) = i"
  by (simp_all add: idOf_def)

definition taggedRun :: "int \<Rightarrow> run \<Rightarrow> bool" where
  "taggedRun i r \<longleftrightarrow> inInt32 i \<and> vpnId (self r) = i \<and> list_all (tagged i) (outs r)"

lemma taggedRun_emit: "taggedRun i r \<Longrightarrow> tagged i x \<Longrightarrow> taggedRun i (emit x r)"
  by (simp add: taggedRun_def)

lemma taggedRun_modify:
  "taggedRun i r \<Longrightarrow> vpnId (f (self r)) = vpnId (self r) \<Longrightarrow> taggedRun i (modify f r)"
  by (simp add: taggedRun_def)

lemma taggedRun_disk: "taggedRun i (r\<lparr>disk := d\<rparr>) = taggedRun i r"
  by (simp add: taggedRun_def)

lemma status_text:
  "qarg (qarg (qarg (qarg (qarg ''%1;%2;%3;%4;%5'' (number i)) (if b then ''1'' else ''0''))
     (if c then ''1'' else ''0'')) (number l)) t =
   number i @ '';'' @ (if b then ''1'' else ''0'') @ '';'' @ (if c then ''1'' else ''0'') @ '';'' @
     number l @ '';'' @ t"
  by (rule qarg_12345) auto

lemmas run_simps = emit_def taggedRun_def exitEvent_eq qt_simps Let_def

lemma tagged_startProgram: "taggedRun i r \<Longrightarrow> taggedRun i (startProgram e args r)"
  by (simp add: startProgram_def showProcessError_def run_simps)

interpretation tag: session_invariant "taggedRun i" for i
proof
  show "taggedRun i (connectToVpn e r)" if "taggedRun i r" for e r
    using that unfolding connectToVpn_def Let_def
    by (auto intro!: taggedRun_emit taggedRun_modify tagged_startProgram split: option.splits)
      (simp add: taggedRun_def)+
  show "taggedRun i (sendStatus r)" if "taggedRun i r" for r
    using that unfolding sendStatus_def Let_def status_text
    by (intro taggedRun_emit) (auto simp: taggedRun_def)
  show "taggedRun i (disconnectVpn e silent r)" if "taggedRun i r" for e silent r
    using that by (simp add: disconnectVpn_def run_simps)
  show "taggedRun i (modify (setUsername t) r)" if "taggedRun i r" for t r
    using that by (simp add: taggedRun_def)
  show "taggedRun i (modify (setPassword t) r)" if "taggedRun i r" for t r
    using that by (simp add: taggedRun_def)
  show "taggedRun i (modify (setPrivateKey t) r)" if "taggedRun i r" for t r
    using that by (simp add: taggedRun_def)
  show "taggedRun i (modify (setChallengeKey t) r)" if "taggedRun i r" for t r
    using that by (simp add: taggedRun_def)
  show "taggedRun i (processFinished r)" if "taggedRun i r" for r
    using that by (simp add: processFinished_def run_simps)
  show "taggedRun i (showProcessError x r)" if "taggedRun i r" for x r
    using that by (simp add: showProcessError_def run_simps)
  show "taggedRun i (fst (handlePrompt l r))" if "taggedRun i r" for l r
    using that by (auto simp: handlePrompt_def askInput_def run_simps)
  show "taggedRun i (modify (scanLines l) r)" if "taggedRun i r" for l r
    using that by (simp add: taggedRun_def)
  show "taggedRun i (fst (catchError l r))" if "taggedRun i r" for l r
    using that by (auto simp: catchError_def failedHost_def noRoute_def tapNeeded_def run_simps)
  show "taggedRun i (fst (overrides l (r, ver, b)))" if "taggedRun i r" for l r ver b
    using that by (simp add: overrides_def run_simps)
  show "taggedRun i (reportError ver r)" if "taggedRun i r" for ver r
    using that by (simp add: reportError_def run_simps)
  show "taggedRun i (removeUserData l r)" if "taggedRun i r" for l r
    using that by (simp add: removeUserData_def run_simps)
  show "taggedRun i (logLine b l r)" if "taggedRun i r" for b l r
    using that by (simp add: logLine_def run_simps)
  show "taggedRun i (restartPause l ver r)" if "taggedRun i r" for l ver r
    using that by (simp add: restartPause_def run_simps)
  show "taggedRun i (initCompleted l r)" if "taggedRun i r" for l r
    using that by (simp add: initCompleted_def run_simps)
qed

text \<open>
  C29. Every message a session sends during its life carries the session's own id as its first
  field (only the request for a TAP device has none), every removal it signals is its own,
  and the exit event it sets is the one OpenVPN was started with.
\<close>

theorem session_messages_tagged:
  assumes "inInt32 (vpnId v)"
  shows "list_all (tagged (vpnId v)) (outs (fold sessionStep evs (freshRun v d)))"
proof -
  have "taggedRun (vpnId v) (freshRun v d)" using assms by (simp add: taggedRun_def freshRun_def)
  then show ?thesis using tag.inv_life [of "vpnId v" "freshRun v d" evs]
    by (simp add: taggedRun_def)
qed

definition sampleEnv :: env where
  "sampleEnv = \<lparr>portable = False, appDir = ''C:/SSL'', wow64 = True, programExists = (\<lambda>p. True),
     startsOk = (\<lambda>p a. True), eventOk = True, mayRead = (\<lambda>p. True), mayRemove = (\<lambda>p. True),
     mayWrite = (\<lambda>p. True), mayMkpath = (\<lambda>p. True)\<rparr>"

definition sampleVpn :: openvpn where
  "sampleVpn = newOpenVpn\<lparr>vpnId := 7, configPath := ''C:/SSL/vault/S1'', configName := ''u1'',
     vaultDirName := ''C:/SSL/vault'', userVaultDirName := ''S1''\<rparr>"

definition sampleDisk :: fsys where
  "sampleDisk = \<lparr>files = [(''C:/SSL/vault/S1/u1.ovpn'', ''remote a 1194'')],
     dirs = [''C:/SSL/vault/S1'', ''C:/SSL/vault'', ''C:/SSL'', ''C:'']\<rparr>"

lemma session_messages_tagged_witness:
  "list_all (tagged 7) (outs (fold sessionStep
     [Connect sampleEnv, Output sampleEnv [] ''Enter Auth Username:'', Query, ProcFinished]
     (freshRun sampleVpn sampleDisk)))"
proof -
  have "vpnId sampleVpn = 7" by (simp add: sampleVpn_def)
  then have "inInt32 (vpnId sampleVpn)" by (simp add: inInt32_def)
  from session_messages_tagged [OF this] show ?thesis by (simp only: \<open>vpnId sampleVpn = 7\<close>)
qed

section \<open>One-time passwords\<close>

definition otpRun :: "run \<Rightarrow> bool" where
  "otpRun r \<longleftrightarrow> connectionIsAOtpConnection (self r) \<and>
     list_all (\<lambda>x. \<forall>t. x \<noteq> Send t ''REMOVE_USER_DATA'') (outs r)"

interpretation otp: session_invariant otpRun
proof
  show "otpRun (connectToVpn e r)" if "otpRun r" for e r
    using that by (simp add: connectToVpn_def startProgram_def showProcessError_def otpRun_def Let_def split: option.splits)
  show "otpRun (sendStatus r)" if "otpRun r" for r
    using that by (simp add: sendStatus_def otpRun_def Let_def)
  show "otpRun (disconnectVpn e silent r)" if "otpRun r" for e silent r
    using that by (simp add: disconnectVpn_def otpRun_def Let_def)
  show "otpRun (modify (setUsername t) r)" if "otpRun r" for t r
    using that by (simp add: setter_defs otpRun_def Let_def)
  show "otpRun (modify (setPassword t) r)" if "otpRun r" for t r
    using that by (simp add: setter_defs otpRun_def Let_def)
  show "otpRun (modify (setPrivateKey t) r)" if "otpRun r" for t r
    using that by (simp add: setter_defs otpRun_def Let_def)
  show "otpRun (modify (setChallengeKey t) r)" if "otpRun r" for t r
    using that by (simp add: setter_defs otpRun_def Let_def)
  show "otpRun (processFinished r)" if "otpRun r" for r
    using that by (simp add: processFinished_def otpRun_def Let_def)
  show "otpRun (showProcessError x r)" if "otpRun r" for x r
    using that by (simp add: showProcessError_def otpRun_def Let_def)
  show "otpRun (fst (handlePrompt l r))" if "otpRun r" for l r
    using that by (auto simp: handlePrompt_def askInput_def setter_defs otpRun_def)
  show "otpRun (modify (scanLines l) r)" if "otpRun r" for l r
    using that by (simp add: otpRun_def Let_def)
  show "otpRun (fst (catchError l r))" if "otpRun r" for l r
    using that by (simp add: catchError_def failedHost_def noRoute_def tapNeeded_def otpRun_def Let_def)
  show "otpRun (fst (overrides l (r, ver, b)))" if "otpRun r" for l r ver b
    using that by (simp add: overrides_def otpRun_def Let_def)
  show "otpRun (reportError ver r)" if "otpRun r" for ver r
    using that by (simp add: reportError_def otpRun_def Let_def)
  show "otpRun (removeUserData l r)" if "otpRun r" for l r
    using that by (simp add: removeUserData_def otpRun_def Let_def)
  show "otpRun (logLine b l r)" if "otpRun r" for b l r
    using that by (simp add: logLine_def otpRun_def Let_def)
  show "otpRun (restartPause l ver r)" if "otpRun r" for l ver r
    using that by (simp add: restartPause_def otpRun_def Let_def)
  show "otpRun (initCompleted l r)" if "otpRun r" for l r
    using that by (simp add: initCompleted_def otpRun_def Let_def)
qed

lemma catchError_outs:
  "\<lbrakk>list_all P (outs r); P (Send ''NEEDED'' ''TAPINSTALL''); \<And>t. P (Send (idText (self r) t) ''ERROR'')\<rbrakk>
    \<Longrightarrow> list_all P (outs (fst (catchError l r)))"
  by (simp add: catchError_def failedHost_def noRoute_def tapNeeded_def Let_def)

lemma handlePrompt_outs:
  "\<lbrakk>list_all P (outs r); \<And>t. P (Send t ''INPUT'')\<rbrakk> \<Longrightarrow> list_all P (outs (fst (handlePrompt l r)))"
  by (simp add: handlePrompt_def askInput_def)

lemma otp_read:
  assumes "containsCI line ''Please enter token PIN''" and "outs r = []"
    and "\<not> onDisconnect (self r)"
  shows "otpRun (readProcessData e [] line r)"
proof -
  obtain r1 show1 where p: "handlePrompt line r = (r1, show1)" by fastforce
  obtain r3 ver where c: "catchError line (modify (scanLines line) r1) = (r3, ver)" by fastforce
  obtain r4 ver' show2 where o: "overrides line (r3, ver, show1) = (r4, ver', show2)"
    by (cases "overrides line (r3, ver, show1)") auto
  let ?P = "\<lambda>x. \<forall>t. x \<noteq> Send t ''REMOVE_USER_DATA''"
  have "list_all ?P (outs (modify (scanLines line) r1))"
    using handlePrompt_outs [of ?P r line] p assms(2) by simp
  then have "list_all ?P (outs r3)"
    using catchError_outs [of ?P "modify (scanLines line) r1" line] c by simp
  then have "otpRun r4" using o assms(1) by (auto simp: overrides_def otpRun_def Let_def)
  moreover have "line \<noteq> []" using assms(1) by (auto simp: containsCI_def contains_def toLower_def)
  ultimately show ?thesis using assms(3) p c o
    by (simp add: readProcessData_def Let_def otp.inv_report otp.inv_remove otp.inv_log
      otp.inv_disconnect otp.inv_restart otp.inv_init)
qed

text \<open>
  Once OpenVPN has asked for a token PIN, the session never tells the client to drop its
  stored user data, however many \<open>AUTH_FAILED\<close> lines follow; the output with the request is
  already covered.
\<close>

theorem otp_keeps_user_data:
  assumes "containsCI line ''Please enter token PIN''" and "bound (proc v)"
    and "\<not> onDisconnect v"
  shows "Send t ''REMOVE_USER_DATA'' \<notin>
    set (outs (fold sessionStep (Output e [] line # evs) (freshRun v d)))"
proof -
  have "otpRun (readProcessData e [] line (freshRun v d))"
    using assms(1,3) by (intro otp_read) (simp_all add: freshRun_def)
  then have "otpRun (fold sessionStep evs (readProcessData e [] line (freshRun v d)))"
    by (rule otp.inv_life)
  then show ?thesis using assms(2)
    by (auto simp: otpRun_def ifBound_def freshRun_def list_all_iff)
qed

lemma otp_keeps_user_data_witness:
  "Send ''7'' ''REMOVE_USER_DATA'' \<notin> set (outs (fold sessionStep
     [Output sampleEnv [] ''AUTH_FAILED,CRV1:R,E:x:y:Please enter token PIN'',
      Output sampleEnv [] ''Received control message: AUTH_FAILED'']
     (freshRun (sampleVpn\<lparr>proc := newProcess\<lparr>bound := True\<rparr>\<rparr>) sampleDisk)))"
proof -
  have "containsCI ''AUTH_FAILED,CRV1:R,E:x:y:Please enter token PIN'' ''Please enter token PIN''"
    by code_simp
  then show ?thesis
    by (rule otp_keeps_user_data) (simp_all add: sampleVpn_def newOpenVpn_def)
qed

section \<open>Disconnecting\<close>

lemma clearVault_files:
  assumes "wfFs d"
  shows "readFile (clearVault e v d) q =
      (if q = fullConfigPathValue v \<and> mayRemove e q then None else readFile d q)"
    and "p \<noteq> userVault v \<Longrightarrow> dirExists (clearVault e v d) p = dirExists d p"
proof -
  define d1 where "d1 = (if readFile d (fullConfigPathValue v) \<noteq> None \<and> mayRemove e (fullConfigPathValue v)
                then removeFile (fullConfigPathValue v) d else d)"
  have wf: "wfFs d1" using assms by (simp add: d1_def wfFs_removeFile)
  have f: "readFile d1 q = (if q = fullConfigPathValue v \<and> mayRemove e q then None else readFile d q)"
    by (auto simp: d1_def readFile_remove)
  have g: "dirExists d1 p = dirExists d p" by (simp add: d1_def removeFile_def dirExists_def)
  have c: "clearVault e v d = (if entryCount (userVault v) d1 = 0 \<and> dirExists d1 (userVault v)
         then removeRecursively (userVault v) d1 else d1)"
    by (simp add: clearVault_def d1_def Let_def)
  show "readFile (clearVault e v d) q =
      (if q = fullConfigPathValue v \<and> mayRemove e q then None else readFile d q)"
    using readFile_empty_dir [OF wf, of "userVault v" q] c f by auto
  show "p \<noteq> userVault v \<Longrightarrow> dirExists (clearVault e v d) p = dirExists d p"
    using dirExists_empty_dir [OF wf, of "userVault v" p] c g by auto
qed

text \<open>
  C32. Disconnecting removes one file, the session's own configuration in the vault, and no
  directory but the user's vault, and that only when nothing is left in it; in portable mode,
  or when the exit event cannot be made, it removes nothing.
\<close>

theorem disconnect_removes_own_config_only:
  assumes "wfFs (disk r)"
  shows "(\<forall>q. readFile (disk (disconnectVpn e silent r)) q =
       (if eventOk e \<and> \<not> portable e \<and> mayRemove e q \<and> q = fullConfigPathValue (self r) then None
        else readFile (disk r) q)) \<and>
    (\<forall>p. dirExists (disk (disconnectVpn e silent r)) p = dirExists (disk r) p \<or>
       (p = userVault (self r) \<and> eventOk e \<and> \<not> portable e))"
proof -
  define v where "v = (self r)\<lparr>onDisconnect := True, configName := [], configPath := [],
      connectionStable := False, connecting := False,
      proc := (proc (self r))\<lparr>bound := False, writable := False\<rparr>\<rparr>"
  have "disk (disconnectVpn e silent r) =
      (if eventOk e \<and> \<not> portable e then clearVault e v (disk r) else disk r)"
    by (simp add: disconnectVpn_def Let_def v_def)
  moreover have "fullConfigPathValue v = fullConfigPathValue (self r)" "userVault v = userVault (self r)"
    by (simp_all add: v_def userVault_def)
  ultimately show ?thesis using clearVault_files [OF assms, where e = e and v = v] by auto
qed

lemma disconnect_removes_own_config_only_witness:
  "readFile (disk (disconnectVpn sampleEnv False
      (freshRun (sampleVpn\<lparr>fullConfigPathValue := ''C:/V/u1.ovpn''\<rparr>)
        \<lparr>files = [(''C:/V/u1.ovpn'', ''dev tun''), (''C:/V/u2.ovpn'', ''dev tap'')], dirs = [''C:/V'', ''C:'']\<rparr>)))
     ''C:/V/u2.ovpn'' = Some ''dev tap''"
proof -
  define d where "d = \<lparr>files = [(''C:/V/u1.ovpn'', ''dev tun''), (''C:/V/u2.ovpn'', ''dev tap'')],
     dirs = [''C:/V'', ''C:'']\<rparr>"
  have pre: "a \<noteq> [] \<and> prefix (a @ ''/'') q \<longrightarrow> a \<in> {''C:'', ''C:/V''}"
    if "q \<in> {''C:/V/u1.ovpn'', ''C:/V/u2.ovpn'', ''C:/V'', ''C:''}" for a q
    using that by (cases a; auto simp: prefix_Cons Cons_eq_append_conv append_eq_Cons_conv prefix_def)
  have "wfFs (disk (freshRun (sampleVpn\<lparr>fullConfigPathValue := ''C:/V/u1.ovpn''\<rparr>) d))"
    using pre by (auto simp: wfFs_def paths_def freshRun_def d_def normalized_def)
  from disconnect_removes_own_config_only [OF this, of sampleEnv False] show ?thesis
    by (simp add: freshRun_def d_def readFile_def)
qed

text \<open>What reaches a session without being asked for, and the answers of the user.\<close>

fun unasked :: "event \<Rightarrow> bool" where
  "unasked (Connect e) = False"
| "unasked Query = False"
| "unasked (Disconnect e silent) = False"
| "unasked ev = True"

lemma disconnected_state:
  "bound (proc (self (disconnectVpn e silent r))) = False"
  "eventOk e \<Longrightarrow> writable (proc (self (disconnectVpn e silent r))) = False"
  by (simp_all add: disconnectVpn_def Let_def)

lemma unbound_silent:
  "\<lbrakk>\<not> bound (proc (self r)); \<not> writable (proc (self r)); list_all unasked evs\<rbrakk>
    \<Longrightarrow> fold sessionStep evs r = r"
proof (induction evs)
  case (Cons ev evs)
  then show ?case by (cases ev) (auto simp: ifBound_def setter_defs)
qed simp

text \<open>
  A session that has been told to disconnect is silent: no later output, error or end of
  its process and no late answer of the user changes it, reaches the process, the disk or the
  client.
\<close>

theorem disconnected_session_is_silent:
  assumes "eventOk e" and "list_all unasked evs"
  shows "fold sessionStep evs (disconnectVpn e silent r) = disconnectVpn e silent r"
  using assms by (intro unbound_silent) (simp_all add: disconnected_state)

lemma disconnected_session_is_silent_witness:
  "let r = disconnectVpn sampleEnv False (freshRun sampleVpn sampleDisk)
   in fold sessionStep [Pwd ''secret'', Output sampleEnv ''Exiting'' [], ProcFinished] r = r"
  using disconnected_session_is_silent [of sampleEnv
      "[Pwd ''secret'', Output sampleEnv ''Exiting'' [], ProcFinished]" False
      "freshRun sampleVpn sampleDisk"]
  by (simp add: sampleEnv_def Let_def)

section \<open>Output of the process\<close>

definition errorTexts :: "string list" where
  "errorTexts = [''All TAP-Windows adapters on this system are currently in use'',
     ''There are no TAP-Windows adapters on this system'',
     ''TLS Error: Need PEM pass phrase for private key'', ''TLS Error: TLS handshake failed'',
     ''RESOLVE: Cannot resolve host address:'', ''EVP_DecryptFinal:bad decrypt'',
     ''PKCS12_parse:mac verify failure'', ''Received control message: AUTH_FAILED'',
     ''Auth username is empty'', ''error=certificate has expired'',
     ''error=certificate is not yet valid'', ''Proxy Authentication Required'',
     ''Cannot load certificate file'', ''Exiting'', ''Use --help for more information.'',
     ''will try again in 5 seconds'', ''No Route to Host'']"

definition overrideTexts :: "string list" where
  "overrideTexts = [''Proxy requires authentication'',
     ''SIGTERM[hard,] received, process exiting'', ''Please enter token PIN'']"

lemma catchError_quiet:
  "list_all (\<lambda>t. \<not> containsCI l t) errorTexts \<Longrightarrow> catchError l r = (r, noError)"
  by (simp add: catchError_def errorTexts_def)

lemma overrides_quiet:
  "list_all (\<lambda>t. \<not> containsCI l t) overrideTexts \<Longrightarrow> overrides l (r, ver, b) = (r, ver, b)"
  using contains_toLower [of l "''Proxy requires authentication''"]
  by (auto simp: overrides_def overrideTexts_def)

lemma scanLine_quiet: "\<not> contains s driverNote \<Longrightarrow> scanLine l s v = v"
  by (simp add: scanLine_def indexOf_None)

lemma fold_scanLine_quiet:
  assumes "\<not> contains l driverNote"
  shows "fold (scanLine k) (splitOn CHR 0x0A l) v = v"
proof -
  have "\<forall>s \<in> set (splitOn CHR 0x0A l). \<not> contains s driverNote"
    using assms by (meson contains_sublist splitOn_sublist sublist_order.order.trans)
  moreover have "\<forall>s \<in> set ls. \<not> contains s driverNote \<Longrightarrow> fold (scanLine k) ls v = v" for ls
    by (induction ls) (simp_all add: scanLine_quiet)
  ultimately show ?thesis by simp
qed

lemma scanLines_quiet: "\<not> contains l driverNote \<Longrightarrow> scanLines l v = v"
  by (simp add: scanLines_def fold_scanLine_quiet)

text \<open>A line that says nothing the slot looks for.\<close>

definition uneventful :: "string \<Rightarrow> bool" where
  "uneventful l \<longleftrightarrow> list_all (\<lambda>t. \<not> containsCI l t) (errorTexts @ overrideTexts @
      [''Restart pause'', ''Initialization Sequence Completed'']) \<and> \<not> contains l driverNote"

lemma read_uneventful:
  assumes "uneventful l" and "l \<noteq> []" and "\<not> onDisconnect (self r)"
    and "handlePrompt l r = (r1, show1)"
  shows "readProcessData e [] l r = logLine show1 l r1"
proof -
  have "\<not> containsCI l ''Received control message: AUTH_FAILED''"
    using assms(1) by (simp add: uneventful_def errorTexts_def)
  with assms show ?thesis
    by (simp add: readProcessData_def uneventful_def catchError_quiet overrides_quiet
      scanLines_quiet reportError_def removeUserData_def restartPause_def initCompleted_def
      noError_def Let_def)
qed

text \<open>The prompts of OpenVPN and the number of the input each asks for.\<close>

definition prompts :: "(string \<times> int) list" where
  "prompts = [(''Enter Auth Username:'', 0), (''Enter Auth Password:'', 1),
     (''Enter Challenge Password:'', 2), (''Enter Private Key Password:'', 3),
     (''Enter HTTP Proxy Username:'', 5), (''Enter HTTP Proxy Password:'', 6)]"

lemma prompts_uneventful: "list_all (\<lambda>(p, c). uneventful p \<and> p \<noteq> []) prompts"
  by code_simp

lemma handlePrompt_prompts:
  "(p, c) \<in> set prompts \<Longrightarrow> handlePrompt p r =
     (emit (Send (number (vpnId (self r)) @ '';'' @ number c) ''INPUT'')
        (modify (\<lambda>v. v\<lparr>lastAction := c\<rparr>) r), False)"
  unfolding prompts_def set_simps insert_iff empty_iff prod.inject
  by (elim disjE conjE FalseE; hypsubst; simp add: handlePrompt_def askInput_def containsCI_def contains_def qt_simps)

text \<open>
  Each prompt of OpenVPN is answered by exactly one request for the matching input, is
  remembered as the last action, and is neither logged to the client nor taken for an error.
\<close>

theorem prompt_asks_for_input:
  assumes "(p, c) \<in> set prompts" and "\<not> onDisconnect (self r)"
  shows "readProcessData e [] p r =
    emit (Send (number (vpnId (self r)) @ '';'' @ number c) ''INPUT'')
      (modify (\<lambda>v. v\<lparr>lastAction := c\<rparr>) r)"
proof -
  have "uneventful p" "p \<noteq> []" using assms(1) prompts_uneventful by (auto simp: list_all_iff)
  then show ?thesis
    using read_uneventful [OF _ _ assms(2) handlePrompt_prompts [OF assms(1)], of e]
    by (simp add: logLine_def)
qed

lemma prompt_asks_for_input_witness:
  "outs (readProcessData sampleEnv [] ''Enter Auth Password:'' (freshRun sampleVpn sampleDisk)) =
     [Send ''7;1'' ''INPUT'']"
proof -
  have "(''Enter Auth Password:'', 1) \<in> set prompts" by (simp add: prompts_def)
  moreover have "\<not> onDisconnect (self (freshRun sampleVpn sampleDisk))"
    by (simp add: freshRun_def sampleVpn_def newOpenVpn_def)
  ultimately have "readProcessData sampleEnv [] ''Enter Auth Password:'' (freshRun sampleVpn sampleDisk) =
      emit (Send (number (vpnId (self (freshRun sampleVpn sampleDisk))) @ '';'' @ number 1) ''INPUT'')
        (modify (\<lambda>v. v\<lparr>lastAction := 1\<rparr>) (freshRun sampleVpn sampleDisk))"
    by (rule prompt_asks_for_input)
  then show ?thesis
    by (simp add: freshRun_def sampleVpn_def qt_simps)
qed

text \<open>
  Output that holds no prompt and none of the texts the slot looks for reaches the client
  as one \<open>LOG\<close> message with the session's id, unchanged, and changes nothing else.
\<close>

theorem plain_output_is_logged:
  assumes "uneventful l" and "l \<noteq> []" and "handlePrompt l r = (r, True)"
    and "\<not> onDisconnect (self r)"
  shows "readProcessData e [] l r = emit (Send (number (vpnId (self r)) @ '';'' @ l) ''LOG'') r"
  using read_uneventful [OF assms(1,2,4,3), of e] by (simp add: logLine_def)

lemma plain_output_is_logged_witness:
  "outs (readProcessData sampleEnv [] ''UDPv4 link remote: 1.2.3.4'' (freshRun sampleVpn sampleDisk)) =
     [Send ''7;UDPv4 link remote: 1.2.3.4'' ''LOG'']"
proof -
  have u: "uneventful ''UDPv4 link remote: 1.2.3.4''" by code_simp
  have h: "handlePrompt ''UDPv4 link remote: 1.2.3.4'' r = (r, True)" for r
    by (simp add: handlePrompt_def containsCI_def contains_def)
  have d: "\<not> onDisconnect (self (freshRun sampleVpn sampleDisk))"
    by (simp add: freshRun_def sampleVpn_def newOpenVpn_def)
  from plain_output_is_logged [OF u _ h d, of sampleEnv] show ?thesis
    by (simp add: freshRun_def sampleVpn_def qt_simps)
qed

section \<open>Failed hosts\<close>

text \<open>An output that reports a failed TLS handshake and nothing else the slot looks for.\<close>

definition tlsFailure :: "string \<Rightarrow> bool" where
  "tlsFailure l \<longleftrightarrow> containsCI l ''TLS Error: TLS handshake failed'' \<and>
     list_all (\<lambda>t. \<not> containsCI l t) (take 3 errorTexts @ overrideTexts @
       [''Received control message: AUTH_FAILED'', ''Restart pause'',
        ''Initialization Sequence Completed'', ''Enter'']) \<and>
     \<not> contains l driverNote"

lemma catchError_tlsFailure:
  "tlsFailure l \<Longrightarrow> catchError l r = failedHost ''TLS error! See log for details'' r"
  by (simp add: tlsFailure_def catchError_def errorTexts_def)

lemma overrides_tlsFailure: "tlsFailure l \<Longrightarrow> overrides l (r, ver, b) = (r, ver, b)"
  by (rule overrides_quiet) (simp add: tlsFailure_def)

text \<open>A text that holds none of the prompts' common word.\<close>

lemma containsCI_sub: "\<lbrakk>containsCI l p; containsCI p q\<rbrakk> \<Longrightarrow> containsCI l q"
  unfolding containsCI_def contains_sublist by (metis sublist_order.order.trans)

lemma not_enter:
  assumes "\<not> containsCI l ''Enter''"
  shows "handlePrompt l r = (if contains l ''CHALLENGE: Please enter token PIN''
    then (askInput 2 ''%1;2'' r, False) else (r, True))"
proof -
  have n: "\<not> containsCI l p" "\<not> contains l p" "l \<noteq> p" if "containsCI p ''Enter''" for p
    using that assms contains_toLower [of l p] containsCI_sub [of l p "''Enter''"] by blast+
  have "containsCI ''Enter Private Key Password:'' ''Enter''" "containsCI ''Enter Auth Username:'' ''Enter''"
    "containsCI ''Enter Challenge Username:'' ''Enter''" "containsCI ''Enter Auth Password:'' ''Enter''"
    "containsCI ''Enter Challenge Password:'' ''Enter''" "containsCI ''Enter HTTP Proxy Username:'' ''Enter''"
    "containsCI ''Enter HTTP Proxy Password:'' ''Enter''"
    by (simp_all add: containsCI_def contains_def)
  from this [THEN n(1)] this [THEN n(2)] this [THEN n(3)] show ?thesis
    by (simp add: handlePrompt_def)
qed

lemma tlsFailure_prompt: "tlsFailure l \<Longrightarrow> handlePrompt l r = (r, True)"
proof -
  assume t: "tlsFailure l"
  have e: "\<not> containsCI l ''Enter''" using t by (simp add: tlsFailure_def)
  have c: "containsCI ''CHALLENGE: Please enter token PIN'' ''Please enter token PIN''"
    by (simp add: containsCI_def contains_def)
  have n: "\<not> containsCI l ''Please enter token PIN''"
    using t by (simp add: tlsFailure_def overrideTexts_def)
  have "\<not> contains l ''CHALLENGE: Please enter token PIN''"
    using c n contains_toLower containsCI_sub by blast
  with e show ?thesis by (simp add: not_enter)
qed

definition tlsMessages :: "openvpn \<Rightarrow> string \<Rightarrow> out list" where
  "tlsMessages v l = [Send (idText v ''TLS error! See log for details'') ''ERROR'', Send (idText v l) ''LOG'']"

lemma read_tlsFailure:
  assumes "tlsFailure l" and "\<not> onDisconnect (self r)"
  shows "readProcessData e [] l r =
    (let r1 = r\<lparr>self := (self r)\<lparr>connectionStable := False\<rparr>, outs := outs r @ tlsMessages (self r) l\<rparr>
     in if retryMultiHostCount (self r) \<le> 0 then disconnectVpn e False r1
        else modify (\<lambda>v. v\<lparr>retryMultiHostCount := retryMultiHostCount v - 1\<rparr>) r1)"
proof -
  have l: "l \<noteq> []" using assms(1) by (auto simp: tlsFailure_def containsCI_def contains_def)
  have "\<not> contains l driverNote" "\<not> containsCI l ''Received control message: AUTH_FAILED''"
    "\<not> containsCI l ''Restart pause''" "\<not> containsCI l ''Initialization Sequence Completed''"
    using assms(1) by (simp_all add: tlsFailure_def)
  with l assms show ?thesis
    by (simp add: readProcessData_def tlsFailure_prompt catchError_tlsFailure overrides_tlsFailure
      scanLines_quiet failedHost_def anError_def reportError_def removeUserData_def logLine_def
      restartPause_def initCompleted_def tlsMessages_def emit_def Let_def)
qed

lemma read_tlsFailures:
  assumes "tlsFailure l" and "\<not> onDisconnect (self r)"
    and "retryMultiHostCount (self r) = int (n + k)"
  shows "let r' = (readProcessData e [] l ^^ n) r in
    \<not> onDisconnect (self r') \<and> vpnId (self r') = vpnId (self r) \<and>
    retryMultiHostCount (self r') = int k \<and>
    outs r' = outs r @ concat (replicate n (tlsMessages (self r) l))"
  using assms(3)
proof (induction n arbitrary: k)
  case 0
  then show ?case using assms(2) by simp
next
  case (Suc n)
  define r' where "r' = (readProcessData e [] l ^^ n) r"
  have r': "\<not> onDisconnect (self r')" "vpnId (self r') = vpnId (self r)"
    "retryMultiHostCount (self r') = int (Suc k)"
    "outs r' = outs r @ concat (replicate n (tlsMessages (self r) l))"
    using Suc.IH [of "Suc k"] Suc.prems by (simp_all add: r'_def Let_def)
  have "tlsMessages (self r') l = tlsMessages (self r) l" using r'(2) by (simp add: tlsMessages_def)
  moreover have "concat (replicate n x) @ x = x @ concat (replicate n x)" for x :: "out list"
    by (induction n) simp_all
  ultimately show ?case
    using r' by (simp add: r'_def [symmetric] read_tlsFailure [OF assms(1) r'(1)] Let_def)
qed

text \<open>
  C31. With \<open>n\<close> further hosts in the configuration, \<open>n\<close> failed handshakes are each reported as
  an error while the session goes on; the next one disconnects it, and the client is told.
\<close>

theorem failed_hosts_are_counted_down:
  assumes "tlsFailure l" and "\<not> onDisconnect (self r)" and "eventOk e"
    and "retryMultiHostCount (self r) = int n"
  shows "let r1 = (readProcessData e [] l ^^ n) r; r2 = readProcessData e [] l r1;
      i = vpnId (self r)
    in \<not> onDisconnect (self r1) \<and> onDisconnect (self r2) \<and> \<not> connecting (self r2) \<and>
       outs r1 = outs r @ concat (replicate n (tlsMessages (self r) l)) \<and>
       outs r2 = outs r1 @ tlsMessages (self r) l @
         [SetExitEvent (exitEvent i), EmitRemove i, Send (number i) ''DISCONNECTED'']"
proof -
  define r1 where "r1 = (readProcessData e [] l ^^ n) r"
  have r1: "\<not> onDisconnect (self r1)" "vpnId (self r1) = vpnId (self r)"
    "retryMultiHostCount (self r1) = 0"
    "outs r1 = outs r @ concat (replicate n (tlsMessages (self r) l))"
    using read_tlsFailures [OF assms(1,2), of n 0 e] assms(4) by (simp_all add: r1_def Let_def)
  have "tlsMessages (self r1) l = tlsMessages (self r) l" using r1(2) by (simp add: tlsMessages_def)
  then show ?thesis using r1 assms(3)
    by (simp add: r1_def [symmetric] read_tlsFailure [OF assms(1) r1(1)] Let_def disconnectVpn_def
      exitEvent_eq)
qed

lemma failed_hosts_are_counted_down_witness:
  "outs (readProcessData sampleEnv [] ''TLS Error: TLS handshake failed''
      (readProcessData sampleEnv [] ''TLS Error: TLS handshake failed''
        (freshRun (sampleVpn\<lparr>retryMultiHostCount := 1\<rparr>) sampleDisk))) =
     tlsMessages sampleVpn ''TLS Error: TLS handshake failed'' @
     tlsMessages sampleVpn ''TLS Error: TLS handshake failed'' @
     [SetExitEvent ''openvpngui_exit_7'', EmitRemove 7, Send ''7'' ''DISCONNECTED'']"
proof -
  have t: "tlsFailure ''TLS Error: TLS handshake failed''" by code_simp
  let ?r = "freshRun (sampleVpn\<lparr>retryMultiHostCount := 1\<rparr>) sampleDisk"
  have "\<not> onDisconnect (self ?r)" "retryMultiHostCount (self ?r) = int 1" "eventOk sampleEnv"
    by (simp_all add: freshRun_def sampleVpn_def newOpenVpn_def sampleEnv_def)
  from failed_hosts_are_counted_down [OF t this(1,3,2)] show ?thesis
    by (simp add: Let_def freshRun_def sampleVpn_def exitEvent_eq qt_simps tlsMessages_def)
qed

section \<open>The established connection\<close>

text \<open>The line in which the TAP driver announces the address \<open>ip\<close>.\<close>

definition dhcpLine :: "string \<Rightarrow> string \<Rightarrow> string \<Rightarrow> string" where
  "dhcpLine pre ip rest =
     pre @ driverNote @ '' to set a DHCP IP/netmask of '' @ ip @ CHR ''/'' # rest"

lemma extractIP_dhcpLine:
  assumes "\<not> contains (pre @ butlast driverNote) driverNote"
    and "CHR ''/'' \<notin> set ip" and "ip \<noteq> []" and "length ip \<le> 15"
  shows "extractIP (dhcpLine pre ip rest) = ip" and "-1 < indexOf (dhcpLine pre ip rest) driverNote"
proof -
  let ?head = "pre @ driverNote @ '' to set a DHCP IP/netmask of ''"
  have i: "indexOf (dhcpLine pre ip rest) driverNote = int (length pre)"
    unfolding dhcpLine_def by (rule indexOf_at [OF assms(1)]) (simp add: driverNote_def)
  then show "-1 < indexOf (dhcpLine pre ip rest) driverNote" by simp
  have h: "int (length pre) + 56 = int (length ?head)" by (simp add: driverNote_def)
  have w: "qmid (dhcpLine pre ip rest) (int (length pre) + 56) 15 = take 15 (ip @ CHR ''/'' # rest)"
    using qmid_at [of ?head "ip @ CHR ''/'' # rest" 15] unfolding h by (simp add: dhcpLine_def)
  show "extractIP (dhcpLine pre ip rest) = ip"
  proof (cases "length ip = 15")
    case True
    then have "take 15 (ip @ CHR ''/'' # rest) = ip" by simp
    moreover have "indexOf ip ''/'' = -1"
      using find_sub_fresh_None [OF assms(2)] by (simp add: indexOf_def index_or_minus_one_def)
    ultimately show ?thesis by (simp add: extractIP_def i w)
  next
    case False
    then obtain k where k: "15 - length ip = Suc k" using assms(4) by (cases "15 - length ip") auto
    then have t: "take 15 (ip @ CHR ''/'' # rest) = ip @ CHR ''/'' # take k rest" using assms(4) by simp
    have "indexOf (ip @ CHR ''/'' # take k rest) ''/'' = int (length ip)"
      using find_sub_Cons_fresh [OF assms(2), of "take k rest"]
      by (simp add: indexOf_def index_or_minus_one_def)
    moreover have "qmid (dhcpLine pre ip rest) (int (length pre) + 56) 15 = ip @ CHR ''/'' # take k rest"
      using w t by (simp only:)
    ultimately show ?thesis using assms(3) by (simp add: extractIP_def i qleft_append)
  qed
qed

text \<open>What the steps after the scan leave alone.\<close>

definition addressOf :: "run \<Rightarrow> int \<times> string \<times> string" where
  "addressOf r = (vpnId (self r), connectionIP (self r), connectionLineBak (self r))"

lemma addressOf_emit [simp]: "addressOf (emit x r) = addressOf r"
  by (simp add: addressOf_def)

lemma address_failedHost [simp]: "addressOf (fst (failedHost t r)) = addressOf r"
  by (simp add: failedHost_def addressOf_def)

lemma address_noRoute [simp]: "addressOf (fst (noRoute r)) = addressOf r"
  by (simp add: noRoute_def addressOf_def Let_def)

lemma address_kept1 [simp]: "addressOf (fst (catchError l r)) = addressOf r"
  by (simp add: catchError_def tapNeeded_def Let_def)

lemma address_kept2 [simp]: "addressOf (fst (overrides l (r, ver, b))) = addressOf r"
  by (simp add: overrides_def addressOf_def Let_def)

lemma address_report [simp]: "addressOf (reportError ver r) = addressOf r"
  by (simp add: addressOf_def reportError_def)

lemma address_remove [simp]: "addressOf (removeUserData l r) = addressOf r"
  by (simp add: addressOf_def removeUserData_def)

lemma address_log [simp]: "addressOf (logLine b l r) = addressOf r"
  by (simp add: addressOf_def logLine_def)

lemma address_disconnect [simp]: "addressOf (disconnectVpn e s r) = addressOf r"
  by (simp add: addressOf_def disconnectVpn_def Let_def)

lemma address_restart [simp]: "addressOf (restartPause l ver r) = addressOf r"
  by (simp add: restartPause_def)

lemma address_catch: "catchError l r = (r', ver) \<Longrightarrow> addressOf r' = addressOf r"
  using address_kept1 [of l r] by simp

lemma address_overrides: "overrides l (r, ver, b) = (r', x) \<Longrightarrow> addressOf r' = addressOf r"
  using address_kept2 [of l r ver b] by simp

lemma vpnId_prompt: "handlePrompt l r = (r1, b) \<Longrightarrow> vpnId (self r1) = vpnId (self r)"
proof -
  have "vpnId (self (fst (handlePrompt l r))) = vpnId (self r)"
    by (simp add: handlePrompt_def askInput_def)
  then show "handlePrompt l r = (r1, b) \<Longrightarrow> vpnId (self r1) = vpnId (self r)" by simp
qed

lemma read_initCompleted:
  assumes "containsCI l ''Initialization Sequence Completed''" and "\<not> onDisconnect (self r)"
    and "handlePrompt l r = (r1, show1)"
  shows "\<exists>xs. let r' = readProcessData e [] l r; v = scanLines l (self r1) in
    outs r' = xs @ [Send (number (vpnId v) @ '';'' @ connectionLineBak v) ''LOG'',
      Send (number (vpnId v) @ '';'' @ connectionIP v) ''RECEIVEDIP''] \<and>
    connectionStable (self r') \<and> \<not> connecting (self r')"
proof -
  define r2 where "r2 = modify (scanLines l) r1"
  obtain r3 ver where c: "catchError l r2 = (r3, ver)" by fastforce
  obtain r4 ver' show2 where o: "overrides l (r3, ver, show1) = (r4, ver', show2)"
    by (cases "overrides l (r3, ver, show1)") auto
  define r5 where "r5 = logLine show2 l (removeUserData l (reportError ver' r4))"
  define r7 where "r7 = restartPause l ver' (if tlsHandshakeFailed ver' then disconnectVpn e False r5 else r5)"
  have "l \<noteq> []" using assms(1) by (auto simp: containsCI_def contains_def)
  then have "readProcessData e [] l r = initCompleted l r7"
    using assms(2,3) c o by (simp add: readProcessData_def r2_def r5_def r7_def)
  moreover have "addressOf r7 = addressOf r2"
    using address_catch [OF c] address_overrides [OF o] by (simp add: r7_def r5_def)
  ultimately show ?thesis
    using assms(1) by (auto simp: initCompleted_def Let_def addressOf_def r2_def)
qed

text \<open>
  C30. When OpenVPN announces an address and completes its initialization, the session is
  stable and no longer connecting, and the last two messages are the output with the
  announcement and exactly the announced address.
\<close>

theorem established_connection_reports_address:
  assumes "l = before @ CHR 0x0A # dhcpLine pre ip rest @ CHR 0x0A # after"
    and "containsCI l ''Initialization Sequence Completed''"
    and "\<not> contains after driverNote" and "CHR 0x0A \<notin> set (pre @ ip @ rest)"
    and "\<not> contains (pre @ butlast driverNote) driverNote"
    and "CHR ''/'' \<notin> set ip" and "ip \<noteq> []" and "length ip \<le> 15"
    and "\<not> onDisconnect (self r)"
  shows "\<exists>xs. let r' = readProcessData e [] l r; i = number (vpnId (self r)) in
    outs r' = xs @ [Send (i @ '';'' @ l) ''LOG'', Send (i @ '';'' @ ip) ''RECEIVEDIP''] \<and>
    connectionStable (self r') \<and> \<not> connecting (self r')"
proof -
  obtain r1 show1 where h: "handlePrompt l r = (r1, show1)" by fastforce
  let ?d = "dhcpLine pre ip rest"
  have "CHR 0x0A \<notin> set ?d" using assms(4) by (simp add: dhcpLine_def driverNote_def)
  then have "splitOn CHR 0x0A l = splitOn CHR 0x0A before @ ?d # splitOn CHR 0x0A after"
    by (simp add: assms(1) splitOn_append_sep)
  then have "scanLines l (self r1) =
      scanLine l ?d (fold (scanLine l) (splitOn CHR 0x0A before) (self r1))"
    by (simp add: scanLines_def fold_scanLine_quiet [OF assms(3)])
  then have "connectionIP (scanLines l (self r1)) = ip" "connectionLineBak (scanLines l (self r1)) = l"
    using extractIP_dhcpLine [OF assms(5-8), of rest] by (simp_all add: scanLine_def)
  with read_initCompleted [OF assms(2,9) h, of e] vpnId_prompt [OF h] show ?thesis
    by (simp add: Let_def)
qed

lemma established_connection_reports_address_witness:
  "\<exists>xs. outs (readProcessData sampleEnv []
      (''DO_IFCONFIG'' @ CHR 0x0A # dhcpLine ''Mon '' ''10.1.2.3'' ''255.0.0.0'' @ CHR 0x0A #
        ''Initialization Sequence Completed'')
      (freshRun sampleVpn sampleDisk)) = xs @ [Send ''7;10.1.2.3'' ''RECEIVEDIP'']"
proof -
  let ?l = "''DO_IFCONFIG'' @ CHR 0x0A # dhcpLine ''Mon '' ''10.1.2.3'' ''255.0.0.0'' @ CHR 0x0A #
        ''Initialization Sequence Completed''"
  let ?r = "freshRun sampleVpn sampleDisk"
  have c: "containsCI ?l ''Initialization Sequence Completed''"
    by (simp add: containsCI_def contains_def dhcpLine_def driverNote_def)
  have n: "\<not> contains ''Initialization Sequence Completed'' driverNote"
    "\<not> contains (''Mon '' @ butlast driverNote) driverNote"
    by (simp_all add: contains_def driverNote_def)
  have d: "\<not> onDisconnect (self ?r)" and v: "vpnId (self ?r) = 7"
    by (simp_all add: freshRun_def sampleVpn_def newOpenVpn_def)
  have "\<exists>xs. let r' = readProcessData sampleEnv [] ?l ?r; i = number (vpnId (self ?r)) in
    outs r' = xs @ [Send (i @ '';'' @ ?l) ''LOG'', Send (i @ '';'' @ ''10.1.2.3'') ''RECEIVEDIP''] \<and>
    connectionStable (self r') \<and> \<not> connecting (self r')"
    by (rule established_connection_reports_address
        [where before = "''DO_IFCONFIG''" and pre = "''Mon ''" and rest = "''255.0.0.0''"
         and after = "''Initialization Sequence Completed''", OF refl c n(1) _ n(2) _ _ _ d])
      simp_all
  then show ?thesis by (auto simp: Let_def v qt_simps)
qed

text \<open>
  Without an announcement the line kept for the client is empty, and an empty \<open>LOG\<close> text
  is sent after the output.
\<close>

lemma reconnect_logs_empty_line:
  "outs (readProcessData e [] ''Initialization Sequence Completed'' (freshRun sampleVpn d)) =
     [Send ''7;Initialization Sequence Completed'' ''LOG'', Send ''7;'' ''LOG'', Send ''7;'' ''RECEIVEDIP'']"
proof -
  let ?l = "''Initialization Sequence Completed''"
  have q: "list_all (\<lambda>t. \<not> containsCI ?l t) errorTexts" "list_all (\<lambda>t. \<not> containsCI ?l t) overrideTexts"
    "\<not> contains ?l driverNote"
    by code_simp+
  have h: "handlePrompt ?l r = (r, True)" for r
    by (simp add: handlePrompt_def containsCI_def contains_def)
  have a: "\<not> containsCI ?l ''Received control message: AUTH_FAILED''" "\<not> containsCI ?l ''Restart pause''"
    "containsCI ?l ?l"
    by (simp_all add: containsCI_def contains_def)
  show ?thesis
    by (simp add: readProcessData_def h catchError_quiet [OF q(1)] overrides_quiet [OF q(2)]
      scanLines_quiet [OF q(3)] a noError_def reportError_def removeUserData_def logLine_def
      restartPause_def initCompleted_def freshRun_def sampleVpn_def newOpenVpn_def qt_simps Let_def)
qed

end
