(* ===== verification/ConnectionFacts.thy ===== *)
theory ConnectionFacts
  imports Connection Sessions
begin

text \<open>
  The lemmas the properties of the service share: what each building block of a command
  changes (frame lemmas), and the well-formedness of the service's state with the lemmas that
  every command keeps it. Sessions keep their id: \<open>vid\<close> interprets \<open>session_invariant\<close>.
\<close>

section \<open>Sessions keep their id\<close>

definition hasId :: "int \<Rightarrow> run \<Rightarrow> bool" where
  "hasId i r \<longleftrightarrow> vpnId (self r) = i"

interpretation vid: session_invariant "hasId i" for i
proof
  show "hasId i (connectToVpn e r)" if "hasId i r" for e r
    using that by (simp add: connectToVpn_def startProgram_def showProcessError_def hasId_def Let_def split: option.splits)
  show "hasId i (sendStatus r)" if "hasId i r" for r
    using that by (simp add: sendStatus_def hasId_def Let_def)
  show "hasId i (disconnectVpn e silent r)" if "hasId i r" for e silent r
    using that by (simp add: disconnectVpn_def hasId_def Let_def)
  show "hasId i (modify (setUsername t) r)" if "hasId i r" for t r
    using that by (simp add: setter_defs hasId_def Let_def)
  show "hasId i (modify (setPassword t) r)" if "hasId i r" for t r
    using that by (simp add: setter_defs hasId_def Let_def)
  show "hasId i (modify (setPrivateKey t) r)" if "hasId i r" for t r
    using that by (simp add: setter_defs hasId_def Let_def)
  show "hasId i (modify (setChallengeKey t) r)" if "hasId i r" for t r
    using that by (simp add: setter_defs hasId_def Let_def)
  show "hasId i (processFinished r)" if "hasId i r" for r
    using that by (simp add: processFinished_def hasId_def Let_def)
  show "hasId i (showProcessError x r)" if "hasId i r" for x r
    using that by (simp add: showProcessError_def hasId_def Let_def)
  show "hasId i (fst (handlePrompt l r))" if "hasId i r" for l r
    using that by (auto simp: handlePrompt_def askInput_def setter_defs hasId_def)
  show "hasId i (modify (scanLines l) r)" if "hasId i r" for l r
    using that by (simp add: hasId_def Let_def)
  show "hasId i (fst (catchError l r))" if "hasId i r" for l r
    using that by (simp add: catchError_def failedHost_def noRoute_def tapNeeded_def hasId_def Let_def)
  show "hasId i (fst (overrides l (r, ver, b)))" if "hasId i r" for l r ver b
    using that by (simp add: overrides_def hasId_def Let_def)
  show "hasId i (reportError ver r)" if "hasId i r" for ver r
    using that by (simp add: reportError_def hasId_def Let_def)
  show "hasId i (removeUserData l r)" if "hasId i r" for l r
    using that by (simp add: removeUserData_def hasId_def Let_def)
  show "hasId i (logLine b l r)" if "hasId i r" for b l r
    using that by (simp add: logLine_def hasId_def Let_def)
  show "hasId i (restartPause l ver r)" if "hasId i r" for l ver r
    using that by (simp add: restartPause_def hasId_def Let_def)
  show "hasId i (initCompleted l r)" if "hasId i r" for l r
    using that by (simp add: initCompleted_def hasId_def Let_def)
qed

lemma vpnId_step: "vpnId (self (sessionStep ev r)) = vpnId (self r)"
  using vid.inv_step [of "vpnId (self r)" r ev] by (simp add: hasId_def)

section \<open>Frame lemmas\<close>

lemma getConn_onConn:
  "getConn t' (onConn t f s) = (if t' = t then map_option f (getConn t s) else getConn t' s)"
  by (simp add: getConn_def onConn_def map_of_assoc_upd)

lemma onConn_frame [simp]:
  "sdisk (onConn t f s) = sdisk s" "registry (onConn t f s) = registry s"
  "nextThread (onConn t f s) = nextThread s" "signals (onConn t f s) = signals s"
  "misuse (onConn t f s) = misuse s" "map fst (conns (onConn t f s)) = map fst (conns s)"
  by (simp_all add: onConn_def)

lemma tell_frame [simp]:
  "sdisk (tell t x k s) = sdisk s" "registry (tell t x k s) = registry s"
  "nextThread (tell t x k s) = nextThread s" "signals (tell t x k s) = signals s"
  "misuse (tell t x k s) = misuse s" "map fst (conns (tell t x k s)) = map fst (conns s)"
  by (simp_all add: tell_def)

lemma sendText_vpnList [simp]: "vpnList (sendText x k c) = vpnList c"
  by (simp add: sendText_def)

lemma getConn_tell:
  "getConn t' (tell t x k s) = (if t' = t then map_option (sendText x k) (getConn t s) else getConn t' s)"
  by (simp add: tell_def getConn_onConn)

lemma lookupVpn_tell [simp]: "lookupVpn t' i (tell t x k s) = lookupVpn t' i s"
  by (simp add: lookupVpn_def getConn_tell foundItemInList_def split: option.splits)

lemma deliver_frame [simp]:
  "sdisk (deliver t x s) = sdisk s" "registry (deliver t x s) = registry s"
  "nextThread (deliver t x s) = nextThread s"
  "misuse (deliver t x s) = misuse s" "map fst (conns (deliver t x s)) = map fst (conns s)"
  by (cases x; simp)+

lemma deliver_other [simp]: "t' \<noteq> t \<Longrightarrow> getConn t' (deliver t x s) = getConn t' s"
  by (cases x) (simp_all add: getConn_tell getConn_onConn, simp add: getConn_def)

lemma deliver_all_frame [simp]:
  "sdisk (fold (deliver t) xs s) = sdisk s" "registry (fold (deliver t) xs s) = registry s"
  "nextThread (fold (deliver t) xs s) = nextThread s"
  "misuse (fold (deliver t) xs s) = misuse s"
  "map fst (conns (fold (deliver t) xs s)) = map fst (conns s)"
  "t' \<noteq> t \<Longrightarrow> getConn t' (fold (deliver t) xs s) = getConn t' s"
  by (induction xs arbitrary: s) simp_all

lemma getConn_sdisk [simp]: "getConn t (s\<lparr>sdisk := d\<rparr>) = getConn t s"
  by (simp add: getConn_def)

lemma onVpn_frame [simp]:
  "registry (onVpn t i f s) = registry s" "nextThread (onVpn t i f s) = nextThread s"
  "misuse (onVpn t i f s) = misuse s" "map fst (conns (onVpn t i f s)) = map fst (conns s)"
  "t' \<noteq> t \<Longrightarrow> getConn t' (onVpn t i f s) = getConn t' s"
  by (simp_all add: onVpn_def Let_def getConn_onConn split: option.splits)

lemma onVpn_disk:
  "sdisk (onVpn t i f s) = (case lookupVpn t i s of None \<Rightarrow> sdisk s
     | Some v \<Rightarrow> disk (f \<lparr>self = v, disk = sdisk s, outs = []\<rparr>))"
  by (simp add: onVpn_def Let_def split: option.splits)

section \<open>Well-formed states\<close>

text \<open>
  Sessions are listed once, under their own id; connections are listed once, under a thread
  id already given out; and no \<open>LOG\<close> message longer than 300 characters has been sent.
\<close>

definition wfConn :: "conn \<Rightarrow> bool" where
  "wfConn c \<longleftrightarrow> distinct_keys (vpnList c) \<and> (\<forall>(i, v) \<in> set (vpnList c). vpnId v = i) \<and>
     (\<forall>(k, x) \<in> set (sent c). toUpper k = ''LOG'' \<longrightarrow> length x \<le> 300)"

definition wfSvc :: "svc \<Rightarrow> bool" where
  "wfSvc s \<longleftrightarrow> distinct_keys (conns s) \<and> (\<forall>(t, c) \<in> set (conns s). t < nextThread s \<and> wfConn c)"

lemma set_assoc_upd: "x \<in> set (assoc_upd k f l) \<Longrightarrow>
    x \<in> set l \<or> (\<exists>v. (k, v) \<in> set l \<and> x = (k, f v))"
  by (induction k f l rule: assoc_upd.induct) (auto split: if_splits)

lemma wfSvc_onConn:
  assumes "wfSvc s" and "\<And>c. getConn t s = Some c \<Longrightarrow> wfConn c \<Longrightarrow> wfConn (f c)"
  shows "wfSvc (onConn t f s)"
proof -
  have "t' < nextThread s \<and> wfConn c'" if x: "(t', c') \<in> set (assoc_upd t f (conns s))" for t' c'
    using set_assoc_upd [OF x]
  proof (elim disjE exE conjE)
    assume "(t', c') \<in> set (conns s)"
    then show ?thesis using assms(1) by (auto simp: wfSvc_def)
  next
    fix c assume c: "(t, c) \<in> set (conns s)" "(t', c') = (t, f c)"
    then have "getConn t s = Some c" using assms(1) by (simp add: getConn_def wfSvc_def distinct_keys_def)
    with c assms show ?thesis by (auto simp: wfSvc_def)
  qed
  then show ?thesis using assms(1) by (auto simp: wfSvc_def onConn_def)
qed

lemma wfConn_sendText: "wfConn c \<Longrightarrow> wfConn (sendText x k c)"
  by (auto simp: wfConn_def sendText_def)

lemma wfConn_remove: "wfConn c \<Longrightarrow> wfConn (removeItemFromList i c)"
  by (auto simp: wfConn_def removeItemFromList_def assoc.ok_del dest: set_assoc_del)

lemma wfConn_update:
  "wfConn c \<Longrightarrow> (\<And>v. (i, v) \<in> set (vpnList c) \<Longrightarrow> vpnId (g v) = i) \<Longrightarrow>
     wfConn (c\<lparr>vpnList := assoc_upd i g (vpnList c)\<rparr>)"
  by (auto simp: wfConn_def dest!: set_assoc_upd)

lemma wfConn_add:
  "\<lbrakk>wfConn c; foundItemInList i c = None; vpnId v = i\<rbrakk> \<Longrightarrow>
     wfConn (c\<lparr>vpnList := assoc_put i v (vpnList c)\<rparr>)"
  by (auto simp: wfConn_def foundItemInList_def assoc.ok_put) (auto simp: assoc_put_def)

lemma wfSvc_tell: "wfSvc s \<Longrightarrow> wfSvc (tell t x k s)"
  unfolding tell_def by (rule wfSvc_onConn) (auto intro: wfConn_sendText)

lemma wfSvc_fields:
  "wfSvc (s\<lparr>sdisk := d\<rparr>) = wfSvc s" "wfSvc (s\<lparr>signals := g\<rparr>) = wfSvc s"
  "wfSvc (s\<lparr>misuse := b\<rparr>) = wfSvc s" "wfSvc (s\<lparr>registry := h\<rparr>) = wfSvc s"
  by (simp_all add: wfSvc_def)

lemma wfSvc_deliver: "wfSvc s \<Longrightarrow> wfSvc (deliver t x s)"
  by (cases x) (auto simp: wfSvc_fields intro!: wfSvc_tell wfSvc_onConn wfConn_remove)

lemma wfSvc_deliver_all: "wfSvc s \<Longrightarrow> wfSvc (fold (deliver t) xs s)"
  by (induction xs arbitrary: s) (simp_all add: wfSvc_deliver)

lemma lookupVpn_id: "wfSvc s \<Longrightarrow> lookupVpn t i s = Some v \<Longrightarrow> vpnId v = i"
  by (fastforce simp: lookupVpn_def foundItemInList_def getConn_def wfSvc_def wfConn_def
    split: option.splits dest: map_of_SomeD)

lemma wfSvc_onVpn:
  assumes "wfSvc s" and "\<And>r. vpnId (self (f r)) = vpnId (self r)"
  shows "wfSvc (onVpn t i f s)"
proof (cases "lookupVpn t i s")
  case None
  with assms show ?thesis by (simp add: onVpn_def)
next
  case (Some v)
  have "vpnId v = i" by (rule lookupVpn_id [OF assms(1) Some])
  then show ?thesis using assms Some
    by (auto simp: onVpn_def Let_def wfSvc_fields intro!: wfSvc_deliver_all wfSvc_onConn wfConn_update)
qed

section \<open>Lookup\<close>

lemma lookupVpn_onConn_same:
  "(\<And>c. vpnList (f c) = vpnList c) \<Longrightarrow> lookupVpn t' i (onConn t f s) = lookupVpn t' i s"
  by (simp add: lookupVpn_def getConn_onConn foundItemInList_def split: option.splits)

lemma lookupVpn_fields [simp]:
  "lookupVpn t i (s\<lparr>sdisk := d\<rparr>) = lookupVpn t i s"
  "lookupVpn t i (s\<lparr>registry := g\<rparr>) = lookupVpn t i s"
  "lookupVpn t i (s\<lparr>misuse := b\<rparr>) = lookupVpn t i s"
  by (simp_all add: lookupVpn_def getConn_def)

lemma wfSvc_getConn: "wfSvc s \<Longrightarrow> getConn t s = Some c \<Longrightarrow> wfConn c"
  by (auto simp: wfSvc_def getConn_def dest: map_of_SomeD)

lemma lookupVpn_remove:
  "wfSvc s \<Longrightarrow> lookupVpn t i (onConn t (removeItemFromList j) s) =
     (if i = j then None else lookupVpn t i s)"
  using wfSvc_getConn [of s t]
  by (auto simp: lookupVpn_def getConn_onConn foundItemInList_def removeItemFromList_def wfConn_def
    assoc.look_del split: option.splits)

text \<open>The calls of the commands as steps of the session.\<close>

lemma session_calls:
  "connectToVpn e = sessionStep (Connect e)" "disconnectVpn e b = sessionStep (Disconnect e b)"
  "sendStatus = sessionStep Query" "modify (setUsername x) = sessionStep (User x)"
  "modify (setPassword x) = sessionStep (Pwd x)" "modify (setPrivateKey x) = sessionStep (PKey x)"
  "modify (setChallengeKey x) = sessionStep (Challenge x)"
  by (simp_all add: fun_eq_iff)

section \<open>Invariants of the service\<close>

text \<open>
  The contract of an invariant: the building blocks of the commands keep it. Every command,
  every chunk received and every signal of a process then keeps it too.
\<close>

locale svc_invariant =
  fixes inv :: "svc \<Rightarrow> bool"
  assumes inv_wf: "inv s \<Longrightarrow> wfSvc s"
    and b_tell: "inv s \<Longrightarrow> inv (tell t x k s)"
    and b_vpn: "inv s \<Longrightarrow> inv (onVpn t i (sessionStep ev) s)"
    and b_remove: "inv s \<Longrightarrow> inv (onConn t (removeItemFromList i) s)"
    and b_add: "\<lbrakk>inv s; lookupVpn t i s = None; vpnId v = i\<rbrakk>
      \<Longrightarrow> inv (onConn t (\<lambda>c. c\<lparr>vpnList := assoc_put i v (vpnList c)\<rparr>) s)"
    and b_name: "inv s \<Longrightarrow> inv (onConn t (\<lambda>c. c\<lparr>connName := n\<rparr>) s)"
    and b_receiver: "inv s \<Longrightarrow> inv (onConn t (\<lambda>c. c\<lparr>receiver := r\<rparr>) s)"
    and b_disk: "inv s \<Longrightarrow> inv (s\<lparr>sdisk := d\<rparr>)"
    and b_misuse: "inv s \<Longrightarrow> inv (s\<lparr>misuse := True\<rparr>)"
    and b_registry: "inv s \<Longrightarrow> set g \<subseteq> set (registry s) \<Longrightarrow> inv (s\<lparr>registry := g\<rparr>)"
begin

lemma inv_checkChecksum:
  assumes "inv s"
  shows "case checkChecksum e t q s of Inl s1 \<Rightarrow> inv s1
    | Inr (c, s1) \<Rightarrow> inv s1 \<and> lookupVpn t i s1 = lookupVpn t i s"
  using assms by (simp add: checkChecksum_def refuse_def Let_def b_tell)

lemma inv_writeVault:
  assumes "inv s"
  shows "case writeVault e t q c s of Inl s1 \<Rightarrow> inv s1
    | Inr (n, s1) \<Rightarrow> inv s1 \<and> lookupVpn t i s1 = lookupVpn t i s"
  using assms by (simp add: writeVault_def refuse_def Let_def b_tell b_disk)

lemma inv_prepareConfig:
  assumes "inv s"
  shows "case prepareConfig e t q s of Inl s1 \<Rightarrow> inv s1
    | Inr (n, s1) \<Rightarrow> inv s1 \<and> lookupVpn t i s1 = lookupVpn t i s"
proof (cases "checkChecksum e t q s")
  case (Inl s1)
  with inv_checkChecksum [OF assms, where e = e and t = t and q = q and i = i] show ?thesis by (simp add: prepareConfig_def)
next
  case (Inr x)
  obtain c s1 where x: "x = (c, s1)" by fastforce
  have s1: "inv s1" "lookupVpn t i s1 = lookupVpn t i s"
    using inv_checkChecksum [OF assms, where e = e and t = t and q = q and i = i] Inr x by simp_all
  show ?thesis
  proof (cases "sanitize (configLines c)")
    case None
    with Inr x s1 show ?thesis by (simp add: prepareConfig_def refuse_def b_tell)
  next
    case (Some ls)
    with Inr x s1 inv_writeVault [OF s1(1), where e = e and t = t and q = q and i = i and c = "joinWith [CHR 0x0A] ls"] show ?thesis
      by (auto simp: prepareConfig_def split: sum.splits)
  qed
qed

lemma inv_startSession:
  assumes "inv s" and "lookupVpn t (configId q) s = None"
  shows "inv (startSession e t q path name uv av s)"
proof -
  have "vpnId (buildVpn q path name uv av) = configId q"
    by (simp add: buildVpn_def setOriginConfigPath_def setVaultDirName_def setUserVaultDirName_def setId_def)
  then show ?thesis using assms
    by (simp add: startSession_def Let_def b_tell b_add b_vpn session_calls)
qed

lemma inv_openNew:
  assumes "inv s" and "lookupVpn t (configId q) s = None"
  shows "inv (fst (openNew e t q s))"
  using assms inv_prepareConfig [OF assms(1), where e = e and t = t and q = q and i = "configId q"]
  by (auto simp: openNew_def inv_startSession split: sum.splits)

lemma inv_open: "inv s \<Longrightarrow> inv (fst (cmdOpen e t params s))"
proof -
  assume i: "inv s"
  have "lookupVpn t j (onConn t (removeItemFromList (vpnId v)) s) = None"
    if "lookupVpn t j s = Some v" for j v
    using lookupVpn_remove [OF inv_wf [OF i]] lookupVpn_id [OF inv_wf [OF i] that] by simp
  then show ?thesis using i
    by (auto simp: cmdOpen_def inv_openNew b_remove b_vpn session_calls simp del: sessionStep.simps
      split: option.splits)
qed

lemma inv_close: "inv s \<Longrightarrow> inv (fst (cmdClose e t params s))"
  by (simp add: cmdClose_def Let_def session_calls b_vpn split: option.splits)

lemma inv_status: "inv s \<Longrightarrow> inv (fst (cmdStatus t params s))"
  by (simp add: cmdStatus_def b_tell b_vpn session_calls split: option.splits)

lemma inv_answers:
  assumes "inv s"
  shows "inv (fst (cmdUserNeeded t params s))" "inv (fst (cmdPkNeeded t params s))"
    "inv (fst (cmdPwdNeeded t params s))" "inv (fst (cmdCkNeeded t params s))"
    "inv (fst (cmdHttpUserNeeded t params s))" "inv (fst (cmdHttpPassNeeded t params s))"
proof -
  show "inv (fst (cmdUserNeeded t params s))" "inv (fst (cmdPkNeeded t params s))"
    "inv (fst (cmdPwdNeeded t params s))" "inv (fst (cmdCkNeeded t params s))"
    "inv (fst (cmdHttpUserNeeded t params s))" "inv (fst (cmdHttpPassNeeded t params s))"
    using assms unfolding cmdUserNeeded_def cmdPkNeeded_def cmdPwdNeeded_def cmdCkNeeded_def
      cmdHttpUserNeeded_def cmdHttpPassNeeded_def answer_def Let_def session_calls
    by (simp_all add: b_vpn)
qed

lemma inv_route: "inv s \<Longrightarrow> inv (route f k x t params s)"
  by (simp add: route_def Let_def b_tell b_misuse split: element.splits prod.splits)

lemma inv_others:
  assumes "inv s"
  shows "inv (fst (cmdAddTap e t s))" "inv (fst (cmdTapCount e t s))" "inv (fst (cmdRemoveTap e t s))"
    "inv (fst (cmdDummy t params s))" "inv (fst (cmdGetClients t s))" "inv (fst (cmdGetLog t params s))"
    "inv (fst (cmdGetLogResp t params s))" "inv (fst (cmdGetError t params s))"
    "inv (fst (cmdGetErrorResp t params s))" "inv (fst (cmdAllStatus t s))"
    "inv (fst (cmdWriteChecksum t params s))" "inv (fst (cmdChecksum t params s))"
  using assms
  by (simp_all add: cmdAddTap_def cmdTapCount_def cmdRemoveTap_def cmdDummy_def cmdGetClients_def
    cmdGetLog_def cmdGetLogResp_def cmdGetError_def cmdGetErrorResp_def cmdAllStatus_def
    cmdWriteChecksum_def cmdChecksum_def b_tell b_name inv_route Let_def split: option.splits)

lemma inv_stopClients: "inv s \<Longrightarrow> inv (fst (cmdStopClients t s))"
proof -
  assume i: "inv s"
  have "inv (fold (\<lambda>(t', c). tell t' x k) l s)" if "inv s" for l x k s
    using that by (induction l arbitrary: s) (auto simp: b_tell)
  then have "inv (fold (\<lambda>(t', c). tell t' [] ''STOP_CLIENT'') (conns s) s)" using i .
  then show ?thesis by (simp add: cmdStopClients_def b_tell)
qed

lemma inv_removeChecksum: "inv s \<Longrightarrow> inv (fst (cmdRemoveChecksum e t params s))"
  by (auto simp: cmdRemoveChecksum_def Let_def regRemove_def intro!: b_registry)

lemma inv_dispatch: "inv s \<Longrightarrow> inv (fst (dispatch e t cmd params s))"
  by (simp add: dispatch_def Let_def inv_open inv_close inv_status inv_answers inv_others
    inv_stopClients inv_removeChecksum)

lemma inv_receive: "inv s \<Longrightarrow> inv (receive e t chunk s)"
proof -
  assume i: "inv s"
  have "inv (fst (handleMsg e t s m))" if "inv s" for s m
    using inv_dispatch [OF that, of e t] that
    by (auto simp: handleMsg_def split: option.splits prod.splits) (metis fst_conv)
  then have "inv (fst (onReadyRead (handleMsg e t) (s, r) chunk))" for r
    unfolding onReadyRead_def using drain_invariant [of inv "handleMsg e t" s] i by simp
  then show ?thesis
    by (auto simp: receive_def i b_receiver split: option.splits prod.splits)
      (metis b_receiver fst_conv)
qed

end

end
