(* ===== verification/SslServer.thy ===== *)
theory SslServer
  imports ConnectionFacts
begin

text \<open>
  The listening side of the service, \<open>service/sslserver.cpp\<close>: who may connect, and the life
  of the connection list. What Windows answers (socket addresses, the TCP table, processes,
  signatures) is in \<open>winEnv\<close>; a function that fails gives its reason (\<open>Inl\<close>). The handles
  that \<open>signerCertificateDer\<close> opens and frees are recorded.
\<close>

section \<open>The owner of a connection\<close>

definition AF_INET :: nat where "AF_INET = 2"
definition AF_INET6 :: nat where "AF_INET6 = 23"
definition ESTAB :: nat where "ESTAB = 5"
definition INSUFFICIENT_BUFFER :: nat where "INSUFFICIENT_BUFFER = 122"

record sockaddr =
  family :: nat
  address :: "byte list"
  port :: nat
  scope :: nat

record tcpRow =
  rowState :: nat
  localAddr :: "byte list"
  localPort :: nat
  localScope :: nat
  remoteAddr :: "byte list"
  remotePort :: nat
  remoteScope :: nat
  owningPid :: nat

record signerInfo =
  issuer :: string
  serial :: string

datatype handle = Store | Message | Certificate

record winEnv =
  peerName :: "sockaddr option"
  sockName :: "sockaddr option"
  wsaError :: nat
  tableSize :: "nat \<times> nat"
  tableRead :: "nat \<times> tcpRow list"
  openProcess :: "nat \<Rightarrow> bool"
  imagePath :: "nat \<Rightarrow> string option"
  lastError :: nat
  verifyTrust :: "string \<Rightarrow> int"
  hexText :: "int \<Rightarrow> string"
  queryObject :: "string \<Rightarrow> bool"
  signerSize :: "string \<Rightarrow> nat option"
  signerParam :: "string \<Rightarrow> signerInfo option"
  findCertificate :: "string \<Rightarrow> signerInfo \<Rightarrow> string option"
  servicePath :: string

definition sameV4 :: "sockaddr \<Rightarrow> sockaddr \<Rightarrow> tcpRow \<Rightarrow> bool" where
  "sameV4 peer loc row \<longleftrightarrow> rowState row = ESTAB \<and> localAddr row = address peer \<and>
     localPort row = port peer \<and> remoteAddr row = address loc \<and> remotePort row = port loc"

definition sameV6 :: "sockaddr \<Rightarrow> sockaddr \<Rightarrow> tcpRow \<Rightarrow> bool" where
  "sameV6 peer loc row \<longleftrightarrow> rowState row = ESTAB \<and> localAddr row = address peer \<and>
     localScope row = scope peer \<and> localPort row = port peer \<and> remoteAddr row = address loc \<and>
     remoteScope row = scope loc \<and> remotePort row = port loc"

definition findClientProcessId :: "winEnv \<Rightarrow> string + nat" where
  "findClientProcessId w =
     (case (peerName w, sockName w) of
        (Some peer, Some loc) \<Rightarrow>
          (if family peer \<noteq> family loc then Inl ''The TCP connection has incompatible address families.''
           else if fst (tableSize w) \<noteq> INSUFFICIENT_BUFFER \<or> snd (tableSize w) = 0 then
             Inl (qarg ''Could not size the TCP ownership table (error %1).'' (number (int (fst (tableSize w)))))
           else if fst (tableRead w) \<noteq> 0 then
             Inl (qarg ''Could not read the TCP ownership table (error %1).'' (number (int (fst (tableRead w)))))
           else if family peer = AF_INET \<or> family peer = AF_INET6 then
             (case find (if family peer = AF_INET then sameV4 peer loc else sameV6 peer loc) (snd (tableRead w)) of
                Some row \<Rightarrow> Inr (owningPid row)
              | None \<Rightarrow> Inl ''The local client process could not be determined from the TCP connection.'')
           else Inl (qarg ''Unsupported TCP address family %1.'' (number (int (family peer)))))
      | _ \<Rightarrow> Inl (qarg ''Could not inspect the local TCP connection (WSA error %1).'' (number (int (wsaError w)))))"

definition processImagePath :: "winEnv \<Rightarrow> nat \<Rightarrow> string + string" where
  "processImagePath w pid =
     (if \<not> openProcess w pid then
        Inl (qarg (qarg ''Could not open client process %1 (error %2).'' (number (int pid))) (number (int (lastError w))))
      else (case imagePath w pid of
              None \<Rightarrow> Inl (qarg (qarg ''Could not read the image path for client process %1 (error %2).''
                        (number (int pid))) (number (int (lastError w))))
            | Some p \<Rightarrow> Inr p))"

text \<open>
  The two texts of the validation failure are filled in at once (\<open>arg(a, b)\<close>): place markers
  inside the path are not touched.
\<close>

definition verifyAuthenticodeSignature :: "winEnv \<Rightarrow> string \<Rightarrow> string + unit" where
  "verifyAuthenticodeSignature w path =
     (if verifyTrust w path \<noteq> 0 then
        Inl (''Authenticode validation failed for '' @ path @ '' (error 0x'' @ hexText w (verifyTrust w path) @ '').'')
      else Inr ())"

section \<open>The signer's certificate\<close>

definition failText :: "string \<Rightarrow> winEnv \<Rightarrow> string \<Rightarrow> string" where
  "failText template w path = qarg (qarg template path) (number (int (lastError w)))"

text \<open>The body of the \<open>do\<close> block: its result and the handles open when it is left.\<close>

definition readSigner :: "winEnv \<Rightarrow> string \<Rightarrow> (string + string) \<times> handle list" where
  "readSigner w path =
     (if \<not> queryObject w path then
        (Inl (failText ''Could not read the embedded signature from %1 (error %2).'' w path), [])
      else (case signerSize w path of
        None \<Rightarrow> (Inl (failText ''Could not read signer information from %1 (error %2).'' w path), [Store, Message])
      | Some n \<Rightarrow>
          if n = 0 then
            (Inl (failText ''Could not read signer information from %1 (error %2).'' w path), [Store, Message])
          else (case signerParam w path of
            None \<Rightarrow> (Inl (failText ''Could not retrieve signer information from %1 (error %2).'' w path), [Store, Message])
          | Some info \<Rightarrow>
              (case findCertificate w path info of
                 None \<Rightarrow> (Inl (failText ''Could not find the signing certificate for %1 (error %2).'' w path), [Store, Message])
               | Some der \<Rightarrow> (Inr der, [Store, Message, Certificate])))))"

definition freeHandles :: "handle list \<Rightarrow> handle list" where
  "freeHandles opened =
     (if Certificate \<in> set opened then [Certificate] else []) @
     (if Message \<in> set opened then [Message] else []) @
     (if Store \<in> set opened then [Store] else [])"

text \<open>The result, the handles opened and the handles freed.\<close>

definition signerCertificateDer :: "winEnv \<Rightarrow> string \<Rightarrow> (string + string) \<times> handle list \<times> handle list" where
  "signerCertificateDer w path =
     (case readSigner w path of (res, opened) \<Rightarrow> (res, opened, freeHandles opened))"

section \<open>Who is accepted\<close>

definition clientUsesSameCodeSigningCertificate :: "winEnv \<Rightarrow> string + unit" where
  "clientUsesSameCodeSigningCertificate w =
     (case findClientProcessId w of Inl r \<Rightarrow> Inl r | Inr pid \<Rightarrow>
     (case processImagePath w pid of Inl r \<Rightarrow> Inl r | Inr clientPath \<Rightarrow>
     (case verifyAuthenticodeSignature w (servicePath w) of Inl r \<Rightarrow> Inl r | Inr _ \<Rightarrow>
     (case verifyAuthenticodeSignature w clientPath of Inl r \<Rightarrow> Inl r | Inr _ \<Rightarrow>
     (case fst (signerCertificateDer w (servicePath w)) of Inl r \<Rightarrow> Inl r | Inr serviceCertificate \<Rightarrow>
     (case fst (signerCertificateDer w clientPath) of Inl r \<Rightarrow> Inl r | Inr clientCertificate \<Rightarrow>
       if serviceCertificate \<noteq> clientCertificate then
         Inl (qarg (qarg ''Client process %1 (%2) is not signed with the service signing certificate.''
           (number (int pid))) clientPath)
       else Inr ()))))))"

definition rejectText :: "string \<Rightarrow> string" where
  "rejectText reason = ''Rejected local client connection because its Authenticode signing certificate does not match the service: '' @ reason"

record server =
  state :: svc
  eventLog :: "string list"
  closedSockets :: nat
  stopTimer :: bool

text \<open>\<open>checked\<close>: the build has the signature check (it is left out in debug builds only).\<close>

definition incomingConnection :: "bool \<Rightarrow> winEnv \<Rightarrow> server \<Rightarrow> server" where
  "incomingConnection checked w s =
     (case (if checked then clientUsesSameCodeSigningCertificate w else Inr ()) of
        Inl reason \<Rightarrow> s\<lparr>eventLog := eventLog s @ [rejectText reason], closedSockets := closedSockets s + 1\<rparr>
      | Inr _ \<Rightarrow> s\<lparr>state := acceptConnection (state s)\<rparr>)"

definition slotThreadFinished :: "senv \<Rightarrow> nat \<Rightarrow> server \<Rightarrow> server" where
  "slotThreadFinished e t s =
     (let st = closeConnection e t (state s) in
      s\<lparr>state := st, stopTimer := (if conns st = [] \<and> portable (os e) then True else stopTimer s)\<rparr>)"

section \<open>Properties\<close>

text \<open>
  C11. A connection is added only for a client whose process owns the other end of an
  established TCP connection with the service's socket, whose executable and the service's
  both pass the signature check, and whose signing certificate is the service's; every other
  client leaves the service's state as it was and its socket closed.
\<close>

theorem only_same_certificate_connects:
  shows "if clientUsesSameCodeSigningCertificate w = Inr ()
     then incomingConnection True w s = s\<lparr>state := acceptConnection (state s)\<rparr> \<and>
       (\<exists>peer loc row path der.
          peerName w = Some peer \<and> sockName w = Some loc \<and> row \<in> set (snd (tableRead w)) \<and>
          rowState row = ESTAB \<and> localAddr row = address peer \<and> localPort row = port peer \<and>
          remoteAddr row = address loc \<and> remotePort row = port loc \<and>
          imagePath w (owningPid row) = Some path \<and> verifyTrust w path = 0 \<and>
          verifyTrust w (servicePath w) = 0 \<and>
          fst (signerCertificateDer w path) = Inr der \<and>
          fst (signerCertificateDer w (servicePath w)) = Inr der)
     else state (incomingConnection True w s) = state s \<and>
       closedSockets (incomingConnection True w s) = closedSockets s + 1"
proof (cases "clientUsesSameCodeSigningCertificate w")
  case (Inl r)
  then show ?thesis by (simp add: incomingConnection_def)
next
  case (Inr u)
  from Inr obtain pid path der where p: "findClientProcessId w = Inr pid" "processImagePath w pid = Inr path"
    "verifyAuthenticodeSignature w (servicePath w) = Inr ()" "verifyAuthenticodeSignature w path = Inr ()"
    "fst (signerCertificateDer w (servicePath w)) = Inr der" "fst (signerCertificateDer w path) = Inr der"
    by (auto simp: clientUsesSameCodeSigningCertificate_def split: sum.splits if_splits)
  from p(1) obtain peer loc row where r: "peerName w = Some peer" "sockName w = Some loc"
    "owningPid row = pid"
    "find (if family peer = AF_INET then sameV4 peer loc else sameV6 peer loc) (snd (tableRead w)) = Some row"
    by (auto simp: findClientProcessId_def split: option.splits if_splits)
  then have "row \<in> set (snd (tableRead w))" "sameV4 peer loc row \<or> sameV6 peer loc row"
    by (auto simp: find_Some_iff split: if_splits)
  with p r Inr show ?thesis
    by (auto simp: incomingConnection_def sameV4_def sameV6_def processImagePath_def
      verifyAuthenticodeSignature_def split: if_splits option.splits)
qed

text \<open>
  Whatever step fails, reading a signer's certificate frees exactly the handles it has
  opened, each once.
\<close>

theorem signer_handles_are_freed:
  "case signerCertificateDer w path of (res, opened, freed) \<Rightarrow>
     distinct freed \<and> set freed = set opened \<and> length freed = length opened"
  by (auto simp: signerCertificateDer_def readSigner_def freeHandles_def split: option.splits)

end
