(* ===== verification/Service.thy ===== *)
theory Service
  imports SslServer
begin

text \<open>
  The service as a whole: the step relation of the server (connections coming and going,
  bytes arriving, signals of the VPN processes), its invariants, and what the commands of a
  client do: which configurations are run, what a refused request leaves behind, whom a
  command can affect.
\<close>

section \<open>Steps\<close>

definition startSvc :: "fsys \<Rightarrow> (string \<times> string) list \<Rightarrow> svc" where
  "startSvc d g = \<lparr>conns = [], sdisk = d, registry = g, nextThread = 0, signals = [], misuse = False\<rparr>"

definition startServer :: "fsys \<Rightarrow> (string \<times> string) list \<Rightarrow> server" where
  "startServer d g = \<lparr>state = startSvc d g, eventLog = [], closedSockets = 0, stopTimer = False\<rparr>"

inductive serverStep :: "server \<Rightarrow> server \<Rightarrow> bool" where
  incoming: "serverStep s (incomingConnection checked w s)"
| chunk: "serverStep s (s\<lparr>state := receive e t bytes (state s)\<rparr>)"
| signal: "fromProcess ev \<Longrightarrow> serverStep s (s\<lparr>state := onVpn t i (sessionStep ev) (state s)\<rparr>)"
| finished: "serverStep s (slotThreadFinished e t s)"

inductive_cases serverStepE: "serverStep s s'"

inductive reachable :: "fsys \<Rightarrow> (string \<times> string) list \<Rightarrow> server \<Rightarrow> bool" for d g where
  start: "reachable d g (startServer d g)"
| step: "reachable d g s \<Longrightarrow> serverStep s s' \<Longrightarrow> reachable d g s'"

inductive_simps serverStep_iff: "serverStep s s'"

section \<open>The invariants\<close>

lemma wfSvc_add:
  "\<lbrakk>wfSvc s; lookupVpn t i s = None; vpnId v = i\<rbrakk>
    \<Longrightarrow> wfSvc (onConn t (\<lambda>c. c\<lparr>vpnList := assoc_put i v (vpnList c)\<rparr>) s)"
  by (rule wfSvc_onConn) (auto simp: lookupVpn_def intro: wfConn_add)

lemma wfConn_fields:
  "wfConn (c\<lparr>connName := n\<rparr>) = wfConn c" "wfConn (c\<lparr>receiver := r\<rparr>) = wfConn c"
  "wfConn (c\<lparr>connId := k\<rparr>) = wfConn c"
  by (simp_all add: wfConn_def)

interpretation wf: svc_invariant wfSvc
  by unfold_locales
    (auto simp: wfSvc_fields wfConn_fields vpnId_step wfSvc_tell wfSvc_add
      intro!: wfSvc_onVpn wfSvc_onConn wfConn_remove)

interpretation reg: svc_invariant "\<lambda>s. wfSvc s \<and> set (registry s) \<subseteq> R" for R
  by unfold_locales
    (auto simp: wf.b_tell wf.b_vpn wf.b_remove wf.b_add wf.b_name wf.b_receiver wf.b_disk wf.b_misuse
      wf.b_registry simp del: set_map)

lemma wfSvc_accept: "wfSvc s \<Longrightarrow> wfSvc (acceptConnection s)"
proof -
  assume w: "wfSvc s"
  have "map_of (conns s) (nextThread s) = None"
    using w by (auto simp: wfSvc_def map_of_eq_None_iff)
  then have "wfSvc (s\<lparr>conns := assoc_put (nextThread s) newConn (conns s), nextThread := nextThread s + 1\<rparr>)"
    using w by (auto simp: wfSvc_def assoc.ok_put)
      (auto simp: assoc_put_def wfConn_def newConn_def distinct_keys_def)
  then show ?thesis
    by (auto simp: acceptConnection_def addConnection_def Let_def wfConn_fields intro!: wfSvc_onConn)
qed

lemma endSession_frame [simp]:
  "conns (endSession e v s) = conns s" "registry (endSession e v s) = registry s"
  "nextThread (endSession e v s) = nextThread s" "misuse (endSession e v s) = misuse s"
  by (simp_all add: endSession_def Let_def)

lemma endSessions_frame [simp]:
  "conns (fold (\<lambda>(i, v). endSession e v) l s) = conns s"
  "registry (fold (\<lambda>(i, v). endSession e v) l s) = registry s"
  "nextThread (fold (\<lambda>(i, v). endSession e v) l s) = nextThread s"
  "misuse (fold (\<lambda>(i, v). endSession e v) l s) = misuse s"
  by (induction l arbitrary: s) auto

lemma closeConnection_frame [simp]:
  "conns (closeConnection e t s) = assoc_del t (conns s)"
  "registry (closeConnection e t s) = registry s" "nextThread (closeConnection e t s) = nextThread s"
proof -
  have "assoc_del t l = l" if "map_of l t = None" for l :: "(nat \<times> conn) list"
    using that by (induction l) (auto split: if_splits)
  then show "conns (closeConnection e t s) = assoc_del t (conns s)"
    by (auto simp: closeConnection_def removeConnection_def getConn_def split: option.splits)
qed (auto simp: closeConnection_def split: option.splits)

lemma wfSvc_close: "wfSvc s \<Longrightarrow> wfSvc (closeConnection e t s)"
  by (auto simp: wfSvc_def assoc.ok_del dest: set_assoc_del)

definition serviceInv :: "(string \<times> string) list \<Rightarrow> server \<Rightarrow> bool" where
  "serviceInv g s \<longleftrightarrow> wfSvc (state s) \<and> set (registry (state s)) \<subseteq> set g"

lemma serviceInv_step: "serverStep s s' \<Longrightarrow> serviceInv g s \<Longrightarrow> serviceInv g s'"
proof (induction rule: serverStep.induct)
  case (incoming s checked w)
  have "registry (acceptConnection x) = registry x" for x
    by (simp add: acceptConnection_def Let_def)
  with incoming show ?case
    by (auto simp: serviceInv_def incomingConnection_def wfSvc_accept split: sum.splits)
next
  case chunk
  then show ?case using reg.inv_receive [where R = "set g"] by (auto simp: serviceInv_def)
next
  case signal
  then show ?case by (simp add: serviceInv_def wf.b_vpn)
next
  case finished
  then show ?case by (simp add: serviceInv_def slotThreadFinished_def Let_def wfSvc_close)
qed

lemma serviceInv_reachable: "reachable d g s \<Longrightarrow> serviceInv g s"
proof (induction rule: reachable.induct)
  case start
  then show ?case
    by (simp add: serviceInv_def startServer_def startSvc_def wfSvc_def distinct_keys_def)
next
  case (step s s')
  then show ?case by (blast intro: serviceInv_step)
qed

text \<open>
  C7. In every state the service can reach, each VPN session is listed once in its
  connection, under the id it has itself, each connection is listed once, under a thread id
  given out before, and no log message above 300 characters has been sent.
\<close>

theorem service_lists_stay_consistent:
  "reachable d g s \<Longrightarrow> wfSvc (state s)"
  using serviceInv_reachable [of d g s] by (simp add: serviceInv_def)

definition sampleSenv :: senv where
  "sampleSenv = \<lparr>os = sampleEnv, sha256hex = (\<lambda>x. x), fromUtf8 = (\<lambda>x. x), uuid = ''{u1}'',
     tap = \<lparr>tapPortable = False, tapWow64 = True, tapAppDir = ''C:/SSL'', winMajor = None,
       tapTool = (\<lambda>p a. \<lparr>chunks = [], endsAt = None\<rparr>), tapSettings = newSettings\<rparr>\<rparr>"

definition twoClients :: server where
  "twoClients = (let s1 = incomingConnection False undefined (startServer sampleDisk []);
       s2 = s1\<lparr>state := receive sampleSenv 0 (sendRequest (units ''DUMMY'') (units ''gui'')) (state s1)\<rparr>
     in incomingConnection False undefined s2)"

lemma twoClients_reachable: "reachable sampleDisk [] twoClients"
  unfolding twoClients_def Let_def
  by (rule reachable.step [OF _ serverStep.incoming], rule reachable.step [OF _ serverStep.chunk],
    rule reachable.step [OF _ serverStep.incoming], rule reachable.start)

lemma service_lists_stay_consistent_witness:
  "wfSvc (state twoClients)"
  by (rule service_lists_stay_consistent [OF twoClients_reachable])

text \<open>
  The service never writes a checksum: in every reachable state the registry holds only
  entries it held at the start, with the same values.
\<close>

theorem service_never_writes_checksums:
  "reachable d g s \<Longrightarrow> set (registry (state s)) \<subseteq> set g"
  using serviceInv_reachable [of d g s] by (simp add: serviceInv_def)

lemma service_never_writes_checksums_witness:
  "set (registry (state twoClients)) \<subseteq> {}"
  using service_never_writes_checksums [OF twoClients_reachable] by simp

section \<open>What a command does to other clients\<close>

text \<open>The sessions of every connection but one.\<close>

definition othersKept :: "nat \<Rightarrow> svc \<Rightarrow> svc \<Rightarrow> bool" where
  "othersKept t s s' \<longleftrightarrow>
     (\<forall>t'. t' \<noteq> t \<longrightarrow> map_option vpnList (getConn t' s') = map_option vpnList (getConn t' s))"

lemma othersKept_refl [simp]: "othersKept t s s"
  by (simp add: othersKept_def)

lemma othersKept_trans: "\<lbrakk>othersKept t s s1; othersKept t s1 s2\<rbrakk> \<Longrightarrow> othersKept t s s2"
  by (simp add: othersKept_def)

lemma othersKept_tell [simp]: "othersKept t s (tell t' x k s)"
  by (auto simp: othersKept_def getConn_tell option.map_comp comp_def)

lemma othersKept_onConn [simp]: "othersKept t s (onConn t f s)"
  by (simp add: othersKept_def getConn_onConn)

lemma othersKept_onVpn [simp]: "othersKept t s (onVpn t i f s)"
  by (simp add: othersKept_def)

lemma othersKept_fields [simp]:
  "othersKept t s (s'\<lparr>sdisk := d\<rparr>) = othersKept t s s'"
  "othersKept t s (s'\<lparr>registry := g\<rparr>) = othersKept t s s'"
  "othersKept t s (s'\<lparr>misuse := b\<rparr>) = othersKept t s s'"
  by (simp_all add: othersKept_def getConn_def)

lemma othersKept_tell_after: "othersKept t s s' \<Longrightarrow> othersKept t s (tell t' x k s')"
  using othersKept_trans othersKept_tell by blast

lemma othersKept_onVpn_after: "othersKept t s s' \<Longrightarrow> othersKept t s (onVpn t i f s')"
  using othersKept_trans othersKept_onVpn by blast

lemma othersKept_startSession: "othersKept t s (startSession e t q p n u a s)"
  unfolding startSession_def Let_def
  by (intro othersKept_onVpn_after othersKept_tell_after othersKept_onConn)

lemma othersKept_prepare:
  "case prepareConfig e t q s of Inl s1 \<Rightarrow> othersKept t s s1 | Inr (n, s1) \<Rightarrow> othersKept t s s1"
  by (auto simp: prepareConfig_def checkChecksum_def writeVault_def refuse_def Let_def
    intro!: othersKept_tell_after split: sum.splits option.splits prod.splits if_splits)

lemma othersKept_openNew: "othersKept t s (fst (openNew e t q s))"
proof (cases "portable (os e)")
  case True
  then show ?thesis by (simp add: openNew_def othersKept_startSession)
next
  case False
  then show ?thesis using othersKept_prepare [where e = e and t = t and q = q and s = s]
    othersKept_trans [OF _ othersKept_startSession]
    by (auto simp: openNew_def split: sum.splits)
qed

lemma othersKept_open: "othersKept t s (fst (cmdOpen e t params s))"
  using othersKept_openNew othersKept_trans [OF othersKept_onConn othersKept_openNew]
  by (auto simp: cmdOpen_def split: option.splits)

lemma othersKept_close: "\<not> 0 < indexOf params '';'' \<Longrightarrow> othersKept t s (fst (cmdClose e t params s))"
  by (simp add: cmdClose_def)

lemma othersKept_status: "othersKept t s (fst (cmdStatus t params s))"
  by (simp add: cmdStatus_def split: option.splits)

lemma othersKept_answer: "othersKept t s (fst (answer f t params s))"
  by (simp add: answer_def Let_def)

lemma othersKept_route: "othersKept t s (route f k x t params s)"
  by (simp add: route_def Let_def split: element.splits prod.splits)

lemma othersKept_stop: "othersKept t s (fst (cmdStopClients t s))"
proof -
  have "othersKept t s (fold (\<lambda>(t', c). tell t' x k) l s')" if "othersKept t s s'" for l x k s'
    using that by (induction l arbitrary: s') (auto simp: othersKept_tell_after)
  from this [OF othersKept_refl] show ?thesis
    unfolding cmdStopClients_def fst_conv by (intro othersKept_tell_after)
qed

lemma othersKept_rest:
  "othersKept t s (fst (cmdAddTap e t s))" "othersKept t s (fst (cmdTapCount e t s))"
  "othersKept t s (fst (cmdRemoveTap e t s))" "othersKept t s (fst (cmdDummy t params s))"
  "othersKept t s (fst (cmdGetClients t s))" "othersKept t s (fst (cmdAllStatus t s))"
  "othersKept t s (fst (cmdRemoveChecksum e t params s))"
  by (simp_all add: cmdAddTap_def cmdTapCount_def cmdRemoveTap_def cmdDummy_def cmdGetClients_def
    cmdAllStatus_def cmdRemoveChecksum_def Let_def othersKept_tell_after split: option.splits)

text \<open>
  C9. A command of one client leaves the sessions of every other client as they are, with one
  exception: \<open>CLOSE\<close> with a client id and a semicolon, the form the command line uses.
\<close>

theorem commands_leave_other_clients_alone:
  assumes "t' \<noteq> t" and "\<not> (toUpper (trimmed cmd) = ''CLOSE'' \<and> 0 < indexOf params '';'')"
  shows "map_option vpnList (getConn t' (fst (dispatch e t cmd params s))) =
    map_option vpnList (getConn t' s)"
proof -
  have "othersKept t s (fst (dispatch e t cmd params s))"
    using assms(2)
    by (simp add: dispatch_def Let_def othersKept_open othersKept_close othersKept_status
      othersKept_answer othersKept_route othersKept_stop othersKept_rest cmdUserNeeded_def
      cmdPkNeeded_def cmdPwdNeeded_def cmdCkNeeded_def cmdHttpUserNeeded_def cmdHttpPassNeeded_def
      cmdGetLog_def cmdGetLogResp_def cmdGetError_def cmdGetErrorResp_def cmdWriteChecksum_def
      cmdChecksum_def)
  then show ?thesis using assms(1) by (simp add: othersKept_def)
qed

lemma commands_leave_other_clients_alone_witness:
  "map_option vpnList (getConn 1 (fst (dispatch sampleSenv 0 ''CLOSE'' ''7'' (state twoClients)))) =
     map_option vpnList (getConn 1 (state twoClients))"
  by (rule commands_leave_other_clients_alone) (simp_all add: indexOf_def index_or_minus_one_def)

section \<open>Which configurations are run\<close>

lemma dispatch_open: "dispatch e t ''OPEN'' params s = cmdOpen e t params s"
proof -
  have "toUpper (trimmed ''OPEN'') = ''OPEN''" by code_simp
  then show ?thesis by (simp add: dispatch_def)
qed

text \<open>What the service makes of the content a client sends.\<close>

definition receivedConfig :: "senv \<Rightarrow> request \<Rightarrow> string" where
  "receivedConfig e q = fromUtf8 e (fromBase64 (utf8 (content64 q)))"

text \<open>A request for a session that is not there yet.\<close>

definition newRequest :: "senv \<Rightarrow> nat \<Rightarrow> string \<Rightarrow> request \<Rightarrow> svc \<Rightarrow> bool" where
  "newRequest e t params q s \<longleftrightarrow>
     parseOpen params = Some q \<and> lookupVpn t (configId q) s = None \<and> \<not> portable (os e)"

text \<open>
  C4. A request whose configuration does not have the registered checksum is refused: the
  only effect is one \<open>ERROR\<close> message with the id of the connection.
\<close>

theorem checksum_mismatch_is_refused:
  assumes "newRequest e t params q s" and "inInt32 (configId q)" and "receivedConfig e q \<noteq> []"
    and "simplified (regValue (checksumKey (userSID q) (configId q)) s) \<noteq> []"
    and "regValue (checksumKey (userSID q) (configId q)) s \<noteq> sha256hex e (utf8 (receivedConfig e q))"
  shows "\<exists>text. idOf text = configId q \<and> dispatch e t ''OPEN'' params s = (tell t text ''ERROR'' s, Return)"
proof -
  let ?m = "\<lambda>rest. number (configId q) @ CHR '';'' # rest"
  have a: "qarg (''%1;Checksum error, rejecting connect request! %2 Getting %3 expecting %4.'' @ nl)
      (number (configId q)) = ?m (''Checksum error, rejecting connect request! %2 Getting %3 expecting %4.'' @ nl)"
    by (simp add: qarg_def nl_def)
  have b: "qarg (?m rest) x = ?m (qarg rest x)" for rest x
    using qarg_fresh_prefix [of "number (configId q) @ '';''" rest x] by simp
  have "checkChecksum e t q s = Inl (tell t (?m (qarg (qarg (qarg
      (''Checksum error, rejecting connect request! %2 Getting %3 expecting %4.'' @ nl) (configFullPath q))
      (sha256hex e (utf8 (receivedConfig e q)))) (regValue (checksumKey (userSID q) (configId q)) s))) ''ERROR'' s)"
    using assms(3-5) unfolding checkChecksum_def receivedConfig_def [symmetric] Let_def a b refuse_def
    by simp
  then have "openNew e t q s = (tell t (?m (qarg (qarg (qarg
      (''Checksum error, rejecting connect request! %2 Getting %3 expecting %4.'' @ nl) (configFullPath q))
      (sha256hex e (utf8 (receivedConfig e q)))) (regValue (checksumKey (userSID q) (configId q)) s))) ''ERROR'' s, Return)"
    using assms(1) by (simp add: openNew_def prepareConfig_def newRequest_def)
  then show ?thesis using assms(1,2)
    by (auto simp: dispatch_open cmdOpen_def newRequest_def intro!: exI)
qed

definition sampleOpen :: string where
  "sampleOpen = ''7;me;S1;C:/a/office.ovpn;ZGV2IHR1bg==;0;;0''"

definition sampleRequest :: request where
  "sampleRequest = \<lparr>configId = 7, username = ''me'', userSID = ''S1'',
     configFullPath = ''C:/a/office.ovpn'', content64 = ''ZGV2IHR1bg=='', interact = ''0'', proxy = []\<rparr>"

lemma parse_sampleOpen: "parseOpen sampleOpen = Some sampleRequest"
  by code_simp

lemma sample_content: "receivedConfig sampleSenv sampleRequest = ''dev tun''"
  by code_simp

lemma sample_key: "checksumKey (userSID sampleRequest) (configId sampleRequest) = ''Users/S1/Security/7/Checksum''"
  by (simp add: checksumKey_def sampleRequest_def qarg_def qt_simps)

definition sampleSvc :: "(string \<times> string) list \<Rightarrow> svc" where
  "sampleSvc g = (startSvc sampleDisk g)\<lparr>conns := [(0, newConn)]\<rparr>"

lemma sample_new: "newRequest sampleSenv 0 sampleOpen sampleRequest (sampleSvc g)"
  by (simp add: newRequest_def parse_sampleOpen sampleSvc_def startSvc_def lookupVpn_def getConn_def
    newConn_def foundItemInList_def sampleSenv_def sampleEnv_def)

lemma checksum_mismatch_is_refused_witness:
  "\<exists>text. idOf text = 7 \<and>
     dispatch sampleSenv 0 ''OPEN'' sampleOpen (sampleSvc [(''Users/S1/Security/7/Checksum'', ''abc'')]) =
       (tell 0 text ''ERROR'' (sampleSvc [(''Users/S1/Security/7/Checksum'', ''abc'')]), Return)"
proof -
  let ?s = "sampleSvc [(''Users/S1/Security/7/Checksum'', ''abc'')]"
  have r: "regValue (checksumKey (userSID sampleRequest) (configId sampleRequest)) ?s = ''abc''"
    by (simp add: regValue_def sample_key sampleSvc_def startSvc_def)
  have u: "utf8 ''dev tun'' \<noteq> ''abc''" "simplified ''abc'' \<noteq> []" by code_simp+
  have "\<exists>text. idOf text = configId sampleRequest \<and>
      dispatch sampleSenv 0 ''OPEN'' sampleOpen ?s = (tell 0 text ''ERROR'' ?s, Return)"
    by (rule checksum_mismatch_is_refused [OF sample_new])
      (use u in \<open>simp_all add: sample_content r, simp_all add: sampleRequest_def sampleSenv_def inInt32_def\<close>)
  then show ?thesis by (simp add: sampleRequest_def)
qed

subsection \<open>The sanitizer\<close>

text \<open>What the loop promises of each line it lets through.\<close>

definition safeLine :: "string \<Rightarrow> bool" where
  "safeLine l \<longleftrightarrow> \<not> startsWith l ''#'' \<and> \<not> startsWith (toLower l) ''win-sys'' \<and>
     (if startsWith (toLower l) ''script-security''
      then \<exists>k. splitOn CHR '' '' l = [k, ''0''] \<or> splitOn CHR '' '' l = [k, ''1''] else True)"

lemma scriptSecurity_ok:
  "\<not> scriptSecurityError l \<Longrightarrow> \<exists>k. splitOn CHR '' '' l = [k, ''0''] \<or> splitOn CHR '' '' l = [k, ''1'']"
  by (auto simp: scriptSecurityError_def Let_def length_Suc_conv numeral_2_eq_2 split: if_splits)

lemma safeLine_intro:
  "\<lbrakk>\<not> startsWith l ''#''; \<not> startsWith (toLower l) ''win-sys'';
    startsWith (toLower l) ''script-security'' \<Longrightarrow> \<not> scriptSecurityError l\<rbrakk> \<Longrightarrow> safeLine l"
  by (simp add: safeLine_def scriptSecurity_ok)

lemma sanitize_safe: "sanitize ls = Some out \<Longrightarrow> list_all safeLine out"
proof (induction ls arbitrary: out)
  case (Cons l ls)
  then show ?case by (auto simp: Let_def split: if_splits intro: safeLine_intro)
qed simp

lemma sanitize_from: "sanitize ls = Some out \<Longrightarrow> set out \<subseteq> simplified ` set ls"
proof (induction ls arbitrary: out)
  case (Cons l ls)
  then show ?case by (fastforce simp: Let_def split: if_splits)
qed simp

subsection \<open>An accepted request\<close>

text \<open>The vault directory and the file of a request.\<close>

definition vaultFile :: "senv \<Rightarrow> request \<Rightarrow> string" where
  "vaultFile e q = appDir (os e) @ ''/vault/'' @ userSID q @ ''/'' @
     qreplace (qreplace (uuid e) ''{'' []) ''}'' [] @ ''.ovpn''"

definition wiped :: "senv \<Rightarrow> fsys \<Rightarrow> fsys" where
  "wiped e d = (if dirExists d (vaultOf e) then removeRecursively (vaultOf e) d else d)"

text \<open>The operating system lets the service do what it wants to.\<close>

definition permissive :: "senv \<Rightarrow> bool" where
  "permissive e \<longleftrightarrow> \<not> portable (os e) \<and> (\<forall>p. mayMkpath (os e) p \<and> mayWrite (os e) p \<and> mayRead (os e) p) \<and>
     programExists (os e) (vpnProgram (os e)) \<and> (\<forall>a. startsOk (os e) (vpnProgram (os e)) a)"

definition checksumOk :: "senv \<Rightarrow> request \<Rightarrow> svc \<Rightarrow> bool" where
  "checksumOk e q s \<longleftrightarrow>
     (let h = regValue (checksumKey (userSID q) (configId q)) s in
      simplified h = [] \<or> h = sha256hex e (utf8 (receivedConfig e q)))"

lemma checkChecksum_ok:
  assumes "checksumOk e q s" and "receivedConfig e q \<noteq> []"
  shows "\<exists>s1. checkChecksum e t q s = Inr (receivedConfig e q, s1) \<and> sdisk s1 = sdisk s \<and>
    (\<forall>i. lookupVpn t i s1 = lookupVpn t i s) \<and> (getConn t s1 = None \<longleftrightarrow> getConn t s = None)"
  using assms by (auto simp: checkChecksum_def checksumOk_def receivedConfig_def [symmetric] Let_def
    getConn_tell)

lemma writeVault_ok:
  assumes "permissive e"
  shows "writeVault e t q c s = Inr (qreplace (qreplace (uuid e) ''{'' []) ''}'' [],
    s\<lparr>sdisk := writeFile (vaultFile e q) (utf8 c)
       (mkpath (appDir (os e) @ ''/vault/'' @ userSID q) (wiped e (sdisk s)))\<rparr>)"
  using assms by (simp add: writeVault_def permissive_def wiped_def vaultFile_def Let_def)

lemma wiped_empty:
  assumes "wfFs d" and "under (vaultOf e) p" and "p \<noteq> vaultOf e"
  shows "readFile (wiped e d) p = None"
proof (cases "dirExists d (vaultOf e)")
  case True
  then show ?thesis using assms(2) by (simp add: wiped_def readFile_removeRecursively)
next
  case False
  then show ?thesis using no_dir_no_file [OF assms(1) False _ assms(2,3)] by (simp add: wiped_def vaultOf_def)
qed

lemma connect_started:
  assumes "permissive e" and "vpnId v \<noteq> -1"
    and "readFile d (configPath v @ ''/'' @ configName v @ ''.ovpn'') = Some content"
  shows "\<exists>v'. connectToVpn (os e) \<lparr>self = v, disk = d, outs = []\<rparr> = \<lparr>self = v', disk = d, outs = []\<rparr> \<and>
    connecting v' \<and> writable (proc v') \<and>
    arguments (proc v') ! 4 = configPath v @ ''/'' @ configName v @ ''.ovpn''"
  using assms by (auto simp: permissive_def connectToVpn_def startProgram_def vpnArguments_def Let_def)

lemma startSession_ok:
  assumes "permissive e" and "configId q \<noteq> -1" and "getConn t s \<noteq> None"
    and "lookupVpn t (configId q) s = None"
    and "readFile (sdisk s) (path @ ''/'' @ name @ ''.ovpn'') = Some content"
  shows "sdisk (startSession e t q path name uv av s) = sdisk s \<and>
    (\<exists>v. lookupVpn t (configId q) (startSession e t q path name uv av s) = Some v \<and> connecting v \<and>
       writable (proc v) \<and> arguments (proc v) ! 4 = path @ ''/'' @ name @ ''.ovpn'')"
proof -
  define v where "v = buildVpn q path name uv av"
  have v: "vpnId v = configId q" "configPath v = path" "configName v = name"
    by (simp_all add: v_def buildVpn_def setOriginConfigPath_def setVaultDirName_def
      setUserVaultDirName_def setId_def setProxyString_def setUseInteract_def setConfigName_def
      setConfigPath_def)
  define s2 where "s2 = tell t (qarg (qarg (qarg (''%2;Try to start OpenVPN connection %1 %3'' @ nl) name)
                 (number (configId q))) path) ''LOG''
      (onConn t (\<lambda>c. c\<lparr>vpnList := assoc_put (configId q) v (vpnList c)\<rparr>) s)"
  have "lookupVpn t (configId q) (onConn t (\<lambda>c. c\<lparr>vpnList := assoc_put (configId q) v (vpnList c)\<rparr>) s) = Some v"
    using assms(3,4) by (auto simp: lookupVpn_def getConn_onConn foundItemInList_def
      assoc_put_def map_add_def)
  then have l: "lookupVpn t (configId q) s2 = Some v" by (simp add: s2_def)
  have d: "sdisk s2 = sdisk s" by (simp add: s2_def)
  obtain v' where v': "connectToVpn (os e) \<lparr>self = v, disk = sdisk s2, outs = []\<rparr> =
      \<lparr>self = v', disk = sdisk s2, outs = []\<rparr>" "connecting v'" "writable (proc v')"
    "arguments (proc v') ! 4 = path @ ''/'' @ name @ ''.ovpn''"
    using connect_started [OF assms(1), of v "sdisk s2"] assms(2,5) v d by auto
  have eq: "startSession e t q path name uv av s =
      (onConn t (\<lambda>c. c\<lparr>vpnList := assoc_upd (configId q) (\<lambda>_. v') (vpnList c)\<rparr>) s2)\<lparr>sdisk := sdisk s2\<rparr>"
    unfolding startSession_def Let_def v_def [symmetric] s2_def [symmetric]
    by (simp add: onVpn_def l v'(1))
  have "lookupVpn t (configId q) (startSession e t q path name uv av s) = Some v'"
    using l by (auto simp: eq lookupVpn_def getConn_onConn foundItemInList_def map_of_assoc_upd
      split: option.splits)
  with v' d eq show ?thesis by simp
qed

text \<open>
  C3. When a request is accepted, OpenVPN runs on a file of the vault that holds exactly the
  sanitized lines of the configuration received, every one of them safe; nothing else is left
  in the vault; and the session is in the list, connecting.
\<close>

theorem open_runs_sanitized_config:
  assumes "newRequest e t params q s" and "permissive e" and "wfFs (sdisk s)"
    and "getConn t s \<noteq> None" and "configId q \<noteq> -1"
    and "receivedConfig e q \<noteq> []" and "checksumOk e q s"
    and "sanitize (configLines (receivedConfig e q)) = Some out"
  shows "let s' = fst (dispatch e t ''OPEN'' params s) in
    list_all safeLine out \<and>
    readFile (sdisk s') (vaultFile e q) = Some (utf8 (joinWith [CHR 0x0A] out)) \<and>
    (\<forall>p. under (vaultOf e) p \<and> p \<notin> {vaultOf e, vaultFile e q} \<longrightarrow> readFile (sdisk s') p = None) \<and>
    (\<exists>v. lookupVpn t (configId q) s' = Some v \<and> connecting v \<and> writable (proc v) \<and>
       arguments (proc v) ! 4 = vaultFile e q)"
proof -
  let ?uv = "appDir (os e) @ ''/vault/'' @ userSID q"
  let ?name = "qreplace (qreplace (uuid e) ''{'' []) ''}'' []"
  obtain s1 where s1: "checkChecksum e t q s = Inr (receivedConfig e q, s1)" "sdisk s1 = sdisk s"
    "\<And>i. lookupVpn t i s1 = lookupVpn t i s" "getConn t s1 \<noteq> None"
    using checkChecksum_ok [OF assms(7,6), of t] assms(4) by auto
  define d where "d = writeFile (vaultFile e q) (utf8 (joinWith [CHR 0x0A] out)) (mkpath ?uv (wiped e (sdisk s)))"
  have "prepareConfig e t q s = Inr (?name, s1\<lparr>sdisk := d\<rparr>)"
    by (simp add: prepareConfig_def s1 assms(8) writeVault_ok [OF assms(2)] d_def)
  then have "fst (dispatch e t ''OPEN'' params s) =
      startSession e t q ?uv ?name (userSID q) (vaultOf e) (s1\<lparr>sdisk := d\<rparr>)"
    using assms(1,2) by (simp add: dispatch_open cmdOpen_def newRequest_def openNew_def permissive_def)
  moreover have r: "readFile d (vaultFile e q) = Some (utf8 (joinWith [CHR 0x0A] out))"
    "\<And>p. \<lbrakk>under (vaultOf e) p; p \<noteq> vaultOf e; p \<noteq> vaultFile e q\<rbrakk> \<Longrightarrow> readFile d p = None"
    using wiped_empty [OF assms(3)] by (simp_all add: d_def readFile_write)
  moreover have f: "?uv @ ''/'' @ ?name @ ''.ovpn'' = vaultFile e q" by (simp add: vaultFile_def)
  moreover have "lookupVpn t (configId q) (s1\<lparr>sdisk := d\<rparr>) = None"
    using assms(1) s1(3) by (simp add: newRequest_def)
  ultimately show ?thesis
    using startSession_ok [OF assms(2,5), of t "s1\<lparr>sdisk := d\<rparr>" ?uv ?name _ "userSID q" "vaultOf e"]
      s1(4) sanitize_safe [OF assms(8)] by (auto simp: Let_def)
qed

lemma open_runs_sanitized_config_witness:
  "\<exists>v. lookupVpn 0 7 (fst (dispatch sampleSenv 0 ''OPEN'' sampleOpen (sampleSvc []))) = Some v \<and>
     arguments (proc v) ! 4 = ''C:/SSL/vault/S1/u1.ovpn''"
proof -
  have p: "permissive sampleSenv" by (simp add: permissive_def sampleSenv_def sampleEnv_def)
  have w: "wfFs (sdisk (sampleSvc []))"
  proof -
    have "prefix (a @ ''/'') q \<longrightarrow> a \<in> {''C:'', ''C:/SSL'', ''C:/SSL/vault'', ''C:/SSL/vault/S1''}"
      if "q \<in> {''C:/SSL/vault/S1/u1.ovpn'', ''C:/SSL/vault/S1'', ''C:/SSL/vault'', ''C:/SSL'', ''C:''}"
        "a \<noteq> []" for a q
      using that by (auto simp: prefix_Cons Cons_eq_append_conv append_eq_Cons_conv prefix_def)
    then show ?thesis
      by (auto simp: wfFs_def paths_def sampleSvc_def startSvc_def sampleDisk_def normalized_def)
  qed
  have c: "checksumOk sampleSenv sampleRequest (sampleSvc [])"
    by (simp add: checksumOk_def regValue_def sampleSvc_def startSvc_def simplified_def)
  have o: "sanitize (configLines (receivedConfig sampleSenv sampleRequest)) = Some [''dev tun'']"
    unfolding sample_content by code_simp
  have f: "vaultFile sampleSenv sampleRequest = ''C:/SSL/vault/S1/u1.ovpn''" by code_simp
  have "configId sampleRequest = 7" by (simp add: sampleRequest_def)
  moreover have "let s' = fst (dispatch sampleSenv 0 ''OPEN'' sampleOpen (sampleSvc [])) in
    list_all safeLine [''dev tun''] \<and>
    readFile (sdisk s') (vaultFile sampleSenv sampleRequest) = Some (utf8 (joinWith [CHR 0x0A] [''dev tun''])) \<and>
    (\<forall>p. under (vaultOf sampleSenv) p \<and> p \<notin> {vaultOf sampleSenv, vaultFile sampleSenv sampleRequest}
       \<longrightarrow> readFile (sdisk s') p = None) \<and>
    (\<exists>v. lookupVpn 0 (configId sampleRequest) s' = Some v \<and> connecting v \<and> writable (proc v) \<and>
       arguments (proc v) ! 4 = vaultFile sampleSenv sampleRequest)"
    by (rule open_runs_sanitized_config [OF sample_new p w _ _ _ c o])
      (simp_all add: sample_content, simp_all add: sampleRequest_def sampleSvc_def getConn_def)
  ultimately show ?thesis by (auto simp: Let_def f)
qed

text \<open>
  The keyword is recognized at the start of the line only, as it stands: OpenVPN's quoting
  and its optional leading dashes are not.
\<close>

lemma sanitizer_passes_quoted_keyword:
  "sanitize [''\"script-security\" 2''] = Some [''\"script-security\" 2'']"
  "sanitize [''--script-security 2''] = Some [''--script-security 2'']"
  by code_simp+

section \<open>Sessions that are active\<close>

lemma assoc_upd_same: "map_of l k = Some v \<Longrightarrow> assoc_upd k (\<lambda>_. v) l = l"
  by (induction l) (auto split: if_splits)

lemma onVpn_status:
  assumes "lookupVpn t i s = Some v"
  shows "\<exists>text. onVpn t i sendStatus s = tell t text ''STATUS'' s \<and>
    text = number (vpnId v) @ '';'' @ (if connectionStable v then ''1'' else ''0'') @ '';'' @
      (if connecting v then ''1'' else ''0'') @ '';'' @ number (lastAction v) @ '';'' @ connectionIP v"
proof -
  obtain c where c: "getConn t s = Some c" "map_of (vpnList c) i = Some v"
    using assms by (auto simp: lookupVpn_def foundItemInList_def split: option.splits)
  have "onConn t (\<lambda>c. c\<lparr>vpnList := assoc_upd i (\<lambda>_. v) (vpnList c)\<rparr>) s = s"
  proof -
    have "assoc_upd t (\<lambda>c. c\<lparr>vpnList := assoc_upd i (\<lambda>_. v) (vpnList c)\<rparr>) l = l"
      if "map_of l t = Some c" for l
      using that c(2) by (induction l) (auto simp: assoc_upd_same split: if_splits)
    then show ?thesis using c(1) by (simp add: onConn_def getConn_def)
  qed
  then show ?thesis
    by (simp add: onVpn_def assms sendStatus_def status_text [unfolded append.simps] Let_def)
qed

text \<open>
  A second request for a session that is connecting or connected only reports its status:
  flags, last action and address of the running session, and nothing else changes.
\<close>

theorem open_of_active_session_reports_status:
  assumes "parseOpen params = Some q" and "lookupVpn t (configId q) s = Some v"
    and "connectionStable v \<or> connecting v"
  shows "dispatch e t ''OPEN'' params s =
    (tell t (number (vpnId v) @ '';'' @ (if connectionStable v then ''1'' else ''0'') @ '';'' @
      (if connecting v then ''1'' else ''0'') @ '';'' @ number (lastAction v) @ '';'' @ connectionIP v)
      ''STATUS'' s, Continue)"
  using onVpn_status [OF assms(2)] assms by (auto simp: dispatch_open cmdOpen_def)

lemma open_of_active_session_reports_status_witness:
  "dispatch sampleSenv 0 ''OPEN'' sampleOpen
     ((startSvc sampleDisk [])\<lparr>conns := [(0, newConn\<lparr>vpnList := [(7, sampleVpn\<lparr>connecting := True\<rparr>)]\<rparr>)]\<rparr>) =
   (tell 0 ''7;0;1;-1;'' ''STATUS''
     ((startSvc sampleDisk [])\<lparr>conns := [(0, newConn\<lparr>vpnList := [(7, sampleVpn\<lparr>connecting := True\<rparr>)]\<rparr>)]\<rparr>),
    Continue)"
proof -
  let ?v = "sampleVpn\<lparr>connecting := True\<rparr>"
  let ?s = "(startSvc sampleDisk [])\<lparr>conns := [(0, newConn\<lparr>vpnList := [(7, ?v)]\<rparr>)]\<rparr>"
  have "lookupVpn 0 (configId sampleRequest) ?s = Some ?v"
    by (simp add: lookupVpn_def getConn_def foundItemInList_def sampleRequest_def)
  from open_of_active_session_reports_status [OF parse_sampleOpen this, of sampleSenv]
  show ?thesis by (simp add: sampleVpn_def newOpenVpn_def qt_simps)
qed

section \<open>Answers of the user\<close>

lemma indexOf_semicolon:
  "CHR '';'' \<notin> set a \<Longrightarrow> indexOf (a @ CHR '';'' # b) '';'' = int (length a)"
  by (simp add: indexOf_def index_or_minus_one_def find_sub_Cons_fresh)

lemma answer_parts:
  assumes "CHR '';'' \<notin> set a"
  shows "qleft (a @ CHR '';'' # b) (indexOf (a @ CHR '';'' # b) '';'') = a"
    and "qright (a @ CHR '';'' # b) (int (length (a @ CHR '';'' # b)) - indexOf (a @ CHR '';'' # b) '';'' - 1) = b"
  unfolding indexOf_semicolon [OF assms] by (simp_all add: qleft_append qright_def)

lemma password_delivered:
  assumes "lookupVpn t i s = Some v" and "writable (proc v)" and "inInt32 i"
    and "s' = fst (dispatch e t ''PWDNEEDED'' (number i @ '';'' @ pwd) s)"
  shows "\<exists>v'. lookupVpn t i s' = Some v' \<and>
      stdin (proc v') = stdin (proc v) @ [answerBytes pwd] \<and> lastAction v' = -1 \<and>
      (\<forall>t' j. (t', j) \<noteq> (t, i) \<longrightarrow> lookupVpn t' j s' = lookupVpn t' j s) \<and>
      (\<forall>t'. map_option sent (getConn t' s') = map_option sent (getConn t' s))"
proof -
  have "toUpper (trimmed ''PWDNEEDED'') = ''PWDNEEDED''" by code_simp
  then have s': "s' = onVpn t i (modify (setPassword pwd)) s"
    using assms(3,4) answer_parts [of "number i" pwd] indexOf_semicolon [of "number i" pwd]
    by (simp add: dispatch_def cmdPwdNeeded_def answer_def Let_def)
  obtain c where c: "getConn t s = Some c" "map_of (vpnList c) i = Some v"
    using assms(1) by (auto simp: lookupVpn_def foundItemInList_def split: option.splits)
  have eq: "s' = (onConn t (\<lambda>c. c\<lparr>vpnList := assoc_upd i (\<lambda>_. setPassword pwd v) (vpnList c)\<rparr>) s)\<lparr>sdisk := sdisk s\<rparr>"
    by (simp add: s' onVpn_def assms(1))
  then show ?thesis using c assms(2)
    by (auto simp: lookupVpn_def getConn_onConn foundItemInList_def map_of_assoc_upd setPassword_def
      writeProc_def split: option.splits)
qed

text \<open>
  The answer of a user to the request for a password reaches the process of that session
  as one line, unchanged, semicolons included; no other session gets it and the client is
  sent nothing.
\<close>

theorem password_reaches_its_process:
  assumes "lookupVpn t i s = Some v" and "writable (proc v)" and "inInt32 i"
    and "s' = fst (dispatch e t ''PWDNEEDED'' (number i @ '';'' @ pwd) s)"
  shows "\<exists>v'. lookupVpn t i s' = Some v' \<and>
      stdin (proc v') = stdin (proc v) @ [answerBytes pwd] \<and> lastAction v' = -1 \<and>
      (\<forall>t' j. (t', j) \<noteq> (t, i) \<longrightarrow> lookupVpn t' j s' = lookupVpn t' j s) \<and>
      (\<forall>t'. map_option sent (getConn t' s') = map_option sent (getConn t' s))"
  by (rule password_delivered [OF assms])

lemma password_reaches_its_process_witness:
  "\<exists>v'. lookupVpn 0 7 (fst (dispatch sampleSenv 0 ''PWDNEEDED'' ''7;a;b''
       ((startSvc sampleDisk [])\<lparr>conns := [(0, newConn\<lparr>vpnList :=
          [(7, sampleVpn\<lparr>proc := newProcess\<lparr>writable := True\<rparr>\<rparr>)]\<rparr>)]\<rparr>))) = Some v' \<and>
     stdin (proc v') = [''a;b'' @ nl]"
proof -
  let ?v = "sampleVpn\<lparr>proc := newProcess\<lparr>writable := True\<rparr>\<rparr>"
  let ?s = "(startSvc sampleDisk [])\<lparr>conns := [(0, newConn\<lparr>vpnList := [(7, ?v)]\<rparr>)]\<rparr>"
  have l: "lookupVpn 0 7 ?s = Some ?v" by (simp add: lookupVpn_def getConn_def foundItemInList_def)
  have a: "answerBytes ''a;b'' = ''a;b'' @ nl" by code_simp
  have n: "number 7 = ''7''" by (simp add: qt_simps)
  show ?thesis
    using password_reaches_its_process [OF l, of "fst (dispatch sampleSenv 0 ''PWDNEEDED'' (number 7 @ '';'' @ ''a;b'') ?s)" sampleSenv "''a;b''"]
    by (auto simp: inInt32_def n a newProcess_def)
qed

section \<open>Reading outside the list\<close>

text \<open>The commands that look a connection up by its index.\<close>

definition indexCommands :: "string list" where
  "indexCommands = [''GETLOG'', ''GETLOG_RESP'', ''GET_ERROR'', ''GET_ERROR_RESP'']"

lemma misuse_startSession [simp]: "misuse (startSession e t q p n u a s) = misuse s"
  by (simp add: startSession_def Let_def)

lemma misuse_prepare:
  "case prepareConfig e t q s of Inl s1 \<Rightarrow> misuse s1 = misuse s | Inr (n, s1) \<Rightarrow> misuse s1 = misuse s"
  by (auto simp: prepareConfig_def checkChecksum_def writeVault_def refuse_def Let_def
    split: sum.splits option.splits prod.splits if_splits)

lemma misuse_openNew [simp]: "misuse (fst (openNew e t q s)) = misuse s"
  using misuse_prepare [where e = e and t = t and q = q and s = s]
  by (auto simp: openNew_def split: sum.splits)

lemma misuse_open [simp]: "misuse (fst (cmdOpen e t params s)) = misuse s"
  by (simp add: cmdOpen_def split: option.splits)

lemma misuse_stop [simp]: "misuse (fst (cmdStopClients t s)) = misuse s"
proof -
  have "misuse (fold (\<lambda>(t', c). tell t' x k) l s) = misuse s" for l x k s
    by (induction l arbitrary: s) (simp_all add: case_prod_beta)
  then show ?thesis by (simp add: cmdStopClients_def)
qed

lemma misuse_others [simp]:
  "misuse (fst (cmdClose e t params s)) = misuse s" "misuse (fst (cmdStatus t params s)) = misuse s"
  "misuse (fst (answer f t params s)) = misuse s" "misuse (fst (cmdAddTap e t s)) = misuse s"
  "misuse (fst (cmdTapCount e t s)) = misuse s" "misuse (fst (cmdRemoveTap e t s)) = misuse s"
  "misuse (fst (cmdDummy t params s)) = misuse s" "misuse (fst (cmdGetClients t s)) = misuse s"
  "misuse (fst (cmdAllStatus t s)) = misuse s" "misuse (fst (cmdRemoveChecksum e t params s)) = misuse s"
  by (simp_all add: cmdClose_def cmdStatus_def answer_def cmdAddTap_def cmdTapCount_def
    cmdRemoveTap_def cmdDummy_def cmdGetClients_def cmdAllStatus_def cmdRemoveChecksum_def Let_def
    split: option.splits)

definition negativeIndex :: "string \<Rightarrow> bool" where
  "negativeIndex params \<longleftrightarrow> indexOf params '';'' \<noteq> -1 \<and> toInt (qleft params (indexOf params '';'')) < 0"

lemma misuse_route: "misuse (route f k x t params s) \<longleftrightarrow> misuse s \<or> negativeIndex params"
  by (auto simp: route_def negativeIndex_def element_def Let_def split: prod.splits)

text \<open>
  A command reads outside the connection list exactly when it is one of the four that
  look a connection up by index and the index it is given is negative; an index that is too
  large is refused.
\<close>

theorem only_negative_index_reads_outside:
  "misuse (fst (dispatch e t cmd params s)) \<longleftrightarrow>
     misuse s \<or> (toUpper (trimmed cmd) \<in> set indexCommands \<and> negativeIndex params)"
proof (cases "cmd = []")
  case True
  then show ?thesis by (simp add: dispatch_def indexCommands_def trimmed_def)
next
  case False
  then show ?thesis
    by (simp add: dispatch_def indexCommands_def Let_def misuse_route cmdUserNeeded_def
      cmdPkNeeded_def cmdPwdNeeded_def cmdCkNeeded_def cmdHttpUserNeeded_def cmdHttpPassNeeded_def
      cmdGetLog_def cmdGetLogResp_def cmdGetError_def cmdGetErrorResp_def cmdWriteChecksum_def
      cmdChecksum_def)
qed

section \<open>Ids of connections\<close>

text \<open>
  The id of a connection is the length of the list when it is added, so an id is given out
  again while its first owner is still connected, when an earlier connection has gone.
\<close>

lemma connection_ids_collide:
  "map (\<lambda>(t, c). (t, connId c)) (conns (acceptConnection (closeConnection sampleSenv 0
     (acceptConnection (acceptConnection (startSvc d g)))))) = [(1, 1), (2, 1)]"
  by (simp add: acceptConnection_def addConnection_def startSvc_def newConn_def onConn_def
    assoc_put_def Let_def)

section \<open>A client goes away\<close>

lemma endSessions_signals:
  assumes "eventOk e"
  shows "signals (fold (\<lambda>(i, v). endSession e v) l s) =
    signals s @ map (\<lambda>(i, v). exitEvent (vpnId v)) l"
proof (induction l arbitrary: s)
  case (Cons x l)
  obtain i v where "x = (i, v)" by fastforce
  then show ?case
    using Cons assms by (simp add: endSession_def disconnectVpn_def exitEvent_eq Let_def)
qed simp

text \<open>
  C34. When a client's connection ends, the connection leaves the list, the other connections
  stay as they are, and the exit event of each of its sessions is set, once and in order.
\<close>

theorem closing_ends_all_sessions:
  assumes "wfSvc s" and "getConn t s = Some c" and "eventOk (os e)"
  shows "getConn t (closeConnection e t s) = None \<and>
    (\<forall>t'. t' \<noteq> t \<longrightarrow> getConn t' (closeConnection e t s) = getConn t' s) \<and>
    signals (closeConnection e t s) = signals s @ map (exitEvent \<circ> fst) (vpnList c)"
proof -
  have "map (\<lambda>(i, v). exitEvent (vpnId v)) (vpnList c) = map (exitEvent \<circ> fst) (vpnList c)"
    using wfSvc_getConn [OF assms(1,2)] by (auto simp: wfConn_def)
  then have "signals (closeConnection e t s) = signals s @ map (exitEvent \<circ> fst) (vpnList c)"
    using assms(2,3) by (simp add: closeConnection_def endSessions_signals)
  moreover have "distinct_keys (conns s)" using assms(1) by (simp add: wfSvc_def)
  ultimately show ?thesis by (simp add: getConn_def assoc.look_del)
qed

lemma closing_ends_all_sessions_witness:
  "signals (closeConnection sampleSenv 0
     ((startSvc sampleDisk [])\<lparr>conns := [(0, newConn\<lparr>vpnList := [(7, sampleVpn)]\<rparr>)], nextThread := 1\<rparr>)) =
   [''openvpngui_exit_7'']"
proof -
  let ?c = "newConn\<lparr>vpnList := [(7, sampleVpn)]\<rparr>"
  let ?s = "(startSvc sampleDisk [])\<lparr>conns := [(0, ?c)], nextThread := 1\<rparr>"
  have w: "wfSvc ?s"
    by (simp add: wfSvc_def wfConn_def distinct_keys_def newConn_def sampleVpn_def)
  have g: "getConn 0 ?s = Some ?c" by (simp add: getConn_def)
  have e: "eventOk (os sampleSenv)" by (simp add: sampleSenv_def sampleEnv_def)
  from closing_ends_all_sessions [OF w g e] show ?thesis
    by (simp add: startSvc_def exitEvent_eq qt_simps)
qed

section \<open>Removing a checksum\<close>

lemma map_of_regRemove: "map_of (regRemove k l) k' = (if under k k' then None else map_of l k')"
proof -
  have "regRemove k l = filter (\<lambda>f. \<not> under k (fst f)) l"
    unfolding regRemove_def by (rule filter_cong) auto
  then show ?thesis by (simp add: map_of_filter_key [where P = "\<lambda>x. \<not> under k x"])
qed

lemma security_keys:
  assumes "CHR ''%'' \<notin> set sid"
  shows "qarg (qarg ''Users/%1/Security/%2'' sid) (number i) = ''Users/'' @ sid @ ''/Security/'' @ number i"
    and "checksumKey sid i = (''Users/'' @ sid @ ''/Security/'' @ number i) @ ''/Checksum''"
    and "qarg ''Users/%1'' sid = ''Users/'' @ sid"
  using assms by (simp_all add: checksumKey_def qarg_def)

lemma regAllKeys_Nil: "regAllKeys g l = [] \<Longrightarrow> prefix (g @ ''/'') k \<Longrightarrow> map_of l k = None"
  by (fastforce simp: regAllKeys_def filter_empty_conv map_of_eq_None_iff)

lemma checksum_removed:
  assumes "CHR '';'' \<notin> set user" and "CHR '';'' \<notin> set sid" and "CHR '';'' \<notin> set flag"
    and "CHR ''%'' \<notin> set sid" and "inInt32 i" and "\<not> portable (os e)"
    and "s' = fst (dispatch e t ''REMOVE_CHECKSUM'' (number i @ '';'' @ user @ '';'' @ sid @ '';'' @ flag) s)"
    and "k \<noteq> ''Users/'' @ sid"
  shows "map_of (registry s') k =
    (if under (''Users/'' @ sid @ ''/Security/'' @ number i) k then None else map_of (registry s) k)"
proof -
  have u: "toUpper (trimmed ''REMOVE_CHECKSUM'') = ''REMOVE_CHECKSUM''" by code_simp
  have f: "splitOn CHR '';'' (number i @ '';'' @ user @ '';'' @ sid @ '';'' @ flag) = [number i, user, sid, flag]"
    using assms(1-3) by simp
  let ?k = "''Users/'' @ sid @ ''/Security/'' @ number i"
  let ?reg = "regRemove ?k (registry s)"
  have s': "registry s' = (if regAllKeys (''Users/'' @ sid) ?reg = [] then regRemove (''Users/'' @ sid) ?reg else ?reg)"
    using assms(5-7) u f security_keys [OF assms(4)]
    by (simp add: dispatch_def cmdRemoveChecksum_def Let_def)
  show ?thesis
  proof (cases "regAllKeys (''Users/'' @ sid) ?reg = [] \<and> under (''Users/'' @ sid) k")
    case True
    then have "prefix ((''Users/'' @ sid) @ ''/'') k" using assms(8) by (simp only: under_def) blast
    with True have "map_of ?reg k = None" using regAllKeys_Nil by blast
    moreover have "map_of (registry s') k = None" using True by (simp add: s' map_of_regRemove)
    ultimately show ?thesis by (simp add: map_of_regRemove)
  next
    case False
    then show ?thesis by (auto simp: s' map_of_regRemove)
  qed
qed

text \<open>
  \<open>REMOVE_CHECKSUM\<close> takes the checksum of that connection and user from the registry and
  leaves every other entry, so the next request for it is not compared any more.
\<close>

theorem removed_checksum_is_gone:
  assumes "CHR '';'' \<notin> set user" and "CHR '';'' \<notin> set sid" and "CHR '';'' \<notin> set flag"
    and "CHR ''%'' \<notin> set sid" and "inInt32 i" and "\<not> portable (os e)"
    and "s' = fst (dispatch e t ''REMOVE_CHECKSUM'' (number i @ '';'' @ user @ '';'' @ sid @ '';'' @ flag) s)"
  shows "regValue (checksumKey sid i) s' = [] \<and>
    (\<forall>k. \<not> under (''Users/'' @ sid @ ''/Security/'' @ number i) k \<and> k \<noteq> ''Users/'' @ sid \<longrightarrow>
       map_of (registry s') k = map_of (registry s) k)"
proof -
  note r = checksum_removed [OF assms]
  have "under (''Users/'' @ sid @ ''/Security/'' @ number i) (checksumKey sid i)"
    by (simp add: under_def security_keys(2) [OF assms(4)])
  moreover have "checksumKey sid i \<noteq> ''Users/'' @ sid" by (simp add: security_keys(2) [OF assms(4)])
  ultimately show ?thesis using r by (simp add: regValue_def)
qed

lemma removed_checksum_is_gone_witness:
  "regValue (checksumKey ''S1'' 7) (fst (dispatch sampleSenv 0 ''REMOVE_CHECKSUM'' ''7;me;S1;0''
     (sampleSvc [(''Users/S1/Security/7/Checksum'', ''abc'')]))) = []"
proof -
  have n: "number 7 = ''7''" by (simp add: qt_simps)
  have "\<not> portable (os sampleSenv)" by (simp add: sampleSenv_def sampleEnv_def)
  from removed_checksum_is_gone [where user = "''me''" and sid = "''S1''" and flag = "''0''" and i = 7,
      OF _ _ _ _ _ this refl]
  show ?thesis by (simp add: n inInt32_def)
qed

end
