(* ===== verification/ServiceApp.thy ===== *)
theory ServiceApp
  imports Service
begin

text \<open>
  The service program around the server: \<open>service/debug.cpp\<close> (the log file, its levels and
  categories) and \<open>service/service.cpp\<close> (start and stop). The settings file, the clock and
  what the file system allows are parameters.
\<close>

section \<open>The debug log\<close>

datatype level = LNone | LError | LCategory | LFunction | LComment | LDatabase | LDebug
  | LConstruktor | LDestruktor | LAll

fun levelNumber :: "level \<Rightarrow> nat" where
  "levelNumber LNone = 0" | "levelNumber LError = 1" | "levelNumber LCategory = 2"
| "levelNumber LFunction = 3" | "levelNumber LComment = 4" | "levelNumber LDatabase = 5"
| "levelNumber LDebug = 6" | "levelNumber LConstruktor = 7" | "levelNumber LDestruktor = 8"
| "levelNumber LAll = 9"

lemma levelNumber_inj: "levelNumber a = levelNumber b \<Longrightarrow> a = b"
  by (cases a; cases b) simp_all

instantiation level :: linorder
begin

definition less_eq_level :: "level \<Rightarrow> level \<Rightarrow> bool" where
  "less_eq_level a b \<longleftrightarrow> levelNumber a \<le> levelNumber b"

definition less_level :: "level \<Rightarrow> level \<Rightarrow> bool" where
  "less_level a b \<longleftrightarrow> levelNumber a < levelNumber b"

instance
  by standard (auto simp: less_eq_level_def less_level_def levelNumber_inj)

end

record debug =
  debugEnabled :: bool
  debugPath :: string
  debugLevel :: level
  dateTimeEnabled :: bool
  mSecsEnabled :: bool
  debugCategories :: "string list"

definition newDebug :: debug where
  "newDebug = \<lparr>debugEnabled = False, debugPath = [], debugLevel = LNone, dateTimeEnabled = False,
     mSecsEnabled = False, debugCategories = []\<rparr>"

text \<open>The clock gives the text for a format; \<open>directoryReady\<close> and \<open>canAppend\<close> are the disk's answers.\<close>

record logEnv =
  clock :: "string \<Rightarrow> string"
  appPath :: string
  directoryReady :: "string \<Rightarrow> bool"
  canAppend :: "string \<Rightarrow> bool"

definition enableDebugging :: "bool \<Rightarrow> debug \<Rightarrow> debug" where
  "enableDebugging flag d = d\<lparr>debugEnabled := flag\<rparr>"

definition setDebugPath :: "string \<Rightarrow> debug \<Rightarrow> debug" where
  "setDebugPath path d =
     (if path = [] then d
      else (let tmp = qreplace path [CHR 0x5C] ''/'' in
            d\<lparr>debugPath := (if qright tmp 1 \<noteq> ''/'' then tmp @ ''/'' else tmp)\<rparr>))"

definition setDebugLevel :: "level \<Rightarrow> debug \<Rightarrow> debug" where
  "setDebugLevel l d = d\<lparr>debugLevel := l\<rparr>"

definition enableDateTime :: "bool \<Rightarrow> debug \<Rightarrow> debug" where
  "enableDateTime flag d = d\<lparr>dateTimeEnabled := flag\<rparr>"

definition enableMSecs :: "bool \<Rightarrow> debug \<Rightarrow> debug" where
  "enableMSecs flag d =
     (let d1 = d\<lparr>mSecsEnabled := flag\<rparr> in if flag then d1\<lparr>dateTimeEnabled := True\<rparr> else d1)"

fun levelName :: "level \<Rightarrow> string" where
  "levelName LError = ''Error''" | "levelName LCategory = ''Category''"
| "levelName LFunction = ''Function''" | "levelName LComment = ''Comment''"
| "levelName LDatabase = ''Database''" | "levelName LDebug = ''Debug''"
| "levelName LConstruktor = ''Construktor''" | "levelName LDestruktor = ''Destruktor''"
| "levelName LNone = ''ALL''" | "levelName LAll = ''ALL''"

text \<open>A log call: the new state (the path may be filled in) and the file and text written.\<close>

definition logMessage :: "logEnv \<Rightarrow> string \<Rightarrow> level \<Rightarrow> string \<Rightarrow> debug \<Rightarrow> debug \<times> (string \<times> string) option" where
  "logMessage e message l filename d =
     (if \<not> debugEnabled d then (d, None)
      else (let timeDate = (if dateTimeEnabled d
                  then clock e (if mSecsEnabled d then ''dd.MM.yyyy hh:mm:ss.zzz'' else ''dd.MM.yyyy hh:mm:ss'')
                  else []);
                d1 = (if debugPath d = [] then d\<lparr>debugPath := appPath e\<rparr> else d)
            in if \<not> directoryReady e (debugPath d1) then (d1, None)
               else (let fileName = (if filename \<noteq> [] then filename else ''debug-vpn-service.txt'');
                         indent = (if l = LError \<and> debugLevel d1 = LError then []
                                   else replicate (length (debugCategories d1)) (CHR 0x09));
                         file = debugPath d1 @ fileName
                     in if canAppend e file
                        then (d1, Some (file, indent @ timeDate @ '' '' @ levelName l @ '' -> '' @ message @
                               [CHR 0x0D, CHR 0x0A]))
                        else (d1, None))))"

text \<open>Several calls in a row, with what they write.\<close>

fun logAll :: "logEnv \<Rightarrow> (string \<times> level) list \<Rightarrow> string \<Rightarrow> debug \<Rightarrow> debug \<times> (string \<times> string) list" where
  "logAll e [] f d = (d, [])"
| "logAll e ((m, l) # ms) f d =
     (case logMessage e m l f d of
        (d1, w) \<Rightarrow> (case logAll e ms f d1 of
           (d2, ws) \<Rightarrow> (d2, (case w of None \<Rightarrow> ws | Some x \<Rightarrow> x # ws))))"

definition doubleRule :: string where
  "doubleRule = replicate 69 CHR ''=''"

definition singleRule :: string where
  "singleRule = replicate 69 CHR ''-''"

definition addCategory :: "logEnv \<Rightarrow> string \<Rightarrow> debug \<Rightarrow> debug \<times> (string \<times> string) list" where
  "addCategory e cat d =
     (if cat = [] then (d, [])
      else logAll e [(doubleRule, LCategory), (''Category: '' @ cat @ '' now started.'', LCategory),
             (doubleRule, LCategory)] [] (d\<lparr>debugCategories := debugCategories d @ [cat]\<rparr>))"

definition endCategory :: "logEnv \<Rightarrow> debug \<Rightarrow> debug \<times> (string \<times> string) list" where
  "endCategory e d =
     (if debugCategories d = [] then (d, [])
      else (case logAll e [(doubleRule, LCategory),
                (''Category: '' @ last (debugCategories d) @ '' now ended.'', LCategory),
                (doubleRule, LCategory)] [] d of
              (d1, ws) \<Rightarrow> (d1\<lparr>debugCategories := butlast (debugCategories d1)\<rparr>, ws)))"

definition clearCategories :: "logEnv \<Rightarrow> debug \<Rightarrow> debug \<times> (string \<times> string) list" where
  "clearCategories e d =
     (case logAll e [(doubleRule, LCategory), (''All categories now ended.'', LCategory),
         (doubleRule, LCategory)] [] d of
        (d1, ws) \<Rightarrow> (d1\<lparr>debugCategories := []\<rparr>, ws))"

definition logError :: "logEnv \<Rightarrow> string \<Rightarrow> string \<Rightarrow> debug \<Rightarrow> debug \<times> (string \<times> string) list" where
  "logError e message f d = logAll e [(singleRule, LError), (message, LError), (singleRule, LError)] f d"

definition logFunction :: "logEnv \<Rightarrow> string \<Rightarrow> string \<Rightarrow> debug \<Rightarrow> debug \<times> (string \<times> string) list" where
  "logFunction e message f d = logAll e [(message, LFunction)] f d"

section \<open>Starting and stopping\<close>

record app =
  server :: "server option"
  appSettings :: settings
  log :: debug
  listenPort :: nat

text \<open>A value of the ini file as a number and as a truth value, with its default.\<close>

definition iniInt :: "(string \<Rightarrow> string option) \<Rightarrow> string \<Rightarrow> int \<Rightarrow> int" where
  "iniInt ini k def = (case ini k of None \<Rightarrow> def | Some v \<Rightarrow> toInt v)"

definition iniBool :: "(string \<Rightarrow> string option) \<Rightarrow> string \<Rightarrow> int \<Rightarrow> bool" where
  "iniBool ini k def =
     (case ini k of None \<Rightarrow> def \<noteq> 0
      | Some v \<Rightarrow> \<not> (toLower v = ''0'' \<or> toLower v = ''false'' \<or> v = []))"

fun levelOf :: "int \<Rightarrow> level" where
  "levelOf n =
     (if n = 1 then LError else if n = 2 then LCategory else if n = 3 then LFunction
      else if n = 4 then LComment else if n = 5 then LDatabase else if n = 6 then LDebug
      else if n = 7 then LConstruktor else if n = 8 then LDestruktor else if n = 9 then LAll
      else LNone)"

definition readSettings :: "(string \<Rightarrow> string option) \<Rightarrow> settings \<Rightarrow> settings" where
  "readSettings ini st =
     setTapCheckTimeout (iniInt ini ''tap/check'' 30000)
       (setTapRemoveTimeout (iniInt ini ''tap/remove'' 60000)
         (setTapInstallTimeout (iniInt ini ''tap/install'' 180000)
           (setTapDeviceTimeout (iniInt ini ''tap/count'' 20000) st)))"

text \<open>\<open>debugBuild\<close> is the build flag \<open>_ENABLE_DEBUG\<close>; the port is cut to 16 bits.\<close>

definition startService :: "bool \<Rightarrow> senv \<Rightarrow> (string \<Rightarrow> string option) \<Rightarrow> fsys \<Rightarrow> (string \<times> string) list \<Rightarrow> app \<Rightarrow> app" where
  "startService debugBuild e ini d g a =
     (let d1 = wiped e d;
          dbg1 = setDebugPath (appDir (os e)) (log a);
          dbg2 = enableDebugging (iniBool ini ''debug/state'' (if debugBuild then 1 else 0)) dbg1;
          dbg3 = setDebugLevel (levelOf (iniInt ini ''debug/level'' (if debugBuild then 9 else 6))) dbg2;
          dbg4 = enableMSecs (iniBool ini ''debug/msecs'' 1) (enableDateTime (iniBool ini ''debug/date'' 1) dbg3)
      in a\<lparr>server := Some (startServer d1 g), appSettings := readSettings ini (appSettings a), log := dbg4,
           listenPort := nat (iniInt ini ''ports/service'' 3656 mod 2 ^ 16)\<rparr>)"

text \<open>Stopping closes the listening socket and clears the vault.\<close>

definition stopService :: "senv \<Rightarrow> server \<Rightarrow> server" where
  "stopService e s = s\<lparr>state := (state s)\<lparr>sdisk := wiped e (sdisk (state s))\<rparr>\<rparr>"

section \<open>Properties\<close>

text \<open>
  Every message is written while logging is on, whatever the level set: the level
  changes at most the indentation of errors.
\<close>

theorem log_level_is_not_a_filter:
  assumes "debugEnabled d" and "debugPath d \<noteq> []" and "directoryReady e (debugPath d)"
    and "canAppend e (debugPath d @ ''debug-vpn-service.txt'')"
  shows "\<exists>indent time. snd (logMessage e m l [] (setDebugLevel k d)) =
    Some (debugPath d @ ''debug-vpn-service.txt'',
      indent @ time @ '' '' @ levelName l @ '' -> '' @ m @ [CHR 0x0D, CHR 0x0A])"
proof -
  have "\<exists>indent time. snd (logMessage e m l [] (setDebugLevel k d)) =
    Some (debugPath d @ ''debug-vpn-service.txt'',
      indent @ time @ ('' '' @ levelName l @ '' -> '' @ m @ [CHR 0x0D, CHR 0x0A]))"
    using assms by (auto simp: logMessage_def setDebugLevel_def Let_def)
  then show ?thesis .
qed

lemma log_level_is_not_a_filter_witness:
  "\<exists>indent time. snd (logMessage \<lparr>clock = (\<lambda>f. f), appPath = [], directoryReady = (\<lambda>p. True),
       canAppend = (\<lambda>p. True)\<rparr> ''secret'' LComment []
       (setDebugLevel LNone (newDebug\<lparr>debugEnabled := True, debugPath := ''C:/''\<rparr>))) =
     Some (debugPath (newDebug\<lparr>debugEnabled := True, debugPath := ''C:/''\<rparr>) @ ''debug-vpn-service.txt'',
       indent @ time @ '' '' @ levelName LComment @ '' -> '' @ ''secret'' @ [CHR 0x0D, CHR 0x0A])"
  by (rule log_level_is_not_a_filter) simp_all

end
