(* ===== verification/Crypt.thy ===== *)
theory Crypt
  imports Prelude
begin

text \<open>
  The encryption of stored values: \<open>client/src/database/crypt.cpp\<close>. A \<open>QByteArray\<close> is a
  \<open>string\<close> of bytes here. The CryptoAPI is the record \<open>cryptApi\<close>; its \<open>encrypt\<close> takes key, IV and
  plain text and stands for the two calls of \<open>CryptEncrypt\<close> (size, then data), its \<open>decrypt\<close>
  for \<open>CryptDecrypt\<close>; \<open>None\<close> is a failure that leaves the buffer and the sizes alone. The hexadecimal
  form (\<open>QByteArray::toHex\<close>, \<open>fromHex\<close>) and the derivation of key and IV are modelled. A thrown
  \<open>std::runtime_error\<close> is \<open>None\<close>. \<open>decodeUtf8\<close> is Qt's decoder, used where the callers turn
  the decoded bytes into a \<open>QString\<close>.
\<close>

section \<open>Hexadecimal\<close>

definition hexDigit :: "nat \<Rightarrow> char" where
  "hexDigit d = (if d < 10 then char_of (48 + d) else char_of (87 + d))"

definition hexValue :: "char \<Rightarrow> nat option" where
  "hexValue c = (let n = code c in
     if 48 \<le> n \<and> n \<le> 57 then Some (n - 48)
     else if 97 \<le> n \<and> n \<le> 102 then Some (n - 87)
     else if 65 \<le> n \<and> n \<le> 70 then Some (n - 55)
     else None)"

fun toHex :: "string \<Rightarrow> string" where
  "toHex [] = []"
| "toHex (c # cs) = hexDigit (code c div 16) # hexDigit (code c mod 16) # toHex cs"

text \<open>
  \<open>fromHex\<close> reads the digits from the end, two to a byte, and skips every other character; a
  digit without a partner is the low half of the first byte.
\<close>

fun pairUp :: "nat list \<Rightarrow> string" where
  "pairUp [] = []"
| "pairUp [l] = [char_of l]"
| "pairUp (l # h # ds) = char_of (16 * h + l) # pairUp ds"

definition fromHex :: "string \<Rightarrow> string" where
  "fromHex s = rev (pairUp (rev (List.map_filter hexValue s)))"

lemma hexValue_Digit [simp]: "d < 16 \<Longrightarrow> hexValue (hexDigit d) = Some d"
  by (auto simp: hexValue_def hexDigit_def code_def of_char_of)

lemma hexDigit_code: "d < 16 \<Longrightarrow> code (hexDigit d) \<in> {48..57} \<union> {97..102}"
  by (auto simp: hexDigit_def code_def of_char_of)

lemma map_filter_toHex:
  "List.map_filter hexValue (toHex s) = concat (map (\<lambda>c. [code c div 16, code c mod 16]) s)"
  by (induction s) (simp_all add: map_filter_simps less_mult_imp_div_less)

lemma pairUp_append_two: "even (length ds) \<Longrightarrow> pairUp (ds @ [l, h]) = pairUp ds @ [char_of (16 * h + l)]"
  by (induction ds rule: pairUp.induct) auto

lemma fromHex_toHex [simp]: "fromHex (toHex s) = s"
proof -
  have ev: "even (length (concat (map (\<lambda>c. [code c div 16, code c mod 16]) t)))" for t
    by (induction t) auto
  have "rev (pairUp (rev (concat (map (\<lambda>c. [code c div 16, code c mod 16]) s)))) = s"
    by (induction s) (simp_all add: pairUp_append_two ev)
  then show ?thesis by (simp add: fromHex_def map_filter_toHex)
qed

lemma toHex_codes: "c \<in> set (toHex s) \<Longrightarrow> code c \<in> {48..57} \<union> {97..102}"
proof (induction s)
  case (Cons a s)
  have "code a div 16 < 16" "code a mod 16 < 16" by (simp_all add: less_mult_imp_div_less)
  with Cons hexDigit_code [of "code a div 16"] hexDigit_code [of "code a mod 16"] show ?case by fastforce
qed simp

lemma toHex_fresh: "code c < 48 \<or> 102 < code c \<Longrightarrow> c \<notin> set (toHex s)"
  using toHex_codes [of c s] by auto

lemma trimmed_toHex [simp]: "trimmed (toHex s) = toHex s"
  by (rule trimmed_no_space) (use toHex_codes in \<open>fastforce simp: isSpace_def\<close>)

lemma toHex_Nil_iff [simp]: "toHex s = [] \<longleftrightarrow> s = []"
  by (cases s) auto

section \<open>Key and initialisation vector\<close>

text \<open>\<open>BadKeyset b\<close>: the first call failed with \<open>NTE_BAD_KEYSET\<close>, \<open>b\<close> is the second call.\<close>

datatype acquired = Acquired | BadKeyset bool | OtherError

record cryptApi =
  acquireContext :: acquired
  importsKey :: bool
  encrypt :: "string \<Rightarrow> string \<Rightarrow> string \<Rightarrow> string option"
  decrypt :: "string \<Rightarrow> string \<Rightarrow> string \<Rightarrow> string option"
  decodeUtf8 :: "string \<Rightarrow> string"

record crypt =
  secretKey :: string
  exceptionEnabled :: bool

definition defaultKey :: string where
  "defaultKey = ''aes128-cbc-pkcs7-sn93-sh21-jks-1''"

definition magicsKey :: "string list" where
  "magicsKey =
     (let lst = map (\<lambda>w. qreplace w ''c'' ''m'') (splitOn CHR ''-'' ''aes128-cbc-pkcs7-sn93-sh21-jks-12'');
          lst = tl lst
      in take 5 lst @ drop 6 lst)"

text \<open>
  The key blob: 16 bytes copied from the key, those past its length set to zero; the IV is the
  first block of the joined words.
\<close>

definition keyBytes :: "string \<Rightarrow> string" where
  "keyBytes k = take 16 (k @ replicate 16 (CHR 0x00))"

definition ivBytes :: string where
  "ivBytes = take 16 (joinWith ''<'' magicsKey)"

text \<open>
  The handle: \<open>Inl\<close> when an exception leaves the function, otherwise whether the key was
  imported. An unimported key is reported in a message box and the function goes on.
\<close>

definition openKey :: "cryptApi \<Rightarrow> crypt \<Rightarrow> unit + bool" where
  "openKey a c =
     (if acquireContext a = BadKeyset False then Inl ()
      else if acquireContext a = OtherError \<or> \<not> importsKey a then
        (if exceptionEnabled c then Inl () else Inr False)
      else Inr True)"

definition encodePlaintextUtf8 :: "cryptApi \<Rightarrow> crypt \<Rightarrow> string \<Rightarrow> string option" where
  "encodePlaintextUtf8 a c plain =
     (case openKey a c of
        Inl _ \<Rightarrow> None
      | Inr imported \<Rightarrow>
          (case (if imported then encrypt a (keyBytes (secretKey c)) ivBytes plain else None) of
             Some e \<Rightarrow> Some (toHex e)
           | None \<Rightarrow> if exceptionEnabled c then None else Some (toHex plain)))"

text \<open>A second copy of the function, for text that is ASCII.\<close>

definition encodePlaintextAscii :: "cryptApi \<Rightarrow> crypt \<Rightarrow> string \<Rightarrow> string option" where
  "encodePlaintextAscii a c plain =
     (case openKey a c of
        Inl _ \<Rightarrow> None
      | Inr imported \<Rightarrow>
          (case (if imported then encrypt a (keyBytes (secretKey c)) ivBytes plain else None) of
             Some e \<Rightarrow> Some (toHex e)
           | None \<Rightarrow> if exceptionEnabled c then None else Some (toHex plain)))"

lemma encodePlaintextAscii_eq: "encodePlaintextAscii a c plain = encodePlaintextUtf8 a c plain"
  by (simp add: encodePlaintextAscii_def encodePlaintextUtf8_def)

definition encodePlaintext :: "cryptApi \<Rightarrow> crypt \<Rightarrow> string \<Rightarrow> string option" where
  "encodePlaintext a c plain = (if plain = [] then Some plain else encodePlaintextUtf8 a c (utf8 plain))"

definition decodeToPlaintextWithKey :: "cryptApi \<Rightarrow> crypt \<Rightarrow> string \<Rightarrow> string option" where
  "decodeToPlaintextWithKey a c crypted =
     (case openKey a c of
        Inl _ \<Rightarrow> None
      | Inr imported \<Rightarrow>
          (case (if imported then decrypt a (keyBytes (secretKey c)) ivBytes (fromHex crypted) else None) of
             Some d \<Rightarrow> Some d
           | None \<Rightarrow> if exceptionEnabled c then None else Some (fromHex crypted)))"

definition decodeToPlaintext :: "cryptApi \<Rightarrow> crypt \<Rightarrow> string \<Rightarrow> string option" where
  "decodeToPlaintext a c crypted =
     (if crypted = [] then Some [] else decodeToPlaintextWithKey a c crypted)"

definition decodedText :: "cryptApi \<Rightarrow> crypt \<Rightarrow> string \<Rightarrow> string option" where
  "decodedText a c crypted = map_option (decodeUtf8 a) (decodeToPlaintext a c crypted)"

definition newCrypt :: crypt where
  "newCrypt = \<lparr>secretKey = defaultKey, exceptionEnabled = False\<rparr>"

section \<open>What is stored can be read back\<close>

text \<open>The documented behaviour of the cipher: what was encrypted under a key and IV is decrypted.\<close>

definition inverseCipher :: "cryptApi \<Rightarrow> bool" where
  "inverseCipher a \<longleftrightarrow> (\<forall>k v p e. encrypt a k v p = Some e \<longrightarrow> e \<noteq> [] \<and> decrypt a k v e = Some p)"

lemma encode_hex:
  "encodePlaintext a c p = Some e \<Longrightarrow> p \<noteq> [] \<Longrightarrow> \<exists>b. e = toHex b"
  by (auto simp: encodePlaintext_def encodePlaintextUtf8_def split: sum.splits option.splits if_splits)

lemma encode_trimmed: "encodePlaintext a c p = Some e \<Longrightarrow> p \<noteq> [] \<Longrightarrow> trimmed e = e"
  by (auto dest!: encode_hex)

lemma encode_no_quote: "encodePlaintext a c p = Some e \<Longrightarrow> p \<noteq> [] \<Longrightarrow> CHR 0x27 \<notin> set e"
  by (auto dest!: encode_hex simp: toHex_fresh code_def)

lemma trimmed_Nil [simp]: "trimmed [] = []"
  by (simp add: trimmed_def)

lemma stored_secret_read_back:
  assumes "inverseCipher a" and "openKey a c = Inr True"
    and "encrypt a (keyBytes (secretKey c)) ivBytes (utf8 p) = Some e"
  shows "case encodePlaintext a c p of None \<Rightarrow> False
    | Some t \<Rightarrow> decodeToPlaintext a c t = Some (utf8 p) \<and> trimmed t = t \<and> CHR 0x27 \<notin> set t"
proof -
  let ?t = "if p = [] then [] else toHex e"
  have d: "e \<noteq> []" "decrypt a (keyBytes (secretKey c)) ivBytes e = Some (utf8 p)"
    using assms(1,3) by (auto simp: inverseCipher_def)
  have "encodePlaintext a c p = Some ?t"
    using assms(2,3) by (simp add: encodePlaintext_def encodePlaintextUtf8_def)
  moreover have "decodeToPlaintext a c ?t = Some (utf8 p)"
    using assms(2) d by (simp add: decodeToPlaintext_def decodeToPlaintextWithKey_def)
  ultimately show ?thesis by (simp add: toHex_fresh code_def)
qed

text \<open>C37. A stored secret is read back unchanged: when the CryptoAPI imports the key and encrypts, \<open>decodeToPlaintext\<close> of what \<open>encodePlaintext\<close> returned is the plain text, for the same key; and the stored form is not changed by trimming and holds no quote that could end an SQL literal.\<close>

theorem stored_secrets_are_read_back:
  assumes "inverseCipher a" and "openKey a c = Inr True"
    and "encrypt a (keyBytes (secretKey c)) ivBytes (utf8 p) = Some e"
  shows "case encodePlaintext a c p of None \<Rightarrow> False
    | Some t \<Rightarrow> decodeToPlaintext a c t = Some (utf8 p) \<and> trimmed t = t \<and> CHR 0x27 \<notin> set t"
  by (rule stored_secret_read_back [OF assms])

text \<open>A cipher and a decoder that meet the hypotheses.\<close>

fun unUtf8 :: "string \<Rightarrow> string" where
  "unUtf8 (a # b # s) =
     (if code a < 192 then a # unUtf8 (b # s)
      else char_of ((code a - 192) * 64 + (code b - 128)) # unUtf8 s)"
| "unUtf8 s = s"

lemma unUtf8_Cons [simp]: "code a < 128 \<Longrightarrow> unUtf8 (a # s) = a # unUtf8 s"
  by (cases s) auto

lemma unUtf8_utf8 [simp]: "unUtf8 (utf8 s) = s"
proof (induction s)
  case (Cons c s)
  show ?case
  proof (cases "code c < 128")
    case False
    have "code c div 64 < 4" using code_less_256 [of c] by (simp add: less_mult_imp_div_less)
    moreover have "2 \<le> code c div 64" using False by simp
    moreover have "code (char_of (192 + code c div 64)) = 192 + code c div 64"
      "code (char_of (128 + code c mod 64)) = 128 + code c mod 64"
      using calculation by (simp_all add: code_def of_char_of)
    moreover have "code c div 64 * 64 + code c mod 64 = code c" by simp
    ultimately show ?thesis using False Cons by (simp add: utf8Char_def)
  qed (use Cons in \<open>simp add: utf8Char_def\<close>)
qed simp

definition mirrorApi :: cryptApi where
  "mirrorApi = \<lparr>acquireContext = Acquired, importsKey = True,
     encrypt = (\<lambda>k v p. Some (CHR 0x01 # rev p)), decrypt = (\<lambda>k v e. Some (rev (tl e))), decodeUtf8 = unUtf8\<rparr>"

lemma mirrorApi_inverse: "inverseCipher mirrorApi"
  by (auto simp: inverseCipher_def mirrorApi_def)

lemma stored_secrets_are_read_back_witness:
  "case encodePlaintext mirrorApi newCrypt ''pw'' of None \<Rightarrow> False
    | Some t \<Rightarrow> decodeToPlaintext mirrorApi newCrypt t = Some (utf8 ''pw'') \<and> trimmed t = t \<and> CHR 0x27 \<notin> set t"
  by (rule stored_secrets_are_read_back [where e = "CHR 0x01 # rev (utf8 ''pw'')", OF mirrorApi_inverse])
    (simp_all add: mirrorApi_def openKey_def newCrypt_def)

text \<open>When the key cannot be imported (or encrypting fails) and exceptions are off, as they are by default, the function does not fail: what it returns to be stored is the plain text in hexadecimal.\<close>

theorem failed_encryption_returns_plain_text:
  assumes "acquireContext a \<noteq> BadKeyset False" and "\<not> exceptionEnabled c"
    and "acquireContext a = OtherError \<or> \<not> importsKey a \<or>
      encrypt a (keyBytes (secretKey c)) ivBytes (utf8 p) = None"
  shows "map_option fromHex (encodePlaintext a c p) = Some (utf8 p)"
  using assms fromHex_toHex [of "[]"]
  by (auto simp: encodePlaintext_def encodePlaintextUtf8_def openKey_def simp del: fromHex_toHex)
    (simp_all add: fromHex_toHex)

lemma failed_encryption_returns_plain_text_witness:
  "map_option fromHex (encodePlaintext (mirrorApi\<lparr>importsKey := False\<rparr>) newCrypt ''pw'') = Some (utf8 ''pw'')"
  using failed_encryption_returns_plain_text [of "mirrorApi\<lparr>importsKey := False\<rparr>" newCrypt "''pw''"]
  by (simp add: mirrorApi_def newCrypt_def)

end
