(* ===== verification/Proxy.thy ===== *)
theory Proxy
  imports Stores Crypt
begin

text \<open>
  The client's proxy settings: \<open>client/src/proxysettings.cpp\<close>. An INI file is an association
  list, \<open>None\<close> while the file does not exist; a value that is missing reads as the empty string.
  An exception of the encryption is \<open>None\<close>. The value \<open>ProxyServer\<close> of the Windows registry is a
  parameter.
\<close>

record proxySettings =
  proxyTypeInUseValue :: string
  useHttpProxyValue :: bool
  proxyHostValue :: string
  proxyPortValue :: string
  proxyIni :: "(string \<times> string) list option"
  oldProxyIni :: "(string \<times> string) list option"

definition iniValue :: "(string \<times> string) list \<Rightarrow> string \<Rightarrow> string" where
  "iniValue l k = (case map_of l k of None \<Rightarrow> [] | Some v \<Rightarrow> v)"

definition setIniValue :: "string \<Rightarrow> string \<Rightarrow> proxySettings \<Rightarrow> proxySettings" where
  "setIniValue k v s = s\<lparr>proxyIni := Some ((k, v) # (case proxyIni s of None \<Rightarrow> [] | Some l \<Rightarrow> l))\<rparr>"

section \<open>The argument for OpenVPN\<close>

definition serverParts :: "string \<Rightarrow> (string \<times> string) option" where
  "serverParts value = (case splitOn CHR '':'' value of [h, p] \<Rightarrow> Some (h, p) | _ \<Rightarrow> None)"

definition systemProxyHost :: "string \<Rightarrow> string" where
  "systemProxyHost value = (case serverParts value of Some (h, p) \<Rightarrow> h | None \<Rightarrow> [])"

definition systemProxyPort :: "string \<Rightarrow> string" where
  "systemProxyPort value = (case serverParts value of Some (h, p) \<Rightarrow> p | None \<Rightarrow> [])"

definition openVpnProxyString :: "string \<Rightarrow> proxySettings \<Rightarrow> string" where
  "openVpnProxyString proxyServer s =
     joinWith '' ''
       (if proxyTypeInUseValue s = ''IE'' then
          (case serverParts proxyServer of Some (h, p) \<Rightarrow> [''--http-proxy'', h, p] | None \<Rightarrow> [])
        else if proxyTypeInUseValue s = ''MANUAL'' then
          (if proxyHostValue s \<noteq> [] \<and> proxyPortValue s \<noteq> [] then
             [if useHttpProxyValue s then ''--http-proxy'' else ''--socks-proxy'', proxyHostValue s,
              proxyPortValue s]
           else [])
        else [])"

section \<open>Setters\<close>

definition storeIni :: "cryptApi \<Rightarrow> crypt \<Rightarrow> string \<Rightarrow> string \<Rightarrow> proxySettings \<Rightarrow> proxySettings option" where
  "storeIni a c k v s = map_option (\<lambda>t. setIniValue k t s) (encodePlaintext a c v)"

definition setProxyTypeInUse :: "cryptApi \<Rightarrow> crypt \<Rightarrow> string \<Rightarrow> proxySettings \<Rightarrow> proxySettings option" where
  "setProxyTypeInUse a c type s =
     (if proxyTypeInUseValue s \<noteq> type then storeIni a c ''proxy-use'' type (s\<lparr>proxyTypeInUseValue := type\<rparr>)
      else Some s)"

definition setIsHttpProxy :: "cryptApi \<Rightarrow> crypt \<Rightarrow> bool \<Rightarrow> proxySettings \<Rightarrow> proxySettings option" where
  "setIsHttpProxy a c flag s =
     (if useHttpProxyValue s \<noteq> flag then
        storeIni a c ''proxy-type'' (if flag then ''HTTP'' else ''SOCKS'') (s\<lparr>useHttpProxyValue := flag\<rparr>)
      else Some s)"

definition setProxyPort :: "cryptApi \<Rightarrow> crypt \<Rightarrow> string \<Rightarrow> proxySettings \<Rightarrow> proxySettings option" where
  "setProxyPort a c port s =
     (if proxyPortValue s \<noteq> port then storeIni a c ''proxy-port'' port (s\<lparr>proxyPortValue := port\<rparr>)
      else Some s)"

definition setProxyHost :: "cryptApi \<Rightarrow> crypt \<Rightarrow> string \<Rightarrow> proxySettings \<Rightarrow> proxySettings option" where
  "setProxyHost a c host s =
     (if proxyHostValue s \<noteq> host then storeIni a c ''proxy-ip'' host (s\<lparr>proxyHostValue := host\<rparr>)
      else Some s)"

section \<open>Start and migration\<close>

definition checkAndMigrateOldProxySettings :: "cryptApi \<Rightarrow> crypt \<Rightarrow> proxySettings \<Rightarrow> proxySettings option" where
  "checkAndMigrateOldProxySettings a c s =
     (if proxyIni s \<noteq> None then Some s
      else
        (let old = (case oldProxyIni s of None \<Rightarrow> [] | Some l \<Rightarrow> l);
             useType = iniValue old ''proxy-use'';
             http = iniValue old ''proxy-type'';
             host = iniValue old ''proxy-ip'';
             port = iniValue old ''proxy-port''
         in Option.bind (setProxyTypeInUse a c useType s) (\<lambda>s1.
            Option.bind (if http \<noteq> [] then setIsHttpProxy a c (http = ''HTTP'') s1 else Some s1) (\<lambda>s2.
            Option.bind (if host \<noteq> [] then setProxyHost a c host s2 else Some s2) (\<lambda>s3.
            Option.bind (if port \<noteq> [] then setProxyPort a c port s3 else Some s3) (\<lambda>s4.
            Some (s4\<lparr>oldProxyIni := None\<rparr>)))))))"

definition readSettingsFile :: "cryptApi \<Rightarrow> crypt \<Rightarrow> proxySettings \<Rightarrow> proxySettings option" where
  "readSettingsFile a c s =
     (case proxyIni s of
        None \<Rightarrow> Some s
      | Some l \<Rightarrow>
          Option.bind (decodedText a c (iniValue l ''proxy-use'')) (\<lambda>use.
          Option.bind (decodedText a c (iniValue l ''proxy-type'')) (\<lambda>type.
          Option.bind (decodedText a c (iniValue l ''proxy-ip'')) (\<lambda>host.
          Option.bind (decodedText a c (iniValue l ''proxy-port'')) (\<lambda>port.
          Some (s\<lparr>proxyTypeInUseValue := use, useHttpProxyValue := (type \<noteq> ''SOCKS''),
            proxyHostValue := host, proxyPortValue := port\<rparr>))))))"

text \<open>The constructor, with the files it finds.\<close>

definition newProxySettings ::
  "cryptApi \<Rightarrow> crypt \<Rightarrow> (string \<times> string) list option \<Rightarrow> (string \<times> string) list option
     \<Rightarrow> proxySettings option" where
  "newProxySettings a c old new =
     (let s = \<lparr>proxyTypeInUseValue = [], useHttpProxyValue = False, proxyHostValue = [],
            proxyPortValue = [], proxyIni = new, oldProxyIni = old\<rparr>
      in Option.bind (if old \<noteq> None then checkAndMigrateOldProxySettings a c s else Some s)
           (readSettingsFile a c))"

section \<open>Settings survive a restart\<close>

text \<open>\<open>synced\<close>: the file holds what the object holds, an unencrypted empty value or its encryption.\<close>

definition holds :: "cryptApi \<Rightarrow> crypt \<Rightarrow> (string \<times> string) list \<Rightarrow> string \<Rightarrow> string \<Rightarrow> bool" where
  "holds a c l k v \<longleftrightarrow> decodedText a c (iniValue l k) = Some v"

definition synced :: "cryptApi \<Rightarrow> crypt \<Rightarrow> proxySettings \<Rightarrow> bool" where
  "synced a c s \<longleftrightarrow>
     (case proxyIni s of
        None \<Rightarrow> False
      | Some l \<Rightarrow> holds a c l ''proxy-use'' (proxyTypeInUseValue s) \<and>
          map_option (\<lambda>t. t \<noteq> ''SOCKS'') (decodedText a c (iniValue l ''proxy-type'')) =
            Some (useHttpProxyValue s) \<and>
          holds a c l ''proxy-ip'' (proxyHostValue s) \<and> holds a c l ''proxy-port'' (proxyPortValue s))"

definition cipherWorks :: "cryptApi \<Rightarrow> crypt \<Rightarrow> bool" where
  "cipherWorks a c \<longleftrightarrow> (\<forall>s. decodeUtf8 a (utf8 s) = s) \<and> inverseCipher a \<and> openKey a c = Inr True \<and>
     (\<forall>p. encrypt a (keyBytes (secretKey c)) ivBytes p \<noteq> None)"

lemma cipher_round_trip:
  assumes "cipherWorks a c"
  shows "\<exists>t. encodePlaintext a c p = Some t \<and> decodedText a c t = Some p"
proof -
  obtain e where "encrypt a (keyBytes (secretKey c)) ivBytes (utf8 p) = Some e"
    using assms by (auto simp: cipherWorks_def)
  with stored_secret_read_back [of a c p e] assms show ?thesis
    by (auto simp: cipherWorks_def decodedText_def split: option.splits)
qed

lemma iniValue_set [simp]:
  "iniValue ((k, v) # l) k' = (if k' = k then v else iniValue l k')"
  by (simp add: iniValue_def)

lemmas proxy_setter_defs = setProxyTypeInUse_def setIsHttpProxy_def setProxyPort_def setProxyHost_def
  storeIni_def setIniValue_def

lemma storeIni_Some:
  "cipherWorks a c \<Longrightarrow>
    \<exists>t. decodedText a c t = Some v \<and> storeIni a c k v s = Some (setIniValue k t s)"
  using cipher_round_trip [of a c v] by (auto simp: storeIni_def)

lemma reload_synced: "synced a c s \<Longrightarrow> readSettingsFile a c s = Some s"
  by (cases s) (auto simp: synced_def holds_def readSettingsFile_def split: option.splits)

datatype proxyChange = ChangeType string | ChangeHttp bool | ChangeHost string | ChangePort string

fun applyChange :: "cryptApi \<Rightarrow> crypt \<Rightarrow> proxyChange \<Rightarrow> proxySettings \<Rightarrow> proxySettings option" where
  "applyChange a c (ChangeType t) = setProxyTypeInUse a c t"
| "applyChange a c (ChangeHttp b) = setIsHttpProxy a c b"
| "applyChange a c (ChangeHost h) = setProxyHost a c h"
| "applyChange a c (ChangePort p) = setProxyPort a c p"

lemma change_synced:
  assumes "cipherWorks a c" and "synced a c s"
  shows "\<exists>s'. applyChange a c x s = Some s' \<and> synced a c s'"
proof -
  obtain l where l: "proxyIni s = Some l" using assms(2) by (auto simp: synced_def split: option.splits)
  show ?thesis
  proof (cases x)
    case (ChangeType v)
    obtain t where t: "decodedText a c t = Some v"
      "storeIni a c ''proxy-use'' v (s\<lparr>proxyTypeInUseValue := v\<rparr>) = Some (setIniValue ''proxy-use'' t (s\<lparr>proxyTypeInUseValue := v\<rparr>))"
      using storeIni_Some [OF assms(1)] by blast
    have "synced a c (setIniValue ''proxy-use'' t (s\<lparr>proxyTypeInUseValue := v\<rparr>))"
      using assms(2) l t(1) by (simp add: synced_def holds_def setIniValue_def)
    with t(2) assms(2) ChangeType show ?thesis by (simp add: setProxyTypeInUse_def)
  next
    case (ChangeHttp v)
    obtain t where t: "decodedText a c t = Some (if v then ''HTTP'' else ''SOCKS'')"
      "storeIni a c ''proxy-type'' (if v then ''HTTP'' else ''SOCKS'') (s\<lparr>useHttpProxyValue := v\<rparr>) = Some (setIniValue ''proxy-type'' t (s\<lparr>useHttpProxyValue := v\<rparr>))"
      using storeIni_Some [OF assms(1)] by blast
    have "synced a c (setIniValue ''proxy-type'' t (s\<lparr>useHttpProxyValue := v\<rparr>))"
      using assms(2) l t(1) by (simp add: synced_def holds_def setIniValue_def)
    with t(2) assms(2) ChangeHttp show ?thesis by (simp add: setIsHttpProxy_def)
  next
    case (ChangeHost v)
    obtain t where t: "decodedText a c t = Some v"
      "storeIni a c ''proxy-ip'' v (s\<lparr>proxyHostValue := v\<rparr>) = Some (setIniValue ''proxy-ip'' t (s\<lparr>proxyHostValue := v\<rparr>))"
      using storeIni_Some [OF assms(1)] by blast
    have "synced a c (setIniValue ''proxy-ip'' t (s\<lparr>proxyHostValue := v\<rparr>))"
      using assms(2) l t(1) by (simp add: synced_def holds_def setIniValue_def)
    with t(2) assms(2) ChangeHost show ?thesis by (simp add: setProxyHost_def)
  next
    case (ChangePort v)
    obtain t where t: "decodedText a c t = Some v"
      "storeIni a c ''proxy-port'' v (s\<lparr>proxyPortValue := v\<rparr>) = Some (setIniValue ''proxy-port'' t (s\<lparr>proxyPortValue := v\<rparr>))"
      using storeIni_Some [OF assms(1)] by blast
    have "synced a c (setIniValue ''proxy-port'' t (s\<lparr>proxyPortValue := v\<rparr>))"
      using assms(2) l t(1) by (simp add: synced_def holds_def setIniValue_def)
    with t(2) assms(2) ChangePort show ?thesis by (simp add: setProxyPort_def)
  qed
qed

primrec applyChanges :: "cryptApi \<Rightarrow> crypt \<Rightarrow> proxyChange list \<Rightarrow> proxySettings \<Rightarrow> proxySettings option" where
  "applyChanges a c [] s = Some s"
| "applyChanges a c (x # xs) s = Option.bind (applyChange a c x s) (applyChanges a c xs)"

lemma changes_synced:
  "cipherWorks a c \<Longrightarrow> synced a c s \<Longrightarrow> \<exists>s'. applyChanges a c xs s = Some s' \<and> synced a c s'"
  by (induction xs arbitrary: s) (auto, metis bind.bind_lunit change_synced)

lemma cipherWorks_mirror: "cipherWorks mirrorApi newCrypt"
  using mirrorApi_inverse by (simp add: cipherWorks_def mirrorApi_def openKey_def newCrypt_def)

text \<open>Every sequence of changes in the settings dialog succeeds and survives a restart: the object the next start builds from \<open>proxy.ini\<close> has the values of the last one.\<close>

theorem proxy_changes_survive_restart:
  assumes "cipherWorks a c" and "synced a c s"
  shows "\<exists>s'. applyChanges a c xs s = Some s' \<and>
    newProxySettings a c None (proxyIni s') = Some (s'\<lparr>oldProxyIni := None\<rparr>)"
proof -
  obtain s' where s': "applyChanges a c xs s = Some s'" "synced a c s'"
    using changes_synced [OF assms] by blast
  then have "newProxySettings a c None (proxyIni s') = Some (s'\<lparr>oldProxyIni := None\<rparr>)"
    by (cases s') (auto simp: newProxySettings_def readSettingsFile_def synced_def holds_def split: option.splits)
  with s' show ?thesis by blast
qed

definition storedProxy :: proxySettings where
  "storedProxy = \<lparr>proxyTypeInUseValue = [], useHttpProxyValue = True, proxyHostValue = [],
     proxyPortValue = [], proxyIni = Some [], oldProxyIni = None\<rparr>"

lemma proxy_changes_survive_restart_witness:
  "\<exists>s'. applyChanges mirrorApi newCrypt [ChangeType ''MANUAL'', ChangeHttp False, ChangeHost ''h''] storedProxy = Some s' \<and>
    newProxySettings mirrorApi newCrypt None (proxyIni s') = Some (s'\<lparr>oldProxyIni := None\<rparr>)"
  by (rule proxy_changes_survive_restart [OF cipherWorks_mirror])
    (simp add: storedProxy_def synced_def holds_def iniValue_def decodedText_def decodeToPlaintext_def mirrorApi_def)

text \<open>The migration of an old \<open>proxy.ini\<close> keeps type, host and port, but turns a SOCKS proxy into an HTTP proxy: the flag of a new object is already off, so \<open>setIsHttpProxy\<close> writes nothing, and the missing entry is read as HTTP.\<close>

theorem migration_turns_socks_into_http:
  assumes "cipherWorks a c" and "iniValue old ''proxy-type'' = ''SOCKS''"
    and "iniValue old ''proxy-ip'' \<noteq> []" and "iniValue old ''proxy-port'' \<noteq> []"
  shows "\<exists>s. newProxySettings a c (Some old) None = Some s \<and> useHttpProxyValue s \<and>
    proxyTypeInUseValue s = iniValue old ''proxy-use'' \<and>
    proxyHostValue s = iniValue old ''proxy-ip'' \<and> proxyPortValue s = iniValue old ''proxy-port''"
proof -
  let ?u = "iniValue old ''proxy-use''" and ?h = "iniValue old ''proxy-ip''" and ?p = "iniValue old ''proxy-port''"
  obtain u h p where e: "encodePlaintext a c ?u = Some u" "encodePlaintext a c ?h = Some h"
      "encodePlaintext a c ?p = Some p"
    and d: "decodedText a c u = Some ?u" "decodedText a c h = Some ?h"
      "decodedText a c p = Some ?p"
    using cipher_round_trip [OF assms(1)] by meson
  have empty: "decodedText a c [] = Some []"
    using assms(1) utf8_Nil by (metis (no_types) cipherWorks_def decodeToPlaintext_def decodedText_def option.simps(9))
  show ?thesis
  proof (cases "?u = []")
    case True
    then show ?thesis using assms e d empty
      by (simp add: newProxySettings_def checkAndMigrateOldProxySettings_def proxy_setter_defs readSettingsFile_def)
        (simp add: iniValue_def)
  next
    case False
    then show ?thesis using assms e d empty
      by (simp add: newProxySettings_def checkAndMigrateOldProxySettings_def proxy_setter_defs readSettingsFile_def)
        (simp add: iniValue_def)
  qed
qed

definition oldSocksIni :: "(string \<times> string) list" where
  "oldSocksIni = [(''proxy-use'', ''MANUAL''), (''proxy-type'', ''SOCKS''), (''proxy-ip'', ''host''), (''proxy-port'', ''1080'')]"

lemma migration_turns_socks_into_http_witness:
  "\<exists>s. newProxySettings mirrorApi newCrypt (Some oldSocksIni) None = Some s \<and> useHttpProxyValue s \<and>
    proxyTypeInUseValue s = iniValue oldSocksIni ''proxy-use'' \<and>
    proxyHostValue s = iniValue oldSocksIni ''proxy-ip'' \<and> proxyPortValue s = iniValue oldSocksIni ''proxy-port''"
  by (rule migration_turns_socks_into_http [OF cipherWorks_mirror])
    (simp_all add: oldSocksIni_def iniValue_def)

end
