(* ===== verification/ConnectionData.thy ===== *)
theory ConnectionData
  imports Proxy Encoding
begin

text \<open>
  A connection of the client and what its operations cause: the class \<open>ConnectionData\<close> of
  \<open>client/src/widgets/mainview/connectiondata.cpp\<close>, the log of \<open>client/src/service/servicelogdata.cpp\<close>,
  the sender of \<open>client/src/service/srvcli.cpp\<close>, \<open>Checksum::base64OfFileContent\<close> and the tray icon
  (\<open>FrmMain::setIcon\<close>), which a change of state redraws. The state \<open>client\<close> holds the list of
  \<open>Configs\<close>, keyed by the database id; what happens outside the process is appended to \<open>effects\<close>
  in order. The database is seen through its statements: \<open>query\<close> gives the first
  column of the first row for the statements executed so far and the text of a \<open>SELECT\<close>.
\<close>

section \<open>State, effects and environment\<close>

datatype connectionState = Disconnected | Disconnecting | Connecting | Connected | Error

fun stateNumber :: "connectionState \<Rightarrow> int" where
  "stateNumber Disconnected = 0" | "stateNumber Disconnecting = 1" | "stateNumber Connecting = 2"
| "stateNumber Connected = 3" | "stateNumber Error = 4"

record connectionData =
  cdLastConnected :: int
  cdLastUsed :: int
  cdName :: string
  cdIp :: string
  cdConfigPath :: string
  cdErrorMsg :: string
  cdId :: int
  cdAutostart :: bool
  cdUser :: bool
  errorAlreadyFired :: bool
  cdState :: connectionState

datatype icon = White | Yellow | Green | Red

datatype inputType = Username | Password | Otp | Pkcs12 | PrivateKey | HttpUsername | HttpPassword
  | CryptPassword

datatype effect =
    Request string string
  | Sql string
  | StartScript int string string
  | ScriptTimer int int
  | TrayTimer
  | SetTrayIcon icon
  | AskUser int inputType string
  | MessageBox string
  | CloseWindow
  | PostClose
  | HideTray
  | ExitClient
  | DummyAnswered
  | RunTool string string

record client =
  objs :: "(int \<times> connectionData) list"
  rows :: "int list"
  logData :: "(int \<times> string list) list"
  effects :: "effect list"
  serviceOnline :: bool
  tapDevices :: int
  gotTapCount :: bool
  waiting :: "int list"
  installingTap :: bool
  isReconnect :: bool
  fault :: bool

record cenv =
  isPortable :: bool
  clientDir :: string
  mainWindow :: bool
  cryptography :: cryptApi
  cryptState :: crypt
  query :: "string list \<Rightarrow> string \<Rightarrow> string option"
  fileText :: "string \<Rightarrow> string option"
  mayOpen :: "string \<Rightarrow> bool"
  socketUnconnected :: bool
  serviceReachable :: bool
  logonUser :: string
  logonSID :: string
  useInteract :: bool
  systemProxy :: string
  proxyOf :: proxySettings
  startUser :: string
  startPassword :: string
  blockShutdown :: bool
  confirms :: bool
  sendToTray :: bool
  windowVisible :: bool
  silent :: bool
  now :: int
  randomString :: string
  toolStarts :: bool
  hashHex :: "string \<Rightarrow> string"

definition cause :: "effect \<Rightarrow> client \<Rightarrow> client" where
  "cause x s = s\<lparr>effects := effects s @ [x]\<rparr>"

fun sqlOf :: "effect \<Rightarrow> string list" where
  "sqlOf (Sql q) = [q]"
| "sqlOf _ = []"

definition statements :: "client \<Rightarrow> string list" where
  "statements s = concat (map sqlOf (effects s))"

definition getObj :: "int \<Rightarrow> client \<Rightarrow> connectionData option" where
  "getObj k s = map_of (objs s) k"

definition onObj :: "int \<Rightarrow> (connectionData \<Rightarrow> connectionData) \<Rightarrow> client \<Rightarrow> client" where
  "onObj k f s = s\<lparr>objs := assoc_upd k f (objs s)\<rparr>"

text \<open>The constructor.\<close>

definition newConnectionData :: connectionData where
  "newConnectionData = \<lparr>cdLastConnected = 0, cdLastUsed = 0, cdName = [], cdIp = ''xxx.xxx.xxx.xxx'',
     cdConfigPath = [], cdErrorMsg = [], cdId = 0, cdAutostart = False, cdUser = False,
     errorAlreadyFired = False, cdState = Disconnected\<rparr>"

text \<open>\<open>quint32\<close>: the id and the two times.\<close>

definition u32 :: "int \<Rightarrow> int" where
  "u32 i = i mod 2 ^ 32"

definition i32 :: "int \<Rightarrow> int" where
  "i32 i = (if 2 ^ 31 \<le> i then i - 2 ^ 32 else i)"

definition dirOf :: "connectionData \<Rightarrow> string" where
  "dirOf c = qleft (cdConfigPath c) (lastIndexOf (cdConfigPath c) CHR ''/'')"

section \<open>The log of a connection (ServiceLogData)\<close>

definition dhKeyNote :: string where
  "dhKeyNote = ''This version needs at least a serverside 1024 bit dh key. Please use the 2.0.15 client and contact your server administrator.'' @ [CHR 0x0A] @ ''https://support.securepoint.de/viewtopic.php?t=6216''"

definition addLog :: "int \<Rightarrow> string \<Rightarrow> (int \<times> string list) list \<Rightarrow> (int \<times> string list) list" where
  "addLog i message l =
     (if i \<in> fst ` set l then map (\<lambda>(j, ms). (j, if j = i then ms @ [message] else ms)) l
      else l @ [(i, [message])])"

definition appendLog :: "int \<Rightarrow> string \<Rightarrow> client \<Rightarrow> client" where
  "appendLog i message s =
     (let small = containsCI message ''dh key too small'';
          customMessage = (if small then message @ qarg ([CHR 0x0A] @ ''%1'' @ [CHR 0x0A]) dhKeyNote else message);
          s1 = (if small then cause (MessageBox dhKeyNote) s else s)
      in s1\<lparr>logData := addLog i customMessage (logData s1)\<rparr>)"

definition clearId :: "int \<Rightarrow> client \<Rightarrow> client" where
  "clearId i s = s\<lparr>logData := assoc_upd i (\<lambda>_. []) (logData s)\<rparr>"

definition logs :: "int \<Rightarrow> client \<Rightarrow> string list" where
  "logs i s = (case map_of (logData s) i of None \<Rightarrow> [] | Some ms \<Rightarrow> ms)"

section \<open>Requests to the service (SrvCLI)\<close>

text \<open>\<open>makeFastConnection\<close>: a socket in use counts as connected without any further test.\<close>

definition makeFastConnection :: "cenv \<Rightarrow> client \<Rightarrow> bool \<times> client" where
  "makeFastConnection e s =
     (if \<not> socketUnconnected e then (True, s)
      else if \<not> serviceReachable e then (False, s)
      else (True, s\<lparr>serviceOnline := True\<rparr>))"

definition sendToService :: "cenv \<Rightarrow> string \<Rightarrow> string \<Rightarrow> client \<Rightarrow> bool \<times> client" where
  "sendToService e command params s =
     (if serviceOnline s then (True, cause (Request command params) s)
      else (case makeFastConnection e s of
              (False, s1) \<Rightarrow> (False, s1)
            | (True, s1) \<Rightarrow> (True, cause (Request command params) s1)))"

definition requestService :: "cenv \<Rightarrow> string \<Rightarrow> string \<Rightarrow> client \<Rightarrow> client" where
  "requestService e command params s = snd (sendToService e command params s)"

section \<open>Statements\<close>

definition column :: "string \<Rightarrow> string" where
  "column name = [CHR 0x22] @ name @ [CHR 0x22]"

definition quoted :: "string \<Rightarrow> string" where
  "quoted v = [CHR 0x27] @ v @ [CHR 0x27]"

text \<open>\<open>UPDATE vpn SET "name" = '%1' WHERE "vpn-id" = %2\<close>.\<close>

definition updateTemplate :: "string \<Rightarrow> string" where
  "updateTemplate name =
     ''UPDATE vpn SET '' @ column name @ '' = '' @ quoted ''%1'' @ '' WHERE '' @ column ''vpn-id'' @ '' = %2''"

definition updateSql :: "string \<Rightarrow> string \<Rightarrow> int \<Rightarrow> string" where
  "updateSql name value i =
     ''UPDATE vpn SET '' @ column name @ '' = '' @ value @ '' WHERE '' @ column ''vpn-id'' @ '' = '' @ number i"

definition selectSql :: "string \<Rightarrow> int \<Rightarrow> string" where
  "selectSql name i =
     ''SELECT '' @ column name @ '' FROM vpn WHERE '' @ column ''vpn-id'' @ '' = '' @ number i"

definition setLastUsed :: "int \<Rightarrow> int \<Rightarrow> bool \<Rightarrow> client \<Rightarrow> client" where
  "setLastUsed k lastUsed bDb s =
     (case getObj k s of None \<Rightarrow> s | Some c \<Rightarrow>
        onObj k (\<lambda>c. c\<lparr>cdLastUsed := lastUsed\<rparr>)
          (if bDb then cause (Sql (qarg (qarg (updateTemplate ''vpn-last-used'' @ '';'') (number (i32 lastUsed)))
             (number (cdId c)))) s else s))"

definition setLastConnected :: "int \<Rightarrow> int \<Rightarrow> bool \<Rightarrow> client \<Rightarrow> client" where
  "setLastConnected k lastConnected bDb s =
     (case getObj k s of None \<Rightarrow> s | Some c \<Rightarrow>
        onObj k (\<lambda>c. c\<lparr>cdLastConnected := lastConnected\<rparr>)
          (if bDb then cause (Sql (qarg (qarg (updateTemplate ''vpn-last-connected'') (number (i32 lastConnected)))
             (number (cdId c)))) s else s))"

definition setAutoStart :: "int \<Rightarrow> bool \<Rightarrow> client \<Rightarrow> client" where
  "setAutoStart k bAutoStart s =
     (case getObj k s of None \<Rightarrow> s | Some c \<Rightarrow>
        onObj k (\<lambda>c. c\<lparr>cdAutostart := bAutoStart\<rparr>)
          (cause (Sql (qarg (qarg (updateTemplate ''vpn-autostart'') (if bAutoStart then ''1'' else ''0''))
             (number (cdId c)))) s))"

text \<open>The message is put into the statement as it is.\<close>

definition setErrorSql :: "string \<Rightarrow> int \<Rightarrow> string" where
  "setErrorSql errorMsg i =
     qarg (qarg (qarg (''UPDATE vpn SET %1 = '' @ quoted ''%2'' @ '' WHERE '' @ column ''vpn-id'' @ '' = %3'')
       (column ''vpn-last-error'')) errorMsg) (number i)"

definition setErrorText :: "int \<Rightarrow> string \<Rightarrow> client \<Rightarrow> client" where
  "setErrorText k errorMsg s =
     (case getObj k s of None \<Rightarrow> s | Some c \<Rightarrow>
        cause (Sql (setErrorSql errorMsg (cdId c))) (onObj k (\<lambda>c. c\<lparr>cdErrorMsg := errorMsg\<rparr>) s))"

section \<open>Scripts\<close>

text \<open>
  \<open>StartScript\<close> names the connection and the type of the script besides the command line.
  The first line of \<open>scripts.conf\<close> whose trimmed text starts with the type and a colon; three
  characters are cut from the front of the untrimmed line.
\<close>

definition scriptLine :: "string \<Rightarrow> string \<Rightarrow> string" where
  "scriptLine type content =
     (case find (\<lambda>line. toUpper (qleft (trimmed line) 3) = toUpper type @ '':'') (textLines (textRead content)) of
        None \<Rightarrow> []
      | Some line \<Rightarrow> qright line (int (length line) - 3))"

definition getScript :: "cenv \<Rightarrow> connectionData \<Rightarrow> string \<Rightarrow> client \<Rightarrow> string \<times> client" where
  "getScript e c type s =
     (let path = dirOf c @ ''/scripts.conf'' in
      case fileText e path of
        None \<Rightarrow> ([], s)
      | Some content \<Rightarrow>
          if mayOpen e path then (scriptLine type content, s)
          else ([], cause (MessageBox (''Can'' @ [CHR 0x27] @ ''t read scriptconfig file!'')) s))"

definition endLine :: "string \<Rightarrow> string" where
  "endLine t = t @ [CHR 0x0A]"

definition startScript :: "cenv \<Rightarrow> int \<Rightarrow> int \<Rightarrow> string \<Rightarrow> string \<Rightarrow> client \<Rightarrow> client" where
  "startScript e k i type script s =
     (let s1 = appendLog i (endLine (''Starting script: '' @ type)) s;
          script1 = (if isPortable e then qreplace script ''$appDir'' (clientDir e) else script);
          s2 = (if isPortable e then appendLog i (endLine (''Script path: '' @ script1)) s1 else s1)
      in cause (StartScript k type script1) (appendLog i (endLine (''Script call: '' @ script1)) s2))"

definition runScript :: "cenv \<Rightarrow> int \<Rightarrow> string \<Rightarrow> client \<Rightarrow> client" where
  "runScript e k type s =
     (case getObj k s of None \<Rightarrow> s | Some c \<Rightarrow>
        (case getScript e c type s of
           (script, s1) \<Rightarrow> if script = [] then s1 else startScript e k (i32 (cdId c)) type script s1))"

text \<open>Slots of the script's process.\<close>

definition scriptFinished :: "int \<Rightarrow> int \<Rightarrow> int \<Rightarrow> client \<Rightarrow> client" where
  "scriptFinished i exitCode status s =
     appendLog i (qarg (qarg (endLine ''Process exitcode %1 with status %2'') (number exitCode)) (number status)) s"

definition scriptErrorOccurred :: "int \<Rightarrow> procError \<Rightarrow> client \<Rightarrow> client" where
  "scriptErrorOccurred i err s =
     appendLog i (qarg (endLine ''Process error %1'')
       (case err of FailedToStart \<Rightarrow> ''The process failed to start.''
        | Crashed \<Rightarrow> ''The process crashed some time after starting successfully.''
        | Timedout \<Rightarrow> ''The last waitFor...() function timed out.''
        | WriteError \<Rightarrow> ''An error occurred when attempting to write to the process.''
        | ReadError \<Rightarrow> ''An error occurred when attempting to read from the process.''
        | UnknownError \<Rightarrow> ''n/a'')) s"

definition scriptStartet :: "int \<Rightarrow> client \<Rightarrow> client" where
  "scriptStartet i s = appendLog i (endLine ''Process started'') s"

section \<open>The tray icon\<close>

fun iconOf :: "connectionState \<Rightarrow> icon" where
  "iconOf Connecting = Yellow" | "iconOf Connected = Green" | "iconOf Error = Red" | "iconOf _ = White"

definition trayIcon :: "connectionState list \<Rightarrow> icon" where
  "trayIcon states =
     (let configConnecting = Connecting \<in> set states;
          configConnected = Connected \<in> set states;
          configError = Error \<in> set states;
          icon = White;
          icon = (if configConnecting then Yellow else icon);
          icon = (if configConnected then Green else icon)
      in if configError then Red else icon)"

definition states :: "client \<Rightarrow> connectionState list" where
  "states s = map (cdState \<circ> snd) (objs s)"

definition setIcon :: "client \<Rightarrow> client" where
  "setIcon s = cause (SetTrayIcon (trayIcon (states s))) s"

section \<open>Changes of state\<close>

definition setStateSql :: "connectionState \<Rightarrow> int \<Rightarrow> string" where
  "setStateSql newState i = qarg (qarg (updateTemplate ''vpn-state'') (number (stateNumber newState))) (number i)"

definition setState :: "cenv \<Rightarrow> int \<Rightarrow> connectionState \<Rightarrow> client \<Rightarrow> client" where
  "setState e k newState s =
     (case getObj k s of None \<Rightarrow> s | Some c \<Rightarrow>
       (let s1 = cause (Sql (setStateSql newState (cdId c))) s;
            s2 = (if newState = Disconnected \<and> (cdState c = Connected \<or> cdState c = Disconnecting) then
                    runScript e k ''AD'' s1
                  else if newState = Error then
                    (if \<not> errorAlreadyFired c then
                       onObj k (\<lambda>c. c\<lparr>errorAlreadyFired := True\<rparr>) (runScript e k ''EC'' s1)
                     else s1)
                  else if newState = Connecting then onObj k (\<lambda>c. c\<lparr>errorAlreadyFired := False\<rparr>) s1
                  else s1);
            s3 = onObj k (\<lambda>c. c\<lparr>cdState := newState\<rparr>) s2
        in if mainWindow e then setIcon s3 else s3))"

definition setIP :: "cenv \<Rightarrow> int \<Rightarrow> string \<Rightarrow> client \<Rightarrow> client" where
  "setIP e k ip s =
     (case getObj k s of None \<Rightarrow> s | Some c \<Rightarrow>
        (case getScript e c ''TO'' s of
           (timeOut, s1) \<Rightarrow>
             onObj k (\<lambda>c. c\<lparr>cdIp := ip\<rparr>)
               (cause TrayTimer
                 (cause (ScriptTimer k (toInt (trimmed (if timeOut = [] then ''2000'' else timeOut)))) s1))))"

text \<open>The timer started by \<open>setIP\<close> ends.\<close>

definition startAfterConnectDelayed :: "cenv \<Rightarrow> int \<Rightarrow> client \<Rightarrow> client" where
  "startAfterConnectDelayed e k s = runScript e k ''AC'' s"

section \<open>The content that is sent\<close>

definition normalizeContent :: "string \<Rightarrow> string" where
  "normalizeContent content =
     utf8 (concat (map (\<lambda>l. trimmed l @ [CHR 0x0A])
       (splitOn CHR 0x0A (qreplace content [CHR 0x0D, CHR 0x0A] [CHR 0x0A]))))"

definition base64OfContent :: "string \<Rightarrow> string" where
  "base64OfContent content = toBase64 (normalizeContent content)"

definition base64OfContentLines :: "string list \<Rightarrow> string" where
  "base64OfContentLines content = toBase64 (normalizeContent (concat content))"

definition base64OfFileContent :: "cenv \<Rightarrow> int \<Rightarrow> string \<Rightarrow> client \<Rightarrow> string \<times> client" where
  "base64OfFileContent e configId path s =
     (case fileText e path of
        Some text \<Rightarrow>
          if mayOpen e path then (toBase64 (normalizeContent (joinWith [CHR 0x0A] (textLines text))), s)
          else ([], appendLog configId (endLine ''Process configuration file not found'') s)
      | None \<Rightarrow> ([], appendLog configId (endLine ''Process configuration file not found'') s))"

section \<open>Connect and disconnect\<close>

definition openParams :: "cenv \<Rightarrow> connectionData \<Rightarrow> string \<Rightarrow> string" where
  "openParams e c content =
     joinWith '';'' [number (cdId c), logonUser e, logonSID e, cdConfigPath c, content,
       if useInteract e then ''0'' else ''1'', openVpnProxyString (systemProxy e) (proxyOf e),
       if isPortable e then ''1'' else ''0'']"

definition connect :: "cenv \<Rightarrow> int \<Rightarrow> client \<Rightarrow> bool \<times> client" where
  "connect e k s =
     (case getObj k s of None \<Rightarrow> (False, s) | Some c \<Rightarrow>
        (let s1 = runScript e k ''BC'' (setState e k Connecting s) in
         case base64OfFileContent e (i32 (cdId c)) (cdConfigPath c) s1 of
           (content, s2) \<Rightarrow> sendToService e ''Open'' (openParams e c content) s2))"

definition disconnect :: "cenv \<Rightarrow> int \<Rightarrow> client \<Rightarrow> bool \<times> client" where
  "disconnect e k s =
     (case getObj k s of None \<Rightarrow> (False, s) | Some c \<Rightarrow>
        sendToService e ''Close'' (number (cdId c))
          (if cdState c = Connected then runScript e k ''BD'' s else s))"

section \<open>Saved user data\<close>

definition fieldOf :: "int \<Rightarrow> string option" where
  "fieldOf type =
     (if type = 0 then Some ''vpn-user'' else if type = 1 then Some ''vpn-password''
      else if type = 3 then Some ''vpn-pkcs12'' else if type = 5 then Some ''vpn-http-user''
      else if type = 6 then Some ''vpn-http-password'' else None)"

definition credentialSql :: "int \<Rightarrow> string" where
  "credentialSql i =
     qarg (''SELECT coalesce('' @ column ''vpn-user'' @ '','' @ column ''vpn-password'' @
       '', 0) AS CREDENTIAL_STATE FROM vpn WHERE '' @ column ''vpn-id'' @ '' = %1;'') (number i)"

definition ask :: "cenv \<Rightarrow> client \<Rightarrow> string \<Rightarrow> string option" where
  "ask e s sql = query e (statements s) sql"

definition saveSql :: "string \<Rightarrow> string \<Rightarrow> int \<Rightarrow> string" where
  "saveSql field value i =
     qarg (qarg (qarg (''UPDATE vpn SET %1 = %2 WHERE '' @ column ''vpn-id'' @ '' = %3'') (column field))
       value) (number i)"

text \<open>The \<open>toUtf8()\<close> of the value is turned into a \<open>QString\<close> for the call.\<close>

definition sealed :: "cenv \<Rightarrow> string \<Rightarrow> string option" where
  "sealed e value =
     encodePlaintext (cryptography e) (cryptState e) (decodeUtf8 (cryptography e) (utf8 value))"

definition updateUserConfig :: "cenv \<Rightarrow> int \<Rightarrow> client \<Rightarrow> client" where
  "updateUserConfig e k s =
     (case getObj k s of None \<Rightarrow> s | Some c \<Rightarrow>
        (case ask e s (credentialSql (cdId c)) of
           None \<Rightarrow> s
         | Some v \<Rightarrow> onObj k (\<lambda>c. c\<lparr>cdUser := (v \<noteq> ''0'')\<rparr>) s))"

definition saveUserData :: "cenv \<Rightarrow> int \<Rightarrow> int \<Rightarrow> string \<Rightarrow> bool \<Rightarrow> client \<Rightarrow> client" where
  "saveUserData e k type value save s =
     (if \<not> save then s
      else case (fieldOf type, getObj k s) of
        (Some field, Some c) \<Rightarrow>
          (case (if value \<noteq> [] then map_option quoted (sealed e value) else Some ''null'') of
             None \<Rightarrow> s\<lparr>fault := True\<rparr>
           | Some v \<Rightarrow>
               (let s1 = cause (Sql (saveSql field v (cdId c))) s in
                if type = 0 \<or> type = 1 then updateUserConfig e k s1 else s1))
      | _ \<Rightarrow> s)"

definition hasField :: "cenv \<Rightarrow> int \<Rightarrow> int \<Rightarrow> client \<Rightarrow> bool" where
  "hasField e i type s =
     (case fieldOf type of None \<Rightarrow> False | Some field \<Rightarrow>
        (case ask e s (selectSql field i) of None \<Rightarrow> False | Some v \<Rightarrow> v \<noteq> []))"

definition hasCrediantials :: "cenv \<Rightarrow> int \<Rightarrow> int \<Rightarrow> client \<Rightarrow> bool" where
  "hasCrediantials e i type s =
     (if type = -1 then hasField e i 0 s \<or> hasField e i 1 s \<or> hasField e i 3 s \<or> hasField e i 5 s \<or> hasField e i 6 s
      else hasField e i type s)"

text \<open>\<open>None\<close>: the decryption throws.\<close>

definition getSavedUserData :: "cenv \<Rightarrow> int \<Rightarrow> int \<Rightarrow> client \<Rightarrow> string option" where
  "getSavedUserData e i type s =
     (case fieldOf type of None \<Rightarrow> Some [] | Some field \<Rightarrow>
        (let value = (case ask e s (qarg (qarg (''SELECT %1 FROM vpn WHERE '' @ column ''vpn-id'' @ '' = %2'')
               (column field)) (number i)) of None \<Rightarrow> [] | Some v \<Rightarrow> trimmed v)
         in if secretKey (cryptState e) \<noteq> [] then decodedText (cryptography e) (cryptState e) value
            else Some value))"

end
