(* ===== verification/Client.thy ===== *)
theory Client
  imports Wire ConnectionData
begin

text \<open>
  The client between the service and the user: the reader of \<open>client/src/service/srvcli.cpp\<close>, the
  slots of \<open>client/src/frmmain.cpp\<close> it calls, the list of \<open>connectionmodel.cpp\<close> and the answers of
  the credential dialog (\<open>client/src/dialogs/frmgetuserdata.cpp\<close>). Signals are direct calls;
  repainting, and events delivered by nested \<open>processEvents\<close>, are left out. A read
  outside a string or a thrown exception sets \<open>fault\<close>.
\<close>

section \<open>The list behind the view (ConnectionModel)\<close>

text \<open>The view holds pointers to the objects of \<open>Configs\<close>; \<open>rows\<close> are their keys.\<close>

definition loadConnections :: "client \<Rightarrow> client" where
  "loadConnections s = s\<lparr>rows := map fst (objs s)\<rparr>"

definition getConnection :: "int \<Rightarrow> client \<Rightarrow> int option" where
  "getConnection index s =
     find (\<lambda>k. case getObj k s of None \<Rightarrow> False | Some c \<Rightarrow> cdId c = u32 index) (rows s)"

definition withConnection :: "int \<Rightarrow> (int \<Rightarrow> client \<Rightarrow> client) \<Rightarrow> client \<Rightarrow> client" where
  "withConnection index f s = (case getConnection index s of None \<Rightarrow> s | Some k \<Rightarrow> f k s)"

section \<open>Slots of the main window\<close>

definition setDisconnected :: "cenv \<Rightarrow> int \<Rightarrow> client \<Rightarrow> client" where
  "setDisconnected e i =
     withConnection i (\<lambda>k s. case getObj k s of None \<Rightarrow> s
       | Some c \<Rightarrow> if cdState c \<noteq> Error then setState e k Disconnected s else s)"

definition setError :: "cenv \<Rightarrow> int \<Rightarrow> string \<Rightarrow> client \<Rightarrow> client" where
  "setError e i message = withConnection i (\<lambda>k s. setErrorText k message (setState e k Error s))"

definition receivedIP :: "cenv \<Rightarrow> int \<Rightarrow> string \<Rightarrow> client \<Rightarrow> client" where
  "receivedIP e i ip =
     withConnection i (\<lambda>k s. setLastConnected k (u32 (now e)) True (setIP e k ip (setState e k Connected s)))"

definition receivedReconnect :: "cenv \<Rightarrow> int \<Rightarrow> client \<Rightarrow> client" where
  "receivedReconnect e i = withConnection i (\<lambda>k. setState e k Connecting)"

definition receivedTapCount :: "int \<Rightarrow> client \<Rightarrow> client" where
  "receivedTapCount count s = s\<lparr>tapDevices := count, gotTapCount := True\<rparr>"

definition parkConnection :: "cenv \<Rightarrow> int \<Rightarrow> client \<Rightarrow> client" where
  "parkConnection e k s =
     (case getObj k s of None \<Rightarrow> s
      | Some c \<Rightarrow>
          if cdState c = Connected \<or> cdState c = Connecting
          then snd (disconnect e k (s\<lparr>waiting := waiting s @ [k]\<rparr>)) else s)"

definition receivedTapControl :: "cenv \<Rightarrow> int \<Rightarrow> client \<Rightarrow> client" where
  "receivedTapControl e type s =
     (if type = 0 then
        (let s1 = cause (MessageBox ''TAP device installed successfully. Please reconnect the connection.'') s;
             s2 = (if silent e then fold (\<lambda>k s. snd (connect e k s)) (waiting s1) s1 else s1)
         in (requestService e ''TAPCOUNT'' [] s2)\<lparr>waiting := [], installingTap := False\<rparr>)
      else if type = -1 then cause (MessageBox ''TAP device installed failed!'') s
      else if type = 1 then
        (if confirms e then
           requestService e ''ADDTAP'' [] (fold (parkConnection e) (map fst (objs s)) s)
         else s)
      else s)"

definition receivedRemoveTap :: "cenv \<Rightarrow> string \<Rightarrow> client \<Rightarrow> client" where
  "receivedRemoveTap e state s =
     (if state = ''OK'' then
        requestService e ''TAPCOUNT'' [] (cause (MessageBox ''TAP devices remove successfully.'') s)
      else if state = ''ERROR'' then cause (MessageBox ''Unable to uninstall TAP-Win32 driver!'') s
      else s)"

definition inputTypeOf :: "int \<Rightarrow> inputType" where
  "inputTypeOf type =
     (if type = 0 then Username else if type = 1 then Password else if type = 2 then Otp
      else if type = 3 then Pkcs12 else if type = 5 then HttpUsername else if type = 6 then HttpPassword
      else Username)"

definition answerCommand :: "int \<Rightarrow> string" where
  "answerCommand type =
     (if type = 0 then ''UNEEDED'' else if type = 1 then ''PWDNEEDED'' else if type = 3 then ''PKNEEDED''
      else if type = 5 then ''HTTPUSERNEEDED'' else if type = 6 then ''HTTPPASSNEEDED'' else [])"

definition pair :: "string \<Rightarrow> string \<Rightarrow> string" where
  "pair a b = qarg (qarg ''%1;%2'' a) b"

definition answerService :: "cenv \<Rightarrow> string \<Rightarrow> int \<Rightarrow> string \<Rightarrow> string \<Rightarrow> client \<Rightarrow> client" where
  "answerService e command i value wipe s =
     requestService e ''null'' (pair wipe wipe) (requestService e command (pair (number i) value) s)"

definition forgetUserData :: "cenv \<Rightarrow> int \<Rightarrow> client \<Rightarrow> client" where
  "forgetUserData e k s = fold (\<lambda>type s. saveUserData e k type [] True s) [0, 1, 2, 3, 4, 5, 6] s"

definition answerOrAsk :: "cenv \<Rightarrow> int \<Rightarrow> int \<Rightarrow> client \<Rightarrow> client" where
  "answerOrAsk e i type s =
     (case getConnection i s of
        None \<Rightarrow> cause (AskUser i (inputTypeOf type) ''n/a'') s
      | Some k \<Rightarrow>
          (case getObj k s of None \<Rightarrow> s
           | Some c \<Rightarrow>
               if hasCrediantials e (cdId c) type s then
                 (case getSavedUserData e (cdId c) type s of
                    None \<Rightarrow> s\<lparr>fault := True\<rparr>
                  | Some value \<Rightarrow> answerService e (answerCommand type) i value (randomString e) s)
               else cause (AskUser i (inputTypeOf type) (cdName c)) s))"

definition userInputIsNeeded :: "cenv \<Rightarrow> int \<Rightarrow> int \<Rightarrow> client \<Rightarrow> client" where
  "userInputIsNeeded e i type s =
     (if type = 0 \<and> startUser e \<noteq> [] then answerService e ''UNEEDED'' i (startUser e) ''null'' s
      else if type = 1 \<and> startPassword e \<noteq> [] then answerService e ''PWDNEEDED'' i (startPassword e) ''null'' s
      else if type = -1 then withConnection i (forgetUserData e) s
      else answerOrAsk e i type s)"

definition receivedStatus :: "cenv \<Rightarrow> int \<Rightarrow> bool \<Rightarrow> bool \<Rightarrow> int \<Rightarrow> string \<Rightarrow> client \<Rightarrow> client" where
  "receivedStatus e i isConnected isConnecting lastAction ip =
     withConnection i (\<lambda>k s.
       (let s1 = (if isConnecting then setState e k Connecting s
                  else if isConnected then setState e k Connected s
                  else (let s' = setState e k Disconnected s in
                        if isReconnect s' then snd (connect e k s') else s'))
        in if -1 < lastAction then
             (case getObj k s1 of None \<Rightarrow> s1 | Some c \<Rightarrow> userInputIsNeeded e (i32 (cdId c)) lastAction s1)
           else s1))"

definition saveUserDataSlot :: "cenv \<Rightarrow> int \<Rightarrow> int \<Rightarrow> string \<Rightarrow> bool \<Rightarrow> client \<Rightarrow> client" where
  "saveUserDataSlot e i type value save = withConnection i (\<lambda>k. saveUserData e k type value save)"

section \<open>The credential dialog\<close>

text \<open>The OK button: the answer, the wish to save it, and a request that overwrites the buffer.\<close>

definition dialogOk :: "cenv \<Rightarrow> inputType \<Rightarrow> int \<Rightarrow> string \<Rightarrow> bool \<Rightarrow> client \<Rightarrow> client" where
  "dialogOk e frmType i text save s =
     (let wipe = pair (randomString e) (randomString e);
          tell = (\<lambda>command. requestService e command (pair (number i) text) s);
          done = requestService e ''null'' wipe
      in case frmType of
           Username \<Rightarrow> done (saveUserDataSlot e i 0 text save (tell ''UNEEDED''))
         | Password \<Rightarrow> done (saveUserDataSlot e i 1 text save (tell ''PWDNEEDED''))
         | Pkcs12 \<Rightarrow> done (saveUserDataSlot e i 3 text save (tell ''PKNEEDED''))
         | HttpUsername \<Rightarrow> done (saveUserDataSlot e i 5 text save (tell ''HTTPUSERNEEDED''))
         | HttpPassword \<Rightarrow> done (saveUserDataSlot e i 6 text save (tell ''HTTPPASSNEEDED''))
         | Otp \<Rightarrow> done (tell ''CKNEEDED'')
         | PrivateKey \<Rightarrow> if text = [] then cause (MessageBox ''It is not possible to use an empty private key!'') s else s
         | CryptPassword \<Rightarrow> s)"

text \<open>Closed without an answer: the connection is closed and the prompt answered with nothing.\<close>

definition dialogClosed :: "cenv \<Rightarrow> inputType \<Rightarrow> int \<Rightarrow> client \<Rightarrow> client" where
  "dialogClosed e frmType i s =
     (let s1 = requestService e ''CLOSE'' (qarg ''%1'' (number i)) s;
          tell = (\<lambda>command. requestService e command (qarg ''%1;'' (number i)) s1)
      in case frmType of
           Username \<Rightarrow> tell ''UNEEDED'' | Password \<Rightarrow> tell ''PWDNEEDED'' | Pkcs12 \<Rightarrow> tell ''PKNEEDED''
         | Otp \<Rightarrow> tell ''CKNEEDED'' | HttpUsername \<Rightarrow> tell ''HTTPUSERNEEDED''
         | HttpPassword \<Rightarrow> tell ''HTTPPASSNEEDED''
         | PrivateKey \<Rightarrow> cause (MessageBox ''The private key will be set to default <insecure>!'') s1
         | CryptPassword \<Rightarrow> s1)"

section \<open>Closing the client\<close>

definition checkIfSendToTrayIsNeeded :: "cenv \<Rightarrow> client \<Rightarrow> client" where
  "checkIfSendToTrayIsNeeded e s =
     (if sendToTray e \<and> Error \<notin> set (states s) \<and> Connecting \<notin> set (states s) \<and> Connected \<in> set (states s)
         \<and> windowVisible e
      then cause CloseWindow s else s)"

definition closeApplication :: "cenv \<Rightarrow> client \<Rightarrow> client" where
  "closeApplication e s =
     (let ask = blockShutdown e \<and> Connected \<in> set (states s);
          s1 = (if ask then fold (\<lambda>k s. snd (disconnect e k s)) (map fst (objs s)) s else s)
      in if ask \<and> \<not> confirms e then s else cause ExitClient (cause HideTray s1))"

text \<open>Windows is about to suspend (\<open>nativeEvent\<close>, \<open>WM_POWERBROADCAST\<close>).\<close>

definition suspend :: "cenv \<Rightarrow> client \<Rightarrow> client" where
  "suspend e s = fold (\<lambda>k s. snd (disconnect e k s)) (map fst (objs s)) s"

text \<open>The messages other threads post to the main window.\<close>

datatype windowMessage = CloseVpnClient | OnSendDummy | FailedToConnect | InstallTapDevice
  | ReceiveTapCount | ConnectToService

definition onWindowMessage :: "cenv \<Rightarrow> string \<Rightarrow> windowMessage \<Rightarrow> client \<Rightarrow> client" where
  "onWindowMessage e clientName m s =
     (case m of
        CloseVpnClient \<Rightarrow> closeApplication e s
      | OnSendDummy \<Rightarrow> requestService e ''Dummy'' clientName s
      | FailedToConnect \<Rightarrow> cause (MessageBox ''Failed to connect to service! Please make sure the service is running and restart the application!'') s
      | InstallTapDevice \<Rightarrow> requestService e ''ADDTAP'' [] s
      | ReceiveTapCount \<Rightarrow> requestService e ''TAPCOUNT'' [] s
      | ConnectToService \<Rightarrow> snd (makeFastConnection e s))"

section \<open>The list of connections on the screen (MainListView)\<close>

text \<open>\<open>GetConnection(QModelIndex)\<close> for a valid index of the row given.\<close>

definition connectionAtRow :: "nat \<Rightarrow> client \<Rightarrow> int option" where
  "connectionAtRow row s = (if row < length (rows s) then Some (rows s ! row) else None)"

text \<open>A click on the button of a row; without a connection there, a null pointer is read.\<close>

definition connectionButtonClicked :: "cenv \<Rightarrow> nat \<Rightarrow> client \<Rightarrow> client" where
  "connectionButtonClicked e row s =
     (case connectionAtRow row s of None \<Rightarrow> s\<lparr>fault := True\<rparr>
      | Some k \<Rightarrow>
          (case getObj k s of None \<Rightarrow> s\<lparr>fault := True\<rparr>
           | Some c \<Rightarrow>
               if cdState c = Connecting \<or> cdState c = Connected then
                 setLastUsed k (u32 (now e)) True (setState e k Disconnecting (snd (disconnect e k s)))
               else
                 (case connect e k (setState e k Connecting s) of
                    (done, s1) \<Rightarrow> if done then s1 else setState e k Error s1)))"

section \<open>The reader\<close>

text \<open>\<open>id;text\<close> with further semicolons in the text.\<close>

definition idAndText :: "string \<Rightarrow> (int \<times> string) option" where
  "idAndText params =
     (case splitOn CHR '';'' params of
        cId # f # fs \<Rightarrow> Some (toInt cId, joinWith '';'' (f # fs))
      | _ \<Rightarrow> None)"

definition twoFields :: "string \<Rightarrow> (string \<times> string) option" where
  "twoFields params = (case splitOn CHR '';'' params of [a, b] \<Rightarrow> Some (a, b) | _ \<Rightarrow> None)"

definition withNewline :: "string \<Rightarrow> string" where
  "withNewline m = (if last m \<noteq> CHR 0x0A then m @ [CHR 0x0A] else m)"

definition onLog :: "string \<Rightarrow> client \<Rightarrow> client" where
  "onLog params s =
     (case idAndText params of None \<Rightarrow> s
      | Some (i, m) \<Rightarrow> if m = [] then s\<lparr>fault := True\<rparr> else appendLog i (withNewline m) s)"

definition onError :: "cenv \<Rightarrow> string \<Rightarrow> client \<Rightarrow> client" where
  "onError e params s =
     (case idAndText params of None \<Rightarrow> s
      | Some (i, m) \<Rightarrow>
          if m = [] then s\<lparr>fault := True\<rparr>
          else setError e i (withNewline m) (appendLog i (''ERROR: '' @ withNewline m) s))"

definition onDisconnected :: "cenv \<Rightarrow> string \<Rightarrow> client \<Rightarrow> client" where
  "onDisconnected e params s = appendLog (toInt params) (endLine ''Disconnected'') (setDisconnected e (toInt params) s)"

definition onInput :: "cenv \<Rightarrow> string \<Rightarrow> client \<Rightarrow> client" where
  "onInput e params s =
     (case twoFields params of None \<Rightarrow> s | Some (cId, cType) \<Rightarrow> userInputIsNeeded e (toInt cId) (toInt cType) s)"

definition onStatus :: "cenv \<Rightarrow> string \<Rightarrow> client \<Rightarrow> client" where
  "onStatus e params s =
     (case splitOn CHR '';'' params of
        [cId, cConnected, cConnecting, cLastAction, cIp] \<Rightarrow>
          receivedStatus e (toInt cId) (cConnected = ''1'') (cConnecting = ''1'') (toInt cLastAction) cIp s
      | _ \<Rightarrow> s)"

definition onTapInstall :: "cenv \<Rightarrow> string \<Rightarrow> client \<Rightarrow> client" where
  "onTapInstall e params s =
     (let p = toUpper (trimmed params) in
      if p = ''NEEDED'' then receivedTapControl e 1 s
      else if p = ''OK'' then receivedTapControl e 0 s
      else if p = ''ERROR'' then receivedTapControl e (-1) s else s)"

definition onReceivedIp :: "cenv \<Rightarrow> string \<Rightarrow> client \<Rightarrow> client" where
  "onReceivedIp e params s =
     (case twoFields params of None \<Rightarrow> s | Some (cId, cIP) \<Rightarrow> receivedIP e (toInt cId) cIP s)"

text \<open>The two answers to other clients go to the socket without a look at the connection.\<close>

definition onGetLog :: "string \<Rightarrow> client \<Rightarrow> client" where
  "onGetLog params s =
     (case twoFields params of None \<Rightarrow> s
      | Some (asker, cId) \<Rightarrow>
          cause (Request ''GETLOG_RESP'' (asker @ '';'' @ joinWith [CHR 0x0A] (logs (toInt cId) s))) s)"

definition onGetError :: "string \<Rightarrow> client \<Rightarrow> client" where
  "onGetError params s =
     (case twoFields params of None \<Rightarrow> s
      | Some (asker, cId) \<Rightarrow>
          cause (Request ''GET_ERROR_RESP'' (asker @ '';'' @
            (case Option.bind (getConnection (toInt cId) s) (\<lambda>k. getObj k s) of
               None \<Rightarrow> []
             | Some c \<Rightarrow> if cdState c \<noteq> Connected then cdErrorMsg c else []))) s)"

definition onCommand :: "cenv \<Rightarrow> string \<Rightarrow> string \<Rightarrow> client \<Rightarrow> client" where
  "onCommand e command params s =
     (if command = ''LOG'' then onLog params s
      else if command = ''DISCONNECTED'' then onDisconnected e params s
      else if command = ''ERROR'' then onError e params s
      else if command = ''INPUT'' then onInput e params s
      else if command = ''STATUS'' then onStatus e params s
      else if command = ''DUMMY'' then (if twoFields params \<noteq> None then cause DummyAnswered s else s)
      else if command = ''RESTART'' then receivedReconnect e (toInt params) s
      else if command = ''TAPINSTALL'' then onTapInstall e params s
      else if command = ''TAPREMOVE'' then receivedRemoveTap e (toUpper (trimmed params)) s
      else if command = ''TAPCOUNT'' then receivedTapCount (toInt params) s
      else if command = ''RECEIVEDIP'' then onReceivedIp e params s
      else if command = ''REMOVE_USER_DATA'' then userInputIsNeeded e (toInt params) (-1) s
      else if command = ''GETLOG'' then onGetLog params s
      else if command = ''GET_ERROR'' then onGetError params s
      else if command = ''STOP_CLIENT'' then cause PostClose s
      else s)"

text \<open>The second component tells whether \<open>slotStartRead\<close> goes on to look for more bytes.\<close>

definition dispatchClient :: "cenv \<Rightarrow> string \<Rightarrow> string \<Rightarrow> client \<Rightarrow> client \<times> bool" where
  "dispatchClient e command params s =
     (if command = [] then (s, False)
      else (let cmd = toUpper (trimmed command);
                s' = onCommand e cmd params s
            in (s', cmd \<noteq> ''STOP_CLIENT'' \<and> (fault s' \<longrightarrow> fault s))))"

definition handleClient :: "cenv \<Rightarrow> client \<Rightarrow> msg \<Rightarrow> client \<times> bool" where
  "handleClient e s m =
     (case (unitsText (fst m), unitsText (snd m)) of
        (Some cmd, Some params) \<Rightarrow> dispatchClient e cmd params s
      | _ \<Rightarrow> (s, True))"

definition clientReads :: "cenv \<Rightarrow> client \<times> rx \<Rightarrow> byte list \<Rightarrow> client \<times> rx" where
  "clientReads e = onReadyRead (handleClient e)"

end
