(* ===== verification/ClientFacts.thy ===== *)
theory ClientFacts
  imports Client
begin

text \<open>
  The client as a state machine and the contracts its properties rest on: \<open>journal\<close>, what a
  log with one list per id promises; \<open>client_invariant\<close>, what has to be checked of a property
  (four laws on the primitive changes) so that every message, dialog and command keeps it. The
  interpretations here are well-formedness, growth of the effects, the tray icon and
  the error script.
\<close>

section \<open>The log\<close>

locale journal =
  fixes entries :: "'k \<Rightarrow> 's \<Rightarrow> 'v list"
    and add :: "'k \<Rightarrow> 'v \<Rightarrow> 's \<Rightarrow> 's"
    and wipe :: "'k \<Rightarrow> 's \<Rightarrow> 's"
  assumes entries_add: "entries k (add k' v s) = (if k = k' then entries k s @ [v] else entries k s)"
    and entries_wipe: "entries k (wipe k' s) = (if k = k' then [] else entries k s)"
begin

lemma entries_add_all:
  "entries k (fold (\<lambda>(k', v). add k' v) xs s) = entries k s @ map snd (filter (\<lambda>x. fst x = k) xs)"
  by (induction xs arbitrary: s) (auto simp: entries_add)

lemma entries_add_after_wipe: "entries k (add k v (wipe k s)) = [v]"
  by (simp add: entries_add entries_wipe)

end

definition logOf :: "int \<Rightarrow> (int \<times> string list) list \<Rightarrow> string list" where
  "logOf i l = (case map_of l i of None \<Rightarrow> [] | Some ms \<Rightarrow> ms)"

lemma logs_logOf: "logs i s = logOf i (logData s)"
  by (simp add: logs_def logOf_def)

lemma map_of_map_append:
  "map_of (map (\<lambda>(j, ms). (j, if j = i then ms @ [m] else ms)) l) k =
    map_option (\<lambda>ms. if k = i then ms @ [m] else ms) (map_of l k)"
  by (induction l) auto

interpretation logbook: journal logOf addLog "\<lambda>i. assoc_upd i (\<lambda>_. [])"
proof
  show "logOf k (addLog k' v s) = (if k = k' then logOf k s @ [v] else logOf k s)" for k k' v s
  proof (cases "k' \<in> fst ` set s")
    case True
    then obtain ms where "map_of s k' = Some ms" by (metis map_of_eq_None_iff not_None_eq)
    with True show ?thesis by (simp add: logOf_def addLog_def map_of_map_append split: option.split)
  next
    case False
    then have "map_of s k' = None" by (simp add: map_of_eq_None_iff)
    with False show ?thesis by (simp add: logOf_def addLog_def map_add_def split: option.split)
  qed
  show "logOf k (assoc_upd k' (\<lambda>_. []) s) = (if k = k' then [] else logOf k s)" for k k' s
    by (auto simp: logOf_def map_of_assoc_upd split: option.splits)
qed

section \<open>Simplification of the state\<close>

lemma cause_simps [simp]:
  "objs (cause x s) = objs s" "rows (cause x s) = rows s" "logData (cause x s) = logData s"
  "effects (cause x s) = effects s @ [x]" "fault (cause x s) = fault s"
  "serviceOnline (cause x s) = serviceOnline s" "waiting (cause x s) = waiting s"
  "isReconnect (cause x s) = isReconnect s"
  by (simp_all add: cause_def)

lemma onObj_simps [simp]:
  "rows (onObj k f s) = rows s" "logData (onObj k f s) = logData s"
  "effects (onObj k f s) = effects s" "fault (onObj k f s) = fault s"
  "serviceOnline (onObj k f s) = serviceOnline s" "waiting (onObj k f s) = waiting s"
  "isReconnect (onObj k f s) = isReconnect s"
  "map fst (objs (onObj k f s)) = map fst (objs s)"
  by (simp_all add: onObj_def)

lemma getObj_cause [simp]: "getObj k (cause x s) = getObj k s"
  by (simp add: getObj_def)

lemma getObj_onObj: "getObj k (onObj j f s) = (if k = j then map_option f (getObj k s) else getObj k s)"
  by (simp add: getObj_def onObj_def map_of_assoc_upd)

lemma getObj_onObj_same [simp]: "getObj k (onObj k f s) = map_option f (getObj k s)"
  by (simp add: getObj_onObj)

lemma getObj_onObj_other [simp]: "k \<noteq> j \<Longrightarrow> getObj k (onObj j f s) = getObj k s"
  by (simp add: getObj_onObj)

lemma appendLog_simps [simp]:
  "objs (appendLog i m s) = objs s" "rows (appendLog i m s) = rows s" "fault (appendLog i m s) = fault s"
  "getObj k (appendLog i m s) = getObj k s" "states (appendLog i m s) = states s"
  by (simp_all add: appendLog_def Let_def getObj_def states_def)

lemma states_cause [simp]: "states (cause x s) = states s"
  by (simp add: states_def)

lemma states_onObj: "(\<And>c. cdState (f c) = cdState c) \<Longrightarrow> states (onObj k f s) = states s"
proof -
  assume h: "\<And>c. cdState (f c) = cdState c"
  have "map (cdState \<circ> snd) (assoc_upd k f l) = map (cdState \<circ> snd) l" for l
    by (induction l) (auto simp: h)
  then show ?thesis by (simp add: states_def onObj_def)
qed

section \<open>What keeps an invariant\<close>

definition plain :: "effect \<Rightarrow> bool" where
  "plain x \<longleftrightarrow> (case x of SetTrayIcon _ \<Rightarrow> False | StartScript _ t _ \<Rightarrow> t \<noteq> ''EC'' | _ \<Rightarrow> True)"

lemma plain_simps [simp]:
  "plain (Request a b)" "plain (Sql q)" "plain (ScriptTimer k d)" "plain TrayTimer" "plain (AskUser i it n)"
  "plain (MessageBox m)" "plain CloseWindow" "plain PostClose" "plain HideTray" "plain ExitClient"
  "plain DummyAnswered" "plain (RunTool a b)" "plain (StartScript k t c) \<longleftrightarrow> t \<noteq> ''EC''" "\<not> plain (SetTrayIcon ic)"
  by (simp_all add: plain_def)

text \<open>A change of an object that is visible in the view's details only.\<close>

definition detail :: "(connectionData \<Rightarrow> connectionData) \<Rightarrow> bool" where
  "detail f \<longleftrightarrow> (\<forall>c. cdId (f c) = cdId c \<and> cdName (f c) = cdName c \<and> cdConfigPath (f c) = cdConfigPath c \<and>
     cdState (f c) = cdState c \<and> errorAlreadyFired (f c) = errorAlreadyFired c)"

definition sameCore :: "client \<Rightarrow> client \<Rightarrow> bool" where
  "sameCore s s' \<longleftrightarrow> objs s' = objs s \<and> rows s' = rows s \<and> effects s' = effects s"

locale client_invariant =
  fixes ok :: "cenv \<Rightarrow> bool" and I :: "client \<Rightarrow> bool"
  assumes keep_cause: "I s \<Longrightarrow> plain x \<Longrightarrow> I (cause x s)"
    and keep_detail: "I s \<Longrightarrow> detail f \<Longrightarrow> I (onObj k f s)"
    and keep_core: "I s \<Longrightarrow> sameCore s s' \<Longrightarrow> I s'"
    and keep_state: "ok e \<Longrightarrow> I s \<Longrightarrow> I (setState e k n s)"
begin

lemma keep_updates:
  "I s \<Longrightarrow> I (s\<lparr>logData := l\<rparr>)" "I s \<Longrightarrow> I (s\<lparr>serviceOnline := b\<rparr>)" "I s \<Longrightarrow> I (s\<lparr>waiting := w\<rparr>)"
  "I s \<Longrightarrow> I (s\<lparr>installingTap := b\<rparr>)" "I s \<Longrightarrow> I (s\<lparr>fault := b\<rparr>)"
  "I s \<Longrightarrow> I (s\<lparr>tapDevices := n, gotTapCount := b\<rparr>)" "I s \<Longrightarrow> I (s\<lparr>waiting := w, installingTap := b\<rparr>)"
  by (erule keep_core, simp add: sameCore_def)+

lemma keep_appendLog: "I s \<Longrightarrow> I (appendLog i m s)"
  by (simp add: appendLog_def Let_def keep_updates keep_cause)

lemma keep_send: "I s \<Longrightarrow> I (snd (sendToService e c p s))"
  by (simp add: sendToService_def makeFastConnection_def keep_updates keep_cause)

lemma keep_request: "I s \<Longrightarrow> I (requestService e c p s)"
  by (simp add: requestService_def keep_send)

lemma keep_getScript: "I s \<Longrightarrow> I (snd (getScript e c t s))"
  by (simp add: getScript_def Let_def keep_cause split: option.split)

lemma keep_runScript:
  assumes "I s" and "t \<noteq> ''EC''"
  shows "I (runScript e k t s)"
proof (cases "getObj k s")
  case (Some c)
  obtain script s1 where g: "getScript e c t s = (script, s1)" by fastforce
  with keep_getScript [OF assms(1), of e c t] have "I s1" by simp
  then show ?thesis using assms(2) Some g
    by (simp add: runScript_def startScript_def Let_def keep_appendLog keep_cause)
qed (simp add: runScript_def assms)

lemma detail_fields [simp]:
  "detail (cdIp_update f)" "detail (cdUser_update g)" "detail (cdErrorMsg_update f)"
  "detail (cdLastConnected_update h)" "detail (cdLastUsed_update h)" "detail (cdAutostart_update g)"
  by (simp_all add: detail_def)

lemma keep_setIP:
  assumes "I s"
  shows "I (setIP e k ip s)"
proof (cases "getObj k s")
  case (Some c)
  obtain t s1 where g: "getScript e c ''TO'' s = (t, s1)" by fastforce
  with keep_getScript [OF assms, of e c "''TO''"] have "I s1" by simp
  with Some g show ?thesis by (simp add: setIP_def keep_cause keep_detail)
qed (simp add: setIP_def assms)

lemma keep_setLast: "I s \<Longrightarrow> I (setLastConnected k n b s)" "I s \<Longrightarrow> I (setLastUsed k n b s)"
  "I s \<Longrightarrow> I (setAutoStart k a s)" "I s \<Longrightarrow> I (setErrorText k m s)"
  by (simp_all add: setLastConnected_def setLastUsed_def setAutoStart_def setErrorText_def keep_cause
      keep_detail split: option.split)

lemma keep_saveUserData: "I s \<Longrightarrow> I (saveUserData e k t v b s)"
  by (simp add: saveUserData_def updateUserConfig_def Let_def keep_cause keep_detail keep_updates
      split: option.split)

lemma keep_file: "I s \<Longrightarrow> I (snd (base64OfFileContent e i p s))"
  by (simp add: base64OfFileContent_def keep_appendLog split: option.split)

lemma keep_connect:
  assumes "ok e" and "I s"
  shows "I (snd (connect e k s))"
proof (cases "getObj k s")
  case (Some c)
  let ?s1 = "runScript e k ''BC'' (setState e k Connecting s)"
  have "I ?s1" using assms by (intro keep_runScript keep_state) simp_all
  with Some show ?thesis
    using keep_file [of ?s1 e "i32 (cdId c)" "cdConfigPath c"]
    by (auto simp: connect_def Let_def keep_send split: prod.split)
qed (simp add: connect_def assms)

lemma keep_disconnect: "I s \<Longrightarrow> I (snd (disconnect e k s))"
  by (simp add: disconnect_def keep_send keep_runScript split: option.split)

lemma keep_fold: "(\<And>x s. I s \<Longrightarrow> I (f x s)) \<Longrightarrow> I s \<Longrightarrow> I (fold f xs s)"
  by (induction xs arbitrary: s) auto

lemma keep_with: "(\<And>k s. I s \<Longrightarrow> I (f k s)) \<Longrightarrow> I s \<Longrightarrow> I (withConnection i f s)"
  by (simp add: withConnection_def split: option.split)

lemma keep_answer: "I s \<Longrightarrow> I (answerService e c i v w s)"
  by (simp add: answerService_def keep_request)

lemma keep_input: "I s \<Longrightarrow> I (userInputIsNeeded e i t s)"
  by (auto simp: userInputIsNeeded_def answerOrAsk_def forgetUserData_def keep_answer keep_cause
      keep_updates keep_saveUserData intro!: keep_with split: option.split simp del: fold_simps
      intro: keep_fold)

lemma keep_setDisconnected: "ok e \<Longrightarrow> I s \<Longrightarrow> I (setDisconnected e i s)"
  unfolding setDisconnected_def by (rule keep_with) (auto simp: keep_state split: option.split)

lemma keep_setError: "ok e \<Longrightarrow> I s \<Longrightarrow> I (setError e i m s)"
  unfolding setError_def by (rule keep_with) (simp_all add: keep_state keep_setLast)

lemma keep_receivedIP: "ok e \<Longrightarrow> I s \<Longrightarrow> I (receivedIP e i ip s)"
  unfolding receivedIP_def by (rule keep_with) (simp_all add: keep_state keep_setLast keep_setIP)

lemma keep_receivedReconnect: "ok e \<Longrightarrow> I s \<Longrightarrow> I (receivedReconnect e i s)"
  unfolding receivedReconnect_def by (rule keep_with) (simp_all add: keep_state)

lemma keep_receivedStatus: "ok e \<Longrightarrow> I s \<Longrightarrow> I (receivedStatus e i c g l ip s)"
  unfolding receivedStatus_def
  by (rule keep_with) (auto simp: Let_def keep_state keep_connect keep_input split: option.split)

lemma keep_park: "I s \<Longrightarrow> I (parkConnection e k s)"
  by (simp add: parkConnection_def keep_disconnect keep_updates split: option.split)

lemma keep_tapControl: "ok e \<Longrightarrow> I s \<Longrightarrow> I (receivedTapControl e t s)"
  by (auto simp: receivedTapControl_def Let_def keep_cause keep_request keep_connect keep_park
      intro!: keep_updates keep_fold keep_request)

lemma keep_removeTap: "I s \<Longrightarrow> I (receivedRemoveTap e t s)"
  by (simp add: receivedRemoveTap_def keep_cause keep_request)

lemma keep_tapCount: "I s \<Longrightarrow> I (receivedTapCount n s)"
  by (simp add: receivedTapCount_def keep_updates)

lemma keep_onCommand: "ok e \<Longrightarrow> I s \<Longrightarrow> I (onCommand e cmd p s)"
  by (simp add: onCommand_def onLog_def onError_def onDisconnected_def onInput_def onStatus_def
      onTapInstall_def onReceivedIp_def onGetLog_def onGetError_def Let_def keep_appendLog keep_cause
      keep_updates keep_setDisconnected keep_setError keep_input keep_receivedStatus
      keep_receivedReconnect keep_tapControl keep_removeTap keep_tapCount keep_receivedIP
      split: option.split list.split)

lemma keep_dispatch: "ok e \<Longrightarrow> I s \<Longrightarrow> I (fst (dispatchClient e cmd p s))"
  by (simp add: dispatchClient_def Let_def keep_onCommand)

lemma keep_handle: "ok e \<Longrightarrow> I s \<Longrightarrow> I (fst (handleClient e s m))"
  by (simp add: handleClient_def keep_dispatch split: option.split)

lemma keep_reads: "ok e \<Longrightarrow> I (fst st) \<Longrightarrow> I (fst (clientReads e st chunk))"
  unfolding clientReads_def onReadyRead_def by (rule drain_invariant) (simp_all add: keep_handle)

lemma keep_saveSlot: "I s \<Longrightarrow> I (saveUserDataSlot e i t v b s)"
  unfolding saveUserDataSlot_def by (rule keep_with) (simp_all add: keep_saveUserData)

lemma keep_dialog: "I s \<Longrightarrow> I (dialogOk e ft i text b s)" "I s \<Longrightarrow> I (dialogClosed e ft i s)"
  by (simp_all add: dialogOk_def dialogClosed_def Let_def keep_request keep_saveSlot keep_cause
      split: inputType.split)

lemma keep_close: "I s \<Longrightarrow> I (closeApplication e s)"
  by (auto simp: closeApplication_def Let_def keep_cause keep_disconnect intro!: keep_cause keep_fold)

lemma keep_tray: "I s \<Longrightarrow> I (checkIfSendToTrayIsNeeded e s)"
  by (simp add: checkIfSendToTrayIsNeeded_def keep_cause)

lemma keep_suspend: "I s \<Longrightarrow> I (suspend e s)"
  by (auto simp: suspend_def keep_disconnect intro!: keep_fold)

lemma keep_window: "I s \<Longrightarrow> I (onWindowMessage e n m s)"
  by (simp add: onWindowMessage_def makeFastConnection_def keep_close keep_request keep_cause keep_updates
      split: windowMessage.split)

lemma keep_button:
  assumes "ok e" and "I s"
  shows "I (connectionButtonClicked e row s)"
proof -
  have "I (case connect e k (setState e k Connecting s) of (done, s1) \<Rightarrow> if done then s1 else setState e k Error s1)" for k
    using keep_connect [OF assms(1), of "setState e k Connecting s" k] assms
    by (auto simp: keep_state split: prod.split)
  then show ?thesis using assms
    by (simp add: connectionButtonClicked_def keep_updates keep_setLast keep_state keep_disconnect split: option.split)
qed

lemma keep_slots: "I s \<Longrightarrow> I (scriptFinished i x st s)" "I s \<Longrightarrow> I (scriptErrorOccurred i er s)"
  "I s \<Longrightarrow> I (scriptStartet i s)" "I s \<Longrightarrow> I (startAfterConnectDelayed e k s)"
  by (simp_all add: scriptFinished_def scriptErrorOccurred_def scriptStartet_def
      startAfterConnectDelayed_def keep_appendLog keep_runScript)

end

section \<open>The state machine\<close>

text \<open>What can happen to a running client, each in its own environment.\<close>

inductive clientStep :: "(cenv \<Rightarrow> bool) \<Rightarrow> client \<times> rx \<Rightarrow> client \<times> rx \<Rightarrow> bool" for ok where
  Reads: "ok e \<Longrightarrow> clientStep ok st (clientReads e st chunk)"
| Connects: "ok e \<Longrightarrow> clientStep ok (s, r) (snd (connect e k s), r)"
| Disconnects: "ok e \<Longrightarrow> clientStep ok (s, r) (snd (disconnect e k s), r)"
| Answers: "ok e \<Longrightarrow> clientStep ok (s, r) (dialogOk e ft i text b s, r)"
| Dismisses: "ok e \<Longrightarrow> clientStep ok (s, r) (dialogClosed e ft i s, r)"
| Delayed: "ok e \<Longrightarrow> clientStep ok (s, r) (startAfterConnectDelayed e k s, r)"
| Clicks: "ok e \<Longrightarrow> clientStep ok (s, r) (connectionButtonClicked e row s, r)"
| Suspends: "ok e \<Longrightarrow> clientStep ok (s, r) (suspend e s, r)"
| Posted: "ok e \<Longrightarrow> clientStep ok (s, r) (onWindowMessage e n m s, r)"
| Finished: "clientStep ok (s, r) (scriptFinished i x xs s, r)"
| Failed: "clientStep ok (s, r) (scriptErrorOccurred i er s, r)"
| Started: "clientStep ok (s, r) (scriptStartet i s, r)"
| Autostart: "clientStep ok (s, r) (setAutoStart k b s, r)"
| Tray: "ok e \<Longrightarrow> clientStep ok (s, r) (checkIfSendToTrayIsNeeded e s, r)"
| Closes: "ok e \<Longrightarrow> clientStep ok (s, r) (closeApplication e s, r)"

inductive_cases clientStepE: "clientStep ok st st'"

definition clientRuns :: "(cenv \<Rightarrow> bool) \<Rightarrow> client \<Rightarrow> client \<Rightarrow> bool" where
  "clientRuns ok s s' \<longleftrightarrow> (\<exists>r. (clientStep ok)\<^sup>*\<^sup>* (s, idle) (s', r))"

context client_invariant
begin

lemma keep_step: "clientStep ok st st' \<Longrightarrow> I (fst st) \<Longrightarrow> I (fst st')"
  by (induction rule: clientStep.induct)
    (simp_all add: keep_reads keep_connect keep_disconnect keep_dialog keep_slots keep_setLast
      keep_tray keep_close keep_button keep_suspend keep_window)

lemma keep_runs: "clientRuns ok s s' \<Longrightarrow> I s \<Longrightarrow> I s'"
proof -
  have "(clientStep ok)\<^sup>*\<^sup>* st st' \<Longrightarrow> I (fst st) \<Longrightarrow> I (fst st')" for st st'
    by (induction rule: rtranclp_induct) (auto dest: keep_step)
  then show "clientRuns ok s s' \<Longrightarrow> I s \<Longrightarrow> I s'" by (force simp: clientRuns_def)
qed

end

section \<open>Scripts and states\<close>

fun isScript :: "int \<Rightarrow> string \<Rightarrow> effect \<Rightarrow> bool" where
  "isScript k t (StartScript j u c) \<longleftrightarrow> j = k \<and> u = t"
| "isScript k t _ \<longleftrightarrow> False"

fun isTray :: "effect \<Rightarrow> bool" where
  "isTray (SetTrayIcon i) \<longleftrightarrow> True"
| "isTray _ \<longleftrightarrow> False"

definition runsOf :: "int \<Rightarrow> string \<Rightarrow> effect list \<Rightarrow> nat" where
  "runsOf k t xs = length (filter (isScript k t) xs)"

lemma runsOf_simps [simp]:
  "runsOf k t [] = 0" "runsOf k t (xs @ ys) = runsOf k t xs + runsOf k t ys"
  "runsOf k t (x # xs) = (if isScript k t x then Suc (runsOf k t xs) else runsOf k t xs)"
  by (simp_all add: runsOf_def)

lemma objs_getScript [simp]: "objs (snd (getScript e c t s)) = objs s" "rows (snd (getScript e c t s)) = rows s"
  by (simp_all add: getScript_def Let_def split: option.split)

lemma appendLog_effects: "effects (appendLog i m s) = effects s \<or> effects (appendLog i m s) = effects s @ [MessageBox dhKeyNote]"
  by (auto simp: appendLog_def Let_def)

definition quiet :: "effect list \<Rightarrow> bool" where
  "quiet xs \<longleftrightarrow> (\<forall>x \<in> set xs. \<not> isTray x \<and> (\<forall>k t. \<not> isScript k t x))"

lemma quiet_appendLog: "\<exists>xs. effects (appendLog i m s) = effects s @ xs \<and> quiet xs"
  using appendLog_effects [of i m s] by (elim disjE) (auto simp: quiet_def)

lemma quiet_runs: "quiet xs \<Longrightarrow> runsOf k t xs = 0"
  by (simp add: quiet_def runsOf_def)

lemma quiet_append: "quiet xs \<Longrightarrow> quiet ys \<Longrightarrow> quiet (xs @ ys)"
  by (auto simp: quiet_def)

lemma startScript_effects:
  "\<exists>xs script'. effects (startScript e k i t script s) = effects s @ xs @ [StartScript k t script'] \<and> quiet xs"
proof -
  define s1 where "s1 = appendLog i (endLine (''Starting script: '' @ t)) s"
  define script1 where "script1 = (if isPortable e then qreplace script ''$appDir'' (clientDir e) else script)"
  define s2 where "s2 = (if isPortable e then appendLog i (endLine (''Script path: '' @ script1)) s1 else s1)"
  obtain xs1 where 1: "effects s1 = effects s @ xs1" "quiet xs1" using quiet_appendLog s1_def by blast
  obtain xs2 where 2: "effects s2 = effects s1 @ xs2" "quiet xs2"
  proof (cases "isPortable e")
    case True
    obtain xs where "effects (appendLog i (endLine (''Script path: '' @ script1)) s1) = effects s1 @ xs" "quiet xs"
      using quiet_appendLog by blast
    then show ?thesis using True by (intro that) (simp_all only: s2_def if_True)
  next
    case False
    then show ?thesis by (intro that [of "[]"]) (simp_all add: s2_def quiet_def)
  qed
  obtain xs3 where 3: "effects (appendLog i (endLine (''Script call: '' @ script1)) s2) = effects s2 @ xs3" "quiet xs3"
    using quiet_appendLog by blast
  have "startScript e k i t script s =
      cause (StartScript k t script1) (appendLog i (endLine (''Script call: '' @ script1)) s2)"
    by (simp add: startScript_def s1_def s2_def script1_def Let_def)
  then have "effects (startScript e k i t script s) = effects s @ (xs1 @ xs2 @ xs3) @ [StartScript k t script1]"
    using 1 2 3 by simp
  moreover have "quiet (xs1 @ xs2 @ xs3)" using 1 2 3 by (simp add: quiet_append)
  ultimately show ?thesis by blast
qed

lemma startScript_objs [simp]: "objs (startScript e k i t script s) = objs s" "rows (startScript e k i t script s) = rows s"
  by (simp_all add: startScript_def Let_def)

lemma runScript_objs [simp]:
  "objs (runScript e k t s) = objs s" "rows (runScript e k t s) = rows s"
  "getObj j (runScript e k t s) = getObj j s" "states (runScript e k t s) = states s"
proof -
  show o: "objs (runScript e k t s) = objs s"
    by (simp add: runScript_def split: option.split prod.split) (metis objs_getScript(1) snd_conv)
  show "rows (runScript e k t s) = rows s"
    by (simp add: runScript_def split: option.split prod.split) (metis objs_getScript(2) snd_conv)
  show "getObj j (runScript e k t s) = getObj j s" "states (runScript e k t s) = states s"
    using o by (simp_all add: getObj_def states_def)
qed

lemma runScript_effects:
  "\<exists>xs ys. effects (runScript e k t s) = effects s @ xs @ ys \<and> quiet xs \<and>
     (ys = [] \<or> (\<exists>c. ys = [StartScript k t c]))"
proof (cases "getObj k s")
  case None
  then have "effects (runScript e k t s) = effects s @ [] @ []" by (simp add: runScript_def)
  moreover have "quiet []" by (simp add: quiet_def)
  ultimately show ?thesis by blast
next
  case (Some c)
  obtain script s1 where g: "getScript e c t s = (script, s1)" by fastforce
  then obtain xs1 where 1: "effects s1 = effects s @ xs1" "quiet xs1"
    by (auto simp: getScript_def Let_def quiet_def split: option.splits if_splits)
  show ?thesis
  proof (cases "script = []")
    case True
    with Some g 1 have "effects (runScript e k t s) = effects s @ xs1 @ []" by (simp add: runScript_def)
    with 1 show ?thesis by blast
  next
    case False
    obtain xs2 sc where 2: "effects (startScript e k (i32 (cdId c)) t script s1) = effects s1 @ xs2 @ [StartScript k t sc]"
        "quiet xs2"
      using startScript_effects by blast
    with Some g 1 False have "effects (runScript e k t s) = effects s @ (xs1 @ xs2) @ [StartScript k t sc]"
      by (simp add: runScript_def)
    with 1 2 quiet_append show ?thesis by blast
  qed
qed

text \<open>A change of state: one statement, at most one script, the object, the icon.\<close>

definition afterState :: "connectionState \<Rightarrow> connectionData \<Rightarrow> connectionData" where
  "afterState n c = c\<lparr>errorAlreadyFired := (n = Error \<or> (n \<noteq> Connecting \<and> errorAlreadyFired c)), cdState := n\<rparr>"

lemma afterState_simps [simp]:
  "cdId (afterState n c) = cdId c" "cdName (afterState n c) = cdName c"
  "cdConfigPath (afterState n c) = cdConfigPath c" "cdState (afterState n c) = n"
  "errorAlreadyFired (afterState n c) = (n = Error \<or> n \<noteq> Connecting \<and> errorAlreadyFired c)"
  "cdIp (afterState n c) = cdIp c" "cdUser (afterState n c) = cdUser c" "cdErrorMsg (afterState n c) = cdErrorMsg c"
  by (simp_all add: afterState_def)

lemma assoc_upd_at: "map_of l k = Some v \<Longrightarrow> assoc_upd k f l = assoc_upd k (\<lambda>_. f v) l"
  by (induction l) auto

lemma assoc_upd_twice [simp]: "assoc_upd k f (assoc_upd k g l) = assoc_upd k (f \<circ> g) l"
  by (induction l) auto

definition stateScript :: "connectionState \<Rightarrow> connectionData \<Rightarrow> string option" where
  "stateScript n c =
     (if n = Disconnected \<and> (cdState c = Connected \<or> cdState c = Disconnecting) then Some ''AD''
      else if n = Error \<and> \<not> errorAlreadyFired c then Some ''EC'' else None)"

definition afterScript :: "cenv \<Rightarrow> int \<Rightarrow> connectionState \<Rightarrow> connectionData \<Rightarrow> client \<Rightarrow> client" where
  "afterScript e k n c s =
     (let s1 = cause (Sql (setStateSql n (cdId c))) s in
      case stateScript n c of None \<Rightarrow> s1 | Some t \<Rightarrow> runScript e k t s1)"

lemma afterScript_simps [simp]:
  "objs (afterScript e k n c s) = objs s" "rows (afterScript e k n c s) = rows s"
  by (simp_all add: afterScript_def Let_def split: option.split)

lemma onObj_cong:
  assumes "getObj k s = Some c"
  shows "f c = g c \<Longrightarrow> onObj k f s = onObj k g s"
  using assms by (simp add: onObj_def getObj_def) (metis assoc_upd_at)

lemma setState_eq:
  assumes "getObj k s = Some c"
  shows "setState e k n s =
    (let s3 = onObj k (\<lambda>_. afterState n c) (afterScript e k n c s) in if mainWindow e then setIcon s3 else s3)"
proof -
  have g: "getObj k (afterScript e k n c s) = Some c" using assms by (simp add: getObj_def)
  have twice: "onObj k f (onObj k h t) = onObj k (f \<circ> h) t" for f h and t :: client
    by (simp add: onObj_def)
  let ?s1 = "cause (Sql (setStateSql n (cdId c))) s"
  let ?st = "cdState_update (\<lambda>_. n)"
  have cong: "onObj k f t = onObj k (\<lambda>_. afterState n c) t"
    if "objs t = objs s" "f c = afterState n c" for f t
    using onObj_cong [of k t c f "\<lambda>_. afterState n c"] that assms by (simp add: getObj_def)
  consider (ad) "n = Disconnected \<and> (cdState c = Connected \<or> cdState c = Disconnecting)"
    | (ec) "n = Error \<and> \<not> errorAlreadyFired c" | (co) "n = Connecting"
    | (no) "n \<noteq> Connecting" "n = Error \<longrightarrow> errorAlreadyFired c"
        "\<not> (n = Disconnected \<and> (cdState c = Connected \<or> cdState c = Disconnecting))"
    by blast
  then show ?thesis
  proof cases
    case ad
    with assms show ?thesis using cong [of "runScript e k ''AD'' ?s1" ?st]
      by (simp add: setState_def afterScript_def stateScript_def Let_def afterState_def)
  next
    case ec
    with assms show ?thesis
      using cong [of "runScript e k ''EC'' ?s1" "?st \<circ> errorAlreadyFired_update (\<lambda>_. True)"]
      by (simp add: setState_def afterScript_def stateScript_def Let_def afterState_def twice)
  next
    case co
    with assms show ?thesis using cong [of ?s1 "?st \<circ> errorAlreadyFired_update (\<lambda>_. False)"]
      by (simp add: setState_def afterScript_def stateScript_def Let_def afterState_def twice)
  next
    case no
    have "?st c = afterState n c" using no(1,2) by (cases n) (simp_all add: afterState_def)
    with no assms show ?thesis using cong [of ?s1 ?st]
      by (auto simp add: setState_def afterScript_def stateScript_def Let_def)
  qed
qed

lemma setState_None: "getObj k s = None \<Longrightarrow> setState e k n s = s"
  by (simp add: setState_def)

lemma setState_objs:
  "getObj k s = Some c \<Longrightarrow> objs (setState e k n s) = assoc_upd k (\<lambda>_. afterState n c) (objs s)"
  by (simp add: setState_eq Let_def setIcon_def onObj_def)

lemma setState_rows [simp]: "rows (setState e k n s) = rows s"
  by (cases "getObj k s") (simp_all add: setState_None setState_eq Let_def setIcon_def)

lemma getObj_setState:
  "getObj j (setState e k n s) = (if j = k then map_option (afterState n) (getObj k s) else getObj j s)"
  by (cases "getObj k s") (auto simp: setState_None setState_objs getObj_def map_of_assoc_upd)

lemma setState_effects:
  assumes "getObj k s = Some c"
  obtains xs ys where
    "effects (setState e k n s) = effects s @ Sql (setStateSql n (cdId c)) # xs @ ys @
       (if mainWindow e then [SetTrayIcon (trayIcon (states (setState e k n s)))] else [])"
    and "quiet xs"
    and "ys = [] \<or> (\<exists>t sc. ys = [StartScript k t sc] \<and> stateScript n c = Some t)"
proof -
  let ?s1 = "cause (Sql (setStateSql n (cdId c))) s"
  obtain xs ys where a: "effects (afterScript e k n c s) = effects ?s1 @ xs @ ys" "quiet xs"
    "ys = [] \<or> (\<exists>t sc. ys = [StartScript k t sc] \<and> stateScript n c = Some t)"
  proof (cases "stateScript n c")
    case None
    then have "effects (afterScript e k n c s) = effects ?s1 @ [] @ []" by (simp add: afterScript_def)
    then show ?thesis by (rule that) (simp_all add: quiet_def)
  next
    case (Some t)
    with that runScript_effects [of e k t ?s1] show ?thesis by (auto simp: afterScript_def)
  qed
  show ?thesis
    by (rule that [OF _ a(2,3)]) (use a(1) assms in \<open>simp add: setState_eq Let_def setIcon_def states_def onObj_def\<close>)
qed

section \<open>Interpretations\<close>

subsection \<open>The connections stay the same\<close>

definition shape :: "client \<Rightarrow> (int \<times> int \<times> string \<times> string) list \<times> int list" where
  "shape s = (map (\<lambda>(k, c). (k, cdId c, cdName c, cdConfigPath c)) (objs s), rows s)"

lemma shape_upd:
  "(\<And>c. cdId (f c) = cdId c \<and> cdName (f c) = cdName c \<and> cdConfigPath (f c) = cdConfigPath c) \<Longrightarrow>
     map (\<lambda>(k, c). (k, cdId c, cdName c, cdConfigPath c)) (assoc_upd j f l) =
     map (\<lambda>(k, c). (k, cdId c, cdName c, cdConfigPath c)) l"
  by (induction l) auto

interpretation shape: client_invariant "\<lambda>_. True" "\<lambda>s. shape s = sh"
proof
  fix e :: cenv and s s' x f k n
  show "shape s = sh \<Longrightarrow> shape (cause x s) = sh" by (simp add: shape_def)
  show "shape s = sh \<Longrightarrow> detail f \<Longrightarrow> shape (onObj k f s) = sh"
    by (simp add: shape_def detail_def shape_upd onObj_def)
  show "shape s = sh \<Longrightarrow> sameCore s s' \<Longrightarrow> shape s' = sh" by (simp add: shape_def sameCore_def)
  show "shape s = sh \<Longrightarrow> shape (setState e k n s) = sh"
  proof (cases "getObj k s")
    case (Some c)
    assume h: "shape s = sh"
    have "objs (setState e k n s) = assoc_upd k (afterState n) (objs s)"
      using setState_objs [OF Some] Some assoc_upd_at [of "objs s" k c "afterState n"] by (simp add: getObj_def)
    with h show ?thesis by (simp add: shape_def shape_upd)
  qed (simp add: setState_None)
qed

subsection \<open>The tray icon\<close>

fun lastTray :: "effect list \<Rightarrow> icon option" where
  "lastTray [] = None"
| "lastTray (x # xs) =
     (case lastTray xs of Some i \<Rightarrow> Some i | None \<Rightarrow> (case x of SetTrayIcon i \<Rightarrow> Some i | _ \<Rightarrow> None))"

lemma lastTray_append: "lastTray (xs @ ys) = (case lastTray ys of Some i \<Rightarrow> Some i | None \<Rightarrow> lastTray xs)"
  by (induction xs) (auto split: option.splits)

definition trayShown :: "client \<Rightarrow> bool" where
  "trayShown s \<longleftrightarrow> lastTray (effects s) = Some (trayIcon (states s))"

interpretation tray: client_invariant mainWindow trayShown
proof
  fix e :: cenv and s s' x f k n
  show "trayShown s \<Longrightarrow> plain x \<Longrightarrow> trayShown (cause x s)"
    by (cases x) (simp_all add: trayShown_def lastTray_append)
  show "trayShown s \<Longrightarrow> detail f \<Longrightarrow> trayShown (onObj k f s)"
    by (simp add: trayShown_def detail_def states_onObj)
  show "trayShown s \<Longrightarrow> sameCore s s' \<Longrightarrow> trayShown s'" by (simp add: trayShown_def sameCore_def states_def)
  show "mainWindow e \<Longrightarrow> trayShown s \<Longrightarrow> trayShown (setState e k n s)"
  proof (cases "getObj k s")
    case (Some c)
    assume "mainWindow e"
    obtain xs ys where e: "effects (setState e k n s) = effects s @ Sql (setStateSql n (cdId c)) # xs @ ys @
        (if mainWindow e then [SetTrayIcon (trayIcon (states (setState e k n s)))] else [])"
      using setState_effects [OF Some] .
    show ?thesis unfolding trayShown_def e using \<open>mainWindow e\<close>
      by (simp add: lastTray_append split: option.split)
  qed (simp add: setState_None)
qed

subsection \<open>The error script\<close>

definition connectings :: "int \<Rightarrow> effect list \<Rightarrow> nat" where
  "connectings i xs = count_list xs (Sql (setStateSql Connecting i))"

definition errorBound :: "int \<Rightarrow> int \<Rightarrow> nat \<Rightarrow> client \<Rightarrow> bool" where
  "errorBound k i b s \<longleftrightarrow>
     (case getObj k s of None \<Rightarrow> runsOf k ''EC'' (effects s) \<le> b
      | Some c \<Rightarrow> cdId c = i \<and>
          runsOf k ''EC'' (effects s) \<le> b + connectings i (effects s) + (if errorAlreadyFired c then 1 else 0))"

lemma connectings_append [simp]: "connectings i (xs @ ys) = connectings i xs + connectings i ys"
  by (simp add: connectings_def)

lemma connectings_Cons: "connectings i (x # xs) = (if x = Sql (setStateSql Connecting i) then Suc (connectings i xs) else connectings i xs)"
  by (simp add: connectings_def)

interpretation ec: client_invariant "\<lambda>_. True" "errorBound k i b"
proof
  fix e :: cenv and s s' x f j n
  show "errorBound k i b s \<Longrightarrow> plain x \<Longrightarrow> errorBound k i b (cause x s)"
    by (cases x) (auto simp: errorBound_def connectings_Cons split: option.splits)
  show "errorBound k i b s \<Longrightarrow> detail f \<Longrightarrow> errorBound k i b (onObj j f s)"
    by (cases "getObj k s"; cases "k = j") (simp_all add: errorBound_def detail_def getObj_onObj)
  show "errorBound k i b s \<Longrightarrow> sameCore s s' \<Longrightarrow> errorBound k i b s'"
    by (cases "getObj k s") (simp_all add: errorBound_def sameCore_def getObj_def)
  show "errorBound k i b s \<Longrightarrow> errorBound k i b (setState e j n s)"
  proof (cases "getObj j s")
    case (Some c)
    assume h: "errorBound k i b s"
    obtain xs ys where e: "effects (setState e j n s) = effects s @ Sql (setStateSql n (cdId c)) # xs @ ys @
        (if mainWindow e then [SetTrayIcon (trayIcon (states (setState e j n s)))] else [])"
      and q: "quiet xs" and y: "ys = [] \<or> (\<exists>t sc. ys = [StartScript j t sc] \<and> stateScript n c = Some t)"
      using setState_effects [OF Some] .
    have r: "runsOf k ''EC'' (effects (setState e j n s)) =
        runsOf k ''EC'' (effects s) + runsOf k ''EC'' ys"
      using q by (simp add: e quiet_runs)
    have ec: "runsOf k ''EC'' ys \<le> (if j = k \<and> n = Error \<and> \<not> errorAlreadyFired c then 1 else 0)"
      using y by (auto simp: stateScript_def split: if_splits)
    have m: "connectings i (effects s) + (if n = Connecting \<and> cdId c = i then 1 else 0) \<le>
        connectings i (effects (setState e j n s))"
      by (simp add: e connectings_Cons)
    show ?thesis
    proof (cases "j = k")
      case True
      with Some h have i: "cdId c = i"
        and b: "runsOf k ''EC'' (effects s) \<le> b + connectings i (effects s) + (if errorAlreadyFired c then 1 else 0)"
        by (simp_all add: errorBound_def)
      have "runsOf k ''EC'' (effects (setState e j n s)) \<le> b + connectings i (effects (setState e j n s)) +
          (if errorAlreadyFired (afterState n c) then 1 else 0)"
        using r ec m b i True by (cases n; cases "errorAlreadyFired c") simp_all
      with True Some i show ?thesis by (simp add: errorBound_def getObj_setState)
    next
      case False
      then have "runsOf k ''EC'' (effects (setState e j n s)) = runsOf k ''EC'' (effects s)"
        "connectings i (effects s) \<le> connectings i (effects (setState e j n s))"
        "getObj k (setState e j n s) = getObj k s"
        using r ec m by (simp_all add: getObj_setState split: if_splits)
      with h show ?thesis
        by (cases "getObj k s"; cases "errorAlreadyFired (the (getObj k s))"; simp add: errorBound_def)
    qed
  qed (simp add: setState_None)
qed

end
