(* ===== verification/ClientProps.thy ===== *)
theory ClientProps
  imports ClientFacts
begin

text \<open>
  What the client promises: the tray icon shows the worst state, the error script runs once per
  connect, log lines arrive complete, a failed connection stays failed, saved credentials answer
  prompts and can be removed.
\<close>

section \<open>The tray icon\<close>

fun severity :: "icon \<Rightarrow> nat" where
  "severity White = 0" | "severity Yellow = 1" | "severity Green = 2" | "severity Red = 3"

instantiation icon :: linorder
begin

definition less_eq_icon :: "icon \<Rightarrow> icon \<Rightarrow> bool" where
  "less_eq_icon a b \<longleftrightarrow> severity a \<le> severity b"

definition less_icon :: "icon \<Rightarrow> icon \<Rightarrow> bool" where
  "less_icon a b \<longleftrightarrow> severity a < severity b"

instance
proof
  fix a b c :: icon
  show "a < b \<longleftrightarrow> a \<le> b \<and> \<not> b \<le> a" by (auto simp: less_eq_icon_def less_icon_def)
  show "a \<le> a" by (simp add: less_eq_icon_def)
  show "a \<le> b \<Longrightarrow> b \<le> c \<Longrightarrow> a \<le> c" by (simp add: less_eq_icon_def)
  show "a \<le> b \<Longrightarrow> b \<le> a \<Longrightarrow> a = b" by (cases a; cases b; simp add: less_eq_icon_def)
  show "a \<le> b \<or> b \<le> a" by (auto simp: less_eq_icon_def)
qed

end

definition worstIcon :: "connectionState list \<Rightarrow> icon" where
  "worstIcon ss = fold max (map iconOf ss) White"

lemma max_icon:
  "max a Red = Red" "max Red a = Red" "max a White = a" "max White (a :: icon) = a"
  by (cases a; simp add: max_def less_eq_icon_def)+

lemma fold_max: "fold max xs (a :: icon) = max a (fold max xs White)"
proof (induction xs arbitrary: a)
  case (Cons x xs)
  show ?case using Cons [of "max x a"] Cons [of x] by (simp add: max_icon ac_simps)
qed (simp add: max_icon)

lemma trayIcon_worst: "trayIcon ss = worstIcon ss"
proof (induction ss)
  case (Cons x xs)
  have "worstIcon (x # xs) = max (iconOf x) (worstIcon xs)"
    unfolding worstIcon_def by (simp add: max_icon fold_max [of _ "iconOf x"])
  with Cons show ?case
    by (cases x) (auto simp: trayIcon_def Let_def max_icon max_def less_eq_icon_def split: if_splits)
qed (simp add: trayIcon_def worstIcon_def)


section \<open>Sample states\<close>

definition oneConnection :: connectionData where
  "oneConnection = newConnectionData\<lparr>cdId := 1, cdName := ''office'', cdConfigPath := ''C:/vpn/office.ovpn'', cdState := Connecting\<rparr>"

definition oneClient :: client where
  "oneClient = \<lparr>objs = [(1, oneConnection)], rows = [1], logData = [], effects = [SetTrayIcon Yellow],
     serviceOnline = True, tapDevices = 0, gotTapCount = False, waiting = [], installingTap = False,
     isReconnect = False, fault = False\<rparr>"

definition clientEnv :: cenv where
  "clientEnv = \<lparr>isPortable = False, clientDir = [], mainWindow = True, cryptography = mirrorApi,
     cryptState = newCrypt, query = (\<lambda>_ _. None), fileText = (\<lambda>_. None), mayOpen = (\<lambda>_. True),
     socketUnconnected = False, serviceReachable = True, logonUser = ''u'', logonSID = ''S'',
     useInteract = True, systemProxy = [], proxyOf = storedProxy, startUser = [], startPassword = [],
     blockShutdown = False, confirms = True, sendToTray = False, windowVisible = True, silent = False,
     now = 0, randomString = ''r'', toolStarts = True, hashHex = rev\<rparr>"

lemma oneRun:
  "ok clientEnv \<Longrightarrow> clientRuns ok oneClient (snd (connect clientEnv 1 oneClient))"
  unfolding clientRuns_def by (blast intro: clientStep.Connects)


section \<open>The error script\<close>

text \<open>The script for a failed connection is started at most once for every time the connection was set to connecting, plus once for a failure before the first connect, however many errors the service reports.\<close>

theorem error_script_runs_once_per_connect:
  assumes "clientRuns (\<lambda>_. True) s s'" and "effects s = []" and "getObj k s = Some c"
  shows "runsOf k ''EC'' (effects s') \<le> connectings (cdId c) (effects s') + 1"
proof -
  have "errorBound k (cdId c) 0 s" using assms(2,3) by (simp add: errorBound_def)
  then have b: "errorBound k (cdId c) 0 s'" by (rule ec.keep_runs [OF assms(1)])
  have "shape s' = shape s" by (rule shape.keep_runs [OF assms(1) refl])
  then have "map fst (objs s') = map fst (objs s)"
    by (auto simp: shape_def dest!: arg_cong [where f = "map fst"] simp: comp_def case_prod_beta)
  then have "getObj k s' \<noteq> None"
    using assms(3) by (metis getObj_def list.set_map map_of_eq_None_iff option.distinct(1))
  with b show ?thesis by (auto simp: errorBound_def split: if_splits)
qed

lemma error_script_runs_once_per_connect_witness:
  "runsOf 1 ''EC'' (effects (snd (connect clientEnv 1 (oneClient\<lparr>effects := []\<rparr>)))) \<le>
     connectings 1 (effects (snd (connect clientEnv 1 (oneClient\<lparr>effects := []\<rparr>)))) + 1"
proof -
  let ?s = "oneClient\<lparr>effects := []\<rparr>"
  have r: "clientRuns (\<lambda>_. True) ?s (snd (connect clientEnv 1 ?s))"
    unfolding clientRuns_def by (blast intro: clientStep.Connects)
  have g: "getObj 1 ?s = Some oneConnection" by (simp add: getObj_def oneClient_def)
  have e: "effects ?s = []" by simp
  have "cdId oneConnection = 1" by (simp add: oneConnection_def)
  with error_script_runs_once_per_connect [OF r e g] show ?thesis by simp
qed

section \<open>Messages of the service\<close>

lemma idAndText_number:
  assumes "inInt32 i"
  shows "idAndText (number i @ CHR '';'' # m) = Some (i, m)"
proof -
  obtain w ws where w: "splitOn CHR '';'' m = w # ws" by (cases "splitOn CHR '';'' m") auto
  with joinWith_splitOn [of "CHR '';''" m] assms show ?thesis by (simp add: idAndText_def)
qed

lemma dispatch_simps:
  "fst (dispatchClient e ''LOG'' p s) = onLog p s"
  "fst (dispatchClient e ''ERROR'' p s) = onError e p s"
  "fst (dispatchClient e ''DISCONNECTED'' p s) = onDisconnected e p s"
  "fst (dispatchClient e ''INPUT'' p s) = onInput e p s"
  "fst (dispatchClient e ''RECEIVEDIP'' p s) = onReceivedIp e p s"
  "fst (dispatchClient e ''REMOVE_USER_DATA'' p s) = userInputIsNeeded e (toInt p) (-1) s"
  by (simp_all add: dispatchClient_def Let_def trimmed_def isSpace_def code_def onCommand_def)

definition dhNote :: "string \<Rightarrow> string" where
  "dhNote m = (if containsCI m ''dh key too small'' then qarg ([CHR 0x0A] @ ''%1'' @ [CHR 0x0A]) dhKeyNote else [])"

lemma logData_cause [simp]: "logData (cause x s) = logData s"
  by simp

lemma logs_appendLog:
  "logs j (appendLog i m s) = (if j = i then logs j s @ [m @ dhNote m] else logs j s)"
  using logbook.entries_add by (simp add: logs_logOf appendLog_def Let_def dhNote_def)

text \<open>A log message of the service is appended to the log of the connection it names, complete (semicolons in it included) with a newline at its end, followed by the note on short DH keys where it is about one; other logs are left alone. Only an empty text breaks the client: it reads the character before the first.\<close>

theorem log_messages_are_kept:
  assumes "inInt32 i"
  shows "let s' = fst (dispatchClient e ''LOG'' (number i @ '';'' @ m) s) in
    if m = [] then fault s' else fault s' = fault s \<and>
      (\<forall>j. logs j s' = logs j s @ (if j = i then [withNewline m @ dhNote (withNewline m)] else []))"
  using assms by (simp add: dispatch_simps Let_def onLog_def idAndText_number logs_appendLog)

lemma log_messages_are_kept_witness:
  "let s' = fst (dispatchClient clientEnv ''LOG'' (number 1 @ '';'' @ ''a;b'') oneClient) in
    if ''a;b'' = [] then fault s' else fault s' = fault oneClient \<and>
      (\<forall>j. logs j s' = logs j oneClient @ (if j = 1 then [withNewline ''a;b'' @ dhNote (withNewline ''a;b'')] else []))"
  by (rule log_messages_are_kept) (simp add: inInt32_def)

lemma getConnection_cause [simp]: "getConnection i (cause x s) = getConnection i s"
  by (simp add: getConnection_def)

lemma getConnection_appendLog [simp]: "getConnection i (appendLog j m s) = getConnection i s"
  by (simp add: getConnection_def)

lemma getConnection_shape:
  assumes "shape s' = shape s"
  shows "getConnection i s' = getConnection i s"
proof -
  have r: "rows s' = rows s" using assms by (simp add: shape_def)
  have m: "map_of (map (\<lambda>(k, c). (k, cdId c, cdName c, cdConfigPath c)) l) k =
      map_option (\<lambda>c. (cdId c, cdName c, cdConfigPath c)) (map_of l k)" for l k
    by (induction l) auto
  have o: "map_option (\<lambda>c. (cdId c, cdName c, cdConfigPath c)) (getObj k s') =
      map_option (\<lambda>c. (cdId c, cdName c, cdConfigPath c)) (getObj k s)" for k
    using assms m [of "objs s'" k] m [of "objs s" k] by (simp add: shape_def getObj_def)
  have "(case getObj k s' of None \<Rightarrow> False | Some c \<Rightarrow> cdId c = u) =
      (case getObj k s of None \<Rightarrow> False | Some c \<Rightarrow> cdId c = u)" for k u
    using o [of k] by (cases "getObj k s'"; cases "getObj k s"; simp)
  with r show ?thesis by (simp add: getConnection_def)
qed

text \<open>A connection that failed stays failed: after an error message the state is \<open>Error\<close> and the message is kept, and the \<open>DISCONNECTED\<close> that follows when the process ends does not turn the error into a plain disconnect.\<close>

theorem error_survives_disconnect:
  assumes "inInt32 i" and "getConnection i s = Some k" and "m \<noteq> []"
  shows "let s1 = fst (dispatchClient e ''ERROR'' (number i @ '';'' @ m) s);
             s2 = fst (dispatchClient e' ''DISCONNECTED'' (number i) s1)
         in map_option (\<lambda>c. (cdState c, cdErrorMsg c)) (getObj k s2) = Some (Error, withNewline m)"
proof -
  define s0 where "s0 = appendLog i (''ERROR: '' @ withNewline m) s"
  define s1 where "s1 = setErrorText k (withNewline m) (setState e k Error s0)"
  obtain c where c: "getObj k s = Some c"
    using assms(2) by (auto simp: getConnection_def find_Some_iff split: option.splits)
  have g0: "getConnection i s0 = Some k" using assms(2) by (simp add: s0_def)
  have 1: "fst (dispatchClient e ''ERROR'' (number i @ '';'' @ m) s) = s1"
    using assms(1,3) g0
    by (simp add: dispatch_simps onError_def idAndText_number setError_def withConnection_def s0_def s1_def)
  have k1: "\<exists>c'. getObj k s1 = Some c' \<and> cdState c' = Error \<and> cdErrorMsg c' = withNewline m"
    using c by (auto simp: s1_def setErrorText_def getObj_setState s0_def)
  have "shape s1 = shape s" unfolding s1_def s0_def
    by (intro shape.keep_setLast shape.keep_state shape.keep_appendLog) simp_all
  then have "getConnection i s1 = Some k" using assms(2) getConnection_shape by metis
  with k1 have "setDisconnected e' i s1 = s1" by (auto simp: setDisconnected_def withConnection_def)
  with assms(1) k1 have "getObj k (fst (dispatchClient e' ''DISCONNECTED'' (number i) s1)) = getObj k s1"
    by (simp add: dispatch_simps onDisconnected_def)
  with k1 show ?thesis unfolding Let_def 1 by auto
qed

lemma error_survives_disconnect_witness:
  "let s1 = fst (dispatchClient clientEnv ''ERROR'' (number 1 @ '';'' @ ''no'') oneClient);
       s2 = fst (dispatchClient clientEnv ''DISCONNECTED'' (number 1) s1)
   in map_option (\<lambda>c. (cdState c, cdErrorMsg c)) (getObj 1 s2) = Some (Error, withNewline ''no'')"
  by (rule error_survives_disconnect)
    (simp_all add: inInt32_def getConnection_def getObj_def oneClient_def oneConnection_def u32_def)

section \<open>Saved credentials\<close>

lemma column_no_percent: "CHR ''%'' \<notin> set f \<Longrightarrow> CHR ''%'' \<notin> set (column f)"
  by (simp add: column_def)

lemma fieldOf_no_percent: "fieldOf type = Some f \<Longrightarrow> CHR ''%'' \<notin> set f"
  by (auto simp: fieldOf_def split: if_splits)

lemma select_text:
  assumes "CHR ''%'' \<notin> set f"
  shows "qarg (qarg (''SELECT %1 FROM vpn WHERE '' @ column ''vpn-id'' @ '' = %2'') (column f)) (number i) = selectSql f i"
proof -
  have 1: "qarg (''SELECT %1 FROM vpn WHERE '' @ column ''vpn-id'' @ '' = %2'') (column f) =
      ''SELECT '' @ column f @ '' FROM vpn WHERE '' @ column ''vpn-id'' @ '' = %2''"
    by (simp add: qarg_def column_def)
  have "CHR ''%'' \<notin> set (''SELECT '' @ column f @ '' FROM vpn WHERE '' @ column ''vpn-id'' @ '' = '')"
    using assms by (simp add: column_def)
  from qarg_fresh_prefix [OF this, of "''%2''" "number i"] show ?thesis
    unfolding 1 by (simp add: selectSql_def qarg_def)
qed

lemma saveSql_prefix:
  assumes "CHR ''%'' \<notin> set f"
  shows "\<exists>r. saveSql f v i = ''UPDATE vpn SET '' @ column f @ '' = '' @ r"
proof -
  have 1: "qarg (''UPDATE vpn SET %1 = %2 WHERE '' @ column ''vpn-id'' @ '' = %3'') (column f) =
      (''UPDATE vpn SET '' @ column f @ '' = '') @ ''%2 WHERE '' @ column ''vpn-id'' @ '' = %3''"
    by (simp add: qarg_def column_def)
  have "CHR ''%'' \<notin> set (''UPDATE vpn SET '' @ column f @ '' = '')" using assms by (simp add: column_def)
  from qarg_fresh_prefix [OF this] show ?thesis
    unfolding saveSql_def 1 by (simp only: append_assoc) blast
qed

lemma saveSql_field:
  assumes "fieldOf t = Some f" and "fieldOf t' = Some f'" and "saveSql f v i = saveSql f' v' i"
  shows "f = f'"
proof -
  obtain r r' where "''UPDATE vpn SET '' @ column f @ '' = '' @ r = ''UPDATE vpn SET '' @ column f' @ '' = '' @ r'"
    using saveSql_prefix [OF fieldOf_no_percent [OF assms(1)], of v i]
      saveSql_prefix [OF fieldOf_no_percent [OF assms(2)], of v' i] assms(3) by metis
  then show ?thesis using assms(1,2) by (auto simp: column_def fieldOf_def split: if_splits)
qed

text \<open>
  The documented behaviour of the database: a column reads as the last statement that set
  it for that row left it.
\<close>

definition setsColumn :: "string \<Rightarrow> string \<Rightarrow> bool" where
  "setsColumn f q \<longleftrightarrow> prefix (''UPDATE vpn SET '' @ column f @ '' = '') q"

definition keepsColumn :: "cenv \<Rightarrow> string \<Rightarrow> int \<Rightarrow> string \<Rightarrow> string \<Rightarrow> bool" where
  "keepsColumn e f i text v \<longleftrightarrow>
     (\<forall>h h'. (\<forall>q \<in> set h'. \<not> setsColumn f q) \<longrightarrow>
        query e (h @ saveSql f text i # h') (selectSql f i) = Some v)"

lemma statements_simps [simp]:
  "statements (cause x s) = statements s @ sqlOf x" "statements (onObj k f s) = statements s"
  by (simp_all add: statements_def)

lemma statements_saveUserData:
  assumes "getObj k s = Some c" and "fieldOf type = Some f"
    and "(if secret \<noteq> [] then map_option quoted (sealed e secret) else Some ''null'') = Some v"
  shows "statements (saveUserData e k type secret True s) = statements s @ [saveSql f v (cdId c)]"
    "fault (saveUserData e k type secret True s) = fault s"
  using assms by (simp_all add: saveUserData_def updateUserConfig_def Let_def split: option.split)

lemma getObj_of_shape:
  assumes "shape s' = shape s" and "getObj k s = Some c"
  shows "\<exists>c'. getObj k s' = Some c' \<and> cdId c' = cdId c \<and> cdName c' = cdName c"
proof -
  have m: "map_of (map (\<lambda>(k, c). (k, cdId c, cdName c, cdConfigPath c)) l) k =
      map_option (\<lambda>c. (cdId c, cdName c, cdConfigPath c)) (map_of l k)" for l k
    by (induction l) auto
  have "map_option (\<lambda>c. (cdId c, cdName c, cdConfigPath c)) (getObj k s') =
      map_option (\<lambda>c. (cdId c, cdName c, cdConfigPath c)) (getObj k s)"
    using assms m [of "objs s'" k] m [of "objs s" k] by (simp add: shape_def getObj_def)
  with assms(2) show ?thesis by auto
qed

lemma getConnection_Some: "getConnection i s = Some k \<Longrightarrow> \<exists>c. getObj k s = Some c \<and> cdId c = u32 i"
  by (auto simp: getConnection_def find_Some_iff split: option.splits)


definition savingEnv :: cenv where
  "savingEnv = clientEnv\<lparr>query := (\<lambda>h q.
     if saveSql ''vpn-user'' (quoted (toHex (CHR 0x01 # ''bob''))) 1 \<in> set h
     then Some (toHex (CHR 0x01 # ''bob'')) else None)\<rparr>"

lemma sample_found: "getConnection 1 oneClient = Some 1"
  by (simp add: getConnection_def getObj_def oneClient_def oneConnection_def u32_def)


section \<open>Forgetting credentials\<close>

lemma statements_forget:
  assumes "getObj k s = Some c"
  shows "statements (fold (\<lambda>t s. saveUserData e k t [] True s) ts s) =
    statements s @ map (\<lambda>f. saveSql f ''null'' (cdId c)) (List.map_filter fieldOf ts)"
  using assms
proof (induction ts arbitrary: s c)
  case (Cons t ts)
  let ?s = "saveUserData e k t [] True s"
  have "shape ?s = shape s" by (rule shape.keep_saveUserData) simp
  then obtain c' where c': "getObj k ?s = Some c'" "cdId c' = cdId c"
    using getObj_of_shape Cons.prems by metis
  have "statements ?s = statements s @ (case fieldOf t of None \<Rightarrow> [] | Some f \<Rightarrow> [saveSql f ''null'' (cdId c)])"
  proof (cases "fieldOf t")
    case None
    then show ?thesis by (simp add: saveUserData_def)
  next
    case (Some f)
    with statements_saveUserData(1) [OF Cons.prems Some, of "[]" e "''null''"] show ?thesis by simp
  qed
  with Cons.IH [OF c'(1)] c'(2) show ?case by (simp add: map_filter_simps split: option.split)
qed (simp add: map_filter_simps)

definition credentialFields :: "string list" where
  "credentialFields = [''vpn-user'', ''vpn-password'', ''vpn-pkcs12'', ''vpn-http-user'', ''vpn-http-password'']"

lemma sets_other:
  assumes "f \<in> set credentialFields" and "g \<in> set credentialFields" and "f \<noteq> g"
  shows "\<not> setsColumn f (saveSql g v i)"
proof -
  obtain r where "saveSql g v i = ''UPDATE vpn SET '' @ column g @ '' = '' @ r"
    using saveSql_prefix [of g v i] assms(2) by (auto simp: credentialFields_def)
  then show ?thesis using assms by (auto simp: setsColumn_def credentialFields_def column_def)
qed

text \<open>When the service asks for it (a login was refused), the client removes everything it has saved for the connection: afterwards none of the five credentials is found in the database.\<close>

theorem refused_login_forgets_credentials:
  assumes "inInt32 i" and "getConnection i s = Some k"
    and "\<forall>f \<in> set credentialFields. keepsColumn e f (u32 i) ''null'' []"
  shows "\<not> hasCrediantials e (u32 i) (-1) (fst (dispatchClient e ''REMOVE_USER_DATA'' (number i) s))"
proof -
  let ?s = "fst (dispatchClient e ''REMOVE_USER_DATA'' (number i) s)"
  obtain c where c: "getObj k s = Some c" "cdId c = u32 i" using getConnection_Some [OF assms(2)] by blast
  have "?s = forgetUserData e k s"
    using assms(1,2) by (simp add: dispatch_simps userInputIsNeeded_def withConnection_def)
  moreover have "List.map_filter fieldOf [0, 1, 2, 3, 4, 5, 6] = credentialFields"
    by (simp add: map_filter_simps fieldOf_def credentialFields_def)
  ultimately have st: "statements ?s = statements s @ map (\<lambda>f. saveSql f ''null'' (u32 i)) credentialFields"
    using statements_forget [OF c(1), of e "[0, 1, 2, 3, 4, 5, 6]"] c(2) by (simp only: forgetUserData_def)
  have "ask e ?s (selectSql f (u32 i)) = Some []" if f: "f \<in> set credentialFields" for f
  proof -
    obtain xs ys where xy: "credentialFields = xs @ f # ys" using split_list [OF f] by blast
    have "distinct (xs @ f # ys)" unfolding xy [symmetric] by (simp add: credentialFields_def)
    moreover have "set ys \<subseteq> set credentialFields" unfolding xy by auto
    ultimately have "\<forall>g \<in> set ys. g \<in> set credentialFields \<and> f \<noteq> g" by auto
    then have "\<forall>q \<in> set (map (\<lambda>f. saveSql f ''null'' (u32 i)) ys). \<not> setsColumn f q"
      using sets_other f by auto
    moreover have "keepsColumn e f (u32 i) ''null'' []" using assms(3) f by blast
    ultimately show ?thesis
      unfolding ask_def st xy keepsColumn_def by (simp del: append_assoc add: append_assoc [symmetric])
  qed
  then show ?thesis
    by (simp add: hasCrediantials_def hasField_def fieldOf_def credentialFields_def)
qed

definition forgettingEnv :: cenv where
  "forgettingEnv = clientEnv\<lparr>query := (\<lambda>h q. if h = [] then None else Some [])\<rparr>"

lemma refused_login_forgets_credentials_witness:
  "\<not> hasCrediantials forgettingEnv (u32 1) (-1)
     (fst (dispatchClient forgettingEnv ''REMOVE_USER_DATA'' (number 1) oneClient))"
  by (rule refused_login_forgets_credentials [OF _ sample_found])
    (simp_all add: inInt32_def keepsColumn_def forgettingEnv_def)

section \<open>Error texts in statements\<close>

lemma digitValue_quote [simp]: "digitValue CHR 0x27 = None"
  by (simp add: digitValue_def code_def)

lemma setErrorSql_text:
  assumes "CHR ''%'' \<notin> set m"
  shows "setErrorSql m i = updateSql ''vpn-last-error'' (quoted m) i"
proof -
  let ?tail = "[CHR 0x27] @ '' WHERE '' @ column ''vpn-id'' @ '' = %3''"
  let ?a = "''UPDATE vpn SET '' @ column ''vpn-last-error'' @ '' = '' @ [CHR 0x27]"
  have 1: "qarg (''UPDATE vpn SET %1 = '' @ quoted ''%2'' @ '' WHERE '' @ column ''vpn-id'' @ '' = %3'') (column ''vpn-last-error'') =
      ?a @ ''%2'' @ ?tail"
    by (simp add: qarg_def column_def quoted_def)
  have a: "CHR ''%'' \<notin> set ?a" by (simp add: column_def)
  have t: "qarg (''%2'' @ ?tail) m = m @ ?tail" by (simp add: qarg_def column_def)
  have 2: "qarg (?a @ ''%2'' @ ?tail) m = (?a @ m @ [CHR 0x27] @ '' WHERE '' @ column ''vpn-id'' @ '' = '') @ ''%3''"
    using qarg_fresh_prefix [OF a, of "''%2'' @ ?tail" m] unfolding t by simp
  have "CHR ''%'' \<notin> set (?a @ m @ [CHR 0x27] @ '' WHERE '' @ column ''vpn-id'' @ '' = '')"
    using assms by (simp add: column_def)
  from qarg_fresh_prefix [OF this, of "''%3''" "number i"] show ?thesis
    unfolding setErrorSql_def 1 2 by (simp add: updateSql_def quoted_def qarg_def)
qed

text \<open>The error text goes into the statement unescaped: a text with a quote in it ends the literal, and what follows is executed. The text below sets a second column of the row.\<close>

theorem error_text_reaches_the_statement:
  assumes "CHR ''%'' \<notin> set a" and "CHR ''%'' \<notin> set f" and "CHR ''%'' \<notin> set v"
  shows "setErrorSql (a @ [CHR 0x27] @ '', '' @ column f @ '' = '' @ [CHR 0x27] @ v) i =
    ''UPDATE vpn SET '' @ column ''vpn-last-error'' @ '' = '' @ quoted a @ '', '' @ column f @ '' = '' @ quoted v @
      '' WHERE '' @ column ''vpn-id'' @ '' = '' @ number i"
  using assms by (subst setErrorSql_text) (simp_all add: column_def updateSql_def quoted_def)

lemma error_text_reaches_the_statement_witness:
  "setErrorSql (''x'' @ [CHR 0x27] @ '', '' @ column ''vpn-config'' @ '' = '' @ [CHR 0x27] @ ''y'') 1 =
    ''UPDATE vpn SET '' @ column ''vpn-last-error'' @ '' = '' @ quoted ''x'' @ '', '' @ column ''vpn-config'' @ '' = '' @ quoted ''y'' @
      '' WHERE '' @ column ''vpn-id'' @ '' = '' @ number 1"
  by (rule error_text_reaches_the_statement) simp_all

end
