(* ===== verification/ClientIsolation.thy ===== *)
theory ClientIsolation
  imports ClientProps
begin

text \<open>
  A message of the service about one connection leaves the objects of the others alone:
  what every step of its handling does to the object of another key.
\<close>

section \<open>Operations on one connection\<close>

lemma getObj_updates [simp]:
  "getObj j (s\<lparr>fault := b\<rparr>) = getObj j s" "getObj j (s\<lparr>waiting := w\<rparr>) = getObj j s"
  "getObj j (s\<lparr>serviceOnline := b\<rparr>) = getObj j s" "getObj j (s\<lparr>tapDevices := n, gotTapCount := b\<rparr>) = getObj j s"
  by (simp_all add: getObj_def)

lemma getObj_send [simp]: "getObj j (snd (sendToService e c p s)) = getObj j s"
  by (simp add: sendToService_def makeFastConnection_def)

lemma getObj_request [simp]: "getObj j (requestService e c p s) = getObj j s"
  by (simp add: requestService_def)

lemma getObj_getScript [simp]: "getObj j (snd (getScript e c t s)) = getObj j s"
  by (simp add: getObj_def)

lemma getObj_setState_other [simp]: "j \<noteq> k \<Longrightarrow> getObj j (setState e k n s) = getObj j s"
  by (simp add: getObj_setState)

lemma getObj_setIP [simp]:
  assumes "j \<noteq> k"
  shows "getObj j (setIP e k ip s) = getObj j s"
proof (cases "getObj k s")
  case (Some c)
  obtain t s1 where g: "getScript e c ''TO'' s = (t, s1)" by fastforce
  then have "getObj j s1 = getObj j s" using getObj_getScript [of j e c "''TO''" s] by simp
  with Some g assms show ?thesis by (simp add: setIP_def)
qed (simp add: setIP_def)

lemma getObj_setters [simp]:
  "j \<noteq> k \<Longrightarrow> getObj j (setLastConnected k n b s) = getObj j s"
  "j \<noteq> k \<Longrightarrow> getObj j (setLastUsed k n b s) = getObj j s"
  "j \<noteq> k \<Longrightarrow> getObj j (setErrorText k m s) = getObj j s"
  by (simp_all add: setLastConnected_def setLastUsed_def setErrorText_def split: option.split)

lemma getObj_saveUserData [simp]: "j \<noteq> k \<Longrightarrow> getObj j (saveUserData e k t v b s) = getObj j s"
  by (simp add: saveUserData_def updateUserConfig_def Let_def split: option.split)

lemma getObj_file [simp]: "getObj j (snd (base64OfFileContent e i p s)) = getObj j s"
  by (simp add: base64OfFileContent_def split: option.split)

lemma getObj_connect [simp]:
  assumes "j \<noteq> k"
  shows "getObj j (snd (connect e k s)) = getObj j s"
proof (cases "getObj k s")
  case (Some c)
  let ?s1 = "runScript e k ''BC'' (setState e k Connecting s)"
  obtain x s2 where g: "base64OfFileContent e (i32 (cdId c)) (cdConfigPath c) ?s1 = (x, s2)" by fastforce
  then have "getObj j s2 = getObj j ?s1"
    using getObj_file [of j e "i32 (cdId c)" "cdConfigPath c" ?s1] by simp
  with Some g assms show ?thesis by (simp add: connect_def Let_def)
qed (simp add: connect_def)

lemma getObj_disconnect [simp]: "getObj j (snd (disconnect e k s)) = getObj j s"
  by (simp add: disconnect_def split: option.split)

lemma getObj_forget [simp]: "j \<noteq> k \<Longrightarrow> getObj j (forgetUserData e k s) = getObj j s"
  by (simp add: forgetUserData_def)

lemma getObj_answer [simp]: "getObj j (answerService e c i v w s) = getObj j s"
  by (simp add: answerService_def)

section \<open>Handlers of messages\<close>

abbreviation other :: "int \<Rightarrow> int \<Rightarrow> client \<Rightarrow> bool" where
  "other j i s \<equiv> getConnection i s \<noteq> Some j"

lemma withConnection_other:
  assumes "other j i s" and "\<And>k. j \<noteq> k \<Longrightarrow> getObj j (f k s) = getObj j s"
  shows "getObj j (withConnection i f s) = getObj j s"
  using assms by (auto simp: withConnection_def split: option.split)

lemma input_other: "other j i s \<Longrightarrow> getObj j (userInputIsNeeded e i t s) = getObj j s"
  by (auto simp: userInputIsNeeded_def answerOrAsk_def intro!: withConnection_other split: option.split)

lemma u32_i32 [simp]: "u32 (i32 (u32 i)) = u32 i"
  by (simp add: u32_def i32_def)

lemma other_shape:
  assumes "other j i s" and "shape s' = shape s" and "u32 i' = u32 i"
  shows "other j i' s'"
proof -
  have "getConnection i' s' = getConnection i s'" by (simp only: getConnection_def assms(3))
  then show ?thesis using getConnection_shape [OF assms(2)] assms(1) by simp
qed

definition statusState :: "cenv \<Rightarrow> bool \<Rightarrow> bool \<Rightarrow> int \<Rightarrow> client \<Rightarrow> client" where
  "statusState e c g k s =
     (if g then setState e k Connecting s else if c then setState e k Connected s
      else (let s' = setState e k Disconnected s in if isReconnect s' then snd (connect e k s') else s'))"

lemma statusState_frame:
  "j \<noteq> k \<Longrightarrow> getObj j (statusState e c g k s) = getObj j s"
  "shape (statusState e c g k s) = shape s"
  unfolding statusState_def Let_def
   apply simp
  by (simp add: shape.keep_state shape.keep_connect)

lemma status_other:
  assumes "other j i s"
  shows "getObj j (receivedStatus e i c g l ip s) = getObj j s"
proof (cases "getConnection i s")
  case (Some k)
  then have k: "j \<noteq> k" using assms by auto
  let ?s1 = "statusState e c g k s"
  note f = statusState_frame(1) [OF k, of e c g s] statusState_frame(2) [of e c g k s]
  have r: "receivedStatus e i c g l ip s =
      (if -1 < l then (case getObj k ?s1 of None \<Rightarrow> ?s1 | Some d \<Rightarrow> userInputIsNeeded e (i32 (cdId d)) l ?s1) else ?s1)"
    unfolding receivedStatus_def withConnection_def statusState_def using Some by (simp add: Let_def)
  show ?thesis
  proof (cases "getObj k ?s1")
    case None
    with r f show ?thesis by simp
  next
    case g: (Some d)
    have "getConnection i ?s1 = Some k" using Some f(2) getConnection_shape by metis
    with g have "cdId d = u32 i" using getConnection_Some by fastforce
    then have "other j (i32 (cdId d)) ?s1" using other_shape [OF assms f(2)] by simp
    from input_other [OF this] r g f(1) show ?thesis by simp
  qed
qed (simp add: receivedStatus_def withConnection_def)

lemma slots_other:
  assumes "other j i s"
  shows "getObj j (setDisconnected e i s) = getObj j s" "getObj j (setError e i m s) = getObj j s"
    "getObj j (receivedIP e i ip s) = getObj j s" "getObj j (receivedReconnect e i s) = getObj j s"
  using assms unfolding setDisconnected_def setError_def receivedIP_def receivedReconnect_def
  by (auto intro!: withConnection_other split: option.split)

text \<open>The connection a message is about: three commands carry the number alone.\<close>

definition addressed :: "string \<Rightarrow> string \<Rightarrow> int" where
  "addressed cmd params =
     (if cmd \<in> {''DISCONNECTED'', ''RESTART'', ''REMOVE_USER_DATA''} then toInt params
      else toInt (hd (splitOn CHR '';'' params)))"

lemma idAndText_hd: "idAndText params = Some (i, m) \<Longrightarrow> i = toInt (hd (splitOn CHR '';'' params))"
  by (auto simp: idAndText_def split: list.splits)

lemma twoFields_hd: "twoFields params = Some (a, b) \<Longrightarrow> a = hd (splitOn CHR '';'' params)"
  by (auto simp: twoFields_def split: list.splits)

lemma getObj_appendLog [simp]: "getObj j (appendLog i m s) = getObj j s"
  by (simp add: getObj_def)

lemma fields_other:
  assumes "other j (toInt (hd (splitOn CHR '';'' params))) s"
  shows "getObj j (onError e params s) = getObj j s" "getObj j (onInput e params s) = getObj j s"
    "getObj j (onReceivedIp e params s) = getObj j s" "getObj j (onStatus e params s) = getObj j s"
proof -
  show "getObj j (onError e params s) = getObj j s"
    using assms by (auto simp: onError_def slots_other dest!: idAndText_hd split: option.split)
  show "getObj j (onInput e params s) = getObj j s" "getObj j (onReceivedIp e params s) = getObj j s"
    using assms by (auto simp: onInput_def onReceivedIp_def slots_other input_other dest!: twoFields_hd split: option.split)
  show "getObj j (onStatus e params s) = getObj j s"
    using status_other [OF assms] by (auto simp: onStatus_def split: list.split)
qed

lemma plain_messages [simp]:
  "getObj j (onLog params s) = getObj j s" "getObj j (onGetLog params s) = getObj j s"
  "getObj j (onGetError params s) = getObj j s" "getObj j (receivedRemoveTap e p s) = getObj j s"
  "getObj j (receivedTapCount n s) = getObj j s"
  by (auto simp: onLog_def onGetLog_def onGetError_def receivedRemoveTap_def receivedTapCount_def split: option.split)

lemma onCommand_other:
  assumes "other j (addressed cmd params) s" and "cmd \<noteq> ''TAPINSTALL''"
  shows "getObj j (onCommand e cmd params s) = getObj j s"
proof (cases "cmd \<in> {''DISCONNECTED'', ''RESTART'', ''REMOVE_USER_DATA''}")
  case True
  then have "other j (toInt params) s" using assms(1) by (simp add: addressed_def)
  note f = slots_other [OF this] input_other [OF this]
  from True consider "cmd = ''DISCONNECTED''" | "cmd = ''RESTART''" | "cmd = ''REMOVE_USER_DATA''" by blast
  then show ?thesis by cases (simp_all add: onCommand_def onDisconnected_def f)
next
  case False
  with assms have "other j (toInt (hd (splitOn CHR '';'' params))) s" by (simp add: addressed_def)
  from fields_other [OF this] False assms(2) show ?thesis
    unfolding onCommand_def by simp
qed

text \<open>C10. A message of the service about one connection (log, status, address, prompt, error, disconnect, restart, refused login) leaves the object of every other connection as it is, whatever the message says; only the driver messages, which name no connection, reach further.\<close>

theorem messages_touch_their_own_connection:
  assumes "getConnection (addressed (toUpper (trimmed cmd)) params) s \<noteq> Some j"
    and "toUpper (trimmed cmd) \<noteq> ''TAPINSTALL''"
  shows "getObj j (fst (dispatchClient e cmd params s)) = getObj j s"
  using onCommand_other [OF assms] by (simp add: dispatchClient_def Let_def)

definition secondConnection :: connectionData where
  "secondConnection = oneConnection\<lparr>cdId := 2, cdName := ''home''\<rparr>"

definition twoConnections :: client where
  "twoConnections = oneClient\<lparr>objs := [(1, oneConnection), (2, secondConnection)], rows := [1, 2]\<rparr>"

lemma messages_touch_their_own_connection_witness:
  "getObj 2 (fst (dispatchClient clientEnv ''ERROR'' (number 1 @ '';'' @ ''no'') twoConnections)) = Some secondConnection"
proof -
  have t: "toUpper (trimmed ''ERROR'') = ''ERROR''" by (simp add: trimmed_def isSpace_def code_def)
  have a: "addressed ''ERROR'' (number 1 @ '';'' @ ''no'') = 1"
    using idAndText_number [of 1 "''no''"] by (auto simp: addressed_def inInt32_def dest!: idAndText_hd)
  have "getConnection 1 twoConnections = Some 1"
    by (simp add: getConnection_def getObj_def twoConnections_def oneClient_def oneConnection_def u32_def)
  with messages_touch_their_own_connection [of "''ERROR''" "number 1 @ '';'' @ ''no''" twoConnections 2 clientEnv] t a
  have "getObj 2 (fst (dispatchClient clientEnv ''ERROR'' (number 1 @ '';'' @ ''no'') twoConnections)) = getObj 2 twoConnections"
    by simp
  then show ?thesis by (simp add: getObj_def twoConnections_def oneClient_def)
qed

end
