(* ===== verification/ChecksumTool.thy ===== *)
theory ChecksumTool
  imports Stores ConnectionData
begin

text \<open>
  The checksum of a configuration: what the client does when one is to be stored or removed
  (\<open>client/src/checksum.cpp\<close>) and the program that stores it (\<open>checksum/main.cpp\<close>), which Windows
  runs with administrator rights. How Windows splits the command line is the parameter \<open>argv\<close> of
  the properties; the registry is the list of values the service reads.
\<close>

section \<open>The client's side\<close>

definition toolTemplate :: string where
  "toolTemplate = ''-id %1 -user %2 -sid %3 -path %4 -sum %5%6''"

definition contentHash :: "cenv \<Rightarrow> string \<Rightarrow> string" where
  "contentHash e content =
     (let configContent = decodeUtf8 (cryptography e) (fromBase64 (utf8 content)) in hashHex e (utf8 configContent))"

definition toolParams :: "cenv \<Rightarrow> string \<Rightarrow> int \<Rightarrow> string \<Rightarrow> string" where
  "toolParams e content configId configPath =
     qarg (qarg (qarg (qarg (qarg (qarg toolTemplate (number configId)) (logonUser e)) (logonSID e)) configPath)
       (contentHash e content)) (if isPortable e then '' -portable'' else [])"

definition createNewChecksum :: "cenv \<Rightarrow> string \<Rightarrow> int \<Rightarrow> string \<Rightarrow> client \<Rightarrow> client" where
  "createNewChecksum e content configId configPath s =
     (if isPortable e then s
      else if \<not> toolStarts e then
        appendLog configId (endLine ''Admin check failed, skipping write of checksum'') s
      else cause (RunTool ''checksum.exe'' (toolParams e content configId configPath)) s)"

definition createNewChecksumFromFile :: "cenv \<Rightarrow> int \<Rightarrow> string \<Rightarrow> client \<Rightarrow> client" where
  "createNewChecksumFromFile e configId configPath s =
     (case base64OfFileContent e configId configPath s of
        (content, s1) \<Rightarrow> createNewChecksum e content configId configPath s1)"

definition removeChecksum :: "cenv \<Rightarrow> int \<Rightarrow> client \<Rightarrow> client" where
  "removeChecksum e configId s =
     (if isPortable e then s
      else requestService e ''REMOVE_CHECKSUM''
        (qarg (qarg (qarg (qarg ''%1;%2;%3;%4'' (number configId)) (logonUser e)) (logonSID e))
           (if isPortable e then ''1'' else ''0'')) s)"

section \<open>checksum.exe\<close>

record toolArgs =
  argUser :: string
  argSid :: string
  argPath :: string
  argPortable :: bool
  argSum :: string
  argId :: int

definition noArgs :: toolArgs where
  "noArgs = \<lparr>argUser = [], argSid = [], argPath = [], argPortable = False, argSum = [], argId = -1\<rparr>"

text \<open>An option with a value takes the next argument, whatever it is; a last one without is ignored.\<close>

fun parseArgs :: "string list \<Rightarrow> toolArgs \<Rightarrow> toolArgs" where
  "parseArgs [] a = a"
| "parseArgs [x] a = (if x = ''-portable'' then a\<lparr>argPortable := True\<rparr> else a)"
| "parseArgs (x # y # xs) a =
     (if x = ''-user'' then parseArgs xs (a\<lparr>argUser := y\<rparr>)
      else if x = ''-sid'' then parseArgs xs (a\<lparr>argSid := y\<rparr>)
      else if x = ''-path'' then parseArgs xs (a\<lparr>argPath := y\<rparr>)
      else if x = ''-sum'' then parseArgs xs (a\<lparr>argSum := y\<rparr>)
      else if x = ''-portable'' then parseArgs (y # xs) (a\<lparr>argPortable := True\<rparr>)
      else if x = ''-id'' then parseArgs xs (a\<lparr>argId := toInt y\<rparr>)
      else parseArgs (y # xs) a)"

definition complete :: "toolArgs \<Rightarrow> bool" where
  "complete a \<longleftrightarrow> argUser a \<noteq> [] \<and> argSid a \<noteq> [] \<and> argPath a \<noteq> [] \<and> argSum a \<noteq> [] \<and> argId a \<noteq> -1"

definition regSet :: "string \<Rightarrow> string \<Rightarrow> (string \<times> string) list \<Rightarrow> (string \<times> string) list" where
  "regSet k v l = (k, v) # filter (\<lambda>x. fst x \<noteq> k) l"

text \<open>Exit code and registry; \<open>writable\<close> is the status \<open>NoError\<close> after the write.\<close>

definition checksumMain :: "bool \<Rightarrow> string list \<Rightarrow> (string \<times> string) list \<Rightarrow> int \<times> (string \<times> string) list" where
  "checksumMain mayWriteReg args reg =
     (let a = parseArgs args noArgs in
      if \<not> complete a then (1, reg)
      else if argPortable a then (0, reg)
      else if mayWriteReg then
        (0, regSet (qarg (qarg ''Users/%1/Security/%2/Checksum'' (argSid a)) (number (argId a))) (argSum a) reg)
      else (2, reg))"

section \<open>Lemmas\<close>

lemma regSet_value: "map_of (regSet k v l) k' = (if k' = k then Some v else map_of l k')"
  by (auto simp: regSet_def map_of_filter_ne)

interpretation regStore: keyed_store map_of regSet "\<lambda>k. filter (\<lambda>x. fst x \<noteq> k)" "\<lambda>_. True"
  by standard (simp_all add: regSet_value map_of_filter_ne)

lemma digitValue_percent [simp]: "digitValue CHR ''%'' = None"
  by (simp add: digitValue_def code_def)

lemma toolParams_text:
  assumes "\<not> isPortable e" and "CHR ''%'' \<notin> set (logonUser e)" and "CHR ''%'' \<notin> set (logonSID e)"
    and "CHR ''%'' \<notin> set p" and "CHR ''%'' \<notin> set (contentHash e content)"
  shows "toolParams e content i p = ''-id '' @ number i @ '' -user '' @ logonUser e @ '' -sid '' @ logonSID e @
    '' -path '' @ p @ '' -sum '' @ contentHash e content"
proof -
  let ?h = "contentHash e content"
  have 1: "qarg toolTemplate (number i) = (''-id '' @ number i @ '' -user '') @ ''%2 -sid %3 -path %4 -sum %5%6''"
    by (simp add: toolTemplate_def qarg_def)
  have 2: "qarg ((''-id '' @ number i @ '' -user '') @ ''%2 -sid %3 -path %4 -sum %5%6'') (logonUser e) =
      (''-id '' @ number i @ '' -user '' @ logonUser e @ '' -sid '') @ ''%3 -path %4 -sum %5%6''"
    by (subst qarg_fresh_prefix, simp) (simp add: qarg_def)
  have 3: "qarg ((''-id '' @ number i @ '' -user '' @ logonUser e @ '' -sid '') @ ''%3 -path %4 -sum %5%6'') (logonSID e) =
      (''-id '' @ number i @ '' -user '' @ logonUser e @ '' -sid '' @ logonSID e @ '' -path '') @ ''%4 -sum %5%6''"
    by (subst qarg_fresh_prefix, simp add: assms) (simp add: qarg_def)
  have 4: "qarg ((''-id '' @ number i @ '' -user '' @ logonUser e @ '' -sid '' @ logonSID e @ '' -path '') @ ''%4 -sum %5%6'') p =
      (''-id '' @ number i @ '' -user '' @ logonUser e @ '' -sid '' @ logonSID e @ '' -path '' @ p @ '' -sum '') @ ''%5%6''"
    by (subst qarg_fresh_prefix, simp add: assms) (simp add: qarg_def)
  have 5: "qarg ((''-id '' @ number i @ '' -user '' @ logonUser e @ '' -sid '' @ logonSID e @ '' -path '' @ p @ '' -sum '') @ ''%5%6'') ?h =
      (''-id '' @ number i @ '' -user '' @ logonUser e @ '' -sid '' @ logonSID e @ '' -path '' @ p @ '' -sum '' @ ?h) @ ''%6''"
    by (subst qarg_fresh_prefix, simp add: assms) (simp add: qarg_def)
  show ?thesis unfolding toolParams_def 1 2 3 4 5
    by (subst qarg_fresh_prefix, simp add: assms) (simp add: qarg_def assms)
qed

section \<open>What the tool stores\<close>

text \<open>The documented splitting of a command line without quotes and tabs: at the spaces.\<close>

definition wordsOf :: "string \<Rightarrow> string list" where
  "wordsOf t = filter (\<lambda>w. w \<noteq> []) (splitOn CHR '' '' t)"

definition splitsAtSpaces :: "(string \<Rightarrow> string list) \<Rightarrow> bool" where
  "splitsAtSpaces argv \<longleftrightarrow> (\<forall>t. CHR 0x22 \<notin> set t \<and> CHR 0x09 \<notin> set t \<longrightarrow> argv t = wordsOf t)"

lemma wordsOf_append: "wordsOf (a @ CHR '' '' # b) = wordsOf a @ wordsOf b"
  by (simp add: wordsOf_def splitOn_append_sep)

lemma wordsOf_word: "CHR '' '' \<notin> set a \<Longrightarrow> a \<noteq> [] \<Longrightarrow> wordsOf a = [a]"
  by (simp add: wordsOf_def)

definition toolOptions :: "string list" where
  "toolOptions = [''-user'', ''-sid'', ''-path'', ''-sum'', ''-portable'', ''-id'']"

lemma parseArgs_skip: "\<forall>w \<in> set ws. w \<notin> set toolOptions \<Longrightarrow> parseArgs (ws @ rest) a = parseArgs rest a"
proof (induction ws)
  case (Cons w ws)
  then have "parseArgs (w # (ws @ rest)) a = parseArgs (ws @ rest) a"
    by (cases "ws @ rest") (auto simp: toolOptions_def)
  with Cons show ?case by simp
qed simp

definition plainWord :: "string \<Rightarrow> bool" where
  "plainWord w \<longleftrightarrow> w \<noteq> [] \<and> (\<forall>c \<in> {CHR '' '', CHR ''%'', CHR 0x22, CHR 0x09}. c \<notin> set w)"

definition plainPath :: "string \<Rightarrow> bool" where
  "plainPath p \<longleftrightarrow> (\<forall>c \<in> {CHR ''%'', CHR 0x22, CHR 0x09}. c \<notin> set p)"

lemma tool_words:
  assumes "splitsAtSpaces argv" and "\<not> isPortable e" and "plainWord (logonUser e)" and "plainWord (logonSID e)"
    and "plainPath p" and "plainWord (contentHash e content)"
  shows "argv (toolParams e content i p) =
    [''-id'', number i, ''-user'', logonUser e, ''-sid'', logonSID e, ''-path''] @ wordsOf p @
    [''-sum'', contentHash e content]"
proof -
  have t: "toolParams e content i p = ''-id'' @ CHR '' '' # number i @ CHR '' '' # ''-user'' @ CHR '' '' # logonUser e @
      CHR '' '' # ''-sid'' @ CHR '' '' # logonSID e @ CHR '' '' # ''-path'' @ CHR '' '' # p @ CHR '' '' # ''-sum'' @
      CHR '' '' # contentHash e content"
    using assms by (subst toolParams_text) (auto simp: plainWord_def plainPath_def)
  have n: "CHR 0x22 \<notin> set (number i)" "CHR 0x09 \<notin> set (number i)" "CHR '' '' \<notin> set (number i)"
    by (rule number_fresh; simp add: code_def)+
  have "CHR 0x22 \<notin> set (toolParams e content i p) \<and> CHR 0x09 \<notin> set (toolParams e content i p)"
    unfolding t using assms(3-6) n by (simp add: plainWord_def plainPath_def)
  then have "argv (toolParams e content i p) = wordsOf (toolParams e content i p)"
    using assms(1) by (simp add: splitsAtSpaces_def)
  also have "\<dots> = [''-id''] @ [number i] @ [''-user''] @ [logonUser e] @ [''-sid''] @ [logonSID e] @ [''-path''] @
      wordsOf p @ [''-sum''] @ [contentHash e content]"
    unfolding t wordsOf_append using assms(3,4,6) n by (simp add: wordsOf_word plainWord_def)
  finally show ?thesis by simp
qed

lemma tool_stores:
  assumes "splitsAtSpaces argv" and "\<not> isPortable e" and "plainWord (logonUser e)" and "plainWord (logonSID e)"
    and "plainPath p" and "plainWord (contentHash e content)" and "inInt32 i" and "i \<noteq> -1"
    and "wordsOf p = w # ws" and "\<forall>x \<in> set ws. x \<notin> set toolOptions"
  shows "case checksumMain True (argv (toolParams e content i p)) reg of (status, reg') \<Rightarrow>
    status = 0 \<and> (\<forall>k. map_of reg' k = (if k = qarg (qarg ''Users/%1/Security/%2/Checksum'' (logonSID e)) (number i)
       then Some (contentHash e content) else map_of reg k))"
proof -
  have "w \<in> set (wordsOf p)" using assms(9) by simp
  then have w: "w \<noteq> []" by (simp add: wordsOf_def)
  have "parseArgs (argv (toolParams e content i p)) noArgs =
      \<lparr>argUser = logonUser e, argSid = logonSID e, argPath = w, argPortable = False,
       argSum = contentHash e content, argId = i\<rparr>"
    using assms(7) parseArgs_skip [OF assms(10)]
    by (simp add: tool_words [OF assms(1-6)] assms(9) noArgs_def)
  then show ?thesis using assms(3,4,6,8) w
    by (simp add: checksumMain_def Let_def complete_def plainWord_def regSet_value)
qed

text \<open>For a configuration path whose further words (where it has spaces) are none of the tool's options, the tool the client starts stores the hash of the normalised content under the user and the id, overwriting an older one and nothing else, and ends with 0.\<close>

theorem tool_stores_the_checksum:
  assumes "splitsAtSpaces argv" and "\<not> isPortable e" and "plainWord (logonUser e)" and "plainWord (logonSID e)"
    and "plainPath p" and "plainWord (contentHash e content)" and "inInt32 i" and "i \<noteq> -1"
    and "wordsOf p = w # ws" and "\<forall>x \<in> set ws. x \<notin> set toolOptions"
  shows "case checksumMain True (argv (toolParams e content i p)) reg of (status, reg') \<Rightarrow>
    status = 0 \<and> (\<forall>k. map_of reg' k = (if k = qarg (qarg ''Users/%1/Security/%2/Checksum'' (logonSID e)) (number i)
       then Some (contentHash e content) else map_of reg k))"
  by (rule tool_stores [OF assms])

definition toolEnv :: cenv where
  "toolEnv = \<lparr>isPortable = False, clientDir = [], mainWindow = True, cryptography = mirrorApi,
     cryptState = newCrypt, query = (\<lambda>_ _. None), fileText = (\<lambda>_. None), mayOpen = (\<lambda>_. True),
     socketUnconnected = False, serviceReachable = True, logonUser = ''me'', logonSID = ''S1'',
     useInteract = True, systemProxy = [], proxyOf = storedProxy, startUser = [], startPassword = [],
     blockShutdown = False, confirms = True, sendToTray = False, windowVisible = True, silent = False,
     now = 0, randomString = ''r'', toolStarts = True, hashHex = (\<lambda>_. ''ab'')\<rparr>"

lemma tool_stores_the_checksum_witness:
  "case checksumMain True (wordsOf (toolParams toolEnv [] 7 ''C:/my vpn/a.ovpn'')) [] of (status, reg') \<Rightarrow>
    status = 0 \<and> (\<forall>k. map_of reg' k = (if k = qarg (qarg ''Users/%1/Security/%2/Checksum'' (logonSID toolEnv)) (number 7)
       then Some (contentHash toolEnv []) else map_of [] k))"
  by (rule tool_stores_the_checksum [where w = "''C:/my''" and ws = "[''vpn/a.ovpn'']"])
    (simp_all add: splitsAtSpaces_def toolEnv_def plainWord_def plainPath_def contentHash_def inInt32_def
      wordsOf_def toolOptions_def)

text \<open>The path is not quoted on the command line: a directory whose name has a word \<open>-portable\<close> makes the tool end with 0 and store nothing, so that the service will accept any content for that connection.\<close>

theorem path_word_disables_the_checksum:
  assumes "splitsAtSpaces argv" and "\<not> isPortable e" and "plainWord (logonUser e)" and "plainWord (logonSID e)"
    and "plainPath p" and "plainWord (contentHash e content)" and "inInt32 i" and "i \<noteq> -1"
    and "wordsOf p = w # ''-portable'' # ws" and "\<forall>x \<in> set ws. x \<notin> set toolOptions"
  shows "checksumMain mayWriteReg (argv (toolParams e content i p)) reg = (0, reg)"
proof -
  have "w \<in> set (wordsOf p)" using assms(9) by simp
  then have w: "w \<noteq> []" by (simp add: wordsOf_def)
  obtain y ys where y: "ws @ [''-sum'', contentHash e content] = y # ys" by (cases ws) auto
  have "parseArgs (''-portable'' # ws @ [''-sum'', contentHash e content]) a =
      a\<lparr>argPortable := True, argSum := contentHash e content\<rparr>" for a
    using parseArgs_skip [OF assms(10), of "[''-sum'', contentHash e content]" "a\<lparr>argPortable := True\<rparr>"]
    unfolding y by simp
  then have "parseArgs (argv (toolParams e content i p)) noArgs =
      \<lparr>argUser = logonUser e, argSid = logonSID e, argPath = w, argPortable = True,
       argSum = contentHash e content, argId = i\<rparr>"
    using assms(7) by (simp add: tool_words [OF assms(1-6)] assms(9) noArgs_def)
  then show ?thesis using assms(3,4,6,8) w
    by (simp add: checksumMain_def Let_def complete_def plainWord_def)
qed

lemma path_word_disables_the_checksum_witness:
  "checksumMain True (wordsOf (toolParams toolEnv [] 7 ''C:/my -portable vpn/a.ovpn'')) [] = (0, [])"
  by (rule path_word_disables_the_checksum [where w = "''C:/my''" and ws = "[''vpn/a.ovpn'']"])
    (simp_all add: splitsAtSpaces_def toolEnv_def plainWord_def plainPath_def contentHash_def inInt32_def
      wordsOf_def toolOptions_def)

end
