(* ===== verification/Configs.thy ===== *)
theory Configs
  imports ClientIsolation ChecksumTool "HOL-Library.List_Lexorder" "HOL-Library.Char_ord"
begin

text \<open>
  The list of connections and the table behind it: \<open>client/src/config/Configs.cpp\<close>, with
  \<open>ConnectionData::Delete\<close> and the menu entry that removes a connection (\<open>ContextRemove\<close>). The table
  is seen through its statements, as before: \<open>vpnRows\<close> gives the rows of the \<open>SELECT\<close> of
  \<open>refreshConfigs\<close> after the statements executed so far. \<open>stdSort\<close> is \<open>std::sort\<close> with the
  comparison by lower-case name; \<open>absolutePath\<close> and \<open>relativePath\<close> are those of the program's
  directory. A directory scan gets the tree \<open>entryInfoList\<close> yields, level by level.
\<close>

section \<open>State\<close>

record library =
  app :: client
  disk :: fsys

record vpnRow =
  rowId :: int
  rowName :: string
  rowConfig :: string
  rowAutostart :: string
  rowState :: int
  rowLastUsed :: int
  rowLastConnected :: int
  rowLastError :: string
  rowCredentials :: string
  rowRemoveOnStart :: bool

type_synonym entry = "int \<times> connectionData"

record configEnv =
  ui :: cenv
  vpnRows :: "string list \<Rightarrow> vpnRow list"
  absolutePath :: "string \<Rightarrow> string"
  relativePath :: "string \<Rightarrow> string"
  stdSort :: "entry list \<Rightarrow> entry list"

definition onApp :: "(client \<Rightarrow> client) \<Rightarrow> library \<Rightarrow> library" where
  "onApp f l = l\<lparr>app := f (app l)\<rparr>"

text \<open>The surroundings with the files as they are now.\<close>

definition seeing :: "configEnv \<Rightarrow> library \<Rightarrow> cenv" where
  "seeing ce l = (ui ce)\<lparr>fileText := readFile (disk l)\<rparr>"

section \<open>Loading the list\<close>

definition deleteSql :: "int \<Rightarrow> string" where
  "deleteSql i = qarg (''DELETE FROM vpn WHERE '' @ column ''vpn-id'' @ '' = %1'') (number i)"

definition removeFromDatabase :: "int \<Rightarrow> client \<Rightarrow> client" where
  "removeFromDatabase i = cause (Sql (deleteSql i))"

definition isConfigInList :: "int \<Rightarrow> client \<Rightarrow> bool" where
  "isConfigInList i s \<longleftrightarrow> list_ex (\<lambda>x. fst x = i) (objs s)"

definition configWithId :: "int \<Rightarrow> client \<Rightarrow> connectionData option" where
  "configWithId i s = map_option snd (find (\<lambda>x. i = fst x) (objs s))"

definition stateOfNumber :: "int \<Rightarrow> connectionState" where
  "stateOfNumber n = (if n = 1 then Disconnecting else if n = 2 then Connecting else if n = 3 then Connected
     else if n = 4 then Error else Disconnected)"

text \<open>Name and path of a row; \<open>None\<close>: the decryption throws.\<close>

definition rowTexts :: "configEnv \<Rightarrow> vpnRow \<Rightarrow> (string \<times> string) option" where
  "rowTexts ce r =
     (let dec = decodedText (cryptography (ui ce)) (cryptState (ui ce)) in
      case (dec (rowName r), dec (rowConfig r)) of
        (Some n, Some c) \<Rightarrow>
          Some (n, if isPortable (ui ce) \<and> \<not> contains c '':'' then absolutePath ce c else c)
      | _ \<Rightarrow> None)"

text \<open>
  A connection that was active when the client ended is not active any more once there is a
  window. The state is set (and the icon drawn) before the object is in the list.
\<close>

definition loadedState :: "cenv \<Rightarrow> vpnRow \<Rightarrow> connectionState" where
  "loadedState e r =
     (let st = stateOfNumber (rowState r) in
      if mainWindow e \<and> st \<in> {Connected, Connecting, Disconnecting} then Disconnected else st)"

definition loadedConnection :: "cenv \<Rightarrow> vpnRow \<Rightarrow> string \<Rightarrow> string \<Rightarrow> connectionData" where
  "loadedConnection e r n path =
     newConnectionData\<lparr>cdName := n, cdId := u32 (rowId r), cdAutostart := (rowAutostart r = ''1''),
       cdState := loadedState e r, cdConfigPath := path, cdLastUsed := rowLastUsed r,
       cdLastConnected := rowLastConnected r, cdErrorMsg := rowLastError r,
       cdUser := (rowCredentials r \<noteq> ''0'')\<rparr>"

definition addLoaded :: "cenv \<Rightarrow> vpnRow \<Rightarrow> string \<Rightarrow> string \<Rightarrow> client \<Rightarrow> client" where
  "addLoaded e r n path s =
     (let c = loadedConnection e r n path;
          s1 = (if mainWindow e then setIcon s else s);
          s2 = cause (Sql (setErrorSql (cdErrorMsg c) (cdId c))) s1
      in s2\<lparr>objs := objs s2 @ [(rowId r, c)]\<rparr>)"

text \<open>The loop over the rows: the ids seen, \<open>None\<close> when an exception leaves it.\<close>

fun refreshRows :: "configEnv \<Rightarrow> cenv \<Rightarrow> vpnRow list \<Rightarrow> client \<Rightarrow> client \<times> int list option" where
  "refreshRows ce e [] s = (s, Some [])"
| "refreshRows ce e (r # rs) s =
     (case rowTexts ce r of
        None \<Rightarrow> (s\<lparr>fault := True\<rparr>, None)
      | Some (n, path) \<Rightarrow>
          if fileText e path = None then refreshRows ce e rs (removeFromDatabase (rowId r) s)
          else
            (case refreshRows ce e rs (if isConfigInList (rowId r) s then s else addLoaded e r n path s) of
               (s', ids) \<Rightarrow> (s', map_option ((#) (rowId r)) ids)))"

text \<open>The walk that deletes the objects whose ids are left in \<open>removedIds\<close>, both in list order.\<close>

fun dropRemoved :: "int list \<Rightarrow> entry list \<Rightarrow> entry list" where
  "dropRemoved [] l = l"
| "dropRemoved (r # rs) [] = []"
| "dropRemoved (r # rs) (x # l) = (if r = fst x then dropRemoved rs l else x # dropRemoved (r # rs) l)"

definition keepIds :: "int list \<Rightarrow> entry list \<Rightarrow> entry list" where
  "keepIds ids l = dropRemoved (filter (\<lambda>k. k \<notin> set ids) (map fst l)) l"

definition refreshConfigs :: "configEnv \<Rightarrow> library \<Rightarrow> library" where
  "refreshConfigs ce l =
     onApp (\<lambda>s. case refreshRows ce (seeing ce l) (vpnRows ce (statements s)) s of
        (s', None) \<Rightarrow> s'
      | (s', Some ids) \<Rightarrow> s'\<lparr>objs := stdSort ce (keepIds ids (objs s'))\<rparr>) l"

definition cleanupConfigs :: "configEnv \<Rightarrow> library \<Rightarrow> library" where
  "cleanupConfigs ce =
     onApp (\<lambda>s. let rs = vpnRows ce (statements s);
                    gone = filter rowRemoveOnStart rs;
                    ids = map rowId (filter (\<lambda>r. \<not> rowRemoveOnStart r) rs);
                    s' = fold (\<lambda>r. removeFromDatabase (rowId r)) gone s
                in s'\<lparr>objs := keepIds ids (objs s')\<rparr>)"

definition configExists :: "configEnv \<Rightarrow> string \<Rightarrow> library \<Rightarrow> bool \<times> library" where
  "configExists ce n l =
     (let l' = refreshConfigs ce l in (list_ex (\<lambda>x. cdName (snd x) = n) (objs (app l')), l'))"

section \<open>Adding connections\<close>

record configData =
  configFile :: string
  configName :: string
  isAutoStart :: bool
  vpnUser :: string
  vpnPassword :: string
  vpnPkcs12 :: string
  httpUser :: string
  httpPassword :: string
  removeOnStart :: bool

definition addTemplate :: string where
  "addTemplate = ''INSERT INTO vpn  ('' @ column ''vpn-name'' @ '', '' @ column ''vpn-config'' @ '', '' @
     column ''vpn-autostart'' @ '', '' @ column ''vpn-user'' @ '', '' @ column ''vpn-password'' @ '', '' @
     column ''vpn-pkcs12'' @ '', '' @ column ''vpn-http-user'' @ '', '' @ column ''vpn-http-password'' @ '', '' @
     column ''vpn-remove-on-start'' @ '') VALUES ('' @
     joinWith '', '' (map (\<lambda>i. quoted (CHR ''%'' # i)) [''1'', ''2'', ''3'', ''4'', ''5'', ''6'', ''7'', ''8'', ''9'']) @ '');''"

definition enc :: "configEnv \<Rightarrow> string \<Rightarrow> string option" where
  "enc ce = encodePlaintext (cryptography (ui ce)) (cryptState (ui ce))"

fun encodedAll :: "configEnv \<Rightarrow> string list \<Rightarrow> string list option" where
  "encodedAll ce [] = Some []"
| "encodedAll ce (v # vs) =
     (case (if v = [] then Some [] else enc ce v, encodedAll ce vs) of
        (Some t, Some ts) \<Rightarrow> Some (t # ts)
      | _ \<Rightarrow> None)"

definition bit01 :: "bool \<Rightarrow> string" where
  "bit01 b = (if b then ''1'' else ''0'')"

definition addConfigToDatabase :: "configEnv \<Rightarrow> configData \<Rightarrow> library \<Rightarrow> library" where
  "addConfigToDatabase ce d l =
     (case configExists ce (configName d) l of
        (True, l') \<Rightarrow> l'
      | (False, l') \<Rightarrow>
          (case (encodedAll ce [configName d, configFile d],
                 encodedAll ce [vpnUser d, vpnPassword d, vpnPkcs12 d, httpUser d, httpPassword d]) of
             (Some a, Some b) \<Rightarrow>
               onApp (cause (Sql (foldl qarg addTemplate
                 (a @ [bit01 (isAutoStart d)] @ b @ [bit01 (removeOnStart d)])))) l'
           | _ \<Rightarrow> onApp (\<lambda>s. s\<lparr>fault := True\<rparr>) l'))"

section \<open>Scanning a directory\<close>

datatype dirEntry = FileEntry string | DirEntry string "dirEntry list"

definition suffix :: "string \<Rightarrow> string" where
  "suffix n = (let i = lastIndexOf n CHR ''.'' in if i = -1 then [] else drop (nat (i + 1)) n)"

definition checkSql :: "string \<Rightarrow> string" where
  "checkSql en = qarg (''SELECT '' @ column ''vpn-id'' @ '' FROM vpn WHERE '' @ column ''vpn-name'' @ '' = '' @
     quoted ''%1'') en"

definition insertSql :: "string \<Rightarrow> string \<Rightarrow> string" where
  "insertSql en ep = qarg (qarg (''INSERT INTO vpn  ('' @ column ''vpn-name'' @ '', '' @ column ''vpn-config'' @ '', '' @
     column ''vpn-autostart'' @ '') VALUES ('' @ quoted ''%1'' @ '', '' @ quoted ''%2'' @ '', 0);'') en) ep"

definition slashes :: "string \<Rightarrow> string" where
  "slashes p = map (\<lambda>c. if c = CHR 0x5C then CHR ''/'' else c) p"

definition registerFile :: "configEnv \<Rightarrow> string \<Rightarrow> string \<Rightarrow> library \<Rightarrow> library" where
  "registerFile ce sDir file l =
     (let cfgName = qreplace file ''.ovpn'' [];
          path0 = slashes sDir @ ''/'' @ file;
          path = (if isPortable (ui ce) then relativePath ce path0 else path0)
      in case enc ce cfgName of
           None \<Rightarrow> onApp (\<lambda>s. s\<lparr>fault := True\<rparr>) l
         | Some en \<Rightarrow>
             if ask (ui ce) (app l) (checkSql en) \<noteq> None then l
             else
               (case configExists ce cfgName l of
                  (True, l1) \<Rightarrow> l1
                | (False, l1) \<Rightarrow>
                    (case enc ce path of
                       None \<Rightarrow> onApp (\<lambda>s. s\<lparr>fault := True\<rparr>) l1
                     | Some ep \<Rightarrow>
                         (let l2 = onApp (cause (Sql (insertSql en ep))) l1 in
                          if isPortable (ui ce) then l2
                          else (case ask (ui ce) (app l2) (checkSql en) of
                                  None \<Rightarrow> l2
                                | Some v \<Rightarrow>
                                    onApp (createNewChecksumFromFile (seeing ce l2) (toInt v) path) l2)))))"

fun scanEntry :: "configEnv \<Rightarrow> string \<Rightarrow> dirEntry \<Rightarrow> library \<Rightarrow> library"
  and findConfigsInDir :: "configEnv \<Rightarrow> string \<Rightarrow> dirEntry list \<Rightarrow> library \<Rightarrow> library" where
  "scanEntry ce sDir (DirEntry n es) l =
     (if n \<noteq> ''.'' \<and> n \<noteq> ''..'' then findConfigsInDir ce (sDir @ ''/'' @ n) es l else l)"
| "scanEntry ce sDir (FileEntry n) l = (if suffix n = ''ovpn'' then registerFile ce sDir n l else l)"
| "findConfigsInDir ce sDir [] l = l"
| "findConfigsInDir ce sDir (x # xs) l = findConfigsInDir ce sDir xs (scanEntry ce sDir x l)"

section \<open>Removing a connection\<close>

definition deleteDir :: "connectionData \<Rightarrow> fsys \<Rightarrow> fsys" where
  "deleteDir c = removeRecursively (dirOf c)"

definition askAllStatus :: "cenv \<Rightarrow> client \<Rightarrow> client" where
  "askAllStatus e s = fold (\<lambda>x. requestService e ''STATUS'' (number (cdId (snd x)))) (objs s) s"

definition contextRemove :: "configEnv \<Rightarrow> nat \<Rightarrow> library \<Rightarrow> library" where
  "contextRemove ce row l =
     (if \<not> confirms (ui ce) then l
      else case Option.bind (connectionAtRow row (app l)) (\<lambda>k. map_option (Pair k) (getObj k (app l))) of
        None \<Rightarrow> onApp (\<lambda>s. s\<lparr>fault := True\<rparr>) l
      | Some (k, c) \<Rightarrow>
          (let l1 = onApp (\<lambda>s. snd (disconnect (seeing ce l) k s)) l;
               l2 = l1\<lparr>disk := deleteDir c (disk l1)\<rparr>;
               l3 = refreshConfigs ce (onApp (removeFromDatabase (i32 (cdId c))) l2)
           in onApp (\<lambda>s. askAllStatus (ui ce) (loadConnections (removeChecksum (ui ce) (i32 (cdId c)) s))) l3))"

text \<open>New configurations are looked for and the view is loaded again.\<close>

definition checkForNewConfigs :: "configEnv \<Rightarrow> string \<Rightarrow> dirEntry list \<Rightarrow> string \<Rightarrow> dirEntry list \<Rightarrow> library \<Rightarrow> library" where
  "checkForNewConfigs ce userDir tree portableDir portableTree l =
     (let l1 = findConfigsInDir ce (userDir @ ''/config'') tree l;
          l2 = (if isPortable (ui ce) then findConfigsInDir ce (portableDir @ ''/data/config'') portableTree l1 else l1)
      in onApp loadConnections (refreshConfigs ce l2))"

end
