(* ===== verification/ConfigFacts.thy ===== *)
theory ConfigFacts
  imports Configs "HOL-Library.Multiset"
begin

text \<open>
  What loading and removing connections guarantees: the list holds exactly the rows whose file
  exists, running connections keep their objects, and removing one connection takes along those
  whose file lies in the same directory.
\<close>

section \<open>The walk over the list\<close>

lemma dropRemoved_filter: "dropRemoved (filter P (map fst l)) l = filter (\<lambda>x. \<not> P (fst x)) l"
proof (induction l)
  case (Cons x l)
  show ?case
  proof (cases "P (fst x)")
    case False
    show ?thesis
    proof (cases "filter P (map fst l)")
      case Nil
      then have "\<forall>y \<in> set l. \<not> P (fst y)" by (auto simp: filter_empty_conv)
      then have "filter (\<lambda>y. \<not> P (fst y)) l = l" by (simp add: filter_id_conv)
      with False Nil show ?thesis by simp
    next
      case (Cons r rs)
      have "r \<in> set (filter P (map fst l))" unfolding Cons by simp
      then have "P r" by simp
      with False Cons Cons.IH show ?thesis by auto
    qed
  qed (use Cons in simp)
qed simp

lemma keepIds_filter: "keepIds ids l = filter (\<lambda>x. fst x \<in> set ids) l"
  by (simp add: keepIds_def dropRemoved_filter)

section \<open>Loading\<close>

definition present :: "configEnv \<Rightarrow> cenv \<Rightarrow> vpnRow list \<Rightarrow> vpnRow list" where
  "present ce e rs =
     filter (\<lambda>r. case rowTexts ce r of None \<Rightarrow> False | Some t \<Rightarrow> fileText e (snd t) \<noteq> None) rs"

definition entryOfRow :: "configEnv \<Rightarrow> cenv \<Rightarrow> vpnRow \<Rightarrow> entry" where
  "entryOfRow ce e r = (rowId r, loadedConnection e r (fst (the (rowTexts ce r))) (snd (the (rowTexts ce r))))"

definition newEntries :: "configEnv \<Rightarrow> cenv \<Rightarrow> vpnRow list \<Rightarrow> int set \<Rightarrow> entry list" where
  "newEntries ce e rs ks = map (entryOfRow ce e) (filter (\<lambda>r. rowId r \<notin> ks) (present ce e rs))"

lemma present_simps [simp]:
  "present ce e [] = []"
  "present ce e (r # rs) = (case rowTexts ce r of None \<Rightarrow> present ce e rs
     | Some t \<Rightarrow> if fileText e (snd t) = None then present ce e rs else r # present ce e rs)"
  by (simp_all add: present_def split: option.split)

lemma set_present: "set (present ce e rs) \<subseteq> set rs"
  by (auto simp: present_def)

lemma newEntries_keys: "(j, c) \<in> set (newEntries ce e rs ks) \<Longrightarrow> j \<notin> ks"
  unfolding newEntries_def entryOfRow_def by auto

lemma isConfigInList_keys: "isConfigInList i s \<longleftrightarrow> i \<in> fst ` set (objs s)"
  by (auto simp: isConfigInList_def list_ex_iff)

lemma addLoaded_objs: "objs (addLoaded e r n path s) = objs s @ [(rowId r, loadedConnection e r n path)]"
  by (simp add: addLoaded_def Let_def setIcon_def)

lemma newEntries_insert:
  "i \<notin> rowId ` set rs \<Longrightarrow> newEntries ce e rs (insert i ks) = newEntries ce e rs ks"
  unfolding newEntries_def using set_present [of ce e rs] by (intro arg_cong [where f = "map _"] filter_cong) auto

lemma refreshRows_result:
  assumes "distinct (map rowId rs)" and "list_all (\<lambda>r. rowTexts ce r \<noteq> None) rs"
  shows "\<exists>s'. refreshRows ce e rs s = (s', Some (map rowId (present ce e rs))) \<and>
    objs s' = objs s @ newEntries ce e rs (fst ` set (objs s)) \<and> rows s' = rows s \<and> fault s' = fault s"
  using assms
proof (induction rs arbitrary: s)
  case Nil
  then show ?case by (simp add: newEntries_def)
next
  case (Cons r rs)
  from Cons.prems(2) obtain n path where t: "rowTexts ce r = Some (n, path)" by auto
  have d: "distinct (map rowId rs)" "rowId r \<notin> rowId ` set rs" using Cons.prems(1) by auto
  have a: "list_all (\<lambda>r. rowTexts ce r \<noteq> None) rs" using Cons.prems(2) by simp
  note IH = Cons.IH [OF d(1) a]
  show ?case
  proof (cases "fileText e path = None")
    case True
    have "present ce e (r # rs) = present ce e rs" using t True by simp
    then have "newEntries ce e (r # rs) = newEntries ce e rs" by (simp add: newEntries_def fun_eq_iff)
    with IH [of "removeFromDatabase (rowId r) s"] t True show ?thesis by (simp add: removeFromDatabase_def)
  next
    case False
    define s1 where "s1 = (if isConfigInList (rowId r) s then s else addLoaded e r n path s)"
    obtain s' where s': "refreshRows ce e rs s1 = (s', Some (map rowId (present ce e rs)))"
      "objs s' = objs s1 @ newEntries ce e rs (fst ` set (objs s1))" "rows s' = rows s1" "fault s' = fault s1"
      using IH [of s1] by auto
    have f: "refreshRows ce e (r # rs) s = (s', Some (map rowId (present ce e (r # rs))))"
      using t False s'(1) by (auto simp: s1_def)
    have "rows s1 = rows s" "fault s1 = fault s" by (simp_all add: s1_def addLoaded_def Let_def setIcon_def)
    moreover have "objs s' = objs s @ newEntries ce e (r # rs) (fst ` set (objs s))"
    proof (cases "isConfigInList (rowId r) s")
      case True
      then have "rowId r \<in> fst ` set (objs s)" by (simp add: isConfigInList_keys)
      then have "newEntries ce e (r # rs) (fst ` set (objs s)) = newEntries ce e rs (fst ` set (objs s))"
        using t False by (simp add: newEntries_def)
      with True s'(2) show ?thesis by (simp add: s1_def)
    next
      case nin: False
      then have k: "rowId r \<notin> fst ` set (objs s)" by (simp add: isConfigInList_keys)
      have o: "objs s1 = objs s @ [entryOfRow ce e r]" using nin t by (simp add: s1_def addLoaded_objs entryOfRow_def)
      have "fst ` set (objs s1) = insert (rowId r) (fst ` set (objs s))" by (auto simp: o entryOfRow_def)
      then have "newEntries ce e rs (fst ` set (objs s1)) = newEntries ce e rs (fst ` set (objs s))"
        using newEntries_insert [OF d(2)] by simp
      moreover have "newEntries ce e (r # rs) (fst ` set (objs s)) = entryOfRow ce e r # newEntries ce e rs (fst ` set (objs s))"
        using t False k by (simp add: newEntries_def)
      ultimately show ?thesis using s'(2) o by simp
    qed
    ultimately show ?thesis using f s'(3,4) by auto
  qed
qed

section \<open>The list after a refresh\<close>

definition nameKey :: "entry \<Rightarrow> string" where
  "nameKey x = toLower (cdName (snd x))"

definition sortsByName :: "(entry list \<Rightarrow> entry list) \<Rightarrow> bool" where
  "sortsByName srt \<longleftrightarrow> (\<forall>l. mset (srt l) = mset l \<and> sorted (map nameKey (srt l)))"

definition tableOf :: "configEnv \<Rightarrow> library \<Rightarrow> vpnRow list" where
  "tableOf ce l = vpnRows ce (statements (app l))"

definition goodTable :: "configEnv \<Rightarrow> vpnRow list \<Rightarrow> bool" where
  "goodTable ce rs \<longleftrightarrow> distinct (map rowId rs) \<and> list_all (\<lambda>r. rowTexts ce r \<noteq> None) rs"

lemma refreshConfigs_objs:
  assumes "goodTable ce (tableOf ce l)"
  defines "e \<equiv> seeing ce l" and "rs \<equiv> tableOf ce l"
  shows "objs (app (refreshConfigs ce l)) = stdSort ce (filter (\<lambda>x. fst x \<in> rowId ` set (present ce e rs)) (objs (app l)) @
      newEntries ce e rs (fst ` set (objs (app l))))"
    and "rows (app (refreshConfigs ce l)) = rows (app l)" and "fault (app (refreshConfigs ce l)) = fault (app l)"
    and "disk (refreshConfigs ce l) = disk l"
proof -
  obtain s' where s': "refreshRows ce e rs (app l) = (s', Some (map rowId (present ce e rs)))"
    "objs s' = objs (app l) @ newEntries ce e rs (fst ` set (objs (app l)))" "rows s' = rows (app l)" "fault s' = fault (app l)"
    using refreshRows_result [of rs ce e "app l"] assms(1) by (auto simp: goodTable_def rs_def)
  have n: "filter (\<lambda>x. fst x \<in> rowId ` set (present ce e rs)) (newEntries ce e rs ks) = newEntries ce e rs ks" for ks
    by (auto simp: newEntries_def entryOfRow_def filter_id_conv)
  have r: "app (refreshConfigs ce l) = s'\<lparr>objs := stdSort ce (keepIds (map rowId (present ce e rs)) (objs s'))\<rparr>"
    using s'(1) by (simp add: refreshConfigs_def onApp_def e_def rs_def tableOf_def)
  show "objs (app (refreshConfigs ce l)) = stdSort ce (filter (\<lambda>x. fst x \<in> rowId ` set (present ce e rs)) (objs (app l)) @
      newEntries ce e rs (fst ` set (objs (app l))))"
    by (simp add: r s'(2) keepIds_filter n)
  show "rows (app (refreshConfigs ce l)) = rows (app l)" "fault (app (refreshConfigs ce l)) = fault (app l)"
    by (simp_all add: r s')
  show "disk (refreshConfigs ce l) = disk l" by (simp add: refreshConfigs_def onApp_def)
qed

lemma sorted_perm:
  assumes "sortsByName srt"
  shows "set (srt l) = set l" "distinct (map fst (srt l)) \<longleftrightarrow> distinct (map fst l)" "sorted (map nameKey (srt l))"
proof -
  have m: "mset (srt l) = mset l" and "sorted (map nameKey (srt l))" using assms by (simp_all add: sortsByName_def)
  then show "set (srt l) = set l" "sorted (map nameKey (srt l))" by (auto dest: mset_eq_setD)
  have "mset (map fst (srt l)) = mset (map fst l)" using m by simp
  then show "distinct (map fst (srt l)) \<longleftrightarrow> distinct (map fst l)" by (metis mset_eq_imp_distinct_iff)
qed

lemma refreshed_keys:
  assumes "goodTable ce (tableOf ce l)" and "sortsByName (stdSort ce)" and "distinct (map fst (objs (app l)))"
  defines "e \<equiv> seeing ce l" and "rs \<equiv> tableOf ce l"
  shows "fst ` set (objs (app (refreshConfigs ce l))) = rowId ` set (present ce e rs)"
    and "distinct (map fst (objs (app (refreshConfigs ce l))))"
proof -
  let ?ks = "fst ` set (objs (app l))"
  note o = refreshConfigs_objs(1) [OF assms(1), folded e_def rs_def]
  note p = sorted_perm [OF assms(2)]
  have ne: "fst ` set (newEntries ce e rs ?ks) = rowId ` set (present ce e rs) - ?ks"
    by (force simp: newEntries_def entryOfRow_def)
  show "fst ` set (objs (app (refreshConfigs ce l))) = rowId ` set (present ce e rs)"
    unfolding o p(1) set_append image_Un ne by force
  have "distinct (map rowId (present ce e rs))"
    using assms(1) by (simp add: goodTable_def present_def rs_def distinct_map_filter)
  then have "distinct (map fst (newEntries ce e rs ?ks))"
    by (simp add: newEntries_def entryOfRow_def comp_def distinct_map_filter)
  moreover have "distinct (map fst (filter (\<lambda>x. fst x \<in> rowId ` set (present ce e rs)) (objs (app l))))"
    by (rule distinct_map_filter [OF assms(3)])
  ultimately show "distinct (map fst (objs (app (refreshConfigs ce l))))"
    unfolding o p(2) using ne by auto
qed

text \<open>Refreshing the list: afterwards it holds exactly the connections of the table whose configuration file exists, once each and sorted by lower-case name; the object of a connection that was there before is kept as it is, so that a running connection keeps its state; and a connection loaded anew is never shown as active once there is a window.\<close>

theorem refresh_lists_existing_configs:
  assumes "goodTable ce (tableOf ce l)" and "sortsByName (stdSort ce)" and "distinct (map fst (objs (app l)))"
  shows "let l' = refreshConfigs ce l in
    fst ` set (objs (app l')) = rowId ` set (present ce (seeing ce l) (tableOf ce l)) \<and>
    distinct (map fst (objs (app l'))) \<and> sorted (map nameKey (objs (app l'))) \<and>
    (\<forall>k c. getObj k (app l') = Some c \<longrightarrow>
      (case getObj k (app l) of Some c0 \<Rightarrow> c = c0
       | None \<Rightarrow> mainWindow (ui ce) \<longrightarrow> cdState c \<in> {Disconnected, Error}))"
proof -
  define l' where "l' = refreshConfigs ce l"
  let ?ks = "fst ` set (objs (app l))" and ?e = "seeing ce l" and ?rs = "tableOf ce l"
  note k = refreshed_keys [OF assms]
  note o = refreshConfigs_objs(1) [OF assms(1)]
  note p = sorted_perm [OF assms(2)]
  have "sorted (map nameKey (objs (app l')))" unfolding l'_def o by (rule p(3))
  moreover have "case getObj j (app l) of Some c0 \<Rightarrow> c = c0
       | None \<Rightarrow> mainWindow (ui ce) \<longrightarrow> cdState c \<in> {Disconnected, Error}"
    if g: "getObj j (app l') = Some c" for j c
  proof -
    from g have "(j, c) \<in> set (objs (app l'))" by (auto simp: getObj_def dest: map_of_SomeD)
    then have m: "(j, c) \<in> set (objs (app l)) \<or> (j, c) \<in> set (newEntries ce ?e ?rs ?ks)"
      unfolding l'_def o p(1) by auto
    show ?thesis
    proof (cases "j \<in> ?ks")
      case True
      then have "(j, c) \<notin> set (newEntries ce ?e ?rs ?ks)" using newEntries_keys by blast
      with m have "(j, c) \<in> set (objs (app l))" by simp
      then have "getObj j (app l) = Some c" using assms(3) by (simp add: getObj_def)
      then show ?thesis by simp
    next
      case False
      then have "getObj j (app l) = None" by (simp add: getObj_def map_of_eq_None_iff)
      moreover have "(j, c) \<in> set (newEntries ce ?e ?rs ?ks)" using m False by force
      then have "mainWindow (ui ce) \<Longrightarrow> cdState c \<in> {Disconnected, Error}"
        by (auto simp: newEntries_def entryOfRow_def loadedConnection_def loadedState_def Let_def seeing_def
            stateOfNumber_def split: if_splits)
      ultimately show ?thesis by simp
    qed
  qed
  ultimately show ?thesis using k unfolding Let_def l'_def [symmetric] by simp
qed

section \<open>Removing a connection\<close>

text \<open>The law of the table used: a deleted row is gone, the others stay.\<close>

definition deletesRows :: "configEnv \<Rightarrow> bool" where
  "deletesRows ce \<longleftrightarrow> (\<forall>sts i. vpnRows ce (sts @ [deleteSql i]) = filter (\<lambda>r. rowId r \<noteq> i) (vpnRows ce sts))"

lemma statements_cause: "statements (cause x s) = statements s @ sqlOf x"
  by (simp add: statements_def)

lemma statements_appendLog [simp]: "statements (appendLog i m s) = statements s"
  by (simp add: appendLog_def Let_def statements_def)

lemma statements_getScript: "getScript e c t s = (script, s1) \<Longrightarrow> statements s1 = statements s"
  by (auto simp: getScript_def statements_cause Let_def split: option.splits if_splits)

lemma statements_runScript [simp]: "statements (runScript e k t s) = statements s"
proof (cases "getObj k s")
  case (Some c)
  obtain script s1 where g: "getScript e c t s = (script, s1)" by fastforce
  show ?thesis using statements_getScript [OF g] Some g
    by (simp add: runScript_def startScript_def statements_cause Let_def)
qed (simp add: runScript_def)

lemma sendToService_frame:
  "statements (snd (sendToService e c p s)) = statements s" "objs (snd (sendToService e c p s)) = objs s"
  "rows (snd (sendToService e c p s)) = rows s"
  by (simp_all add: sendToService_def makeFastConnection_def statements_def)

lemma requestService_frame [simp]:
  "statements (requestService e c p s) = statements s" "objs (requestService e c p s) = objs s"
  "rows (requestService e c p s) = rows s"
  by (simp_all add: requestService_def sendToService_frame)

lemma disconnect_frame:
  "statements (snd (disconnect e k s)) = statements s" "objs (snd (disconnect e k s)) = objs s"
  "rows (snd (disconnect e k s)) = rows s"
  by (auto simp: disconnect_def sendToService_frame split: option.split)

lemma statements_loaded:
  "rows (removeChecksum e i s) = rows s" "objs (removeChecksum e i s) = objs s"
  "rows (askAllStatus e s) = rows s" "objs (askAllStatus e s) = objs s"
proof -
  show "rows (removeChecksum e i s) = rows s" "objs (removeChecksum e i s) = objs s"
    by (simp_all add: removeChecksum_def)
  have "rows (fold (\<lambda>x. requestService e ''STATUS'' (number (cdId (snd x)))) xs t) = rows t \<and>
      objs (fold (\<lambda>x. requestService e ''STATUS'' (number (cdId (snd x)))) xs t) = objs t" for xs :: "entry list" and t
    by (induction xs arbitrary: t) simp_all
  then show "rows (askAllStatus e s) = rows s" "objs (askAllStatus e s) = objs s" by (simp_all add: askAllStatus_def)
qed

text \<open>The rows that are left: not the one removed, and their file is not in its directory.\<close>

definition survives :: "configEnv \<Rightarrow> library \<Rightarrow> connectionData \<Rightarrow> vpnRow \<Rightarrow> bool" where
  "survives ce l c r \<longleftrightarrow> rowId r \<noteq> i32 (cdId c) \<and>
     (case rowTexts ce r of None \<Rightarrow> False
      | Some t \<Rightarrow> readFile (disk l) (snd t) \<noteq> None \<and> \<not> under (dirOf c) (snd t))"

lemma present_after_delete:
  "present ce (seeing ce (l\<lparr>disk := deleteDir c d\<rparr>)) (filter (\<lambda>r. rowId r \<noteq> i32 (cdId c)) rs) =
   filter (survives ce (l\<lparr>disk := d\<rparr>) c) rs"
  unfolding present_def filter_filter
  by (intro filter_cong)
    (auto simp: survives_def seeing_def deleteDir_def readFile_removeRecursively split: option.splits)

text \<open>Removing a connection asks the service to close it and to forget its checksum, and leaves a view without dangling rows that shows exactly the other connections whose file exists outside the removed connection's directory: those that share the directory lose their files and disappear as well.\<close>

theorem removing_takes_the_directory:
  assumes "deletesRows ce" and "goodTable ce (tableOf ce l)" and "sortsByName (stdSort ce)"
    and "distinct (map fst (objs (app l)))" and "confirms (ui ce)"
    and "connectionAtRow row (app l) = Some k" and "getObj k (app l) = Some c"
  shows "let s' = app (contextRemove ce row l) in
    set (rows s') = rowId ` set (filter (survives ce l c) (tableOf ce l)) \<and> rows s' = map fst (objs s') \<and>
    distinct (rows s')"
proof -
  define l1 where "l1 = onApp (\<lambda>s. snd (disconnect (seeing ce l) k s)) l"
  define l2 where "l2 = onApp (removeFromDatabase (i32 (cdId c))) (l1\<lparr>disk := deleteDir c (disk l1)\<rparr>)"
  have d: "disk l1 = disk l" "objs (app l1) = objs (app l)" "statements (app l1) = statements (app l)"
    by (simp_all add: l1_def onApp_def disconnect_frame)
  have t: "tableOf ce l2 = filter (\<lambda>r. rowId r \<noteq> i32 (cdId c)) (tableOf ce l)"
    using assms(1) d(3)
    by (simp add: tableOf_def l2_def onApp_def removeFromDatabase_def statements_cause deletesRows_def)
  have g: "goodTable ce (tableOf ce l2)"
    using assms(2) by (auto simp: t goodTable_def distinct_map_filter list_all_iff)
  have o: "distinct (map fst (objs (app l2)))"
    using assms(4) d(2) by (simp add: l2_def onApp_def removeFromDatabase_def)
  note k = refreshed_keys [OF g assms(3) o]
  have "seeing ce l2 = seeing ce (l\<lparr>disk := deleteDir c (disk l)\<rparr>)"
    by (simp add: seeing_def l2_def onApp_def d(1))
  then have p: "present ce (seeing ce l2) (tableOf ce l2) = filter (survives ce l c) (tableOf ce l)"
    using present_after_delete [where d = "disk l" and l = l and rs = "tableOf ce l" and c = c and ce = ce] by (simp add: t)
  let ?s = "app (refreshConfigs ce l2)"
  have "app (contextRemove ce row l) =
      askAllStatus (ui ce) (loadConnections (removeChecksum (ui ce) (i32 (cdId c)) ?s))"
    using assms(5-7) by (simp add: contextRemove_def l1_def l2_def Let_def) (simp add: onApp_def)
  then have "objs (app (contextRemove ce row l)) = objs ?s" "rows (app (contextRemove ce row l)) = map fst (objs ?s)"
    by (simp_all add: statements_loaded loadConnections_def)
  with k p show ?thesis by (simp add: Let_def)
qed

section \<open>Samples\<close>

definition officeRow :: vpnRow where
  "officeRow = \<lparr>rowId = 1, rowName = [], rowConfig = [], rowAutostart = ''0'', rowState = 3, rowLastUsed = 0,
     rowLastConnected = 0, rowLastError = [], rowCredentials = ''0'', rowRemoveOnStart = False\<rparr>"

text \<open>A table that understands \<open>DELETE\<close>, with one row of empty texts.\<close>

definition oneRow :: "string list \<Rightarrow> vpnRow list" where
  "oneRow sts = filter (\<lambda>r. deleteSql (rowId r) \<notin> set sts) [officeRow]"

definition sampleConfigs :: configEnv where
  "sampleConfigs = \<lparr>ui = clientEnv, vpnRows = oneRow, absolutePath = (\<lambda>p. p), relativePath = (\<lambda>p. p),
     stdSort = sort_key nameKey\<rparr>"

definition sampleLibrary :: library where
  "sampleLibrary = \<lparr>app = oneClient, disk = \<lparr>files = [([], [])], dirs = []\<rparr>\<rparr>"

lemma sample_sorts: "sortsByName (stdSort sampleConfigs)"
  by (simp add: sortsByName_def sampleConfigs_def)

lemma sample_texts: "rowTexts sampleConfigs officeRow = Some ([], [])"
  by (simp add: rowTexts_def sampleConfigs_def officeRow_def decodedText_def decodeToPlaintext_def clientEnv_def mirrorApi_def)

lemma sample_table: "goodTable sampleConfigs (tableOf sampleConfigs l)"
  using sample_texts by (auto simp: goodTable_def tableOf_def sampleConfigs_def oneRow_def)

lemma refresh_lists_existing_configs_witness:
  "let l' = refreshConfigs sampleConfigs sampleLibrary in
    fst ` set (objs (app l')) = rowId ` set (present sampleConfigs (seeing sampleConfigs sampleLibrary) (tableOf sampleConfigs sampleLibrary)) \<and>
    distinct (map fst (objs (app l'))) \<and> sorted (map nameKey (objs (app l'))) \<and>
    (\<forall>k c. getObj k (app l') = Some c \<longrightarrow>
      (case getObj k (app sampleLibrary) of Some c0 \<Rightarrow> c = c0
       | None \<Rightarrow> mainWindow (ui sampleConfigs) \<longrightarrow> cdState c \<in> {Disconnected, Error}))"
  by (rule refresh_lists_existing_configs [OF sample_table sample_sorts])
    (simp add: sampleLibrary_def oneClient_def)

lemma natDigits_inj: "natDigits a = natDigits b \<longleftrightarrow> a = b"
  using parseNat_natDigits [of a] parseNat_natDigits [of b] by (metis option.inject)

lemma number_inj: "number i = number j \<longleftrightarrow> i = j"
proof -
  have sign: "natDigits a \<noteq> CHR ''-'' # natDigits b" "CHR ''-'' # natDigits b \<noteq> natDigits a" for a b
    using natDigits_sign [of a] by metis+
  show ?thesis by (auto simp: number_def sign natDigits_inj)
qed

lemma deleteSql_inj: "deleteSql i = deleteSql j \<longleftrightarrow> i = j"
proof -
  have d: "deleteSql n = (''DELETE FROM vpn WHERE '' @ column ''vpn-id'' @ '' = '') @ number n" for n
    using qarg_fresh_prefix [of "''DELETE FROM vpn WHERE '' @ column ''vpn-id'' @ '' = ''" "''%1''" "number n"]
    by (simp add: deleteSql_def qt_simps column_no_percent)
  show ?thesis unfolding d by (simp add: number_inj)
qed

lemma sample_deletes: "deletesRows sampleConfigs"
  by (auto simp: deletesRows_def sampleConfigs_def oneRow_def deleteSql_inj filter_filter)

lemma removing_takes_the_directory_witness:
  "let s' = app (contextRemove sampleConfigs 0 sampleLibrary) in
    set (rows s') = rowId ` set (filter (survives sampleConfigs sampleLibrary oneConnection) (tableOf sampleConfigs sampleLibrary)) \<and>
    rows s' = map fst (objs s') \<and> distinct (rows s')"
  by (rule removing_takes_the_directory [OF sample_deletes sample_table sample_sorts, where k = 1])
    (simp_all add: sampleLibrary_def oneClient_def sampleConfigs_def clientEnv_def connectionAtRow_def getObj_def)

end
