(* ===== verification/TextFacts.thy ===== *)
theory TextFacts
  imports Stores
begin

text \<open>
  Facts on text shared by the components of the client that read and write files: ASCII and UTF-8,
  the lines of a written file, trimmed lines, and the removal of a character.
\<close>

definition ascii :: "string \<Rightarrow> bool" where
  "ascii s \<longleftrightarrow> list_all (\<lambda>c. code c < 128) s"

lemma ascii_simps [simp]:
  "ascii []" "ascii (c # s) \<longleftrightarrow> code c < 128 \<and> ascii s" "ascii (s @ t) \<longleftrightarrow> ascii s \<and> ascii t"
  by (simp_all add: ascii_def)

lemma ascii_subset: "ascii s \<Longrightarrow> set t \<subseteq> set s \<Longrightarrow> ascii t"
  by (auto simp: ascii_def list_all_iff)

lemma utf8_ascii: "ascii s \<Longrightarrow> utf8 s = s"
  by (induction s) (simp_all add: utf8Char_def)

lemma set_dropWhile_subset: "set (dropWhile P s) \<subseteq> set s"
  by (auto dest: set_dropWhileD)

lemma set_trimmed: "set (trimmed s) \<subseteq> set s"
  unfolding trimmed_def using set_dropWhile_subset [of isSpace "rev (dropWhile isSpace s)"]
    set_dropWhile_subset [of isSpace s] by auto

lemma dropWhile_id: "s \<noteq> [] \<Longrightarrow> \<not> P (hd s) \<Longrightarrow> dropWhile P s = s"
  by (cases s) auto

lemma last_trimmed: "trimmed s \<noteq> [] \<Longrightarrow> \<not> isSpace (last (trimmed s))"
  unfolding trimmed_def last_rev by (rule hd_dropWhile) (metis dropWhile_eq_Nil_conv rev.simps(1))

lemma trimmed_id:
  assumes "s \<noteq> []" and "\<not> isSpace (hd s)" and "\<not> isSpace (last s)"
  shows "trimmed s = s"
proof -
  have "dropWhile isSpace (rev s) = rev s"
    using assms by (intro dropWhile_id) (simp_all add: hd_rev)
  with dropWhile_id [OF assms(1), of isSpace] assms(2) show ?thesis by (simp add: trimmed_def)
qed

lemma hd_trimmed:
  assumes "trimmed s \<noteq> []"
  shows "\<not> isSpace (hd (trimmed s))"
proof -
  define t where "t = dropWhile isSpace s"
  have u: "trimmed s = rev (dropWhile isSpace (rev t))" by (simp add: trimmed_def t_def)
  from assms u have "t \<noteq> []" by auto
  then have "\<not> isSpace (hd t)" unfolding t_def by (rule hd_dropWhile)
  moreover obtain w where "t = trimmed s @ w"
    using u takeWhile_dropWhile_id [of isSpace "rev t"] by (metis rev_append rev_rev_ident)
  ultimately show ?thesis using assms by simp
qed

lemma trimmed_trimmed [simp]: "trimmed (trimmed s) = trimmed s"
proof (cases "trimmed s = []")
  case True
  then show ?thesis by (simp only: True) (simp add: trimmed_def)
qed (simp add: trimmed_id hd_trimmed last_trimmed)

lemma stripCR_trimmed: "stripCR (trimmed s) = trimmed s"
  using last_trimmed [of s] by (auto simp: stripCR_def isSpace_def code_def)

lemma qreplace_drop_char: "qreplace s [q] [] = filter (\<lambda>c. c \<noteq> q) s"
  by (induction s) (simp_all add: qreplace.simps)

text \<open>A text written line by line, read back line by line.\<close>

definition unlines :: "string list \<Rightarrow> string" where
  "unlines ls = concat (map (\<lambda>l. l @ [CHR 0x0A]) ls)"

lemma unlines_simps [simp]: "unlines [] = []" "unlines (l # ls) = l @ CHR 0x0A # unlines ls"
  by (simp_all add: unlines_def)

definition lineText :: "string \<Rightarrow> bool" where
  "lineText l \<longleftrightarrow> CHR 0x0A \<notin> set l \<and> stripCR l = l"

lemma splitOn_unlines: "list_all lineText ls \<Longrightarrow> splitOn CHR 0x0A (unlines ls) = ls @ [[]]"
  by (induction ls) (simp_all add: lineText_def)

lemma textLines_unlines: "list_all lineText ls \<Longrightarrow> textLines (unlines ls) = ls"
  using splitOn_unlines [of ls] by (simp add: textLines_def lineText_def map_idI list_all_iff)

lemma textLines_no_newline: "l \<in> set (textLines t) \<Longrightarrow> CHR 0x0A \<notin> set l"
  by (auto simp: textLines_def Let_def stripCR_def split: if_splits
      dest!: in_set_butlastD splitOn_pieces_fresh)

lemma textLines_subset:
  assumes "l \<in> set (textLines t)"
  shows "set l \<subseteq> set t"
proof -
  obtain w where "w \<in> set (splitOn CHR 0x0A t)" "l = stripCR w"
    using assms by (auto simp: textLines_def Let_def split: if_splits dest: in_set_butlastD)
  then show ?thesis using splitOn_sublist [of w "CHR 0x0A" t]
    by (auto simp: stripCR_def split: if_splits dest: in_set_butlastD set_mono_sublist)
qed

lemma trimmed_lineText: "CHR 0x0A \<notin> set l \<Longrightarrow> lineText (trimmed l)"
  using set_trimmed [of l] by (auto simp: lineText_def stripCR_trimmed)

end
