(* ===== verification/ConfigValues.thy ===== *)
theory ConfigValues
  imports TextFacts
begin

text \<open>
  Reading and changing single options of a configuration: \<open>client/src/config/configvalues.cpp\<close>.
  A file is the string of its bytes; \<open>QTextStream\<close> reads it in the local code page, taken to be
  Latin-1, while the changed lines are written in UTF-8. Whether an existing file can be opened is
  a parameter. \<open>QFileInfo\<close> follows Qt's rules for Windows paths.
\<close>

record fileAccess =
  mayRead :: "string \<Rightarrow> bool"
  mayWrite :: "string \<Rightarrow> bool"

definition linesOf :: "fileAccess \<Rightarrow> fsys \<Rightarrow> string \<Rightarrow> string list option" where
  "linesOf a d p = (case readFile d p of None \<Rightarrow> None | Some t \<Rightarrow> if mayRead a p then Some (textLines t) else None)"

section \<open>Paths\<close>

definition native :: "string \<Rightarrow> string" where
  "native p = map (\<lambda>c. if c = CHR 0x5C then CHR ''/'' else c) p"

definition isGivenPathAbsolute :: "string \<Rightarrow> bool" where
  "isGivenPathAbsolute path \<longleftrightarrow> 0 < indexOf path '':''"

definition hasDrive :: "string \<Rightarrow> bool" where
  "hasDrive p \<longleftrightarrow> 2 \<le> length p \<and> p ! 1 = CHR '':''"

definition fileNameOfAbsolutePath :: "string \<Rightarrow> string" where
  "fileNameOfAbsolutePath path =
     (let p = native path; i = lastIndexOf p CHR ''/'' in
      if i = -1 \<and> hasDrive p then drop 2 p else drop (nat (i + 1)) p)"

definition pathOfFile :: "string \<Rightarrow> string" where
  "pathOfFile path =
     (let p = native path; i = lastIndexOf p CHR ''/'' in
      if i = -1 then (if hasDrive p then take 2 p else ''.'')
      else if i = 0 then ''/''
      else if i = 2 \<and> hasDrive p then take 3 p
      else take (nat i) p)"

section \<open>Reading a value\<close>

text \<open>What is left of a line after its key: quotes removed, trimmed, cut at the last space.\<close>

definition valuePart :: "string \<Rightarrow> string \<Rightarrow> string" where
  "valuePart key line =
     trimmed (qreplace (qright line (int (length line) - int (length key))) [CHR 0x22] [])"

definition cutLast :: "string \<Rightarrow> string" where
  "cutLast l = qleft l (lastIndexOf l CHR '' '')"

definition valueFromConfigKey :: "fileAccess \<Rightarrow> fsys \<Rightarrow> string \<Rightarrow> string \<Rightarrow> string" where
  "valueFromConfigKey a d ovpnPath key =
     (case linesOf a d ovpnPath of
        None \<Rightarrow> []
      | Some ls \<Rightarrow>
          (case find (\<lambda>l. startsWithCI l (key @ '' '')) (map trimmed ls) of
             None \<Rightarrow> []
           | Some l \<Rightarrow> cutLast (valuePart key l)))"

definition valueFromConfigKeyList :: "fileAccess \<Rightarrow> fsys \<Rightarrow> string \<Rightarrow> string \<Rightarrow> string list" where
  "valueFromConfigKeyList a d ovpnPath key =
     (case linesOf a d ovpnPath of
        None \<Rightarrow> []
      | Some ls \<Rightarrow>
          map (\<lambda>l. cutLast (valuePart key l)) (filter (\<lambda>l. startsWithCI l key) (map trimmed ls)))"

text \<open>The loop whose body is empty; \<open>None\<close>: it does not end.\<close>

partial_function (option) awaitEndTag :: "string \<Rightarrow> string \<Rightarrow> unit option" where
  "awaitEndTag key line =
     (if startsWithCI line (''</'' @ key @ ''>'') then Some () else awaitEndTag key line)"

definition valueFromConfigKeyInline :: "fileAccess \<Rightarrow> fsys \<Rightarrow> string \<Rightarrow> string \<Rightarrow> string option" where
  "valueFromConfigKeyInline a d ovpnPath key =
     (case linesOf a d ovpnPath of
        None \<Rightarrow> Some []
      | Some [] \<Rightarrow> Some []
      | Some (l # ls) \<Rightarrow>
          (let line = trimmed l in
           if startsWithCI line (''<'' @ key @ ''>'')
           then Option.bind (awaitEndTag key line) (\<lambda>_. Some (line @ (case ls of [] \<Rightarrow> [] | m # _ \<Rightarrow> m)))
           else Some line))"

section \<open>Changing a value\<close>

definition optionLine :: "string \<Rightarrow> string \<Rightarrow> string" where
  "optionLine key newValue = qarg (qarg ''%1 %2'' key) newValue"

definition writeLines :: "fileAccess \<Rightarrow> string \<Rightarrow> string list \<Rightarrow> fsys \<Rightarrow> fsys" where
  "writeLines a p ls d = (if mayWrite a p then writeFile p (unlines (map utf8 ls)) d else d)"

definition changeKeyValueInConfig :: "fileAccess \<Rightarrow> string \<Rightarrow> string \<Rightarrow> string \<Rightarrow> fsys \<Rightarrow> fsys" where
  "changeKeyValueInConfig a ovpnPath key newValue d =
     (case linesOf a d ovpnPath of
        None \<Rightarrow> d
      | Some ls \<Rightarrow>
          writeLines a ovpnPath
            (map (\<lambda>l. if startsWithCI l key then optionLine key newValue else l) (map trimmed ls)) d)"

text \<open>The other form puts several lines for the first one with the key.\<close>

fun replaceFirst :: "string \<Rightarrow> string list \<Rightarrow> string list \<Rightarrow> string list" where
  "replaceFirst key new [] = []"
| "replaceFirst key new (l # ls) = (if startsWithCI l key then new @ ls else l # replaceFirst key new ls)"

definition changeKeyValuesInConfig :: "fileAccess \<Rightarrow> string \<Rightarrow> string \<Rightarrow> string list \<Rightarrow> fsys \<Rightarrow> fsys" where
  "changeKeyValuesInConfig a ovpnPath key newValues d =
     (case linesOf a d ovpnPath of
        None \<Rightarrow> d
      | Some ls \<Rightarrow>
          writeLines a ovpnPath (replaceFirst key (map (optionLine key) newValues) (map trimmed ls)) d)"

section \<open>The inline reader\<close>

lemma awaitEndTag_result:
  assumes "awaitEndTag key line = Some u"
  shows "startsWithCI line (''</'' @ key @ ''>'')"
  by (rule awaitEndTag.raw_induct [OF _ assms]) (auto split: if_splits)

lemma prefix_shifted: "x \<noteq> y \<Longrightarrow> \<not> prefix (k @ [x]) (y # k @ [x])"
  by (induction k) auto

lemma tags_differ:
  assumes "prefix (''<'' @ k @ ''>'') l"
  shows "\<not> prefix (''</'' @ k @ ''>'') l"
proof
  assume "prefix (''</'' @ k @ ''>'') l"
  from prefix_length_prefix [OF assms this] have "prefix (k @ ''>'') (CHR ''/'' # k @ ''>'')" by simp
  then show False using prefix_shifted [of "CHR ''>''" "CHR ''/''" k] by simp
qed

text \<open>The reader of inline blocks looks at the first line only: on a line with the opening tag it loops for ever, and when it returns, the value is that first line, trimmed, whatever option it holds, and never the content of a block.\<close>

theorem inline_reader_returns_first_line:
  assumes "linesOf a d p = Some (l # ls)"
  shows "valueFromConfigKeyInline a d p key =
    (if startsWithCI (trimmed l) (''<'' @ key @ ''>'') then None else Some (trimmed l))"
proof (cases "startsWithCI (trimmed l) (''<'' @ key @ ''>'')")
  case True
  then have "\<not> startsWithCI (trimmed l) (''</'' @ key @ ''>'')"
    using tags_differ [of "toLower key" "toLower (trimmed l)"] by (simp add: startsWithCI_def)
  then have "awaitEndTag key (trimmed l) = None"
    using awaitEndTag_result [of key "trimmed l"] by (cases "awaitEndTag key (trimmed l)") auto
  with True assms show ?thesis by (simp add: valueFromConfigKeyInline_def)
qed (simp add: valueFromConfigKeyInline_def assms)

definition anyAccess :: fileAccess where
  "anyAccess = \<lparr>mayRead = (\<lambda>_. True), mayWrite = (\<lambda>_. True)\<rparr>"

definition oneFile :: "string \<Rightarrow> fsys" where
  "oneFile t = \<lparr>files = [(''a.ovpn'', t)], dirs = []\<rparr>"

lemma inline_reader_returns_first_line_witness:
  "valueFromConfigKeyInline anyAccess (oneFile ''client'') ''a.ovpn'' ''ca'' =
    (if startsWithCI (trimmed ''client'') (''<'' @ ''ca'' @ ''>'') then None else Some (trimmed ''client''))"
  by (rule inline_reader_returns_first_line)
    (simp add: linesOf_def oneFile_def anyAccess_def readFile_def textLines_def Let_def stripCR_def)

section \<open>A changed value is read back\<close>

lemma optionLine_text: "CHR ''%'' \<notin> set key \<Longrightarrow> optionLine key v = key @ CHR '' '' # v"
  by (simp add: optionLine_def qarg_def)

lemma drop_key: "key \<noteq> [] \<Longrightarrow> qright (key @ r) (int (length (key @ r)) - int (length key)) = r"
  by (simp add: qright_def)

definition quote :: char where
  "quote = CHR 0x22"

definition inQuotes :: "string \<Rightarrow> string" where
  "inQuotes v = quote # v @ [quote]"

lemma quote_code [simp]: "code quote = 34" "\<not> isSpace quote" "quote \<noteq> CHR 0x0A"
  by (simp_all add: quote_def code_def isSpace_def)

definition plainKey :: "string \<Rightarrow> bool" where
  "plainKey key \<longleftrightarrow> key \<noteq> [] \<and> ascii key \<and> list_all (\<lambda>c. \<not> isSpace c \<and> c \<noteq> CHR ''%'' \<and> c \<noteq> quote) key"

definition plainValue :: "string \<Rightarrow> bool" where
  "plainValue v \<longleftrightarrow> ascii v \<and> trimmed v = v \<and> quote \<notin> set v \<and> CHR 0x0A \<notin> set v"

lemma space_code [simp]: "isSpace CHR '' ''" "isSpace CHR 0x0A" "code CHR '' '' < 128"
  by (simp_all add: isSpace_def code_def)

lemma optionLine_quoted:
  assumes "plainKey key" and "plainValue v"
  shows "optionLine key (inQuotes v) = key @ CHR '' '' # inQuotes v"
    and "trimmed (key @ CHR '' '' # inQuotes v) = key @ CHR '' '' # inQuotes v"
    and "lineText (key @ CHR '' '' # inQuotes v)" and "ascii (key @ CHR '' '' # inQuotes v)"
    and "valuePart key (key @ CHR '' '' # inQuotes v) = v"
proof -
  have w: "key \<noteq> []" "ascii key" "\<forall>c \<in> set key. \<not> isSpace c \<and> c \<noteq> CHR ''%'' \<and> c \<noteq> quote"
    using assms(1) by (simp_all add: plainKey_def list_all_iff)
  have k: "key \<noteq> []" "CHR ''%'' \<notin> set key" "CHR 0x0A \<notin> set key" "quote \<notin> set key" "\<not> isSpace (hd key)" "ascii key"
    using w(1,2) bspec [OF w(3), of "hd key"] bspec [OF w(3), of "CHR 0x0A"] bspec [OF w(3), of "CHR ''%''"]
      bspec [OF w(3), of quote] by (simp_all, blast+)
  have v: "ascii v" "trimmed v = v" "quote \<notin> set v" "CHR 0x0A \<notin> set v" using assms(2) by (auto simp: plainValue_def)
  show "optionLine key (inQuotes v) = key @ CHR '' '' # inQuotes v" using k(2) by (rule optionLine_text)
  show t: "trimmed (key @ CHR '' '' # inQuotes v) = key @ CHR '' '' # inQuotes v"
    using k(1,5) by (intro trimmed_id) (simp_all add: inQuotes_def)
  show "lineText (key @ CHR '' '' # inQuotes v)"
    using k(3) v(4) by (auto simp: lineText_def inQuotes_def stripCR_def quote_def)
  show "ascii (key @ CHR '' '' # inQuotes v)" using k(6) v(1) by (simp add: inQuotes_def)
  have "qreplace (CHR '' '' # inQuotes v) [quote] [] = CHR '' '' # v"
    using v(3) by (auto simp: qreplace_drop_char inQuotes_def quote_def filter_id_conv)
  moreover have "trimmed (CHR '' '' # v) = v" using v(2) by (simp add: trimmed_def)
  ultimately show "valuePart key (key @ CHR '' '' # inQuotes v) = v"
    using drop_key [OF k(1), of "CHR '' '' # inQuotes v"] by (simp add: valuePart_def quote_def)
qed

lemma startsWithCI_append [simp]: "startsWithCI (key @ r) key"
  by (simp add: startsWithCI_def)

lemma startsWithCI_prefix: "startsWithCI l (key @ r) \<Longrightarrow> startsWithCI l key"
  by (auto simp: startsWithCI_def dest: append_prefixD)

lemma find_replaced:
  assumes "startsWithCI new (key @ '' '')" and "list_ex (\<lambda>l. startsWithCI l key) ls"
  shows "find (\<lambda>l. startsWithCI l (key @ '' '')) (map (\<lambda>l. if startsWithCI l key then new else l) ls) = Some new"
  using assms(2)
proof (induction ls)
  case (Cons l ls)
  then show ?case using assms(1) startsWithCI_prefix [of l key "'' ''"] by auto
qed simp

lemma read_written:
  assumes "list_all lineText ls" and "list_all ascii ls" and "mayRead a p" and "mayWrite a p"
  shows "linesOf a (writeLines a p ls d) p = Some ls"
proof -
  have "map utf8 ls = ls" using assms(2) by (intro map_idI) (auto simp: list_all_iff utf8_ascii)
  with assms show ?thesis
    by (simp add: linesOf_def writeLines_def readFile_write textLines_unlines)
qed

lemma trimmed_lines_ok:
  assumes "readFile d p = Some t" and "ascii t"
  shows "list_all lineText (map trimmed (textLines t))" "list_all ascii (map trimmed (textLines t))"
proof -
  show "list_all lineText (map trimmed (textLines t))"
    using textLines_no_newline [of _ t] by (simp add: list_all_iff trimmed_lineText)
  show "list_all ascii (map trimmed (textLines t))"
    using assms(2) by (auto simp: list_all_iff intro!: ascii_subset [of t] dest: textLines_subset set_trimmed [THEN subsetD])
qed

lemma trimmed_lines_again: "map trimmed (map trimmed ls) = map trimmed ls"
  by simp

text \<open>A value written between quotes is read back, as the importer of configurations needs it, except that the reader cuts off everything from the last space: a file name with a space comes back without its last word.\<close>

theorem changed_value_is_read_back:
  assumes "readFile d p = Some t" and "ascii t" and "mayRead a p" and "mayWrite a p"
    and "plainKey key" and "plainValue v"
    and "list_ex (\<lambda>l. startsWithCI l key) (map trimmed (textLines t))"
  shows "valueFromConfigKey a (changeKeyValueInConfig a p key (inQuotes v) d) p key =
    (if CHR '' '' \<in> set v then qleft v (lastIndexOf v CHR '' '') else v)"
proof -
  define new where "new = key @ CHR '' '' # inQuotes v"
  note q = optionLine_quoted [OF assms(5,6), folded new_def]
  define ls where "ls = map (\<lambda>l. if startsWithCI l key then new else l) (map trimmed (textLines t))"
  note ok = trimmed_lines_ok [OF assms(1,2)]
  have "list_all lineText ls" "list_all ascii ls" using ok q(3,4) by (auto simp: ls_def list_all_iff)
  from read_written [OF this assms(3,4)] have r: "linesOf a (writeLines a p ls d) p = Some ls" .
  have c: "changeKeyValueInConfig a p key (inQuotes v) d = writeLines a p ls d"
    using assms(1,3) by (simp add: changeKeyValueInConfig_def linesOf_def ls_def q(1) cong: if_cong)
  have t: "map trimmed ls = ls" unfolding ls_def using q(2) by simp
  have "startsWithCI new (key @ '' '')" unfolding new_def by (simp add: startsWithCI_def)
  from find_replaced [OF this assms(7)] t have "find (\<lambda>l. startsWithCI l (key @ '' '')) (map trimmed ls) = Some new"
    by (simp only: ls_def)
  with r c q(5) have "valueFromConfigKey a (changeKeyValueInConfig a p key (inQuotes v) d) p key = cutLast v"
    by (simp add: valueFromConfigKey_def)
  moreover have "CHR '' '' \<notin> set v \<Longrightarrow> cutLast v = v" by (simp add: cutLast_def lastIndexOf_def index_or_minus_one_def)
  ultimately show ?thesis by (simp add: cutLast_def)
qed

lemma changed_value_is_read_back_witness:
  "valueFromConfigKey anyAccess (changeKeyValueInConfig anyAccess ''a.ovpn'' ''ca'' (inQuotes ''my ca.crt'') (oneFile ''ca x'')) ''a.ovpn'' ''ca'' =
    (if CHR '' '' \<in> set ''my ca.crt'' then qleft ''my ca.crt'' (lastIndexOf ''my ca.crt'' CHR '' '') else ''my ca.crt'')"
  by (rule changed_value_is_read_back [where t = "''ca x''"])
    (simp_all add: oneFile_def readFile_def anyAccess_def ascii_def plainKey_def plainValue_def textLines_def Let_def
       stripCR_def trimmed_def isSpace_def code_def quote_def startsWithCI_def toLower_def)

end
