(* ===== verification/Import.thy ===== *)
theory Import
  imports ConfigFacts ConfigValues
begin

text \<open>
  New configurations: the import of a configuration file (\<open>client/src/widgets/import/importwidget.cpp\<close>,
  the branch for \<open>.ovpn\<close>), the wizard (\<open>client/src/wizard/wiz_vpnwizard.cpp\<close>) and the test of names
  (\<open>Utils::isLegalFileName\<close>). Files opened in text mode get a carriage return before every line
  feed. \<open>QFile::copy\<close> fails when the source is missing or the target exists. Windows'
  \<open>PathCleanupSpec\<close> is a parameter: return value and cleaned name.
\<close>

record importEnv =
  configs :: configEnv
  access :: fileAccess
  userDir :: string
  cleanupSpec :: "string \<Rightarrow> int \<times> string"
  scanned :: "fsys \<Rightarrow> string \<Rightarrow> dirEntry list"

section \<open>Names and files\<close>

definition reservedNames :: "string list" where
  "reservedNames = [''CON'', ''PRN'', ''AUX'', ''NUL'', ''COM1'', ''COM2'', ''COM3'', ''COM4'', ''COM5'', ''COM6'',
     ''COM7'', ''COM8'', ''COM9'', ''LPT1'', ''LPT2'', ''LPT3'', ''LPT4'', ''LPT5'', ''LPT6'', ''LPT7'', ''LPT8'', ''LPT9'']"

definition isLegalFileName :: "importEnv \<Rightarrow> string \<Rightarrow> bool" where
  "isLegalFileName ie n \<longleftrightarrow> n \<noteq> [] \<and> n \<notin> set reservedNames \<and>
     (case cleanupSpec ie n of (result, cleaned) \<Rightarrow> result = 0 \<and> toLower cleaned = toLower n)"

definition copyFile :: "string \<Rightarrow> string \<Rightarrow> fsys \<Rightarrow> bool \<times> fsys" where
  "copyFile src dest d =
     (case readFile d src of
        None \<Rightarrow> (False, d)
      | Some t \<Rightarrow> if readFile d dest = None then (True, writeFile dest t d) else (False, d))"

definition textMode :: "string \<Rightarrow> string" where
  "textMode t = qreplace t [CHR 0x0A] [CHR 0x0D, CHR 0x0A]"

definition afterSlash :: "string \<Rightarrow> string" where
  "afterSlash p = qright p (int (length p) - lastIndexOf p CHR ''/'' - 1)"

section \<open>Import\<close>

definition importKeys :: "string list" where
  "importKeys = [''ca'', ''cert'', ''key'', ''pkcs12'', ''auth-user-pass'', ''secret'', ''replay-persist'', ''dh'',
     ''extra-certs'', ''tls-crypt'', ''tls-auth'', ''askpass'', ''crl-verify'']"

definition slashPair :: "string \<Rightarrow> string \<Rightarrow> string" where
  "slashPair a b = qarg (qarg ''%1/%2'' a) b"

definition copyConfigFile :: "fileAccess \<Rightarrow> string \<Rightarrow> string \<Rightarrow> string \<Rightarrow> string \<Rightarrow> fsys \<Rightarrow> fsys" where
  "copyConfigFile a path folder sourceDirectory key d =
     (let keyValue = valueFromConfigKey a d path key in
      if keyValue = [] then d
      else if isGivenPathAbsolute keyValue then
        (let destName = fileNameOfAbsolutePath keyValue;
             d1 = changeKeyValueInConfig a path key (inQuotes destName) d
         in snd (copyFile keyValue (slashPair folder destName) d1))
      else snd (copyFile (slashPair sourceDirectory keyValue) (slashPair folder keyValue) d))"

definition copyConfigFiles :: "fileAccess \<Rightarrow> string \<Rightarrow> string \<Rightarrow> string \<Rightarrow> fsys \<Rightarrow> fsys" where
  "copyConfigFiles a path folder sourceDirectory = fold (copyConfigFile a path folder sourceDirectory) importKeys"

definition notify :: "string \<Rightarrow> library \<Rightarrow> library" where
  "notify m = onApp (cause (MessageBox m))"

definition nameSql :: "string \<Rightarrow> string" where
  "nameSql en = qarg (''SELECT * FROM vpn WHERE '' @ column ''vpn-name'' @ '' = '' @ quoted ''%1'' @ '';'') en"

definition importOvpn :: "importEnv \<Rightarrow> string \<Rightarrow> string option \<Rightarrow> library \<Rightarrow> library" where
  "importOvpn ie sourceFile custom l =
     (let ce = configs ie;
          fileName = afterSlash (qreplace sourceFile ''.ovpn'' []);
          cfgName = trimmed (case custom of Some n \<Rightarrow> if n \<noteq> [] then n else fileName | None \<Rightarrow> fileName);
          folder = qarg (qarg ''%1/config/%2'' (userDir ie)) cfgName;
          path = qarg (qarg ''%1/%2.ovpn'' folder) cfgName
      in if \<not> isLegalFileName ie cfgName then
           notify ''Invalid config name. At least one letter of [a-zA-Z0-9-_ ].'' l
         else case enc ce cfgName of
           None \<Rightarrow> onApp (\<lambda>s. s\<lparr>fault := True\<rparr>) l
         | Some en \<Rightarrow>
             if ask (ui ce) (app l) (nameSql en) \<noteq> None then
               notify ''A connection with this name already exits.'' l
             else if dirExists (disk l) folder then
               notify ''A configuration with this name is already existing!'' l
             else
               (let d1 = mkpath folder (disk l) in
                case (if mayRead (access ie) sourceFile then readFile d1 sourceFile else None) of
                  None \<Rightarrow> l\<lparr>disk := d1\<rparr>
                | Some bytes \<Rightarrow>
                    (let text = textMode (decodeUtf8 (cryptography (ui ce)) bytes);
                         d2 = (if mayWrite (access ie) path then writeFile path text d1 else d1);
                         dir = qleft sourceFile (lastIndexOf sourceFile CHR ''/'');
                         l1 = l\<lparr>disk := copyConfigFiles (access ie) path folder dir d2\<rparr>;
                         root = userDir ie @ ''/config''
                     in onApp loadConnections
                          (refreshConfigs ce (findConfigsInDir ce root (scanned ie (disk l1) root) l1)))))"

section \<open>The wizard\<close>

record wizardFields =
  txtConfigName :: string
  txtMssFix :: bool
  txtFloat :: bool
  txtRemoteProtocol :: int
  remoteList :: "string list"
  txtNobind :: bool
  txtUserPass :: bool
  txtCAPath :: string
  txtCertPath :: string
  txtKeyPath :: string
  txtServerCert :: bool
  txtRouteMethod :: int
  txtVerbose :: string
  txtMute :: string
  txtRouteDelay :: string
  txtCompLzo :: bool

definition unless :: "bool \<Rightarrow> string list \<Rightarrow> string list" where
  "unless b ls = (if b then [] else ls)"

definition wizardLines :: "wizardFields \<Rightarrow> string list" where
  "wizardLines w =
     [''client'', ''dev tun'', ''tun-mtu 1500'']
     @ unless (\<not> txtMssFix w) [''mssfix''] @ unless (\<not> txtFloat w) [''float'']
     @ [if txtRemoteProtocol w = 0 then ''proto tcp'' else ''proto udp'']
     @ map (\<lambda>r. ''remote '' @ r) (remoteList w)
     @ unless (\<not> txtNobind w) [''nobind''] @ unless (\<not> txtUserPass w) [''auth-user-pass'']
     @ [''persist-key'', ''persist-tun'',
        ''ca '' @ inQuotes (afterSlash (txtCAPath w)), ''cert '' @ inQuotes (afterSlash (txtCertPath w)),
        ''key '' @ inQuotes (afterSlash (txtKeyPath w))]
     @ unless (\<not> txtServerCert w) [''remote-cert-tls server'']
     @ unless (txtRouteMethod w = 0) [if txtRouteMethod w = 1 then ''route-method exe'' else ''route-method ipapi'']
     @ unless (txtVerbose w = []) [''verb '' @ txtVerbose w] @ unless (txtMute w = []) [''mute '' @ txtMute w]
     @ unless (txtRouteDelay w = []) [''route-delay '' @ txtRouteDelay w]
     @ unless (\<not> txtCompLzo w) [''comp-lzo'']"

datatype wizardResult = Created | NoDirectory | ConfigThere | NoConfigFile | NoCA | NoCert | NoKey

text \<open>The copies, one after the other; a name that was copied before is not copied again.\<close>

definition wizardCopies :: "string \<Rightarrow> wizardFields \<Rightarrow> fsys \<Rightarrow> wizardResult \<times> fsys" where
  "wizardCopies dirPath w d =
     (let dest = (\<lambda>p. dirPath @ ''/'' @ afterSlash p);
          ca = dest (txtCAPath w); cert = dest (txtCertPath w); key = dest (txtKeyPath w)
      in case copyFile (txtCAPath w) ca d of
           (False, d1) \<Rightarrow> (NoCA, d1)
         | (True, d1) \<Rightarrow>
             (case (if cert \<noteq> ca then copyFile (txtCertPath w) cert d1 else (True, d1)) of
                (False, d2) \<Rightarrow> (NoCert, d2)
              | (True, d2) \<Rightarrow>
                  (case (if key \<noteq> ca \<and> key \<noteq> cert then copyFile (txtKeyPath w) key d2 else (True, d2)) of
                     (False, d3) \<Rightarrow> (NoKey, d3)
                   | (True, d3) \<Rightarrow> (Created, d3))))"

definition wizardDir :: "importEnv \<Rightarrow> wizardFields \<Rightarrow> string" where
  "wizardDir ie w = userDir ie @ ''/config/'' @ txtConfigName w"

definition wizardPath :: "importEnv \<Rightarrow> wizardFields \<Rightarrow> string" where
  "wizardPath ie w = userDir ie @ ''/config/'' @ txtConfigName w @ ''/'' @ txtConfigName w @ ''.ovpn''"

definition wizardAccept :: "importEnv \<Rightarrow> bool \<Rightarrow> wizardFields \<Rightarrow> fsys \<Rightarrow> wizardResult \<times> fsys" where
  "wizardAccept ie mayMkpath w d =
     (let dirPath = wizardDir ie w; path = wizardPath ie w in
      if \<not> dirExists d dirPath \<and> \<not> mayMkpath then (NoDirectory, d)
      else if dirExists d dirPath \<and> readFile d path \<noteq> None then (ConfigThere, d)
      else
        (let d1 = (if dirExists d dirPath then d else mkpath dirPath d) in
         if \<not> mayWrite (access ie) path then (NoConfigFile, d1)
         else wizardCopies dirPath w (writeFile path (textMode (unlines (wizardLines w))) d1)))"

section \<open>The wizard's configuration\<close>

lemma textMode_unlines:
  assumes "list_all (\<lambda>l. CHR 0x0A \<notin> set l) ls"
  shows "textMode (unlines ls) = unlines (map (\<lambda>l. l @ [CHR 0x0D]) ls)"
proof -
  have r: "qreplace (a @ CHR 0x0A # b) [CHR 0x0A] [CHR 0x0D, CHR 0x0A] =
      a @ [CHR 0x0D, CHR 0x0A] @ qreplace b [CHR 0x0A] [CHR 0x0D, CHR 0x0A]" if "CHR 0x0A \<notin> set a" for a b
    using that by (induction a) (simp_all add: qreplace.simps)
  have e: "qreplace [] [CHR 0x0A] [CHR 0x0D, CHR 0x0A] = []" by (simp add: qreplace.simps)
  show ?thesis using assms by (induction ls) (simp_all add: textMode_def r e)
qed

lemma textLines_textMode:
  assumes "list_all (\<lambda>l. CHR 0x0A \<notin> set l) ls"
  shows "textLines (textMode (unlines ls)) = ls"
proof -
  have "splitOn CHR 0x0A (unlines (map (\<lambda>l. l @ [CHR 0x0D]) ls)) = map (\<lambda>l. l @ [CHR 0x0D]) ls @ [[]]"
    using assms
  proof (induction ls)
    case (Cons l ls)
    then show ?case using splitOn_Cons_sep [of "CHR 0x0A" "l @ [CHR 0x0D]"] by simp
  qed simp
  then show ?thesis
    unfolding textMode_unlines [OF assms] by (simp add: textLines_def stripCR_def comp_def)
qed

section \<open>Copies\<close>

lemma copyFile_keeps:
  assumes "copyFile src dest d = (b, d')" and "readFile d p = Some t"
  shows "readFile d' p = Some t"
  using assms by (auto simp: copyFile_def readFile_write split: option.splits if_splits)

lemma copyFile_copied: "copyFile src dest d = (True, d') \<Longrightarrow> readFile d' dest = readFile d src \<and> readFile d src \<noteq> None"
  by (auto simp: copyFile_def readFile_write split: option.splits if_splits)

lemma copyFile_other: "copyFile src dest d = (b, d') \<Longrightarrow> p \<noteq> dest \<Longrightarrow> readFile d' p = readFile d p"
  by (auto simp: copyFile_def readFile_write split: option.splits if_splits)

lemma copyFile_snd:
  "readFile d p = Some t \<Longrightarrow> readFile (snd (copyFile src dest d)) p = Some t"
  "p \<noteq> dest \<Longrightarrow> readFile (snd (copyFile src dest d)) p = readFile d p"
  by (cases "copyFile src dest d"; use copyFile_keeps copyFile_other in fastforce)+

text \<open>The result of the wizard's copies: files that were there stay, and where all three succeed
  the targets hold the sources, the name copied first winning.\<close>

lemma wizardCopies_keeps:
  assumes "wizardCopies dirPath w d = (r, d')" and "readFile d p = Some t"
  shows "readFile d' p = Some t"
  using assms
  by (auto simp: wizardCopies_def Let_def split: prod.splits bool.splits if_splits dest: copyFile_keeps)

definition certTarget :: "string \<Rightarrow> wizardFields \<Rightarrow> string" where
  "certTarget dirPath w = dirPath @ ''/'' @ afterSlash (txtCertPath w)"

lemma wizardCopies_created:
  assumes "wizardCopies dirPath w d = (Created, d')" and "readFile d (txtCAPath w) = Some ca"
    and "readFile d (txtCertPath w) = Some cert" and "readFile d (txtKeyPath w) = Some key"
  shows "readFile d' (dirPath @ ''/'' @ afterSlash (txtCAPath w)) = Some ca"
    and "readFile d' (dirPath @ ''/'' @ afterSlash (txtCertPath w)) =
      Some (if afterSlash (txtCertPath w) = afterSlash (txtCAPath w) then ca else cert)"
    and "readFile d' (dirPath @ ''/'' @ afterSlash (txtKeyPath w)) =
      Some (if afterSlash (txtKeyPath w) = afterSlash (txtCAPath w) then ca
        else if afterSlash (txtKeyPath w) = afterSlash (txtCertPath w) then cert else key)"
proof -
  let ?ca = "dirPath @ ''/'' @ afterSlash (txtCAPath w)" and ?cert = "dirPath @ ''/'' @ afterSlash (txtCertPath w)"
    and ?key = "dirPath @ ''/'' @ afterSlash (txtKeyPath w)"
  obtain d1 where 1: "copyFile (txtCAPath w) ?ca d = (True, d1)"
    using assms(1) by (auto simp: wizardCopies_def Let_def split: prod.splits bool.splits)
  obtain d2 where 2: "(if ?cert \<noteq> ?ca then copyFile (txtCertPath w) ?cert d1 else (True, d1)) = (True, d2)"
    using assms(1) 1 by (auto simp: wizardCopies_def Let_def split: prod.splits bool.splits if_splits)
  have 3: "(if ?key \<noteq> ?ca \<and> ?key \<noteq> ?cert then copyFile (txtKeyPath w) ?key d2 else (True, d2)) = (True, d')"
    using assms(1) 1 2 by (auto simp: wizardCopies_def Let_def split: prod.splits bool.splits if_splits)
  have a1: "readFile d1 ?ca = Some ca" "readFile d1 (txtCertPath w) = Some cert" "readFile d1 (txtKeyPath w) = Some key"
    using copyFile_copied [OF 1] copyFile_keeps [OF 1] assms(2-4) by simp_all
  have a2: "readFile d2 ?ca = Some ca" "readFile d2 (txtKeyPath w) = Some key"
    "readFile d2 ?cert = Some (if afterSlash (txtCertPath w) = afterSlash (txtCAPath w) then ca else cert)"
    using 2 a1 by (auto split: if_splits dest: copyFile_keeps copyFile_copied)
  show "readFile d' ?ca = Some ca"
    "readFile d' ?cert = Some (if afterSlash (txtCertPath w) = afterSlash (txtCAPath w) then ca else cert)"
    "readFile d' ?key = Some (if afterSlash (txtKeyPath w) = afterSlash (txtCAPath w) then ca
        else if afterSlash (txtKeyPath w) = afterSlash (txtCertPath w) then cert else key)"
    using 3 a2 by (auto split: if_splits dest: copyFile_keeps copyFile_copied)
qed

lemma dirExists_mkpath: "dirExists (mkpath p d) p"
  by (simp add: dirExists_def mkpath_def ancestors_def)

lemma wizardCopies_dirs: "wizardCopies dirPath w d = (r, d') \<Longrightarrow> dirs d' = dirs d"
proof -
  have c: "dirs (snd (copyFile a b d)) = dirs d" for a b d
    by (simp add: copyFile_def writeFile_def split: option.split)
  have c': "copyFile a b d = (x, d') \<Longrightarrow> dirs d' = dirs d" for a b d x d'
    using c [of a b d] by simp
  show "wizardCopies dirPath w d = (r, d') \<Longrightarrow> dirs d' = dirs d"
    by (auto simp: wizardCopies_def Let_def split: prod.splits bool.splits if_splits dest!: c')
qed

text \<open>A wizard that fails while copying a certificate leaves the directory and the configuration behind, so that the next attempt with the same name is refused because the configuration exists.\<close>

theorem failed_wizard_blocks_the_name:
  assumes "wizardAccept ie b w d = (r, d')" and "r \<in> {NoCA, NoCert, NoKey}" and "txtConfigName w' = txtConfigName w"
  shows "wizardAccept ie b' w' d' = (ConfigThere, d')"
proof -
  let ?dir = "wizardDir ie w" and ?path = "wizardPath ie w"
  define d1 where "d1 = (if dirExists d ?dir then d else mkpath ?dir d)"
  have c: "wizardCopies ?dir w (writeFile ?path (textMode (unlines (wizardLines w))) d1) = (r, d')"
    using assms(1,2) by (auto simp: wizardAccept_def Let_def d1_def split: if_splits)
  have "dirExists d1 ?dir" by (simp add: d1_def dirExists_mkpath)
  then have "dirExists d' ?dir" using wizardCopies_dirs [OF c] by (simp add: dirExists_def writeFile_def)
  moreover have "readFile d' ?path \<noteq> None" using wizardCopies_keeps [OF c, of ?path] by (simp add: readFile_write)
  ultimately show ?thesis using assms(3) by (simp add: wizardAccept_def Let_def wizardDir_def wizardPath_def)
qed

section \<open>Reading the wizard's configuration\<close>

lemma hd_trimmed_eq: "l \<noteq> [] \<Longrightarrow> \<not> isSpace (hd l) \<Longrightarrow> trimmed l \<noteq> [] \<and> hd (trimmed l) = hd l"
  by (cases l) (simp_all add: trimmed_def dropWhile_append3)

lemma no_match:
  assumes "l \<noteq> []" and "\<not> isSpace (hd l)" and "key \<noteq> []" and "lowerChar (hd l) \<noteq> lowerChar (hd key)"
  shows "\<not> startsWithCI (trimmed l) key"
proof
  assume "startsWithCI (trimmed l) key"
  then have "lowerChar (hd key) = lowerChar (hd (trimmed l))"
    using assms(3) by (cases key; cases "trimmed l") (auto simp: startsWithCI_def toLower_def)
  with hd_trimmed_eq [OF assms(1,2)] assms(4) show False by simp
qed

lemma find_append_first: "list_all (\<lambda>x. \<not> P x) xs \<Longrightarrow> P y \<Longrightarrow> find P (xs @ y # ys) = Some y"
  by (induction xs) auto

definition plainName :: "string \<Rightarrow> bool" where
  "plainName v \<longleftrightarrow> plainValue v \<and> CHR '' '' \<notin> set v"

lemma value_in_lines:
  assumes "linesOf a d p = Some (pre @ (key @ CHR '' '' # inQuotes v) # post)" and "plainKey key" and "plainName v"
    and "list_all (\<lambda>l. \<not> startsWithCI (trimmed l) (key @ '' '')) pre"
  shows "valueFromConfigKey a d p key = v"
proof -
  let ?l = "key @ CHR '' '' # inQuotes v"
  have pv: "plainValue v" "CHR '' '' \<notin> set v" using assms(3) by (simp_all add: plainName_def)
  note q = optionLine_quoted [OF assms(2) pv(1)]
  have "list_all (\<lambda>l. \<not> startsWithCI l (key @ '' '')) (map trimmed pre)" using assms(4) by (simp add: list_all_iff)
  moreover have "startsWithCI ?l (key @ '' '')" by (simp add: startsWithCI_def)
  ultimately have "find (\<lambda>l. startsWithCI l (key @ '' '')) (map trimmed (pre @ ?l # post)) = Some ?l"
    using find_append_first [of "\<lambda>l. startsWithCI l (key @ '' '')" "map trimmed pre" ?l "map trimmed post"] q(2) by simp
  with assms(1) q(5) pv(2) show ?thesis
    by (simp add: valueFromConfigKey_def cutLast_def lastIndexOf_def index_or_minus_one_def)
qed

definition wizardHead :: "wizardFields \<Rightarrow> string list" where
  "wizardHead w =
     [''dev tun'', ''tun-mtu 1500'']
     @ unless (\<not> txtMssFix w) [''mssfix''] @ unless (\<not> txtFloat w) [''float'']
     @ [if txtRemoteProtocol w = 0 then ''proto tcp'' else ''proto udp'']
     @ map (\<lambda>r. ''remote '' @ r) (remoteList w)
     @ unless (\<not> txtNobind w) [''nobind''] @ unless (\<not> txtUserPass w) [''auth-user-pass'']
     @ [''persist-key'', ''persist-tun'']"

definition fileLine :: "string \<Rightarrow> string \<Rightarrow> string" where
  "fileLine key v = key @ CHR '' '' # inQuotes v"

lemma wizardLines_split:
  "\<exists>post. wizardLines w = (''client'' # wizardHead w) @ fileLine ''ca'' (afterSlash (txtCAPath w)) #
     fileLine ''cert'' (afterSlash (txtCertPath w)) # fileLine ''key'' (afterSlash (txtKeyPath w)) # post"
  by (simp add: wizardLines_def wizardHead_def fileLine_def)

lemma wizardHead_no_match:
  assumes "l \<in> set (wizardHead w)" and "key \<noteq> []" and "lowerChar (hd key) \<in> {CHR ''c'', CHR ''k''}"
  shows "\<not> startsWithCI (trimmed l) key"
proof (rule no_match)
  have "l \<noteq> [] \<and> hd l \<in> {CHR ''d'', CHR ''t'', CHR ''m'', CHR ''f'', CHR ''p'', CHR ''r'', CHR ''n'', CHR ''a''}"
    using assms(1) by (auto simp: wizardHead_def unless_def split: if_splits)
  then show "l \<noteq> []" "\<not> isSpace (hd l)" "lowerChar (hd l) \<noteq> lowerChar (hd key)"
    using assms(3) by (auto simp: isSpace_def code_def)
qed (rule assms(2))

lemma plainKeys: "plainKey ''ca''" "plainKey ''cert''" "plainKey ''key''"
  by (simp_all add: plainKey_def quote_def isSpace_def code_def)

text \<open>The configuration the wizard writes names its files so that the program finds them again: reading back \<open>ca\<close>, \<open>cert\<close> and \<open>key\<close> gives the names the files were copied to, and the files there are the chosen ones, except that a certificate or key with the name of another file is silently replaced by that file.\<close>

theorem wizard_config_names_its_files:
  assumes "wizardAccept ie b w d = (Created, d')" and "mayRead (access ie) (wizardPath ie w)"
    and "list_all (\<lambda>l. CHR 0x0A \<notin> set l) (wizardLines w)"
    and "list_all (\<lambda>p. plainName (afterSlash p) \<and> p \<noteq> wizardPath ie w) [txtCAPath w, txtCertPath w, txtKeyPath w]"
    and "map (readFile d) [txtCAPath w, txtCertPath w, txtKeyPath w] = [Some ca, Some cert, Some key]"
  shows "let value = valueFromConfigKey (access ie) d' (wizardPath ie w);
             content = (\<lambda>n. readFile d' (wizardDir ie w @ ''/'' @ n));
             n1 = afterSlash (txtCAPath w); n2 = afterSlash (txtCertPath w); n3 = afterSlash (txtKeyPath w)
    in value ''ca'' = n1 \<and> value ''cert'' = n2 \<and> value ''key'' = n3 \<and> content n1 = Some ca \<and>
       content n2 = Some (if n2 = n1 then ca else cert) \<and>
       content n3 = Some (if n3 = n1 then ca else if n3 = n2 then cert else key)"
proof -
  let ?dir = "wizardDir ie w" and ?path = "wizardPath ie w" and ?a = "access ie"
  let ?n1 = "afterSlash (txtCAPath w)" and ?n2 = "afterSlash (txtCertPath w)" and ?n3 = "afterSlash (txtKeyPath w)"
  define d1 where "d1 = (if dirExists d ?dir then d else mkpath ?dir d)"
  define d2 where "d2 = writeFile ?path (textMode (unlines (wizardLines w))) d1"
  have c: "wizardCopies ?dir w d2 = (Created, d')"
    using assms(1) by (auto simp: wizardAccept_def Let_def d1_def d2_def split: if_splits)
  have d1: "readFile d1 q = readFile d q" for q by (simp add: d1_def)
  have src: "readFile d2 (txtCAPath w) = Some ca" "readFile d2 (txtCertPath w) = Some cert" "readFile d2 (txtKeyPath w) = Some key"
    using assms(4,5) by (simp_all add: d2_def readFile_write d1)
  have "readFile d' ?path = Some (textMode (unlines (wizardLines w)))"
    by (rule wizardCopies_keeps [OF c]) (simp add: d2_def readFile_write)
  then have l: "linesOf ?a d' ?path = Some (wizardLines w)"
    using assms(2) textLines_textMode [OF assms(3)] by (simp add: linesOf_def)
  obtain post where post: "wizardLines w = (''client'' # wizardHead w) @ fileLine ''ca'' ?n1 # fileLine ''cert'' ?n2 #
      fileLine ''key'' ?n3 # post" using wizardLines_split by blast
  have n: "plainName ?n1" "plainName ?n2" "plainName ?n3" using assms(4) by simp_all
  then have t: "trimmed (fileLine ''ca'' ?n1) = fileLine ''ca'' ?n1" "trimmed (fileLine ''cert'' ?n2) = fileLine ''cert'' ?n2"
    using optionLine_quoted(2) plainKeys unfolding plainName_def fileLine_def by blast+
  have h: "list_all (\<lambda>l. \<not> startsWithCI (trimmed l) (k @ '' '')) (''client'' # wizardHead w)"
    if "k \<in> {''ca'', ''cert'', ''key''}" for k
  proof -
    have "\<not> startsWithCI (trimmed ''client'') (k @ '' '')"
      using that by (auto simp: trimmed_def isSpace_def code_def startsWithCI_def toLower_def)
    moreover have "\<not> startsWithCI (trimmed x) (k @ '' '')" if "x \<in> set (wizardHead w)" for x
      using that \<open>k \<in> {''ca'', ''cert'', ''key''}\<close> by (intro wizardHead_no_match [of _ w]) auto
    ultimately show ?thesis by (simp add: list_all_iff)
  qed
  have m: "\<not> startsWithCI (trimmed (fileLine ''ca'' ?n1)) (''cert'' @ '' '')"
    "\<not> startsWithCI (trimmed (fileLine ''ca'' ?n1)) (''key'' @ '' '')"
    "\<not> startsWithCI (trimmed (fileLine ''cert'' ?n2)) (''key'' @ '' '')"
    unfolding t by (simp_all add: fileLine_def startsWithCI_def toLower_def)
  let ?pre = "''client'' # wizardHead w"
  have v1: "linesOf ?a d' ?path = Some (?pre @ (''ca'' @ CHR '' '' # inQuotes ?n1) # (fileLine ''cert'' ?n2 # fileLine ''key'' ?n3 # post))"
    and v2: "linesOf ?a d' ?path = Some ((?pre @ [fileLine ''ca'' ?n1]) @ (''cert'' @ CHR '' '' # inQuotes ?n2) # (fileLine ''key'' ?n3 # post))"
    and v3: "linesOf ?a d' ?path = Some ((?pre @ [fileLine ''ca'' ?n1, fileLine ''cert'' ?n2]) @ (''key'' @ CHR '' '' # inQuotes ?n3) # post)"
    by (simp_all add: l post fileLine_def)
  have "valueFromConfigKey ?a d' ?path ''ca'' = ?n1"
    by (rule value_in_lines [OF v1 plainKeys(1) n(1)]) (rule h, simp)
  moreover have "valueFromConfigKey ?a d' ?path ''cert'' = ?n2"
    by (rule value_in_lines [OF v2 plainKeys(2) n(2)]) (use h [of "''cert''"] m(1) in simp)
  moreover have "valueFromConfigKey ?a d' ?path ''key'' = ?n3"
    by (rule value_in_lines [OF v3 plainKeys(3) n(3)]) (use h [of "''key''"] m(2,3) in simp)
  ultimately show ?thesis using wizardCopies_created [OF c src] by (simp add: Let_def)
qed

section \<open>Copying the files of an imported configuration\<close>

lemma slashPair_text: "CHR ''%'' \<notin> set a \<Longrightarrow> slashPair a b = a @ CHR ''/'' # b"
  by (simp add: slashPair_def qarg_def)

lemma value_depends_on_file:
  "readFile d' p = readFile d p \<Longrightarrow> valueFromConfigKey a d' p key = valueFromConfigKey a d p key"
  by (simp add: valueFromConfigKey_def linesOf_def)

lemma copy_step:
  assumes "readFile d' path = readFile d path" and "\<not> isGivenPathAbsolute (valueFromConfigKey a d path key)"
  shows "copyConfigFile a path folder src key d' =
    (let v = valueFromConfigKey a d path key in
     if v = [] then d' else snd (copyFile (slashPair src v) (slashPair folder v) d'))"
  using assms(2) value_depends_on_file [OF assms(1), of a key] by (simp add: copyConfigFile_def Let_def)

lemma copy_loop:
  assumes "list_all (\<lambda>k. \<not> isGivenPathAbsolute (valueFromConfigKey a d path k)) ks"
    and "CHR ''%'' \<notin> set folder" and "readFile d path = Some conf"
    and "readFile d' path = Some conf" and "readFile d' (slashPair src v) = Some c"
    and "readFile d' (slashPair folder v) \<in> {None, Some c}" and "v \<noteq> []"
  shows "readFile (fold (copyConfigFile a path folder src) ks d') (slashPair folder v) =
    (if v \<in> valueFromConfigKey a d path ` set ks then Some c else readFile d' (slashPair folder v))"
  using assms
proof (induction ks arbitrary: d')
  case (Cons k ks)
  let ?u = "valueFromConfigKey a d path k"
  define d2 where "d2 = copyConfigFile a path folder src k d'"
  have s: "d2 = (if ?u = [] then d' else snd (copyFile (slashPair src ?u) (slashPair folder ?u) d'))"
    using Cons.prems(1,3,4) copy_step [of d' path d a k folder src] by (simp add: d2_def Let_def)
  have k: "readFile d2 path = Some conf" "readFile d2 (slashPair src v) = Some c"
    using Cons.prems(4,5) by (simp_all add: s copyFile_snd(1))
  have t: "readFile d2 (slashPair folder v) = (if ?u = v then Some c else readFile d' (slashPair folder v))"
  proof (cases "?u = v")
    case True
    with Cons.prems(5-7) show ?thesis by (auto simp: s copyFile_def readFile_write split: option.split)
  next
    case False
    then have "slashPair folder v \<noteq> slashPair folder ?u" using Cons.prems(2) by (simp add: slashPair_text)
    with False show ?thesis by (simp add: s copyFile_snd(2))
  qed
  then have "readFile d2 (slashPair folder v) \<in> {None, Some c}" using Cons.prems(6) by simp
  then have "readFile (fold (copyConfigFile a path folder src) ks d2) (slashPair folder v) =
      (if v \<in> valueFromConfigKey a d path ` set ks then Some c else readFile d2 (slashPair folder v))"
    using Cons.prems by (intro Cons.IH k) simp_all
  then show ?case by (auto simp: t d2_def [symmetric])
qed simp

text \<open>Importing a configuration whose options name their files relative to it copies every file that exists into the new directory, under the name the option holds, unless a file was there before.\<close>

theorem import_copies_relative_files:
  assumes "readFile d path = Some conf" and "CHR ''%'' \<notin> set folder"
    and "list_all (\<lambda>k. \<not> isGivenPathAbsolute (valueFromConfigKey a d path k)) importKeys"
    and "key \<in> set importKeys" and "valueFromConfigKey a d path key = v" and "v \<noteq> []"
    and "readFile d (slashPair src v) = Some c" and "readFile d (slashPair folder v) = None"
  shows "readFile (copyConfigFiles a path folder src d) (slashPair folder v) = Some c"
proof -
  have "v \<in> valueFromConfigKey a d path ` set importKeys" using assms(4,5) by auto
  with copy_loop [OF assms(3,2,1,1,7) _ assms(6)] assms(8) show ?thesis by (simp add: copyConfigFiles_def)
qed

section \<open>Samples\<close>

definition sampleImport :: importEnv where
  "sampleImport = \<lparr>configs = sampleConfigs, access = anyAccess, userDir = ''C:/u'', cleanupSpec = (\<lambda>n. (0, n)),
     scanned = (\<lambda>_ _. [])\<rparr>"

definition importedDisk :: fsys where
  "importedDisk = \<lparr>files = [(''n/v.ovpn'', ''ca x.crt''), (''d/x.crt'', ''CERT'')], dirs = []\<rparr>"

lemma importedDisk_lines: "linesOf anyAccess importedDisk ''n/v.ovpn'' = Some [''ca x.crt'']"
  by (simp add: linesOf_def importedDisk_def readFile_def anyAccess_def textLines_def stripCR_def)

lemma importedDisk_values:
  "valueFromConfigKey anyAccess importedDisk ''n/v.ovpn'' ''ca'' = ''x.crt''"
  "list_all (\<lambda>k. \<not> isGivenPathAbsolute (valueFromConfigKey anyAccess importedDisk ''n/v.ovpn'' k)) importKeys"
  by (simp_all add: valueFromConfigKey_def importedDisk_lines trimmed_def isSpace_def code_def startsWithCI_def
    toLower_def valuePart_def qright_def qreplace.simps cutLast_def qleft_def lastIndexOf_def index_or_minus_one_def
    importKeys_def isGivenPathAbsolute_def indexOf_def)

lemma import_copies_relative_files_witness:
  "readFile (copyConfigFiles anyAccess ''n/v.ovpn'' ''n'' ''d'' importedDisk) (slashPair ''n'' ''x.crt'') = Some ''CERT''"
  by (rule import_copies_relative_files [where conf = "''ca x.crt''" and key = "''ca''"])
    (simp_all add: importedDisk_values slashPair_text, simp_all add: importedDisk_def readFile_def importKeys_def)

definition sampleWizard :: wizardFields where
  "sampleWizard = \<lparr>txtConfigName = ''w'', txtMssFix = False, txtFloat = False, txtRemoteProtocol = 1,
     remoteList = [''h 1194''], txtNobind = True, txtUserPass = True, txtCAPath = ''s/ca.pem'', txtCertPath = ''s/c.pem'',
     txtKeyPath = ''s/k.pem'', txtServerCert = True, txtRouteMethod = 0, txtVerbose = ''3'', txtMute = [],
     txtRouteDelay = [], txtCompLzo = False\<rparr>"

definition wizardDisk :: fsys where
  "wizardDisk = \<lparr>files = [(''s/ca.pem'', ''A''), (''s/c.pem'', ''B''), (''s/k.pem'', ''C'')], dirs = []\<rparr>"

lemma sample_slashes:
  "afterSlash ''s/ca.pem'' = ''ca.pem''" "afterSlash ''s/c.pem'' = ''c.pem''" "afterSlash ''s/k.pem'' = ''k.pem''"
  by (simp_all add: afterSlash_def qright_def lastIndexOf_def index_or_minus_one_def)

lemma sample_paths: "wizardPath sampleImport sampleWizard = ''C:/u/config/w/w.ovpn''" "wizardDir sampleImport sampleWizard = ''C:/u/config/w''"
  by (simp_all add: wizardPath_def wizardDir_def sampleImport_def sampleWizard_def)

lemma copyFile_works:
  "readFile d src = Some t \<Longrightarrow> readFile d dest = None \<Longrightarrow> copyFile src dest d = (True, writeFile dest t d)"
  by (simp add: copyFile_def)

lemma wizardCopies_works:
  assumes "readFile d (txtCAPath w) = Some ca" and "readFile d (txtCertPath w) = Some cert" and "readFile d (txtKeyPath w) = Some key"
    and "afterSlash (txtCAPath w) = n1" and "afterSlash (txtCertPath w) = n2" and "afterSlash (txtKeyPath w) = n3"
    and "readFile d (dir @ ''/'' @ n1) = None" and "readFile d (dir @ ''/'' @ n2) = None" and "readFile d (dir @ ''/'' @ n3) = None"
    and "n1 \<noteq> n2" and "n1 \<noteq> n3" and "n2 \<noteq> n3"
  shows "fst (wizardCopies dir w d) = Created"
proof -
  define d1 where "d1 = writeFile (dir @ ''/'' @ n1) ca d"
  define d2 where "d2 = writeFile (dir @ ''/'' @ n2) cert d1"
  have 1: "copyFile (txtCAPath w) (dir @ ''/'' @ n1) d = (True, d1)"
    unfolding d1_def using assms(1,7) by (rule copyFile_works)
  have "readFile d1 (txtCertPath w) = Some cert" "readFile d1 (txtKeyPath w) = Some key"
    using copyFile_keeps [OF 1 assms(2)] copyFile_keeps [OF 1 assms(3)] .
  note r1 = this
  have 2: "copyFile (txtCertPath w) (dir @ ''/'' @ n2) d1 = (True, d2)"
    unfolding d2_def using r1(1) by (rule copyFile_works) (use assms(8,10) in \<open>simp add: d1_def readFile_write\<close>)
  have 3: "copyFile (txtKeyPath w) (dir @ ''/'' @ n3) d2 = (True, writeFile (dir @ ''/'' @ n3) key d2)"
    using copyFile_keeps [OF 2 r1(2)]
    by (rule copyFile_works) (use assms(9,11,12) in \<open>simp add: d1_def d2_def readFile_write\<close>)
  show ?thesis unfolding wizardCopies_def Let_def assms(4-6) using assms(10-12) 1 2 3 by simp
qed

lemma wizard_starts:
  assumes "\<not> dirExists d (wizardDir ie w)" and "mayWrite (access ie) (wizardPath ie w)"
  shows "wizardAccept ie True w d =
    wizardCopies (wizardDir ie w) w (writeFile (wizardPath ie w) (textMode (unlines (wizardLines w))) (mkpath (wizardDir ie w) d))"
  using assms by (simp add: wizardAccept_def Let_def)

lemma sample_created:
  "wizardAccept sampleImport True sampleWizard wizardDisk = (Created, snd (wizardAccept sampleImport True sampleWizard wizardDisk))"
proof -
  define conf where "conf = textMode (unlines (wizardLines sampleWizard))"
  have d: "\<not> dirExists wizardDisk (wizardDir sampleImport sampleWizard)"
    "mayWrite (access sampleImport) (wizardPath sampleImport sampleWizard)"
    by (simp_all add: wizardDisk_def dirExists_def sampleImport_def anyAccess_def)
  have "fst (wizardCopies ''C:/u/config/w'' sampleWizard (writeFile ''C:/u/config/w/w.ovpn'' conf (mkpath ''C:/u/config/w'' wizardDisk))) = Created"
    by (rule wizardCopies_works [where ca = "''A''" and cert = "''B''" and key = "''C''" and ?n1.0 = "''ca.pem''"
        and ?n2.0 = "''c.pem''" and ?n3.0 = "''k.pem''"])
      (simp_all add: readFile_write, simp_all add: sampleWizard_def sample_slashes wizardDisk_def readFile_def)
  then show ?thesis unfolding wizard_starts [OF d] sample_paths conf_def by (simp add: prod_eq_iff)
qed

lemma sample_lines: "list_all (\<lambda>l. CHR 0x0A \<notin> set l) (wizardLines sampleWizard)"
  by (simp add: wizardLines_def sampleWizard_def sample_slashes unless_def inQuotes_def quote_def)

lemma sample_names:
  "list_all (\<lambda>p. plainName (afterSlash p) \<and> p \<noteq> wizardPath sampleImport sampleWizard)
     [txtCAPath sampleWizard, txtCertPath sampleWizard, txtKeyPath sampleWizard]"
  unfolding sample_paths
  by (simp add: sampleWizard_def sample_slashes plainName_def plainValue_def trimmed_def isSpace_def code_def quote_def)

lemma wizard_config_names_its_files_witness:
  "let value = valueFromConfigKey (access sampleImport) (snd (wizardAccept sampleImport True sampleWizard wizardDisk))
             (wizardPath sampleImport sampleWizard);
       content = (\<lambda>n. readFile (snd (wizardAccept sampleImport True sampleWizard wizardDisk))
             (wizardDir sampleImport sampleWizard @ ''/'' @ n));
       n1 = afterSlash (txtCAPath sampleWizard); n2 = afterSlash (txtCertPath sampleWizard);
       n3 = afterSlash (txtKeyPath sampleWizard)
   in value ''ca'' = n1 \<and> value ''cert'' = n2 \<and> value ''key'' = n3 \<and> content n1 = Some ''A'' \<and>
      content n2 = Some (if n2 = n1 then ''A'' else ''B'') \<and>
      content n3 = Some (if n3 = n1 then ''A'' else if n3 = n2 then ''B'' else ''C'')"
proof (rule wizard_config_names_its_files [OF sample_created _ sample_lines sample_names])
  show "mayRead (access sampleImport) (wizardPath sampleImport sampleWizard)"
    by (simp add: sampleImport_def anyAccess_def)
  show "map (readFile wizardDisk) [txtCAPath sampleWizard, txtCertPath sampleWizard, txtKeyPath sampleWizard] =
      [Some ''A'', Some ''B'', Some ''C'']"
    by (simp add: wizardDisk_def sampleWizard_def readFile_def)
qed

definition emptyDisk :: fsys where
  "emptyDisk = \<lparr>files = [], dirs = []\<rparr>"

lemma wizard_without_ca:
  assumes "\<not> dirExists d (wizardDir ie w)" and "mayWrite (access ie) (wizardPath ie w)"
    and "readFile d (txtCAPath w) = None" and "wizardPath ie w \<noteq> txtCAPath w"
  shows "wizardAccept ie True w d = (NoCA, snd (wizardAccept ie True w d))"
  unfolding wizard_starts [OF assms(1,2)] using assms(3,4)
  by (simp add: Let_def wizardCopies_def copyFile_def readFile_write)

lemma failed_wizard_blocks_the_name_witness:
  "wizardAccept sampleImport True sampleWizard (snd (wizardAccept sampleImport True sampleWizard emptyDisk)) =
    (ConfigThere, snd (wizardAccept sampleImport True sampleWizard emptyDisk))"
proof (rule failed_wizard_blocks_the_name [OF wizard_without_ca])
  show "\<not> dirExists emptyDisk (wizardDir sampleImport sampleWizard)" by (simp add: emptyDisk_def dirExists_def)
  show "mayWrite (access sampleImport) (wizardPath sampleImport sampleWizard)" by (simp add: sampleImport_def anyAccess_def)
  show "readFile emptyDisk (txtCAPath sampleWizard) = None" by (simp add: emptyDisk_def readFile_def)
  show "wizardPath sampleImport sampleWizard \<noteq> txtCAPath sampleWizard" unfolding sample_paths by (simp add: sampleWizard_def)
qed simp_all

end
