(* ===== verification/AdvConfig.thy ===== *)
theory AdvConfig
  imports Import
begin

text \<open>
  The editor of all options of a configuration:
  \<open>client/src/widgets/settings/config/advconfigsettingswidget.cpp\<close> with the window for inline
  certificates (\<open>client/src/dialogs/inlineWindow.cpp\<close>). A widget is a constructor, the form maps widgets to
  their contents. Reading a configuration goes line by line through all its blocks, in the order of
  the code; \<open>None\<close> is an inline block without an end, which the code reads for ever. Sizes,
  titles and enabled states of widgets are left out; a chosen file is the argument of a handler.
\<close>

section \<open>The form\<close>

datatype checkBox = CbClient | CbFloat | CbCompLzo | CbNobind | CbPersistKey | CbPersistTun | CbNoCache
  | CbRedirectGateway | CbCertIsServer | CbMsfix | CbBlockOutsideDns | CbRandomHost | CbResolveHostname
  | CbHTTPRetry | CbMuteWirelessWarning

datatype comboBox = CmbDev | CmbProto | CmbRouteMethod | CmbProxyAuth | CmbAuthMethod | CmbChiper

datatype lineEdit = TxtMtu | TxtCA | TxtCert | TxtKey | TxtPkcs12Path | TxtLinuxUser | TxtLinuxGroup
  | TxtFragment | TxtDevNode | TxtVerbose | TxtRouteDelay | TxtMute | TxtHTTPIP | TxtHTTPPort
  | TxtAfterConnect | TxtAfterDisconnect | TxtBeforeConnect | TxtBeforeDisconnect | TxtErrorConnect
  | TxtScriptACDelay | TxtRemoteIP | TxtRemotePort

text \<open>
  \<open>origin\<close> holds \<open>caValue\<close>, \<open>certValue\<close>, \<open>keyValue\<close> and \<open>pkcs12Value\<close> under the field they belong
  to, \<open>inlined\<close> likewise \<open>caValueInline\<close>, \<open>certValueInline\<close> and \<open>keyValueInline\<close>. Of the two radio
  buttons exactly one is on: \<open>usesPkcs12\<close> is \<open>rbPkcs\<close>, its negation \<open>rbNormal\<close>.
\<close>

record form =
  checked :: "checkBox \<Rightarrow> bool"
  current :: "comboBox \<Rightarrow> nat"
  entered :: "lineEdit \<Rightarrow> string"
  remotes :: "(string \<times> string) list"
  usesPkcs12 :: bool
  origin :: "lineEdit \<Rightarrow> string"
  inlined :: "lineEdit \<Rightarrow> string"
  pathClicked :: int
  lastDir :: string

definition setChecked :: "checkBox \<Rightarrow> bool \<Rightarrow> 'a form_scheme \<Rightarrow> 'a form_scheme" where
  "setChecked w b f = f\<lparr>checked := (checked f)(w := b)\<rparr>"

definition setCurrent :: "comboBox \<Rightarrow> nat \<Rightarrow> 'a form_scheme \<Rightarrow> 'a form_scheme" where
  "setCurrent w i f = f\<lparr>current := (current f)(w := i)\<rparr>"

definition setEntered :: "lineEdit \<Rightarrow> string \<Rightarrow> 'a form_scheme \<Rightarrow> 'a form_scheme" where
  "setEntered w t f = f\<lparr>entered := (entered f)(w := t)\<rparr>"

definition setOrigin :: "lineEdit \<Rightarrow> string \<Rightarrow> 'a form_scheme \<Rightarrow> 'a form_scheme" where
  "setOrigin w t f = f\<lparr>origin := (origin f)(w := t)\<rparr>"

definition addInline :: "lineEdit \<Rightarrow> string \<Rightarrow> 'a form_scheme \<Rightarrow> 'a form_scheme" where
  "addInline w t f = f\<lparr>inlined := (inlined f)(w := inlined f w @ t)\<rparr>"

text \<open>The dialog as its constructor leaves it; \<open>pathClicked\<close> is written before it is read.\<close>

definition newForm :: form where
  "newForm = \<lparr>checked = (\<lambda>_. False), current = (\<lambda>_. 0), entered = (\<lambda>_. []), remotes = [],
     usesPkcs12 = False, origin = (\<lambda>_. []), inlined = (\<lambda>_. []), pathClicked = 0, lastDir = []\<rparr>"

section \<open>Ciphers\<close>

definition fillCipherCombo :: "string list" where
  "fillCipherCombo = [''Standard'', ''DES-CFB'', ''DES-CBC'', ''RC2-CBC'', ''RC2-CFB'', ''RC2-OFB'',
     ''DES-EDE-CBC'', ''DES-EDE3-CBC'', ''DES-OFB'', ''DES-EDE-CFB'', ''DES-EDE3-CFB'', ''DES-EDE-OFB'',
     ''DES-EDE3-OFB'', ''DESX-CBC'', ''BF-CBC'', ''BF-CFB'', ''BF-OFB'', ''RC2-40-CBC'', ''CAST5-CBC'',
     ''CAST5-CFB'', ''CAST5-OFB'', ''RC2-64-CBC'', ''AES-128-CBC'', ''AES-128-OFB'', ''AES-128-CFB'',
     ''AES-192-CBC'', ''AES-192-OFB'', ''AES-192-CFB'', ''AES-256-CBC'', ''AES-256-OFB'', ''AES-256-CFB'',
     ''AES-128-CFB1'', ''AES-192-CFB1'', ''AES-256-CFB1'', ''AES-128-CFB8'', ''AES-192-CFB8'',
     ''AES-256-CFB8'', ''DES-CFB1'', ''DES-CFB8'']"

definition cipherTable :: "(string \<times> nat) list" where
  "cipherTable = [(''DES-CFB'', 1), (''DES-CBC'', 2), (''RC2-CBC'', 3), (''RC2-CFB'', 4), (''RC2-OFB'', 5),
     (''DES-EDE-CBC'', 6), (''DES-EDE3-CBC'', 7), (''DES-OFB'', 8), (''DES-EDE-CFB'', 9), (''DES-EDE3-CFB'', 10),
     (''DES-EDE-OFB'', 11), (''DES-EDE3-OFB'', 12), (''DESX-CBC'', 13), (''BF-CBC'', 14), (''BF-CFB'', 15),
     (''BF-OFB'', 16), (''RC2-40-CBC'', 17), (''CAST5-CBC'', 18), (''CAST5-CFB'', 19), (''CAST5-OFB'', 20),
     (''RC2-64-CBC'', 21), (''AES-128-CBC'', 22), (''AES-128-OFB'', 23), (''AES-128-CFB'', 24),
     (''AES-192-CBC'', 25), (''AES-192-OFB'', 26), (''AES-192-CFB'', 27), (''AES-256-CBC'', 28),
     (''AES-256-OFB'', 29), (''AES-256-CFB'', 30), (''AES-128-CFB1'', 31), (''AES-192-CFB1'', 32),
     (''AES-256-CFB1'', 33), (''AES-128-CFB8'', 34), (''AES-192-CFB8'', 35), (''AES-256-CFB8'', 36),
     (''DES-CFB1'', 37), (''DES-CFB8'', 38)]"

definition getIndexFromCipher :: "string \<Rightarrow> nat" where
  "getIndexFromCipher cipher = (case map_of cipherTable cipher of Some i \<Rightarrow> i | None \<Rightarrow> 0)"

definition resetFields :: "'a form_scheme \<Rightarrow> 'a form_scheme" where
  "resetFields f = f\<lparr>checked := (\<lambda>_. False), current := (\<lambda>_. 0),
     entered := (\<lambda>w. if w \<in> {TxtPkcs12Path, TxtRemoteIP, TxtRemotePort} then entered f w
       else if w = TxtScriptACDelay then ''5000'' else [])\<rparr>"

section \<open>Reading a configuration\<close>

text \<open>The flags \<open>isClientChecked\<close> and so on of the loop.\<close>

datatype flag = IsClient | IsCA | IsDev | IsMtu | IsFragment | IsMsFix | IsBlockOutsideDns | IsProto | IsFloat
  | IsNobind | IsPersistKey | IsPersistTun | IsCert | IsKey | IsCompLzo | IsVerbose | IsMute | IsNoCache
  | IsRouteMethod | IsRouteDelay | IsDevNode | IsRandomHost | IsResolveHost | IsLinuxUser | IsLinuxGroup
  | IsHttpRetry | IsHttpProxy | IsWirelessMuteWarning | IsCipher | IsCertTyoeServer | IsRedirectGateway | IsPkcs12

record loading = form +
  seen :: "flag \<Rightarrow> bool"

definition mark :: "flag \<Rightarrow> loading \<Rightarrow> loading" where
  "mark g f = f\<lparr>seen := (seen f)(g := True)\<rparr>"

text \<open>A block for an option without a value.\<close>

definition plainOption :: "flag \<Rightarrow> checkBox \<Rightarrow> string \<Rightarrow> string \<Rightarrow> loading \<Rightarrow> loading" where
  "plainOption g w key line f =
     (if seen f g then f
      else if trimmed (toUpper line) = key then setChecked w True (mark g f)
      else setChecked w False f)"

text \<open>Whether the first characters of a line are the key, and the value of a line with two parts.\<close>

definition keyAtStart :: "string \<Rightarrow> string \<Rightarrow> bool" where
  "keyAtStart key line \<longleftrightarrow> trimmed (toUpper (qleft line (int (length key)))) = key"

definition secondOfTwo :: "string \<Rightarrow> string option" where
  "secondOfTwo line = (let keyvalList = splitOn CHR '' '' line in
     if length keyvalList \<noteq> 2 then None else Some (trimmed (keyvalList ! 1)))"

definition textOption :: "flag \<Rightarrow> lineEdit \<Rightarrow> string \<Rightarrow> string \<Rightarrow> loading \<Rightarrow> loading" where
  "textOption g w key line f =
     (if seen f g \<or> \<not> keyAtStart key line then f
      else setEntered w (case secondOfTwo line of None \<Rightarrow> [] | Some v \<Rightarrow> v) (mark g f))"

text \<open>A block with a choice: one value has index 1, all others 2.\<close>

definition choiceOption :: "flag \<Rightarrow> comboBox \<Rightarrow> string \<Rightarrow> string \<Rightarrow> string \<Rightarrow> loading \<Rightarrow> loading" where
  "choiceOption g w key first line f =
     (if seen f g \<or> \<not> keyAtStart key line then f
      else setCurrent w (case secondOfTwo line of None \<Rightarrow> 0 | Some v \<Rightarrow> if toUpper v = first then 1 else 2) (mark g f))"

text \<open>The value of a certificate option. The count for \<open>right\<close> is taken before the line is trimmed.\<close>

definition fileOptionValue :: "string \<Rightarrow> string \<Rightarrow> string" where
  "fileOptionValue key line =
     trimmed (qreplace (qright (trimmed line) (int (length line) - int (length key))) [CHR 0x22] [])"

definition fileOption :: "flag \<Rightarrow> lineEdit \<Rightarrow> string \<Rightarrow> string \<Rightarrow> loading \<Rightarrow> loading" where
  "fileOption g w key line f =
     (if keyAtStart key line
      then (let v = fileOptionValue key line in setOrigin w v (setEntered w v (mark g f))) else f)"

text \<open>An inline block: the line with the end tag, the lines after it and the text collected.\<close>

fun inlineBlock :: "string \<Rightarrow> (string \<Rightarrow> string) \<Rightarrow> string list \<Rightarrow> (string \<times> string list \<times> string) option" where
  "inlineBlock endTag piece [] = None"
| "inlineBlock endTag piece (l # ls) =
     (if startsWithCI l endTag then Some (l, ls, [])
      else (case inlineBlock endTag piece ls of
              None \<Rightarrow> None
            | Some (e, rest, text) \<Rightarrow> Some (e, rest, piece l @ text)))"

definition certPiece :: "string \<Rightarrow> string" where
  "certPiece l = (if l = [] then [] else if startsWithCI l ''-----END CERTIFICATE-----'' then l else l @ [CHR 0x0A])"

definition keyPiece :: "string \<Rightarrow> string" where
  "keyPiece l = (if startsWithCI l ''-----END PRIVATE KEY-----'' then l
     else if startsWithCI l ''-----END RSA PRIVATE KEY-----'' then l else l @ [CHR 0x0A])"

text \<open>The block of a certificate: the current line, the lines after it, the form.\<close>

definition certOption ::
  "flag \<Rightarrow> lineEdit \<Rightarrow> string \<Rightarrow> string \<Rightarrow> string \<Rightarrow> (string \<Rightarrow> string) \<Rightarrow> string \<times> string list \<times> loading \<Rightarrow>
   (string \<times> string list \<times> loading) option" where
  "certOption g w key tag endTag piece = (\<lambda>(line, ls, f).
     if seen f g then Some (line, ls, f)
     else (let f1 = fileOption g w key line f in
           if startsWithCI line tag then
             (case inlineBlock endTag piece ls of
                None \<Rightarrow> None
              | Some (e, rest, text) \<Rightarrow>
                  Some (e, rest, addInline w text (setOrigin w ''inline'' (setEntered w ''inline'' f1))))
           else Some (line, ls, f1)))"

definition pkcsOption :: "string \<Rightarrow> loading \<Rightarrow> loading" where
  "pkcsOption line f = (if seen f IsPkcs12 then f else fileOption IsPkcs12 TxtPkcs12Path ''PKCS12'' line f)"

text \<open>\<open>isRemoteChecked\<close> is never set: every line counts.\<close>

definition remoteOption :: "string \<Rightarrow> loading \<Rightarrow> loading" where
  "remoteOption line f =
     (if qleft (toUpper (trimmed line)) 7 = ''REMOTE '' then
        (let keyvalList = splitOn CHR '' '' line in
         if length keyvalList < 3 then f
         else
           (let unquote = (\<lambda>v. qreplace v [CHR 0x22] []);
                f1 = (if length keyvalList = 4
                      then setCurrent CmbProto (if toUpper (trimmed (keyvalList ! 3)) = ''TCP'' then 1 else 2) f else f)
            in f1\<lparr>remotes := remotes f1 @ [(unquote (keyvalList ! 1), unquote (keyvalList ! 2))]\<rparr>))
      else f)"

definition resolveOption :: "string \<Rightarrow> loading \<Rightarrow> loading" where
  "resolveOption line f =
     (if seen f IsResolveHost then f
      else if keyAtStart ''RESOLVE-RETRY'' line then setChecked CbResolveHostname True (mark IsResolveHost f)
      else setChecked CbResolveHostname False f)"

definition httpRetryOption :: "string \<Rightarrow> loading \<Rightarrow> loading" where
  "httpRetryOption line f =
     (if seen f IsHttpRetry then f
      else if containsCI (qleft (trimmed line) 16) ''HTTP-PROXY-RETRY''
      then setChecked CbHTTPRetry True (mark IsHttpRetry f)
      else setChecked CbHTTPRetry False f)"

definition proxyAuthIndex :: "string \<Rightarrow> nat" where
  "proxyAuthIndex type = (if type = ''STDIN'' then 1 else if type = ''AUTO'' then 2 else if type = ''AUTO-NCT'' then 3 else 0)"

definition authMethodIndex :: "string \<Rightarrow> nat" where
  "authMethodIndex type = (if type = ''BASIC'' then 1 else if type = ''NTLM'' then 2 else 0)"

definition httpProxyOption :: "string \<Rightarrow> loading \<Rightarrow> loading" where
  "httpProxyOption line f =
     (if seen f IsHttpProxy \<or> \<not> containsCI (qleft (trimmed line) 11) ''HTTP-PROXY '' then f
      else
        (let keyvalList = splitOn CHR '' '' line;
             part = (\<lambda>i. if i < length keyvalList then qreplace (keyvalList ! i) [CHR 0x22] [] else [])
         in setCurrent CmbAuthMethod (authMethodIndex (toUpper (part 4)))
              (setCurrent CmbProxyAuth (proxyAuthIndex (toUpper (part 3)))
                (setEntered TxtHTTPPort (part 2) (setEntered TxtHTTPIP (part 1) (mark IsHttpProxy f))))))"

definition cipherOption :: "string \<Rightarrow> loading \<Rightarrow> loading" where
  "cipherOption line f =
     (if seen f IsCipher \<or> \<not> keyAtStart ''CIPHER'' line then f
      else setCurrent CmbChiper (case secondOfTwo line of None \<Rightarrow> 0 | Some v \<Rightarrow> getIndexFromCipher v) (mark IsCipher f))"

text \<open>The blocks between the certificate authority and the certificate.\<close>

definition generalOptions :: "string \<Rightarrow> loading \<Rightarrow> loading" where
  "generalOptions line f =
     (let f = pkcsOption line f;
          f = choiceOption IsDev CmbDev ''DEV'' ''TUN'' line f;
          f = textOption IsMtu TxtMtu ''TUN-MTU'' line f;
          f = textOption IsFragment TxtFragment ''FRAGMENT'' line f;
          f = plainOption IsMsFix CbMsfix ''MSSFIX'' line f;
          f = plainOption IsBlockOutsideDns CbBlockOutsideDns ''BLOCK-OUTSIDE-DNS'' line f;
          f = plainOption IsRedirectGateway CbRedirectGateway ''REDIRECT-GATEWAY'' line f;
          f = choiceOption IsProto CmbProto ''PROTO'' ''TCP'' line f;
          f = plainOption IsFloat CbFloat ''FLOAT'' line f;
          f = remoteOption line f;
          f = plainOption IsNobind CbNobind ''NOBIND'' line f;
          f = plainOption IsPersistKey CbPersistKey ''PERSIST-KEY'' line f
      in plainOption IsPersistTun CbPersistTun ''PERSIST-TUN'' line f)"

text \<open>The blocks after the key.\<close>

definition advancedOptions :: "string \<Rightarrow> loading \<Rightarrow> loading" where
  "advancedOptions line f =
     (let f = plainOption IsCompLzo CbCompLzo ''COMP-LZO'' line f;
          f = textOption IsVerbose TxtVerbose ''VERB'' line f;
          f = textOption IsMute TxtMute ''MUTE'' line f;
          f = plainOption IsNoCache CbNoCache ''AUTH-NOCACHE'' line f;
          f = choiceOption IsRouteMethod CmbRouteMethod ''ROUTE-METHOD'' ''EXE'' line f;
          f = textOption IsRouteDelay TxtRouteDelay ''ROUTE-DELAY'' line f;
          f = textOption IsDevNode TxtDevNode ''DEV-NODE'' line f;
          f = plainOption IsRandomHost CbRandomHost ''REMOTE-RANDOM'' line f;
          f = resolveOption line f;
          f = textOption IsLinuxUser TxtLinuxUser ''USER'' line f;
          f = textOption IsLinuxGroup TxtLinuxGroup ''GROUP'' line f;
          f = httpRetryOption line f;
          f = httpProxyOption line f;
          f = plainOption IsWirelessMuteWarning CbMuteWirelessWarning ''MUTE-REPLAY-WARNINGS'' line f;
          f = cipherOption line f
      in plainOption IsCertTyoeServer CbCertIsServer ''REMOTE-CERT-TLS SERVER'' line f)"

text \<open>One round of the loop.\<close>

definition loadLine :: "string \<Rightarrow> string list \<Rightarrow> loading \<Rightarrow> (string list \<times> loading) option" where
  "loadLine line ls f =
     Option.bind (certOption IsCA TxtCA ''CA'' ''<ca>'' ''</ca>'' certPiece
         (line, ls, plainOption IsClient CbClient ''CLIENT'' line f)) (\<lambda>(line, ls, f).
     Option.bind (certOption IsCert TxtCert ''CERT'' ''<cert>'' ''</cert>'' certPiece
         (line, ls, generalOptions line f)) (\<lambda>(line, ls, f).
     Option.bind (certOption IsKey TxtKey ''KEY'' ''<key>'' ''</key>'' keyPiece (line, ls, f)) (\<lambda>(line, ls, f).
     Some (ls, advancedOptions line f))))"

lemma inlineBlock_shorter: "inlineBlock e piece ls = Some (l, rest, t) \<Longrightarrow> length rest < length ls"
  by (induction ls arbitrary: l rest t) (auto split: if_splits option.splits intro: less_SucI)

lemma certOption_shorter:
  "certOption g w key tag e piece (line, ls, f) = Some (line', ls', f') \<Longrightarrow> length ls' \<le> length ls"
  by (auto simp: certOption_def Let_def split: if_splits option.splits dest: inlineBlock_shorter)

lemma loadLine_shorter: "loadLine line ls f = Some (ls', f') \<Longrightarrow> length ls' \<le> length ls"
  by (auto simp: loadLine_def bind_eq_Some_conv dest!: certOption_shorter)

function loadLines :: "string list \<Rightarrow> loading \<Rightarrow> loading option" where
  "loadLines [] f = Some f"
| "loadLines (line # ls) f = (case loadLine line ls f of None \<Rightarrow> None | Some (ls', f') \<Rightarrow> loadLines ls' f')"
  by pat_completeness auto
termination
  by (relation "measure (\<lambda>(ls, f). length ls)") (auto dest!: loadLine_shorter)

text \<open>The lines of a file opened in text mode.\<close>

definition configLinesOf :: "importEnv \<Rightarrow> library \<Rightarrow> string \<Rightarrow> string list option" where
  "configLinesOf ie l p =
     (case readFile (disk l) p of
        None \<Rightarrow> None
      | Some t \<Rightarrow> if mayRead (access ie) p then Some (textLines (textRead t)) else None)"

definition showScript :: "cenv \<Rightarrow> connectionData \<Rightarrow> string \<Rightarrow> lineEdit \<Rightarrow> 'a form_scheme \<times> client \<Rightarrow> 'a form_scheme \<times> client" where
  "showScript e c type w = (\<lambda>(f, s). case getScript e c type s of (t, s1) \<Rightarrow> (setEntered w t f, s1))"

definition loadScripts :: "cenv \<Rightarrow> connectionData \<Rightarrow> 'a form_scheme \<times> client \<Rightarrow> 'a form_scheme \<times> client" where
  "loadScripts e c fs =
     (case showScript e c ''EC'' TxtErrorConnect (showScript e c ''BD'' TxtBeforeDisconnect
        (showScript e c ''BC'' TxtBeforeConnect (showScript e c ''AD'' TxtAfterDisconnect
          (showScript e c ''AC'' TxtAfterConnect fs)))) of
        (f, s) \<Rightarrow>
          (case getScript e c ''TO'' s of
             (t, s1) \<Rightarrow> if t = [] then (setEntered TxtScriptACDelay ''5000'' f, s1)
                        else showScript e c ''TO'' TxtScriptACDelay (f, s1)))"

definition loadForm :: "string list \<Rightarrow> form \<Rightarrow> loading option" where
  "loadForm ls f =
     loadLines ls (form.extend (setEntered TxtKey [] (setEntered TxtCert [] (setEntered TxtCA [] f)))
       (loading.fields (\<lambda>_. False)))"

definition fillFieldFromConfig :: "importEnv \<Rightarrow> connectionData \<Rightarrow> form \<times> library \<Rightarrow> (form \<times> library) option" where
  "fillFieldFromConfig ie c = (\<lambda>(f, l).
     case configLinesOf ie l (cdConfigPath c) of
       None \<Rightarrow> Some (f, notify ''Unable to read file!'' l)
     | Some ls \<Rightarrow>
         (case loadForm ls f of
            None \<Rightarrow> None
          | Some g \<Rightarrow>
              (case loadScripts (seeing (configs ie) l) c (form.truncate g, app l) of
                 (f1, s1) \<Rightarrow> Some (f1\<lparr>usesPkcs12 := seen g IsPkcs12\<rparr>, l\<lparr>app := s1\<rparr>))))"

definition showEditor :: "importEnv \<Rightarrow> connectionData \<Rightarrow> form \<times> library \<Rightarrow> (form \<times> library) option" where
  "showEditor ie c = (\<lambda>(f, l). fillFieldFromConfig ie c (resetFields (f\<lparr>lastDir := userDir ie\<rparr>), l))"

section \<open>Writing the configuration\<close>

definition headerText :: "string \<Rightarrow> string" where
  "headerText stamp =
     endLine ''##############################################'' @ endLine ''### ''
     @ ''### Configuration file created by Securepoint SSL VPN '' @ endLine stamp
     @ endLine ''### Project website: http://sourceforge.net/projects/securepoint/ ''
     @ endLine ''### Securepoint GmbH, Bleckeder Landstrasse 28, 21337 Lueneburg, Germany; www.securepoint.de ''
     @ endLine ''### '' @ endLine ''### For further information about the configuration file, ''
     @ endLine ''### please visit: http://www.openvpn.net/index.php/open-source/documentation''
     @ endLine ''### '' @ endLine ''##############################################'' @ [CHR 0x0A]"

definition checkText :: "form \<Rightarrow> checkBox \<Rightarrow> string \<Rightarrow> string" where
  "checkText f w t = (if checked f w then endLine t else [])"

definition fieldText :: "form \<Rightarrow> lineEdit \<Rightarrow> string \<Rightarrow> string" where
  "fieldText f w key = (if entered f w \<noteq> [] then key @ CHR '' '' # endLine (entered f w) else [])"

definition choiceText :: "form \<Rightarrow> comboBox \<Rightarrow> string \<Rightarrow> string \<Rightarrow> string" where
  "choiceText f w one two =
     (if current f w = 0 then [] else if current f w = 1 then endLine one else endLine two)"

definition generalText :: "form \<Rightarrow> string" where
  "generalText f =
     checkText f CbClient ''client'' @ checkText f CbFloat ''float'' @ checkText f CbCompLzo ''comp-lzo''
     @ checkText f CbFloat ''float'' @ checkText f CbNobind ''nobind'' @ checkText f CbPersistKey ''persist-key''
     @ checkText f CbPersistTun ''persist-tun'' @ checkText f CbNoCache ''auth-nocache''
     @ choiceText f CmbDev ''dev tun'' ''dev tap'' @ fieldText f TxtMtu ''tun-mtu''
     @ concat (map (\<lambda>(ip, port). ''remote '' @ endLine (ip @ '' '' @ port)) (remotes f))
     @ choiceText f CmbProto ''proto tcp'' ''proto udp''"

text \<open>
  A file that was chosen anew is copied beside the configuration; \<open>QFile::copy\<close> may fail, the
  option is written all the same.
\<close>

definition besideConfig :: "string \<Rightarrow> string \<Rightarrow> string" where
  "besideConfig configPath nameOfFile =
     (let newPath = pathOfFile configPath in
      qarg (qarg ''%1%2'' (if qright newPath 1 = ''/'' then newPath else qarg ''%1/'' newPath)) nameOfFile)"

definition certText :: "string \<Rightarrow> form \<Rightarrow> lineEdit \<Rightarrow> string \<Rightarrow> fsys \<Rightarrow> string \<times> fsys" where
  "certText configPath f w key d =
     (let t = entered f w; q = (\<lambda>v. key @ CHR '' '' # endLine (inQuotes v)) in
      if usesPkcs12 f \<or> t = [] then ([], d)
      else if origin f w \<noteq> t \<and> t \<noteq> ''inline'' then
        (let nameOfFile = fileNameOfAbsolutePath t in
         (q nameOfFile, snd (copyFile t (besideConfig configPath nameOfFile) d)))
      else if t \<noteq> ''inline'' then (q (qreplace t ''/'' [CHR 0x5C, CHR 0x5C]), d)
      else ([], d))"

definition pkcsText :: "string \<Rightarrow> form \<Rightarrow> fsys \<Rightarrow> string \<times> fsys" where
  "pkcsText configPath f d =
     (let t = entered f TxtPkcs12Path in
      if \<not> usesPkcs12 f \<or> t = [] then ([], d)
      else if origin f TxtPkcs12Path \<noteq> t then
        (let nameOfFile = fileNameOfAbsolutePath t in
         (''pkcs12 '' @ endLine (inQuotes nameOfFile), snd (copyFile t (besideConfig configPath nameOfFile) d)))
      else (''pkcs12 '' @ endLine t, d))"

definition httpProxyText :: "form \<Rightarrow> string" where
  "httpProxyText f =
     (if entered f TxtHTTPIP = [] then []
      else
        (let i = current f CmbProxyAuth; j = current f CmbAuthMethod;
             type = (if i = 1 then ''stdin'' else if i = 2 then ''auto'' else if i = 3 then ''auto-nct'' else []);
             method = (if j = 1 then ''basic'' else if j = 2 then ''ntlm'' else [])
         in ''http-proxy '' @ entered f TxtHTTPIP @ '' '' @ entered f TxtHTTPPort
            @ (if type \<noteq> [] then '' '' else []) @ type @ (if method \<noteq> [] then '' '' else []) @ endLine method))"

definition advancedText :: "form \<Rightarrow> string" where
  "advancedText f =
     (if \<not> usesPkcs12 f then checkText f CbCertIsServer ''remote-cert-tls server'' else [])
     @ fieldText f TxtLinuxUser ''user'' @ fieldText f TxtLinuxGroup ''group'' @ checkText f CbMsfix ''mssfix''
     @ checkText f CbBlockOutsideDns ''block-outside-dns'' @ fieldText f TxtFragment ''fragment''
     @ choiceText f CmbRouteMethod ''route-method exe'' ''route-method ipapi'' @ fieldText f TxtDevNode ''dev-node''
     @ fieldText f TxtVerbose ''verb'' @ fieldText f TxtRouteDelay ''route-delay'' @ fieldText f TxtMute ''mute''
     @ checkText f CbRandomHost ''remote-random'' @ checkText f CbResolveHostname ''resolve-retry infinite''
     @ checkText f CbHTTPRetry ''http-proxy-retry'' @ httpProxyText f
     @ checkText f CbMuteWirelessWarning ''mute-replay-warnings''
     @ (if current f CmbChiper \<noteq> 0 then ''cipher '' @ endLine (fillCipherCombo ! current f CmbChiper) else [])
     @ checkText f CbRedirectGateway ''redirect-gateway''"

text \<open>An inline block is written whichever radio button is on; its tags are added where they are missing.\<close>

definition withTag :: "form \<Rightarrow> lineEdit \<Rightarrow> string \<Rightarrow> form" where
  "withTag f w tag =
     (if entered f w = ''inline'' \<and> \<not> containsCI (inlined f w) tag
      then f\<lparr>inlined := (inlined f)(w := endLine tag @ inlined f w)\<rparr> else f)"

definition inlineText :: "form \<Rightarrow> lineEdit \<Rightarrow> string \<Rightarrow> string" where
  "inlineText f w endTag =
     (if entered f w = ''inline''
      then inlined f w @ (if containsCI (inlined f w) endTag then [] else CHR 0x0A # endTag) @ [CHR 0x0A]
      else [])"

section \<open>Options the form does not know\<close>

definition upperStart :: "string \<Rightarrow> string \<Rightarrow> bool" where
  "upperStart key line \<longleftrightarrow> toUpper (qleft (trimmed line) (int (length key))) = key"

definition formStarts :: "string list" where
  "formStarts = [''###'', ''#FIELDS WHICH'', ''CA'', ''PKCS12'', ''DEV'', ''TUN-MTU'', ''FRAGMENT'', ''PROTO'',
     ''REMOTE '', ''CERT'', ''KEY'', ''VERB'', ''MUTE'', ''ROUTE-METHOD'', ''ROUTE-DELAY'', ''DEV-NODE'',
     ''RESOLVE-RETRY'', ''USER'', ''GROUP'', ''CIPHER'']"

definition formWords :: "string list" where
  "formWords = [[], ''CLIENT'', ''MSSFIX'', ''BLOCK-OUTSIDE-DNS'', ''REDIRECT-GATEWAY'', ''FLOAT'', ''NOBIND'',
     ''PERSIST-KEY'', ''PERSIST-TUN'', ''COMP-LZO'', ''AUTH-NOCACHE'', ''REMOTE-RANDOM'',
     ''MUTE-REPLAY-WARNINGS'', ''REMOTE-CERT-TLS SERVER'']"

definition inForm :: "string \<Rightarrow> bool" where
  "inForm line \<longleftrightarrow>
     list_ex (\<lambda>key. upperStart key line) formStarts \<or> toUpper (trimmed line) \<in> set formWords
     \<or> containsCI (qleft (trimmed line) 16) ''HTTP-PROXY-RETRY'' \<or> containsCI (qleft (trimmed line) 11) ''HTTP-PROXY ''"

text \<open>The first argument is the end tag that is awaited inside an inline block.\<close>

fun otherLines :: "string option \<Rightarrow> string list \<Rightarrow> string list option" where
  "otherLines None [] = Some []"
| "otherLines (Some endTag) [] = None"
| "otherLines (Some endTag) (line # ls) =
     (if startsWithCI line endTag then otherLines None ls else otherLines (Some endTag) ls)"
| "otherLines None (line # ls) =
     (if inForm line then otherLines None ls
      else if startsWithCI line ''<ca>'' then otherLines (Some ''</ca>'') ls
      else if startsWithCI line ''<cert>'' then otherLines (Some ''</cert>'') ls
      else if startsWithCI line ''<key>'' then otherLines (Some ''</key>'') ls
      else map_option ((#) line) (otherLines None ls))"

definition getAllFieldWhichNotIntoTheInterface ::
  "importEnv \<Rightarrow> connectionData \<Rightarrow> library \<Rightarrow> (string list \<times> library) option" where
  "getAllFieldWhichNotIntoTheInterface ie c l =
     (case configLinesOf ie l (cdConfigPath c) of
        None \<Rightarrow> Some ([], notify ''Unable to read file!'' l)
      | Some ls \<Rightarrow> map_option (\<lambda>fields. (fields, l)) (otherLines None ls))"

section \<open>Saving\<close>

definition othersText :: "string list \<Rightarrow> string" where
  "othersText oldFields =
     (if oldFields = [] then []
      else CHR 0x0A # endLine ''#Fields which could be not manage wih GUI '' @ CHR 0x0A # joinWith [CHR 0x0A] oldFields)"

text \<open>The text the form stands for, without the other options, and the disk after the copies.\<close>

definition certTexts :: "string \<Rightarrow> form \<Rightarrow> fsys \<Rightarrow> string \<times> fsys" where
  "certTexts configPath f d =
     (case certText configPath f TxtCA ''ca'' d of (ca, d) \<Rightarrow>
      case certText configPath f TxtCert ''cert'' d of (cert, d) \<Rightarrow>
      case certText configPath f TxtKey ''key'' d of (key, d) \<Rightarrow>
      case pkcsText configPath f d of (pkcs, d) \<Rightarrow> (ca @ cert @ key @ pkcs, d))"

definition withTags :: "form \<Rightarrow> form" where
  "withTags f = withTag (withTag (withTag f TxtCA ''<ca>'') TxtCert ''<cert>'') TxtKey ''<key>''"

definition inlineTexts :: "form \<Rightarrow> string" where
  "inlineTexts f = inlineText f TxtCA ''</ca>'' @ inlineText f TxtCert ''</cert>'' @ inlineText f TxtKey ''</key>''"

definition formText :: "string \<Rightarrow> string \<Rightarrow> form \<Rightarrow> fsys \<Rightarrow> string \<times> fsys" where
  "formText stamp configPath f d =
     (case certTexts configPath f d of
        (certs, d1) \<Rightarrow>
          (headerText stamp @ generalText f @ certs @ advancedText f @ inlineTexts (withTags f), d1))"

definition scriptText :: "form \<Rightarrow> lineEdit \<Rightarrow> string \<Rightarrow> string" where
  "scriptText f w type = (if entered f w \<noteq> [] then type @ CHR '':'' # endLine (entered f w) else [])"

definition scriptsText :: "form \<Rightarrow> string" where
  "scriptsText f =
     (if entered f TxtAfterConnect \<noteq> []
      then scriptText f TxtAfterConnect ''AC'' @ scriptText f TxtScriptACDelay ''TO'' else [])
     @ scriptText f TxtAfterDisconnect ''AD'' @ scriptText f TxtBeforeConnect ''BC''
     @ scriptText f TxtBeforeDisconnect ''BD'' @ scriptText f TxtErrorConnect ''EC''"

text \<open>A file without a script is deleted again; deleting it is taken to succeed.\<close>

definition saveScripts :: "importEnv \<Rightarrow> connectionData \<Rightarrow> form \<Rightarrow> library \<Rightarrow> library" where
  "saveScripts ie c f l =
     (let p = dirOf c @ ''/scripts.conf'' in
      if \<not> mayWrite (access ie) p then notify ''Unable to open file!'' l
      else if scriptsText f = [] then l\<lparr>disk := removeFile p (disk l)\<rparr>
      else l\<lparr>disk := writeFile p (textMode (scriptsText f)) (disk l)\<rparr>)"

definition saveEditor :: "importEnv \<Rightarrow> string \<Rightarrow> connectionData \<Rightarrow> form \<times> library \<Rightarrow> (form \<times> library) option" where
  "saveEditor ie stamp c = (\<lambda>(f, l).
     let p = cdConfigPath c in
     case formText stamp p f (disk l) of
       (text, d1) \<Rightarrow>
         (case getAllFieldWhichNotIntoTheInterface ie c (l\<lparr>disk := d1\<rparr>) of
            None \<Rightarrow> None
          | Some (oldFields, l1) \<Rightarrow>
              (let content = text @ othersText oldFields in
               if \<not> mayWrite (access ie) p then Some (withTags f, notify ''Unable to open file!'' l1)
               else
                 (let l2 = l1\<lparr>disk := writeFile p (textMode (endLine content)) (disk l1)\<rparr>;
                      l3 = onApp (createNewChecksum (ui (configs ie)) (base64OfContent content) (cdId c) p) l2
                  in Some (withTags f, saveScripts ie c f l3)))))"

section \<open>The other buttons\<close>

definition choosePath :: "lineEdit \<Rightarrow> connectionData \<Rightarrow> string \<Rightarrow> form \<Rightarrow> form" where
  "choosePath w c filename f =
     (if filename = [] then f
      else
        (let lastSlash = lastIndexOf filename CHR ''/'';
             filepath = qleft filename lastSlash;
             f1 = f\<lparr>lastDir := filepath\<rparr>
         in if toLower (native filepath) = native (toLower (dirOf c))
            then setEntered w (qright filename (int (length filename) - lastSlash - 1)) f1
            else setEntered w filename f1))"

definition chooseScript :: "lineEdit \<Rightarrow> string \<Rightarrow> form \<Rightarrow> form" where
  "chooseScript w filename f = (if filename = [] then f else setEntered w filename f)"

definition setPathInline :: "form \<Rightarrow> form" where
  "setPathInline f =
     (if pathClicked f = 1 then setEntered TxtCA ''inline'' f
      else if pathClicked f = 2 then setEntered TxtCert ''inline'' f
      else if pathClicked f = 3 then setEntered TxtKey ''inline'' f else f)"

text \<open>The window for an inline text: what it is saved with (\<open>Some\<close>), or closed.\<close>

definition inlineClick :: "lineEdit \<Rightarrow> int" where
  "inlineClick w = (if w = TxtCA then 1 else if w = TxtCert then 2 else 3)"

definition editInline :: "lineEdit \<Rightarrow> string option \<Rightarrow> form \<Rightarrow> form" where
  "editInline w result f =
     (let f1 = f\<lparr>pathClicked := inlineClick w\<rparr> in
      case result of None \<Rightarrow> f1 | Some text \<Rightarrow> setPathInline (f1\<lparr>inlined := (inlined f1)(w := text)\<rparr>))"

definition addRemote :: "form \<Rightarrow> form" where
  "addRemote f =
     (if entered f TxtRemoteIP = [] then f
      else setEntered TxtRemoteIP [] (setEntered TxtRemotePort []
        (f\<lparr>remotes := remotes f @ [(entered f TxtRemoteIP, entered f TxtRemotePort)]\<rparr>)))"

definition removeRow :: "nat \<Rightarrow> 'a list \<Rightarrow> 'a list" where
  "removeRow i l = (if i < length l then take i l @ drop (Suc i) l else l)"

definition removeRemotes :: "nat list \<Rightarrow> form \<Rightarrow> form" where
  "removeRemotes selected f = f\<lparr>remotes := fold removeRow (rev selected) (remotes f)\<rparr>"

definition togglePkcs :: "bool \<Rightarrow> form \<Rightarrow> form" where
  "togglePkcs b f = f\<lparr>usesPkcs12 := b\<rparr>"

end
