(* ===== verification/AdvConfigFacts.thy ===== *)
theory AdvConfigFacts
  imports AdvConfig
begin

text \<open>
  How the editor reads a configuration: every block of the loop changes its own widget only, so
  that the fold over the lines can be read off widget by widget.
\<close>

section \<open>What a block changes\<close>

named_theorems form_simps

lemma set_simps [form_simps]:
  "checked (setChecked w b f) w' = (if w' = w then b else checked f w')"
  "checked (setCurrent v i f) = checked f" "checked (setEntered u t f) = checked f"
  "checked (setOrigin u t f) = checked f" "checked (addInline u t f) = checked f" "checked (mark g h) = checked h"
  "current (setChecked w b f) = current f" "current (setCurrent v i f) v' = (if v' = v then i else current f v')"
  "current (setEntered u t f) = current f" "current (setOrigin u t f) = current f"
  "current (addInline u t f) = current f" "current (mark g h) = current h"
  "entered (setChecked w b f) = entered f" "entered (setCurrent v i f) = entered f"
  "entered (setEntered u t f) u' = (if u' = u then t else entered f u')"
  "entered (setOrigin u t f) = entered f" "entered (addInline u t f) = entered f" "entered (mark g h) = entered h"
  "remotes (setChecked w b f) = remotes f" "remotes (setCurrent v i f) = remotes f"
  "remotes (setEntered u t f) = remotes f" "remotes (setOrigin u t f) = remotes f"
  "remotes (addInline u t f) = remotes f" "remotes (mark g h) = remotes h"
  "origin (setChecked w b f) = origin f" "origin (setCurrent v i f) = origin f" "origin (setEntered u t f) = origin f"
  "origin (setOrigin u t f) u' = (if u' = u then t else origin f u')"
  "origin (addInline u t f) = origin f" "origin (mark g h) = origin h"
  "inlined (setChecked w b f) = inlined f" "inlined (setCurrent v i f) = inlined f"
  "inlined (setEntered u t f) = inlined f" "inlined (setOrigin u t f) = inlined f"
  "inlined (addInline u t f) u' = (if u' = u then inlined f u @ t else inlined f u')" "inlined (mark g h) = inlined h"
  "seen (setChecked w b h) = seen h" "seen (setCurrent v i h) = seen h" "seen (setEntered u t h) = seen h"
  "seen (setOrigin u t h) = seen h" "seen (addInline u t h) = seen h"
  "seen (mark g h) g' \<longleftrightarrow> g' = g \<or> seen h g'"
  by (simp_all add: setChecked_def setCurrent_def setEntered_def setOrigin_def addInline_def mark_def)

lemma rest_simps [form_simps]:
  "usesPkcs12 (setChecked w b f) = usesPkcs12 f" "usesPkcs12 (setCurrent v i f) = usesPkcs12 f"
  "usesPkcs12 (setEntered u t f) = usesPkcs12 f" "usesPkcs12 (setOrigin u t f) = usesPkcs12 f"
  "usesPkcs12 (addInline u t f) = usesPkcs12 f" "usesPkcs12 (mark g h) = usesPkcs12 h"
  "pathClicked (setChecked w b f) = pathClicked f" "pathClicked (setCurrent v i f) = pathClicked f"
  "pathClicked (setEntered u t f) = pathClicked f" "pathClicked (setOrigin u t f) = pathClicked f"
  "pathClicked (addInline u t f) = pathClicked f" "pathClicked (mark g h) = pathClicked h"
  "lastDir (setChecked w b f) = lastDir f" "lastDir (setCurrent v i f) = lastDir f"
  "lastDir (setEntered u t f) = lastDir f" "lastDir (setOrigin u t f) = lastDir f"
  "lastDir (addInline u t f) = lastDir f" "lastDir (mark g h) = lastDir h"
  by (simp_all add: setChecked_def setCurrent_def setEntered_def setOrigin_def addInline_def mark_def)

definition isWord :: "string \<Rightarrow> string \<Rightarrow> bool" where
  "isWord key line \<longleftrightarrow> trimmed (toUpper line) = key"

definition textValue :: "string \<Rightarrow> string" where
  "textValue line = (case secondOfTwo line of None \<Rightarrow> [] | Some v \<Rightarrow> v)"

definition choiceValue :: "string \<Rightarrow> string \<Rightarrow> nat" where
  "choiceValue first line = (case secondOfTwo line of None \<Rightarrow> 0 | Some v \<Rightarrow> if toUpper v = first then 1 else 2)"

lemma plainOption_simps [form_simps]:
  "seen (plainOption g w key l h) g' \<longleftrightarrow> seen h g' \<or> (g' = g \<and> isWord key l)"
  "checked (plainOption g w key l h) w' = (if w' = w \<and> \<not> seen h g then isWord key l else checked h w')"
  "current (plainOption g w key l h) = current h" "entered (plainOption g w key l h) = entered h"
  "remotes (plainOption g w key l h) = remotes h" "origin (plainOption g w key l h) = origin h"
  "inlined (plainOption g w key l h) = inlined h" "usesPkcs12 (plainOption g w key l h) = usesPkcs12 h"
  "pathClicked (plainOption g w key l h) = pathClicked h" "lastDir (plainOption g w key l h) = lastDir h"
  by (auto simp: plainOption_def form_simps isWord_def)

lemma textOption_simps [form_simps]:
  "seen (textOption g w key l h) g' \<longleftrightarrow> seen h g' \<or> (g' = g \<and> keyAtStart key l)"
  "entered (textOption g w key l h) w' = (if w' = w \<and> \<not> seen h g \<and> keyAtStart key l then textValue l else entered h w')"
  "checked (textOption g w key l h) = checked h" "current (textOption g w key l h) = current h"
  "remotes (textOption g w key l h) = remotes h" "origin (textOption g w key l h) = origin h"
  "inlined (textOption g w key l h) = inlined h" "usesPkcs12 (textOption g w key l h) = usesPkcs12 h"
  "pathClicked (textOption g w key l h) = pathClicked h" "lastDir (textOption g w key l h) = lastDir h"
  by (auto simp: textOption_def form_simps textValue_def)

lemma choiceOption_simps [form_simps]:
  "seen (choiceOption g v key one l h) g' \<longleftrightarrow> seen h g' \<or> (g' = g \<and> keyAtStart key l)"
  "current (choiceOption g v key one l h) v' =
     (if v' = v \<and> \<not> seen h g \<and> keyAtStart key l then choiceValue one l else current h v')"
  "checked (choiceOption g v key one l h) = checked h" "entered (choiceOption g v key one l h) = entered h"
  "remotes (choiceOption g v key one l h) = remotes h" "origin (choiceOption g v key one l h) = origin h"
  "inlined (choiceOption g v key one l h) = inlined h" "usesPkcs12 (choiceOption g v key one l h) = usesPkcs12 h"
  "pathClicked (choiceOption g v key one l h) = pathClicked h" "lastDir (choiceOption g v key one l h) = lastDir h"
  by (auto simp: choiceOption_def form_simps choiceValue_def)

text \<open>A certificate option on a line without the tag.\<close>

definition fileStep :: "flag \<Rightarrow> lineEdit \<Rightarrow> string \<Rightarrow> string \<Rightarrow> loading \<Rightarrow> loading" where
  "fileStep g w key line f = (if seen f g then f else fileOption g w key line f)"

lemma fileStep_simps [form_simps]:
  "seen (fileStep g w key l h) g' \<longleftrightarrow> seen h g' \<or> (g' = g \<and> keyAtStart key l)"
  "entered (fileStep g w key l h) w' =
     (if w' = w \<and> \<not> seen h g \<and> keyAtStart key l then fileOptionValue key l else entered h w')"
  "origin (fileStep g w key l h) w' =
     (if w' = w \<and> \<not> seen h g \<and> keyAtStart key l then fileOptionValue key l else origin h w')"
  "checked (fileStep g w key l h) = checked h" "current (fileStep g w key l h) = current h"
  "remotes (fileStep g w key l h) = remotes h" "inlined (fileStep g w key l h) = inlined h"
  "usesPkcs12 (fileStep g w key l h) = usesPkcs12 h" "pathClicked (fileStep g w key l h) = pathClicked h"
  "lastDir (fileStep g w key l h) = lastDir h"
  by (auto simp: fileStep_def fileOption_def form_simps Let_def)

lemma pkcsOption_step: "pkcsOption l h = fileStep IsPkcs12 TxtPkcs12Path ''PKCS12'' l h"
  by (simp add: pkcsOption_def fileStep_def)

definition unquoted :: "string \<Rightarrow> string" where
  "unquoted v = qreplace v [CHR 0x22] []"

definition isRemote :: "string \<Rightarrow> bool" where
  "isRemote line \<longleftrightarrow> qleft (toUpper (trimmed line)) 7 = ''REMOTE '' \<and> 3 \<le> length (splitOn CHR '' '' line)"

definition remoteValue :: "string \<Rightarrow> string \<times> string" where
  "remoteValue line = (unquoted (splitOn CHR '' '' line ! 1), unquoted (splitOn CHR '' '' line ! 2))"

definition protoOfRemote :: "string \<Rightarrow> nat" where
  "protoOfRemote line = (if toUpper (trimmed (splitOn CHR '' '' line ! 3)) = ''TCP'' then 1 else 2)"

lemma remoteOption_simps [form_simps]:
  "seen (remoteOption l h) = seen h"
  "current (remoteOption l h) v =
     (if v = CmbProto \<and> isRemote l \<and> length (splitOn CHR '' '' l) = 4 then protoOfRemote l else current h v)"
  "remotes (remoteOption l h) = remotes h @ (if isRemote l then [remoteValue l] else [])"
  "checked (remoteOption l h) = checked h" "entered (remoteOption l h) = entered h"
  "origin (remoteOption l h) = origin h" "inlined (remoteOption l h) = inlined h"
  "usesPkcs12 (remoteOption l h) = usesPkcs12 h" "pathClicked (remoteOption l h) = pathClicked h"
  "lastDir (remoteOption l h) = lastDir h"
  by (auto simp: remoteOption_def form_simps isRemote_def remoteValue_def protoOfRemote_def unquoted_def Let_def)

definition isHttpRetry :: "string \<Rightarrow> bool" where
  "isHttpRetry line \<longleftrightarrow> containsCI (qleft (trimmed line) 16) ''HTTP-PROXY-RETRY''"

definition isHttpProxy :: "string \<Rightarrow> bool" where
  "isHttpProxy line \<longleftrightarrow> containsCI (qleft (trimmed line) 11) ''HTTP-PROXY ''"

definition proxyPart :: "nat \<Rightarrow> string \<Rightarrow> string" where
  "proxyPart i line = (let ws = splitOn CHR '' '' line in if i < length ws then unquoted (ws ! i) else [])"

lemma http_simps [form_simps]:
  "seen (resolveOption l h) g \<longleftrightarrow> seen h g \<or> (g = IsResolveHost \<and> keyAtStart ''RESOLVE-RETRY'' l)"
  "checked (resolveOption l h) w =
     (if w = CbResolveHostname \<and> \<not> seen h IsResolveHost then keyAtStart ''RESOLVE-RETRY'' l else checked h w)"
  "seen (httpRetryOption l h) g \<longleftrightarrow> seen h g \<or> (g = IsHttpRetry \<and> isHttpRetry l)"
  "checked (httpRetryOption l h) w = (if w = CbHTTPRetry \<and> \<not> seen h IsHttpRetry then isHttpRetry l else checked h w)"
  "seen (httpProxyOption l h) g \<longleftrightarrow> seen h g \<or> (g = IsHttpProxy \<and> isHttpProxy l)"
  "checked (httpProxyOption l h) = checked h"
  "current (resolveOption l h) = current h" "current (httpRetryOption l h) = current h"
  "current (httpProxyOption l h) v =
     (if \<not> seen h IsHttpProxy \<and> isHttpProxy l
      then (if v = CmbProxyAuth then proxyAuthIndex (toUpper (proxyPart 3 l))
            else if v = CmbAuthMethod then authMethodIndex (toUpper (proxyPart 4 l)) else current h v)
      else current h v)"
  "entered (resolveOption l h) = entered h" "entered (httpRetryOption l h) = entered h"
  "entered (httpProxyOption l h) u =
     (if \<not> seen h IsHttpProxy \<and> isHttpProxy l
      then (if u = TxtHTTPIP then proxyPart 1 l else if u = TxtHTTPPort then proxyPart 2 l else entered h u)
      else entered h u)"
  "remotes (resolveOption l h) = remotes h" "remotes (httpRetryOption l h) = remotes h" "remotes (httpProxyOption l h) = remotes h"
  "origin (resolveOption l h) = origin h" "origin (httpRetryOption l h) = origin h" "origin (httpProxyOption l h) = origin h"
  "inlined (resolveOption l h) = inlined h" "inlined (httpRetryOption l h) = inlined h" "inlined (httpProxyOption l h) = inlined h"
  by (auto simp: resolveOption_def httpRetryOption_def httpProxyOption_def form_simps isHttpRetry_def isHttpProxy_def
      proxyPart_def unquoted_def Let_def)

lemma http_rest_simps [form_simps]:
  "usesPkcs12 (resolveOption l h) = usesPkcs12 h" "usesPkcs12 (httpRetryOption l h) = usesPkcs12 h"
  "usesPkcs12 (httpProxyOption l h) = usesPkcs12 h" "pathClicked (resolveOption l h) = pathClicked h"
  "pathClicked (httpRetryOption l h) = pathClicked h" "pathClicked (httpProxyOption l h) = pathClicked h"
  "lastDir (resolveOption l h) = lastDir h" "lastDir (httpRetryOption l h) = lastDir h"
  "lastDir (httpProxyOption l h) = lastDir h"
  by (auto simp: resolveOption_def httpRetryOption_def httpProxyOption_def form_simps Let_def)

definition cipherValue :: "string \<Rightarrow> nat" where
  "cipherValue line = (case secondOfTwo line of None \<Rightarrow> 0 | Some v \<Rightarrow> getIndexFromCipher v)"

lemma cipherOption_simps [form_simps]:
  "seen (cipherOption l h) g \<longleftrightarrow> seen h g \<or> (g = IsCipher \<and> keyAtStart ''CIPHER'' l)"
  "current (cipherOption l h) v =
     (if v = CmbChiper \<and> \<not> seen h IsCipher \<and> keyAtStart ''CIPHER'' l then cipherValue l else current h v)"
  "checked (cipherOption l h) = checked h" "entered (cipherOption l h) = entered h" "remotes (cipherOption l h) = remotes h"
  "origin (cipherOption l h) = origin h" "inlined (cipherOption l h) = inlined h"
  "usesPkcs12 (cipherOption l h) = usesPkcs12 h" "pathClicked (cipherOption l h) = pathClicked h"
  "lastDir (cipherOption l h) = lastDir h"
  by (auto simp: cipherOption_def form_simps cipherValue_def)

section \<open>A line outside the inline blocks\<close>

definition untagged :: "string \<Rightarrow> bool" where
  "untagged line \<longleftrightarrow> \<not> startsWithCI line ''<ca>'' \<and> \<not> startsWithCI line ''<cert>'' \<and> \<not> startsWithCI line ''<key>''"

definition plainLine :: "string \<Rightarrow> loading \<Rightarrow> loading" where
  "plainLine line f =
     advancedOptions line (fileStep IsKey TxtKey ''KEY'' line (fileStep IsCert TxtCert ''CERT'' line
       (generalOptions line (fileStep IsCA TxtCA ''CA'' line (plainOption IsClient CbClient ''CLIENT'' line f)))))"

lemma certOption_untagged:
  "\<not> startsWithCI line tag \<Longrightarrow>
    certOption g w key tag e piece (line, ls, f) = Some (line, ls, fileStep g w key line f)"
  by (simp add: certOption_def fileStep_def Let_def)

lemma loadLines_untagged: "untagged line \<Longrightarrow> loadLines (line # ls) f = loadLines ls (plainLine line f)"
  by (simp add: loadLine_def untagged_def certOption_untagged plainLine_def)

lemma loadLines_plain: "list_all untagged xs \<Longrightarrow> loadLines (xs @ ys) f = loadLines ys (fold plainLine xs f)"
  by (induction xs arbitrary: f) (simp_all add: loadLines_untagged del: loadLines.simps(2))

text \<open>A reader of one flag and one widget: the widget changes with the first line that matches.\<close>

definition firstStep :: "('l \<Rightarrow> bool) \<Rightarrow> ('l \<Rightarrow> 'v) \<Rightarrow> 'l \<Rightarrow> bool \<times> 'v \<Rightarrow> bool \<times> 'v" where
  "firstStep m v l = (\<lambda>(b, x). if b \<or> \<not> m l then (b, x) else (True, v l))"

definition firstValue :: "('l \<Rightarrow> bool) \<Rightarrow> ('l \<Rightarrow> 'v) \<Rightarrow> 'v \<Rightarrow> 'l list \<Rightarrow> 'v" where
  "firstValue m v d ls = (case find m ls of None \<Rightarrow> d | Some l \<Rightarrow> v l)"

lemma fold_project:
  assumes "\<And>l f. p (step l f) = s l (p f)"
  shows "p (fold step ls f) = fold s ls (p f)"
  by (induction ls arbitrary: f) (simp_all add: assms)

lemma fold_firstStep:
  "fold (firstStep m v) ls (b, x) = (if b then (b, x) else (list_ex m ls, firstValue m v x ls))"
  by (induction ls arbitrary: b x) (auto simp: firstStep_def firstValue_def)

lemma read_first:
  assumes "\<And>l f. (seen (step l f) g, q (step l f)) = firstStep m v l (seen f g, q f)" and "\<not> seen f g"
  shows "seen (fold step ls f) g \<longleftrightarrow> list_ex m ls" "q (fold step ls f) = firstValue m v (q f) ls"
proof -
  have "(seen (fold step ls f) g, q (fold step ls f)) = (list_ex m ls, firstValue m v (q f) ls)"
    using fold_project [where p = "\<lambda>f. (seen f g, q f)" and step = step and s = "firstStep m v", OF assms(1)] assms(2) by (simp add: fold_firstStep)
  then show "seen (fold step ls f) g \<longleftrightarrow> list_ex m ls" "q (fold step ls f) = firstValue m v (q f) ls" by simp_all
qed

text \<open>A check box is off until its line comes.\<close>

definition checkStep :: "('l \<Rightarrow> bool) \<Rightarrow> 'l \<Rightarrow> bool \<times> bool \<Rightarrow> bool \<times> bool" where
  "checkStep m l = (\<lambda>(b, x). if b then (b, x) else (m l, m l))"

lemma read_check:
  assumes "\<And>l f. (seen (step l f) g, q (step l f)) = checkStep m l (seen f g, q f)" and "\<not> seen f g" and "\<not> q f"
  shows "q (fold step ls f) \<longleftrightarrow> list_ex m ls"
proof -
  have c: "fold (checkStep m) ls (b, b) = (b \<or> list_ex m ls, b \<or> list_ex m ls)" for b
    by (induction ls arbitrary: b) (auto simp: checkStep_def)
  show ?thesis
    using fold_project [where p = "\<lambda>f. (seen f g, q f)" and step = step and s = "checkStep m", OF assms(1), of ls f] assms(2,3) c [of False] by simp
qed

lemmas line_defs = plainLine_def generalOptions_def advancedOptions_def pkcsOption_step

section \<open>The form a configuration shows\<close>

text \<open>The line an option without a value is recognised by.\<close>

fun checkMatch :: "checkBox \<Rightarrow> string \<Rightarrow> bool" where
  "checkMatch CbClient = isWord ''CLIENT''" | "checkMatch CbFloat = isWord ''FLOAT''"
| "checkMatch CbCompLzo = isWord ''COMP-LZO''" | "checkMatch CbNobind = isWord ''NOBIND''"
| "checkMatch CbPersistKey = isWord ''PERSIST-KEY''" | "checkMatch CbPersistTun = isWord ''PERSIST-TUN''"
| "checkMatch CbNoCache = isWord ''AUTH-NOCACHE''" | "checkMatch CbRedirectGateway = isWord ''REDIRECT-GATEWAY''"
| "checkMatch CbCertIsServer = isWord ''REMOTE-CERT-TLS SERVER''" | "checkMatch CbMsfix = isWord ''MSSFIX''"
| "checkMatch CbBlockOutsideDns = isWord ''BLOCK-OUTSIDE-DNS''" | "checkMatch CbRandomHost = isWord ''REMOTE-RANDOM''"
| "checkMatch CbResolveHostname = keyAtStart ''RESOLVE-RETRY''" | "checkMatch CbHTTPRetry = isHttpRetry"
| "checkMatch CbMuteWirelessWarning = isWord ''MUTE-REPLAY-WARNINGS''"

definition isProtoRemote :: "string \<Rightarrow> bool" where
  "isProtoRemote l \<longleftrightarrow> isRemote l \<and> length (splitOn CHR '' '' l) = 4"

text \<open>The protocol: of the \<open>proto\<close> lines the first counts, of the \<open>remote\<close> lines every one with a fourth part.\<close>

fun protoShown :: "bool \<Rightarrow> nat \<Rightarrow> string list \<Rightarrow> nat" where
  "protoShown b i [] = i"
| "protoShown b i (l # ls) =
     (let i = (if \<not> b \<and> keyAtStart ''PROTO'' l then choiceValue ''TCP'' l else i);
          i = (if isProtoRemote l then protoOfRemote l else i)
      in protoShown (b \<or> keyAtStart ''PROTO'' l) i ls)"

fun choiceShown :: "string list \<Rightarrow> (comboBox \<Rightarrow> nat) \<Rightarrow> comboBox \<Rightarrow> nat" where
  "choiceShown ls old CmbDev = firstValue (keyAtStart ''DEV'') (choiceValue ''TUN'') (old CmbDev) ls"
| "choiceShown ls old CmbProto = protoShown False (old CmbProto) ls"
| "choiceShown ls old CmbRouteMethod = firstValue (keyAtStart ''ROUTE-METHOD'') (choiceValue ''EXE'') (old CmbRouteMethod) ls"
| "choiceShown ls old CmbProxyAuth = firstValue isHttpProxy (\<lambda>l. proxyAuthIndex (toUpper (proxyPart 3 l))) (old CmbProxyAuth) ls"
| "choiceShown ls old CmbAuthMethod = firstValue isHttpProxy (\<lambda>l. authMethodIndex (toUpper (proxyPart 4 l))) (old CmbAuthMethod) ls"
| "choiceShown ls old CmbChiper = firstValue (keyAtStart ''CIPHER'') cipherValue (old CmbChiper) ls"

fun fileKey :: "lineEdit \<Rightarrow> string" where
  "fileKey TxtCA = ''CA''" | "fileKey TxtCert = ''CERT''" | "fileKey TxtKey = ''KEY''" | "fileKey TxtPkcs12Path = ''PKCS12''"
| "fileKey w = []"

fun textKey :: "lineEdit \<Rightarrow> string" where
  "textKey TxtMtu = ''TUN-MTU''" | "textKey TxtLinuxUser = ''USER''" | "textKey TxtLinuxGroup = ''GROUP''"
| "textKey TxtFragment = ''FRAGMENT''" | "textKey TxtDevNode = ''DEV-NODE''" | "textKey TxtVerbose = ''VERB''"
| "textKey TxtRouteDelay = ''ROUTE-DELAY''" | "textKey TxtMute = ''MUTE''" | "textKey w = []"

definition textShown :: "string list \<Rightarrow> (lineEdit \<Rightarrow> string) \<Rightarrow> lineEdit \<Rightarrow> string" where
  "textShown ls old w =
     (if fileKey w \<noteq> [] then firstValue (keyAtStart (fileKey w)) (fileOptionValue (fileKey w)) (old w) ls
      else if textKey w \<noteq> [] then firstValue (keyAtStart (textKey w)) textValue (old w) ls
      else if w = TxtHTTPIP then firstValue isHttpProxy (proxyPart 1) (old w) ls
      else if w = TxtHTTPPort then firstValue isHttpProxy (proxyPart 2) (old w) ls
      else old w)"

definition originShown :: "string list \<Rightarrow> (lineEdit \<Rightarrow> string) \<Rightarrow> lineEdit \<Rightarrow> string" where
  "originShown ls old w =
     (if fileKey w \<noteq> [] then firstValue (keyAtStart (fileKey w)) (fileOptionValue (fileKey w)) (old w) ls else old w)"

fun editFlag :: "lineEdit \<Rightarrow> flag" where
  "editFlag TxtCA = IsCA" | "editFlag TxtCert = IsCert" | "editFlag TxtKey = IsKey" | "editFlag TxtPkcs12Path = IsPkcs12"
| "editFlag TxtMtu = IsMtu" | "editFlag TxtLinuxUser = IsLinuxUser" | "editFlag TxtLinuxGroup = IsLinuxGroup"
| "editFlag TxtFragment = IsFragment" | "editFlag TxtDevNode = IsDevNode" | "editFlag TxtVerbose = IsVerbose"
| "editFlag TxtRouteDelay = IsRouteDelay" | "editFlag TxtMute = IsMute" | "editFlag w = IsHttpProxy"

lemma line_text:
  "textKey w \<noteq> [] \<Longrightarrow> (seen (plainLine l f) (editFlag w), entered (plainLine l f) w) =
    firstStep (keyAtStart (textKey w)) textValue l (seen f (editFlag w), entered f w)"
  by (cases w) (simp_all add: line_defs form_simps firstStep_def Let_def)

lemma line_proxy:
  "(seen (plainLine l f) IsHttpProxy, entered (plainLine l f) TxtHTTPIP) = firstStep isHttpProxy (proxyPart 1) l (seen f IsHttpProxy, entered f TxtHTTPIP)"
  "(seen (plainLine l f) IsHttpProxy, entered (plainLine l f) TxtHTTPPort) = firstStep isHttpProxy (proxyPart 2) l (seen f IsHttpProxy, entered f TxtHTTPPort)"
  by (simp_all add: line_defs form_simps firstStep_def Let_def)

lemma line_file:
  "fileKey w \<noteq> [] \<Longrightarrow> (seen (plainLine l f) (editFlag w), entered (plainLine l f) w) =
    firstStep (keyAtStart (fileKey w)) (fileOptionValue (fileKey w)) l (seen f (editFlag w), entered f w)"
  "fileKey w \<noteq> [] \<Longrightarrow> (seen (plainLine l f) (editFlag w), origin (plainLine l f) w) =
    firstStep (keyAtStart (fileKey w)) (fileOptionValue (fileKey w)) l (seen f (editFlag w), origin f w)"
  by (cases w; simp add: line_defs form_simps firstStep_def Let_def)+

lemma line_choice:
  "(seen (plainLine l f) IsDev, current (plainLine l f) CmbDev) = firstStep (keyAtStart ''DEV'') (choiceValue ''TUN'') l (seen f IsDev, current f CmbDev)"
  "(seen (plainLine l f) IsRouteMethod, current (plainLine l f) CmbRouteMethod) = firstStep (keyAtStart ''ROUTE-METHOD'') (choiceValue ''EXE'') l (seen f IsRouteMethod, current f CmbRouteMethod)"
  "(seen (plainLine l f) IsHttpProxy, current (plainLine l f) CmbProxyAuth) = firstStep isHttpProxy (\<lambda>l. proxyAuthIndex (toUpper (proxyPart 3 l))) l (seen f IsHttpProxy, current f CmbProxyAuth)"
  "(seen (plainLine l f) IsHttpProxy, current (plainLine l f) CmbAuthMethod) = firstStep isHttpProxy (\<lambda>l. authMethodIndex (toUpper (proxyPart 4 l))) l (seen f IsHttpProxy, current f CmbAuthMethod)"
  "(seen (plainLine l f) IsCipher, current (plainLine l f) CmbChiper) = firstStep (keyAtStart ''CIPHER'') cipherValue l (seen f IsCipher, current f CmbChiper)"
  by (simp_all add: line_defs form_simps firstStep_def Let_def)

fun checkFlag :: "checkBox \<Rightarrow> flag" where
  "checkFlag CbClient = IsClient" | "checkFlag CbFloat = IsFloat" | "checkFlag CbCompLzo = IsCompLzo"
| "checkFlag CbNobind = IsNobind" | "checkFlag CbPersistKey = IsPersistKey" | "checkFlag CbPersistTun = IsPersistTun"
| "checkFlag CbNoCache = IsNoCache" | "checkFlag CbRedirectGateway = IsRedirectGateway"
| "checkFlag CbCertIsServer = IsCertTyoeServer" | "checkFlag CbMsfix = IsMsFix"
| "checkFlag CbBlockOutsideDns = IsBlockOutsideDns" | "checkFlag CbRandomHost = IsRandomHost"
| "checkFlag CbResolveHostname = IsResolveHost" | "checkFlag CbHTTPRetry = IsHttpRetry"
| "checkFlag CbMuteWirelessWarning = IsWirelessMuteWarning"

lemma line_check:
  "(seen (plainLine l f) (checkFlag w), checked (plainLine l f) w) =
    checkStep (checkMatch w) l (seen f (checkFlag w), checked f w)"
  by (cases w) (simp_all add: line_defs form_simps checkStep_def Let_def)

lemma line_rest:
  "remotes (plainLine l f) = remotes f @ (if isRemote l then [remoteValue l] else [])"
  "inlined (plainLine l f) = inlined f" "usesPkcs12 (plainLine l f) = usesPkcs12 f"
  "pathClicked (plainLine l f) = pathClicked f" "lastDir (plainLine l f) = lastDir f"
  by (simp_all add: line_defs form_simps Let_def)

lemma line_proto:
  "seen (plainLine l f) IsProto \<longleftrightarrow> seen f IsProto \<or> keyAtStart ''PROTO'' l"
  "current (plainLine l f) CmbProto =
     (if isProtoRemote l then protoOfRemote l
      else if \<not> seen f IsProto \<and> keyAtStart ''PROTO'' l then choiceValue ''TCP'' l else current f CmbProto)"
  by (simp_all add: line_defs form_simps isProtoRemote_def Let_def)

lemma line_other_texts:
  "fileKey w = [] \<Longrightarrow> textKey w = [] \<Longrightarrow> w \<noteq> TxtHTTPIP \<Longrightarrow> w \<noteq> TxtHTTPPort \<Longrightarrow> entered (plainLine l f) w = entered f w"
  "fileKey w = [] \<Longrightarrow> origin (plainLine l f) w = origin f w"
  by (cases w; simp add: line_defs form_simps Let_def)+

section \<open>All lines\<close>

definition startLoading :: "form \<Rightarrow> loading" where
  "startLoading f = form.extend (setEntered TxtKey [] (setEntered TxtCert [] (setEntered TxtCA [] f)))
     (loading.fields (\<lambda>_. False))"

lemma startLoading_simps [simp]:
  "\<not> seen (startLoading f) g" "checked (startLoading f) = checked f" "current (startLoading f) = current f"
  "entered (startLoading f) = (entered f)(TxtCA := [], TxtCert := [], TxtKey := [])"
  "remotes (startLoading f) = remotes f" "origin (startLoading f) = origin f" "inlined (startLoading f) = inlined f"
  "usesPkcs12 (startLoading f) = usesPkcs12 f" "pathClicked (startLoading f) = pathClicked f"
  "lastDir (startLoading f) = lastDir f"
  by (simp_all add: startLoading_def form.extend_def loading.fields_def setEntered_def)

lemma loadForm_start: "loadForm ls f = loadLines ls (startLoading f)"
  by (simp add: loadForm_def startLoading_def)

lemma fold_rest:
  "remotes (fold plainLine ls f) = remotes f @ map remoteValue (filter isRemote ls)"
  "inlined (fold plainLine ls f) = inlined f" "usesPkcs12 (fold plainLine ls f) = usesPkcs12 f"
  "pathClicked (fold plainLine ls f) = pathClicked f" "lastDir (fold plainLine ls f) = lastDir f"
  by (induction ls arbitrary: f) (simp_all add: line_rest)

lemma fold_proto: "current (fold plainLine ls f) CmbProto = protoShown (seen f IsProto) (current f CmbProto) ls"
proof (induction ls arbitrary: f)
  case (Cons l ls)
  then show ?case by (auto simp: line_proto Let_def intro!: arg_cong3 [where f = protoShown])
qed simp

lemma fold_checked:
  assumes "\<And>g. \<not> seen f g" and "checked f = (\<lambda>_. False)"
  shows "checked (fold plainLine ls f) = (\<lambda>w. list_ex (checkMatch w) ls)"
  by (rule ext, rule read_check [OF line_check assms(1)]) (simp add: assms(2))

lemma fold_current:
  assumes "\<And>g. \<not> seen f g"
  shows "current (fold plainLine ls f) = choiceShown ls (current f)"
proof
  fix w
  show "current (fold plainLine ls f) w = choiceShown ls (current f) w"
  proof (cases w)
    case CmbProto
    then show ?thesis using assms by (simp add: fold_proto)
  qed (simp_all add: read_first(2) [where q = "\<lambda>h. current h w" for w, OF line_choice(1) assms]
      read_first(2) [where q = "\<lambda>h. current h w" for w, OF line_choice(2) assms]
      read_first(2) [where q = "\<lambda>h. current h w" for w, OF line_choice(3) assms]
      read_first(2) [where q = "\<lambda>h. current h w" for w, OF line_choice(4) assms]
      read_first(2) [where q = "\<lambda>h. current h w" for w, OF line_choice(5) assms])
qed

lemma fold_entered:
  assumes "\<And>g. \<not> seen f g"
  shows "entered (fold plainLine ls f) = textShown ls (entered f)"
proof
  fix w
  show "entered (fold plainLine ls f) w = textShown ls (entered f) w"
  proof (cases "fileKey w \<noteq> []")
    case True
    then show ?thesis
      using read_first(2) [where q = "\<lambda>h. entered h w", OF line_file(1) [OF True] assms] by (simp add: textShown_def)
  next
    case 1: False
    show ?thesis
    proof (cases "textKey w \<noteq> []")
      case True
      then show ?thesis using 1
          read_first(2) [where q = "\<lambda>h. entered h w", OF line_text [OF True] assms] by (simp add: textShown_def)
    next
      case 2: False
      consider "w = TxtHTTPIP" | "w = TxtHTTPPort" | "w \<noteq> TxtHTTPIP" "w \<noteq> TxtHTTPPort" by blast
      then show ?thesis
      proof cases
        case 3
        then have "entered (fold plainLine ls f) w = entered f w"
          using 1 2 by (induction ls arbitrary: f) (simp_all add: line_other_texts(1))
        with 1 2 3 show ?thesis by (simp add: textShown_def)
      qed (simp_all add: textShown_def read_first(2) [where q = "\<lambda>h. entered h w" for w, OF line_proxy(1) assms]
          read_first(2) [where q = "\<lambda>h. entered h w" for w, OF line_proxy(2) assms])
    qed
  qed
qed

lemma fold_origin:
  assumes "\<And>g. \<not> seen f g"
  shows "origin (fold plainLine ls f) = originShown ls (origin f)"
proof
  fix w
  show "origin (fold plainLine ls f) w = originShown ls (origin f) w"
  proof (cases "fileKey w \<noteq> []")
    case True
    then show ?thesis
      using read_first(2) [where q = "\<lambda>h. origin h w", OF line_file(2) [OF True] assms] by (simp add: originShown_def)
  next
    case False
    then have "origin (fold plainLine ls f) w = origin f w"
      by (induction ls arbitrary: f) (simp_all add: line_other_texts(2))
    with False show ?thesis by (simp add: originShown_def)
  qed
qed

lemma fold_seen:
  assumes "\<And>g. \<not> seen f g" and "fileKey w \<noteq> []"
  shows "seen (fold plainLine ls f) (editFlag w) \<longleftrightarrow> list_ex (keyAtStart (fileKey w)) ls"
  by (rule read_first(1) [where q = "\<lambda>h. entered h w", OF line_file(1) [OF assms(2)] assms(1)])

text \<open>The reference: every widget on its own.\<close>

definition shownForm :: "string list \<Rightarrow> form \<Rightarrow> form" where
  "shownForm ls f = f\<lparr>checked := \<lambda>w. list_ex (checkMatch w) ls, current := choiceShown ls (current f),
     entered := textShown ls ((entered f)(TxtCA := [], TxtCert := [], TxtKey := [])),
     remotes := remotes f @ map remoteValue (filter isRemote ls), origin := originShown ls (origin f)\<rparr>"

lemma form_eqI:
  assumes "checked f = checked g" and "current f = current g" and "entered f = entered g" and "remotes f = remotes g"
    and "usesPkcs12 f = usesPkcs12 g" and "origin f = origin g" and "inlined f = inlined g"
    and "pathClicked f = pathClicked g" and "lastDir f = lastDir g"
  shows "f = (g :: form)"
  using assms by (intro form.equality) simp_all

lemma truncate_simps [simp]:
  "checked (form.truncate h) = checked h" "current (form.truncate h) = current h" "entered (form.truncate h) = entered h"
  "remotes (form.truncate h) = remotes h" "usesPkcs12 (form.truncate h) = usesPkcs12 h"
  "origin (form.truncate h) = origin h" "inlined (form.truncate h) = inlined h"
  "pathClicked (form.truncate h) = pathClicked h" "lastDir (form.truncate h) = lastDir h"
  by (simp_all add: form.truncate_def)

lemma truncate_fold:
  assumes "checked f = (\<lambda>_. False)"
  shows "form.truncate (fold plainLine ls (startLoading f)) = shownForm ls f"
proof (rule form_eqI)
  show "checked (form.truncate (fold plainLine ls (startLoading f))) = checked (shownForm ls f)"
    using fold_checked [of "startLoading f" ls] assms by (simp add: shownForm_def)
qed (simp_all add: shownForm_def fold_current fold_entered fold_origin fold_rest)

text \<open>C18. Reading a configuration without inline blocks gives every widget what its own option says, as if each option were looked up by itself: a check box whether its line occurs, a field and a choice the first line of its option, the protocol the last of the first \<open>proto\<close> and the \<open>remote\<close> lines with one, the remotes all of them in order.\<close>

theorem editor_reads_each_option:
  assumes "list_all untagged ls" and "checked f = (\<lambda>_. False)"
  shows "map_option (\<lambda>g. (form.truncate g, seen g IsPkcs12)) (loadForm ls f) =
    Some (shownForm ls f, list_ex (keyAtStart ''PKCS12'') ls)"
proof -
  have "loadForm ls f = Some (fold plainLine ls (startLoading f))"
    using loadLines_plain [OF assms(1), of "[]"] by (simp add: loadForm_start)
  then show ?thesis
    using truncate_fold [OF assms(2)] fold_seen [of "startLoading f" TxtPkcs12Path ls] by simp
qed

definition sampleLines :: "string list" where
  "sampleLines = [''client'', ''remote vpn.example.org 1194'', ''verb 3'', ''verb 4'', ''Proto tcp'', ''ca a.crt'']"

lemma editor_reads_each_option_witness:
  "map_option (\<lambda>g. (form.truncate g, seen g IsPkcs12)) (loadForm sampleLines newForm) =
    Some (shownForm sampleLines newForm, list_ex (keyAtStart ''PKCS12'') sampleLines)"
  by (rule editor_reads_each_option)
    (simp_all add: sampleLines_def untagged_def startsWithCI_def newForm_def)

end
