(* ===== verification/ConfigSettings.thy ===== *)
theory ConfigSettings
  imports AdvConfig
begin

text \<open>
  The settings of one connection: \<open>client/src/widgets/settings/config/configsettingswidget.cpp\<close> and
  the editor for the text of its configuration (\<open>quickeditwidget.cpp\<close>), with the checksums that the
  editors store. \<open>QDir::rename\<close> and \<open>QFile::rename\<close> move files as far as Windows lets them, which is the
  parameter \<open>mayRename\<close>.
\<close>

section \<open>The quick editor\<close>

definition getContent :: "importEnv \<Rightarrow> library \<Rightarrow> string \<Rightarrow> string" where
  "getContent ie l path = (case configLinesOf ie l path of None \<Rightarrow> [] | Some ls \<Rightarrow> unlines ls)"

text \<open>The path and the content shown.\<close>

definition openQuickEdit :: "importEnv \<Rightarrow> string \<Rightarrow> library \<Rightarrow> string \<times> string" where
  "openQuickEdit ie path l = (let path = native path in (path, getContent ie l path))"

definition quickText :: "string \<Rightarrow> string" where
  "quickText fileContent =
     (if fileContent \<noteq> [] \<and> last fileContent = CHR 0x0A
      then qleft fileContent (lastIndexOf fileContent CHR 0x0A) else fileContent)"

definition saveQuickEdit :: "importEnv \<Rightarrow> string \<Rightarrow> int \<Rightarrow> string \<Rightarrow> library \<Rightarrow> string \<times> library" where
  "saveQuickEdit ie path i plainText l =
     (if \<not> mayWrite (access ie) path then (plainText, l)
      else
        (let fileContent = quickText plainText;
             l1 = l\<lparr>disk := writeFile path (textMode fileContent) (disk l)\<rparr>;
             l2 = onApp (createNewChecksum (ui (configs ie)) (base64OfContent fileContent) i path) l1
         in (getContent ie l2 path, l2)))"

section \<open>The connection's settings\<close>

definition settingsBack :: "configEnv \<Rightarrow> int \<Rightarrow> bool \<Rightarrow> library \<Rightarrow> library" where
  "settingsBack ce k autoStart l = onApp loadConnections (refreshConfigs ce (onApp (setAutoStart k autoStart) l))"

definition removeCredentials :: "cenv \<Rightarrow> int \<Rightarrow> int \<Rightarrow> client \<Rightarrow> client" where
  "removeCredentials e k i s =
     cause (MessageBox ''User data has been deleted successfully'')
       (fold (\<lambda>t. saveUserData e k t [] True) [0..6] s)"

text \<open>A directory is renamed with everything below it; nothing happens when the target is there.\<close>

definition movedPath :: "string \<Rightarrow> string \<Rightarrow> string \<Rightarrow> string" where
  "movedPath a b q = (if under a q then b @ drop (length a) q else q)"

definition renameDir :: "(string \<Rightarrow> bool) \<Rightarrow> string \<Rightarrow> string \<Rightarrow> fsys \<Rightarrow> fsys" where
  "renameDir mayRename a b d =
     (if mayRename a \<and> dirExists d a \<and> \<not> dirExists d b \<and> readFile d b = None
      then d\<lparr>files := map (\<lambda>(q, t). (movedPath a b q, t)) (files d), dirs := map (movedPath a b) (dirs d)\<rparr>
      else d)"

definition renameFile :: "(string \<Rightarrow> bool) \<Rightarrow> string \<Rightarrow> string \<Rightarrow> fsys \<Rightarrow> fsys" where
  "renameFile mayRename a b d =
     (case readFile d a of
        None \<Rightarrow> d
      | Some t \<Rightarrow>
          if mayRename a \<and> readFile d b = None \<and> \<not> dirExists d b then writeFile b t (removeFile a d) else d)"

definition checkExistsSql :: "string \<Rightarrow> int \<Rightarrow> string" where
  "checkExistsSql en i =
     qarg (qarg (''SELECT * FROM vpn WHERE '' @ column ''vpn-name'' @ '' = '' @ quoted ''%1'' @ '' AND NOT ''
       @ column ''vpn-id'' @ '' = %2;'') en) (number i)"

definition renameSql :: "string \<Rightarrow> string \<Rightarrow> int \<Rightarrow> string" where
  "renameSql name en i = qarg (qarg (updateTemplate name) en) (number i)"

definition connectionFile :: "importEnv \<Rightarrow> string \<Rightarrow> string \<Rightarrow> string" where
  "connectionFile ie dir name = userDir ie @ ''/config/'' @ dir @ ''/'' @ name @ ''.ovpn''"

definition connectionDir :: "importEnv \<Rightarrow> string \<Rightarrow> string" where
  "connectionDir ie name = userDir ie @ ''/config/'' @ name"

definition setConnectionName :: "importEnv \<Rightarrow> (string \<Rightarrow> bool) \<Rightarrow> int \<Rightarrow> string \<Rightarrow> library \<Rightarrow> library" where
  "setConnectionName ie mayRename k text l =
     (let ce = configs ie in
      case getObj k (app l) of
        None \<Rightarrow> onApp (\<lambda>s. s\<lparr>fault := True\<rparr>) l
      | Some c \<Rightarrow>
          if cdState c = Connected then notify (''Connection can'' @ [CHR 0x27] @ ''t be renamed when it is connected.'') l
          else
            (let newName = trimmed text in
             if \<not> isLegalFileName ie newName then
               notify ''Invalid config name. At least one letter of [a-zA-Z0-9-_ ].'' l
             else
               (case enc ce newName of
                  None \<Rightarrow> onApp (\<lambda>s. s\<lparr>fault := True\<rparr>) l
                | Some en \<Rightarrow>
                    if ask (ui ce) (app l) (checkExistsSql en k) \<noteq> None then
                      notify ''A connection with this name already exits.'' l
                    else
                      (let d1 = renameDir mayRename (connectionDir ie (cdName c)) (connectionDir ie newName) (disk l);
                           newPath = connectionFile ie newName newName;
                           d2 = renameFile mayRename (connectionFile ie newName (cdName c)) newPath d1;
                           l1 = onApp (cause (Sql (renameSql ''vpn-name'' en k))) (l\<lparr>disk := d2\<rparr>)
                       in case enc ce (if isPortable (ui ce) then relativePath ce newPath else newPath) of
                            None \<Rightarrow> onApp (\<lambda>s. s\<lparr>fault := True\<rparr>) l1
                          | Some ep \<Rightarrow>
                              onApp (\<lambda>s. onObj k (\<lambda>c. c\<lparr>cdName := newName, cdConfigPath := newPath\<rparr>)
                                (cause (Sql (renameSql ''vpn-config'' ep k)) s)) l1))))"

section \<open>A file as it is read back\<close>

lemma unlines_joinWith: "ls \<noteq> [] \<Longrightarrow> unlines ls = joinWith [CHR 0x0A] ls @ [CHR 0x0A]"
proof (induction ls)
  case (Cons l ls)
  then show ?case by (cases ls) simp_all
qed simp

lemma endLine_unlines: "endLine t = unlines (splitOn CHR 0x0A t)"
  using unlines_joinWith [of "splitOn CHR 0x0A t"] by (simp add: endLine_def)

lemma read_endLine: "joinWith [CHR 0x0A] (textLines (textMode (endLine t))) = t"
proof -
  have "list_all (\<lambda>l. CHR 0x0A \<notin> set l) (splitOn CHR 0x0A t)"
    by (auto simp: list_all_iff dest: splitOn_pieces_fresh)
  from textLines_textMode [OF this] show ?thesis by (simp add: endLine_unlines)
qed

lemma qreplace_step:
  "CHR 0x0A \<notin> set a \<Longrightarrow> qreplace (a @ CHR 0x0A # b) [CHR 0x0A] [CHR 0x0D, CHR 0x0A] =
    a @ [CHR 0x0D, CHR 0x0A] @ qreplace b [CHR 0x0A] [CHR 0x0D, CHR 0x0A]"
  by (induction a) (simp_all add: qreplace.simps)

lemma qreplace_fresh: "CHR 0x0A \<notin> set a \<Longrightarrow> qreplace a [CHR 0x0A] r = a"
  by (induction a) (simp_all add: qreplace.simps)

lemma textMode_last:
  assumes "list_all (\<lambda>l. CHR 0x0A \<notin> set l) ls" and "CHR 0x0A \<notin> set w"
  shows "textMode (unlines ls @ w) = unlines (map (\<lambda>l. l @ [CHR 0x0D]) ls) @ w"
  using assms by (induction ls) (simp_all add: textMode_def qreplace_step qreplace_fresh)

lemma textLines_last:
  assumes "list_all (\<lambda>l. CHR 0x0A \<notin> set l) ls" and "CHR 0x0A \<notin> set w" and "w \<noteq> []"
  shows "textLines (unlines (map (\<lambda>l. l @ [CHR 0x0D]) ls) @ w) = ls @ [stripCR w]"
proof -
  have "splitOn CHR 0x0A (unlines (map (\<lambda>l. l @ [CHR 0x0D]) ls) @ w) = map (\<lambda>l. l @ [CHR 0x0D]) ls @ [w]"
    using assms(1)
  proof (induction ls)
    case Nil
    then show ?case using assms(2) by simp
  next
    case (Cons l ls)
    then show ?case using splitOn_Cons_sep [of "CHR 0x0A" "l @ [CHR 0x0D]"] by simp
  qed
  with assms(3) show ?thesis by (simp add: textLines_def stripCR_def comp_def)
qed

text \<open>A text without carriage returns written as it is: one line feed at its end is lost.\<close>

lemma read_written_text:
  assumes "CHR 0x0D \<notin> set t"
  shows "joinWith [CHR 0x0A] (textLines (textMode t)) =
    (if t \<noteq> [] \<and> last t = CHR 0x0A then butlast t else t)"
proof (cases "t \<noteq> [] \<and> last t = CHR 0x0A")
  case True
  then have "t = endLine (butlast t)" by (metis append_butlast_last_id endLine_def)
  then show ?thesis using read_endLine [of "butlast t"] True by simp
next
  case False
  define ls where "ls = butlast (splitOn CHR 0x0A t)"
  define w where "w = last (splitOn CHR 0x0A t)"
  have s: "splitOn CHR 0x0A t = ls @ [w]" by (simp add: ls_def w_def)
  have f: "list_all (\<lambda>l. CHR 0x0A \<notin> set l) ls" "CHR 0x0A \<notin> set w"
    using splitOn_pieces_fresh [of _ "CHR 0x0A" t] by (auto simp: s list_all_iff)
  have j: "joinWith [CHR 0x0A] (ls @ [v]) = unlines ls @ v" for v
  proof (induction ls)
    case (Cons l ls)
    then show ?case using joinWith_Cons [of "ls @ [v]" "[CHR 0x0A]" l] by simp
  qed simp
  have t: "t = unlines ls @ w" using joinWith_splitOn [of "CHR 0x0A" t] by (simp add: s j)
  show ?thesis
  proof (cases "w = []")
    case True
    with t False have "ls = []" by (cases ls rule: rev_cases) (auto simp: unlines_def)
    with t True show ?thesis by (simp add: textMode_def qreplace.simps textLines_def)
  next
    case w: False
    have "last w \<noteq> CHR 0x0D" using w t assms by (metis last_in_set UnCI set_append)
    then have "stripCR w = w" by (simp add: stripCR_def)
    then have "textLines (textMode t) = ls @ [w]"
      using textMode_last [OF f] textLines_last [OF f w] by (simp add: t)
    with False show ?thesis by (simp only: j t [symmetric]) simp
  qed
qed

text \<open>Base64 and the normal form keep texts apart that differ by a line.\<close>

lemma base64_eq: "base64OfContent t = base64OfContent u \<longleftrightarrow> normalizeContent t = normalizeContent u"
  unfolding base64OfContent_def by (metis fromBase64_toBase64)

lemma normalizeContent_longer:
  assumes "CHR 0x0D \<notin> set t"
  shows "normalizeContent (endLine t) \<noteq> normalizeContent t"
proof -
  have q: "qreplace s [CHR 0x0D, CHR 0x0A] [CHR 0x0A] = s" if "CHR 0x0D \<notin> set s" for s
    using that by (induction s) (simp_all add: qreplace.simps)
  have "splitOn CHR 0x0A (endLine t) = splitOn CHR 0x0A t @ [[]]"
    unfolding endLine_def using splitOn_append_sep [of "CHR 0x0A" t "[]"] by simp
  moreover have "CHR 0x0D \<notin> set (endLine t)" using assms by (simp add: endLine_def)
  ultimately have "normalizeContent (endLine t) = normalizeContent t @ utf8 (trimmed [] @ [CHR 0x0A])"
    using assms by (simp add: normalizeContent_def q utf8_def)
  then show ?thesis by (simp add: utf8Char_def code_def)
qed

section \<open>What the editors store fits the file\<close>

definition fileContent64 :: "importEnv \<Rightarrow> library \<Rightarrow> string \<Rightarrow> string" where
  "fileContent64 ie l path = fst (base64OfFileContent (seeing (configs ie) l) 0 path (app l))"

lemma fileContent64_written:
  assumes "readFile (disk l) path = Some t" and "mayOpen (ui (configs ie)) path"
  shows "fileContent64 ie l path = base64OfContent (joinWith [CHR 0x0A] (textLines t))"
  using assms by (simp add: fileContent64_def base64OfFileContent_def seeing_def base64OfContent_def)

lemma createNewChecksum_runs:
  assumes "\<not> isPortable e" and "toolStarts e"
  shows "createNewChecksum e content i path s = cause (RunTool ''checksum.exe'' (toolParams e content i path)) s"
  using assms by (simp add: createNewChecksum_def)

text \<open>The quick editor stores a checksum of what it has written, but the client sends what it reads from the file: the two agree exactly when the text does not end in two line feeds. A configuration that ends with an empty line, as the editor of all options writes it, is refused by the service after it was saved without any change.\<close>

theorem quick_edit_checksum_fits_unless_blank_end:
  assumes "mayWrite (access ie) path" and "mayOpen (ui (configs ie)) path" and "CHR 0x0D \<notin> set text"
    and "\<not> isPortable (ui (configs ie))" and "toolStarts (ui (configs ie))"
  shows "let l' = snd (saveQuickEdit ie path i text l) in
    effects (app l') = effects (app l) @ [RunTool ''checksum.exe'' (toolParams (ui (configs ie)) (base64OfContent (quickText text)) i path)] \<and>
    (fileContent64 ie l' path = base64OfContent (quickText text) \<longleftrightarrow>
      quickText text = [] \<or> last (quickText text) \<noteq> CHR 0x0A)"
proof -
  let ?l' = "snd (saveQuickEdit ie path i text l)" and ?t = "quickText text"
  have r: "readFile (disk ?l') path = Some (textMode ?t)" and
    e: "app ?l' = cause (RunTool ''checksum.exe'' (toolParams (ui (configs ie)) (base64OfContent ?t) i path)) (app l)"
    using assms(1) createNewChecksum_runs [OF assms(4,5)]
    by (simp_all add: saveQuickEdit_def Let_def onApp_def readFile_write)
  have cr: "CHR 0x0D \<notin> set ?t"
    using assms(3) by (auto simp: quickText_def qleft_def dest: in_set_takeD)
  have "fileContent64 ie ?l' path = base64OfContent (if ?t \<noteq> [] \<and> last ?t = CHR 0x0A then butlast ?t else ?t)"
    using fileContent64_written [OF r assms(2)] read_written_text [OF cr] by simp
  moreover have "base64OfContent (butlast ?t) \<noteq> base64OfContent ?t" if "?t \<noteq> []" "last ?t = CHR 0x0A"
  proof -
    have "?t = endLine (butlast ?t)" using that by (metis append_butlast_last_id endLine_def)
    moreover have "CHR 0x0D \<notin> set (butlast ?t)" using cr by (auto dest: in_set_butlastD)
    ultimately show ?thesis using normalizeContent_longer [of "butlast ?t"] base64_eq by metis
  qed
  ultimately show ?thesis using e by (auto simp: Let_def cause_def)
qed

definition blankEnd :: string where
  "blankEnd = ''client'' @ [CHR 0x0A, CHR 0x0A]"

lemma quick_edit_checksum_fits_unless_blank_end_witness:
  "let l' = snd (saveQuickEdit sampleImport ''a.ovpn'' 7 blankEnd sampleLibrary) in
    effects (app l') = effects (app sampleLibrary) @ [RunTool ''checksum.exe''
      (toolParams (ui (configs sampleImport)) (base64OfContent (quickText blankEnd)) 7 ''a.ovpn'')] \<and>
    (fileContent64 sampleImport l' ''a.ovpn'' = base64OfContent (quickText blankEnd) \<longleftrightarrow>
      quickText blankEnd = [] \<or> last (quickText blankEnd) \<noteq> CHR 0x0A)"
  by (rule quick_edit_checksum_fits_unless_blank_end)
    (simp_all add: sampleImport_def anyAccess_def sampleConfigs_def clientEnv_def blankEnd_def)

lemma notify_effects [simp]: "effects (app (notify m l)) = effects (app l) @ [MessageBox m]" "disk (notify m l) = disk l"
  by (simp_all add: notify_def onApp_def cause_def)

lemma fileContent64_same:
  assumes "readFile (disk l') p = readFile (disk l) p" and "mayOpen (ui (configs ie)) p"
  shows "fileContent64 ie l' p = fileContent64 ie l p"
proof (cases "readFile (disk l) p")
  case None
  with assms(1) show ?thesis by (simp add: fileContent64_def base64OfFileContent_def seeing_def)
next
  case (Some t)
  with assms show ?thesis using fileContent64_written [of l p t ie] fileContent64_written [of l' p t ie] by simp
qed

lemma saveScripts_keeps:
  assumes "p \<noteq> dirOf c @ ''/scripts.conf''"
  shows "readFile (disk (saveScripts ie c f l)) p = readFile (disk l) p"
    and "\<exists>xs. effects (app (saveScripts ie c f l)) = effects (app l) @ xs"
  using assms by (simp_all add: saveScripts_def Let_def readFile_write readFile_remove)

lemma editor_file:
  assumes "saveEditor ie stamp c (f, l) = Some (f', l')" and "mayWrite (access ie) (cdConfigPath c)"
    and "cdConfigPath c \<noteq> dirOf c @ ''/scripts.conf''"
  shows "\<exists>x. readFile (disk l') (cdConfigPath c) = Some x"
  using assms saveScripts_keeps(1) [OF assms(3)]
  by (auto simp: saveEditor_def Let_def onApp_def readFile_write split: prod.splits option.splits)

lemma editor_objs:
  assumes "saveEditor ie stamp c (f, l) = Some (f', l')"
  shows "objs (app l') = objs (app l)"
proof -
  have n: "objs (app (notify m k)) = objs (app k)" for m k by (simp add: notify_def onApp_def cause_def)
  have "objs (app (saveScripts ie c f k)) = objs (app k)" for k by (simp add: saveScripts_def Let_def n)
  moreover have "objs (createNewChecksum e content i p s) = objs s" for e content i p s
    by (simp add: createNewChecksum_def cause_def)
  moreover have "objs (app l1) = objs (app k)" if "getAllFieldWhichNotIntoTheInterface ie c k = Some (os, l1)" for k os l1
    using that n by (auto simp: getAllFieldWhichNotIntoTheInterface_def split: option.splits)
  ultimately show ?thesis using assms n
    by (auto simp: saveEditor_def Let_def onApp_def split: prod.splits option.splits if_splits)
qed

lemma editor_runs_tool:
  assumes "saveEditor ie stamp c (f, l) = Some (f', l')" and "mayWrite (access ie) (cdConfigPath c)"
    and "mayOpen (ui (configs ie)) (cdConfigPath c)" and "cdConfigPath c \<noteq> dirOf c @ ''/scripts.conf''"
    and "\<not> isPortable (ui (configs ie))" and "toolStarts (ui (configs ie))"
  shows "RunTool ''checksum.exe'' (toolParams (ui (configs ie)) (fileContent64 ie l' (cdConfigPath c)) (cdId c) (cdConfigPath c))
    \<in> set (drop (length (effects (app l))) (effects (app l')))"
proof -
  let ?p = "cdConfigPath c" and ?e = "ui (configs ie)"
  obtain body d1 where t: "formText stamp ?p f (disk l) = (body, d1)" by fastforce
  obtain oldFields l1 where o: "getAllFieldWhichNotIntoTheInterface ie c (l\<lparr>disk := d1\<rparr>) = Some (oldFields, l1)"
    using assms(1) t by (auto simp: saveEditor_def Let_def split: option.splits)
  define content where "content = body @ othersText oldFields"
  define l3 where "l3 = onApp (createNewChecksum ?e (base64OfContent content) (cdId c) ?p)
    (l1\<lparr>disk := writeFile ?p (textMode (endLine content)) (disk l1)\<rparr>)"
  have l': "l' = saveScripts ie c f l3"
    using assms(1,2) t o by (simp add: saveEditor_def Let_def l3_def content_def)
  obtain xs where xs: "effects (app l1) = effects (app l) @ xs"
    using o by (auto simp: getAllFieldWhichNotIntoTheInterface_def split: option.splits)
  have e3: "effects (app l3) = effects (app l1) @ [RunTool ''checksum.exe'' (toolParams ?e (base64OfContent content) (cdId c) ?p)]"
    using createNewChecksum_runs [OF assms(5,6)] by (simp add: l3_def onApp_def cause_def)
  have "readFile (disk l3) ?p = Some (textMode (endLine content))" by (simp add: l3_def onApp_def readFile_write)
  then have "fileContent64 ie l3 ?p = base64OfContent content"
    using fileContent64_written [OF _ assms(3)] read_endLine by simp
  moreover have "fileContent64 ie l' ?p = fileContent64 ie l3 ?p"
    unfolding l' by (rule fileContent64_same [OF saveScripts_keeps(1) [OF assms(4)] assms(3)])
  moreover obtain ys where "effects (app l') = effects (app l3) @ ys"
    using saveScripts_keeps(2) [OF assms(4)] l' by blast
  ultimately show ?thesis using e3 xs by simp
qed

text \<open>The editor of all options, in contrast, stores the checksum of exactly what it leaves in the file: the content the client reads from the file after saving, to send it with the next connect, is the content the checksum tool was started with, whatever the options are.\<close>

theorem saved_checksum_is_of_the_file:
  assumes "saveEditor ie stamp c (f, l) = Some (f', l')" and "mayWrite (access ie) (cdConfigPath c)"
    and "mayOpen (ui (configs ie)) (cdConfigPath c)" and "cdConfigPath c \<noteq> dirOf c @ ''/scripts.conf''"
    and "\<not> isPortable (ui (configs ie))" and "toolStarts (ui (configs ie))"
  shows "RunTool ''checksum.exe'' (toolParams (ui (configs ie)) (fileContent64 ie l' (cdConfigPath c)) (cdId c) (cdConfigPath c))
    \<in> set (drop (length (effects (app l))) (effects (app l')))"
  by (rule editor_runs_tool [OF assms])

definition editorDisk :: fsys where
  "editorDisk = \<lparr>files = [(''v/a.ovpn'', ''client'')], dirs = [''v'']\<rparr>"

definition editorConnection :: connectionData where
  "editorConnection = newConnectionData\<lparr>cdId := 7, cdConfigPath := ''v/a.ovpn''\<rparr>"

definition editorLibrary :: library where
  "editorLibrary = \<lparr>app = oneClient, disk = editorDisk\<rparr>"

lemma sample_others:
  "getAllFieldWhichNotIntoTheInterface sampleImport editorConnection editorLibrary = Some ([], editorLibrary)"
  by (simp add: getAllFieldWhichNotIntoTheInterface_def configLinesOf_def editorLibrary_def editorDisk_def
      editorConnection_def readFile_def sampleImport_def anyAccess_def textRead_def textLines_def stripCR_def inForm_def
      formWords_def trimmed_def isSpace_def code_def)

lemma certTexts_empty:
  assumes "entered f TxtCA = []" and "entered f TxtCert = []" and "entered f TxtKey = []" and "entered f TxtPkcs12Path = []"
  shows "certTexts p f d = ([], d)"
  using assms by (simp add: certTexts_def certText_def pkcsText_def)

lemma sample_saved:
  "saveEditor sampleImport [] editorConnection (newForm, editorLibrary) = Some (newForm,
     snd (the (saveEditor sampleImport [] editorConnection (newForm, editorLibrary))))"
proof -
  have 1: "certTexts ''v/a.ovpn'' newForm editorDisk = ([], editorDisk)"
    by (rule certTexts_empty) (simp_all add: newForm_def)
  have 2: "withTags newForm = newForm" by (simp add: withTags_def withTag_def newForm_def)
  have 3: "cdConfigPath editorConnection = ''v/a.ovpn''" by (simp add: editorConnection_def)
  have 4: "editorLibrary\<lparr>disk := editorDisk\<rparr> = editorLibrary" "disk editorLibrary = editorDisk"
    by (simp_all add: editorLibrary_def)
  show ?thesis using sample_others by (simp add: saveEditor_def formText_def Let_def 1 2 3 4)
qed

lemma saved_checksum_is_of_the_file_witness:
  "RunTool ''checksum.exe'' (toolParams (ui (configs sampleImport)) (fileContent64 sampleImport
      (snd (the (saveEditor sampleImport [] editorConnection (newForm, editorLibrary)))) (cdConfigPath editorConnection))
      (cdId editorConnection) (cdConfigPath editorConnection))
    \<in> set (drop (length (effects (app editorLibrary)))
        (effects (app (snd (the (saveEditor sampleImport [] editorConnection (newForm, editorLibrary)))))))"
  by (rule saved_checksum_is_of_the_file [OF sample_saved])
    (simp_all add: sampleImport_def anyAccess_def sampleConfigs_def clientEnv_def editorConnection_def dirOf_def
      qleft_def lastIndexOf_def index_or_minus_one_def)

section \<open>Renaming\<close>

definition newFile :: "importEnv \<Rightarrow> string \<Rightarrow> string" where
  "newFile ie t = connectionFile ie (trimmed t) (trimmed t)"

text \<open>The checks before anything is renamed.\<close>

definition mayRenameTo :: "importEnv \<Rightarrow> int \<Rightarrow> string \<Rightarrow> library \<Rightarrow> bool" where
  "mayRenameTo ie k t l \<longleftrightarrow>
     (case (getObj k (app l), enc (configs ie) (trimmed t)) of
        (Some c, Some en) \<Rightarrow> cdState c \<noteq> Connected \<and> isLegalFileName ie (trimmed t) \<and>
          ask (ui (configs ie)) (app l) (checkExistsSql en k) = None
      | _ \<Rightarrow> False)"

text \<open>The law of the table used: the row holds the path that was stored last.\<close>

definition rowHasPath :: "configEnv \<Rightarrow> int \<Rightarrow> string \<Rightarrow> library \<Rightarrow> bool" where
  "rowHasPath ce k path l \<longleftrightarrow>
     list_all (\<lambda>r. rowId r = k \<longrightarrow> map_option snd (rowTexts ce r) = Some path) (tableOf ce l)"

lemma renameFile_none: "readFile d a = None \<Longrightarrow> renameFile m a b d = d"
  by (simp add: renameFile_def)

text \<open>A renaming that Windows refuses is not noticed: name and path are changed in the table all the same, the file stays where it is, and when the settings are left the connection is deleted from the list because its new path does not exist.\<close>

theorem refused_rename_removes_the_connection:
  assumes "l1 = setConnectionName ie m k t l" and "ce = configs ie"
    and "getObj k (app l) = Some c" and "mayRenameTo ie k t l" and "\<not> m (connectionDir ie (cdName c))"
    and "readFile (disk l) (newFile ie t) = None" and "readFile (disk l) (connectionFile ie (trimmed t) (cdName c)) = None"
    and "enc ce (if isPortable (ui ce) then relativePath ce (newFile ie t) else newFile ie t) \<noteq> None"
    and "rowHasPath ce k (newFile ie t) (onApp (setAutoStart k a) l1)"
    and "goodTable ce (tableOf ce (onApp (setAutoStart k a) l1))" and "sortsByName (stdSort ce)"
    and "distinct (map fst (objs (app l)))"
  shows "map_option cdConfigPath (getObj k (app l1)) = Some (newFile ie t) \<and>
    getObj k (app (settingsBack ce k a l1)) = None \<and> disk (settingsBack ce k a l1) = disk l"
proof -
  obtain en where en: "enc ce (trimmed t) = Some en" "cdState c \<noteq> Connected" "isLegalFileName ie (trimmed t)"
    "ask (ui ce) (app l) (checkExistsSql en k) = None"
    using assms(3,4) by (auto simp: mayRenameTo_def assms(2) split: option.splits)
  obtain ep where ep: "enc ce (if isPortable (ui ce) then relativePath ce (newFile ie t) else newFile ie t) = Some ep"
    using assms(8) by blast
  have "renameDir m (connectionDir ie (cdName c)) (connectionDir ie (trimmed t)) (disk l) = disk l"
    using assms(5) by (simp add: renameDir_def)
  then have l1: "l1 = onApp (\<lambda>s. onObj k (\<lambda>c. c\<lparr>cdName := trimmed t, cdConfigPath := newFile ie t\<rparr>)
      (cause (Sql (renameSql ''vpn-config'' ep k)) s)) (onApp (cause (Sql (renameSql ''vpn-name'' en k))) l)"
    using assms(3) en [unfolded assms(2)] ep [unfolded assms(2) newFile_def]
    by (simp add: assms(1) setConnectionName_def newFile_def Let_def onApp_def renameFile_none [OF assms(7)]
        split del: if_split)
  define l2 where "l2 = onApp (setAutoStart k a) l1"
  have g1: "getObj k (app l1) = Some (c\<lparr>cdName := trimmed t, cdConfigPath := newFile ie t\<rparr>)"
    using assms(3) by (simp add: l1 onApp_def onObj_def cause_def getObj_def map_of_assoc_upd)
  have d2: "disk l2 = disk l" by (simp add: l2_def l1 onApp_def)
  have "map fst (objs (app l2)) = map fst (objs (app l))"
    using g1 by (simp add: l2_def l1 onApp_def onObj_def cause_def setAutoStart_def getObj_def split: option.split)
  with assms(12) have dist: "distinct (map fst (objs (app l2)))" by simp
  have "k \<notin> rowId ` set (present ce (seeing ce l2) (tableOf ce l2))"
  proof
    assume "k \<in> rowId ` set (present ce (seeing ce l2) (tableOf ce l2))"
    then obtain r where r: "r \<in> set (tableOf ce l2)" "rowId r = k" "r \<in> set (present ce (seeing ce l2) (tableOf ce l2))"
      using set_present by fastforce
    then have "map_option snd (rowTexts ce r) = Some (newFile ie t)"
      using assms(9) by (simp add: rowHasPath_def list_all_iff l2_def)
    with r(3) assms(6) d2 show False
      by (auto simp: present_def seeing_def split: option.splits)
  qed
  then have "getObj k (app (refreshConfigs ce l2)) = None"
    using refreshed_keys(1) [of ce l2] assms(10,11) dist by (simp add: getObj_def map_of_eq_None_iff l2_def)
  moreover have "disk (refreshConfigs ce l2) = disk l" by (simp add: refreshConfigs_def onApp_def d2)
  moreover have "settingsBack ce k a l1 = onApp loadConnections (refreshConfigs ce l2)" by (simp add: settingsBack_def l2_def)
  ultimately show ?thesis using g1 by (simp add: onApp_def loadConnections_def getObj_def)
qed

text \<open>The sample's table holds one row with the new path; nothing may be renamed.\<close>

definition newPathSample :: string where
  "newPathSample = connectionFile sampleImport ''n'' ''n''"

definition renamedConfigs :: configEnv where
  "renamedConfigs = sampleConfigs\<lparr>vpnRows := (\<lambda>_. [officeRow\<lparr>rowConfig := the (enc sampleConfigs newPathSample)\<rparr>])\<rparr>"

definition renamedImport :: importEnv where
  "renamedImport = sampleImport\<lparr>configs := renamedConfigs\<rparr>"

lemma sample_enc:
  "p \<noteq> [] \<Longrightarrow> encodePlaintext mirrorApi newCrypt p = Some (toHex (CHR 0x01 # rev (utf8 p)))"
  by (simp add: encodePlaintext_def encodePlaintextUtf8_def openKey_def mirrorApi_def newCrypt_def)

lemma sample_decoded:
  "p \<noteq> [] \<Longrightarrow> decodedText mirrorApi newCrypt (toHex (CHR 0x01 # rev (utf8 p))) = Some p"
  using stored_secret_read_back [OF mirrorApi_inverse, of newCrypt p "CHR 0x01 # rev (utf8 p)"] sample_enc [of p]
  by (simp add: decodedText_def openKey_def mirrorApi_def newCrypt_def)

lemma renamed_row: "rowTexts renamedConfigs r = Some ([], newPathSample)" if "r \<in> set (tableOf renamedConfigs l)"
proof -
  have "newPathSample \<noteq> []" by (simp add: newPathSample_def connectionFile_def)
  with that show ?thesis using sample_enc sample_decoded
    by (simp add: tableOf_def renamedConfigs_def rowTexts_def sampleConfigs_def clientEnv_def officeRow_def enc_def
        decodedText_def [of _ _ "[]"] decodeToPlaintext_def [of _ _ "[]"]) (simp add: mirrorApi_def)
qed

lemma refused_rename_removes_the_connection_witness:
  "map_option cdConfigPath (getObj 1 (app (setConnectionName renamedImport (\<lambda>_. False) 1 ''n'' sampleLibrary))) =
      Some (newFile renamedImport ''n'') \<and>
    getObj 1 (app (settingsBack renamedConfigs 1 True (setConnectionName renamedImport (\<lambda>_. False) 1 ''n'' sampleLibrary))) = None \<and>
    disk (settingsBack renamedConfigs 1 True (setConnectionName renamedImport (\<lambda>_. False) 1 ''n'' sampleLibrary)) = disk sampleLibrary"
proof (rule refused_rename_removes_the_connection [OF refl _ _ _ _ _ _ _ _ _ _ _])
  have c: "cryptography (ui renamedConfigs) = mirrorApi" "cryptState (ui renamedConfigs) = newCrypt" "ui renamedConfigs = clientEnv"
    by (simp_all add: renamedConfigs_def sampleConfigs_def clientEnv_def)
  have n: "newFile renamedImport ''n'' = newPathSample"
    by (simp add: newFile_def newPathSample_def connectionFile_def renamedImport_def sampleImport_def trimmed_def isSpace_def code_def)
  show "renamedConfigs = configs renamedImport" by (simp add: renamedImport_def)
  show "getObj 1 (app sampleLibrary) = Some oneConnection" by (simp add: getObj_def sampleLibrary_def oneClient_def)
  show "mayRenameTo renamedImport 1 ''n'' sampleLibrary"
  proof -
    have t: "trimmed ''n'' = ''n''" by (simp add: trimmed_def isSpace_def code_def)
    have "isLegalFileName renamedImport ''n''"
      by (simp add: isLegalFileName_def reservedNames_def renamedImport_def sampleImport_def)
    moreover have "ask (ui renamedConfigs) s sql = None" for s sql unfolding c ask_def by (simp add: clientEnv_def)
    moreover have "enc renamedConfigs ''n'' = Some (toHex (CHR 0x01 # rev (utf8 ''n'')))"
      unfolding enc_def c(1,2) by (rule sample_enc) simp
    moreover have "configs renamedImport = renamedConfigs" by (simp add: renamedImport_def)
    ultimately show ?thesis unfolding mayRenameTo_def t
      by (simp add: getObj_def sampleLibrary_def oneClient_def oneConnection_def)
  qed
  show "\<not> False" by simp
  show "readFile (disk sampleLibrary) (newFile renamedImport ''n'') = None"
    by (simp add: n newPathSample_def connectionFile_def readFile_def sampleLibrary_def)
  show "readFile (disk sampleLibrary) (connectionFile renamedImport (trimmed ''n'') (cdName oneConnection)) = None"
    by (simp add: connectionFile_def readFile_def sampleLibrary_def)
  show "enc renamedConfigs (if isPortable (ui renamedConfigs) then relativePath renamedConfigs (newFile renamedImport ''n'')
      else newFile renamedImport ''n'') \<noteq> None"
    using sample_enc [of newPathSample] by (simp add: enc_def c(1,2) n) (simp add: c(3) clientEnv_def newPathSample_def connectionFile_def)
  show "rowHasPath renamedConfigs 1 (newFile renamedImport ''n'') l" for l
    unfolding rowHasPath_def list_all_iff n using renamed_row by simp
  show "goodTable renamedConfigs (tableOf renamedConfigs l)" for l
    using renamed_row [of _ l] by (simp add: goodTable_def list_all_iff) (simp add: tableOf_def renamedConfigs_def)
  show "sortsByName (stdSort renamedConfigs)" using sample_sorts by (simp add: renamedConfigs_def)
  show "distinct (map fst (objs (app sampleLibrary)))" by (simp add: sampleLibrary_def oneClient_def)
qed

end
