(* ===== verification/AdvConfigSave.thy ===== *)
theory AdvConfigSave
  imports AdvConfigFacts ConfigSettings
begin

text \<open>
  Saving and reading again: the text the editor writes as a list of lines, what the reader makes of
  each of them, and the form that is shown when a saved configuration is opened.
\<close>

section \<open>The lines that are written\<close>

definition checkLine :: "form \<Rightarrow> checkBox \<Rightarrow> string \<Rightarrow> string list" where
  "checkLine f w t = (if checked f w then [t] else [])"

definition fieldLine :: "form \<Rightarrow> lineEdit \<Rightarrow> string \<Rightarrow> string list" where
  "fieldLine f w key = (if entered f w \<noteq> [] then [key @ CHR '' '' # entered f w] else [])"

definition choiceLine :: "form \<Rightarrow> comboBox \<Rightarrow> string \<Rightarrow> string \<Rightarrow> string list" where
  "choiceLine f w one two = (if current f w = 0 then [] else if current f w = 1 then [one] else [two])"

definition headerLines :: "string \<Rightarrow> string list" where
  "headerLines stamp = [''##############################################'', ''### '',
     ''### Configuration file created by Securepoint SSL VPN '' @ stamp,
     ''### Project website: http://sourceforge.net/projects/securepoint/ '',
     ''### Securepoint GmbH, Bleckeder Landstrasse 28, 21337 Lueneburg, Germany; www.securepoint.de '',
     ''### '', ''### For further information about the configuration file, '',
     ''### please visit: http://www.openvpn.net/index.php/open-source/documentation'',
     ''### '', ''##############################################'', []]"

definition remoteLine :: "string \<times> string \<Rightarrow> string" where
  "remoteLine r = ''remote '' @ fst r @ CHR '' '' # snd r"

definition generalLines :: "form \<Rightarrow> string list" where
  "generalLines f =
     checkLine f CbClient ''client'' @ checkLine f CbFloat ''float'' @ checkLine f CbCompLzo ''comp-lzo''
     @ checkLine f CbFloat ''float'' @ checkLine f CbNobind ''nobind'' @ checkLine f CbPersistKey ''persist-key''
     @ checkLine f CbPersistTun ''persist-tun'' @ checkLine f CbNoCache ''auth-nocache''
     @ choiceLine f CmbDev ''dev tun'' ''dev tap'' @ fieldLine f TxtMtu ''tun-mtu''
     @ map remoteLine (remotes f) @ choiceLine f CmbProto ''proto tcp'' ''proto udp''"

definition certShown :: "form \<Rightarrow> lineEdit \<Rightarrow> string" where
  "certShown f w = (if origin f w \<noteq> entered f w then fileNameOfAbsolutePath (entered f w)
     else qreplace (entered f w) ''/'' [CHR 0x5C, CHR 0x5C])"

definition namesFile :: "form \<Rightarrow> lineEdit \<Rightarrow> bool" where
  "namesFile f w \<longleftrightarrow> \<not> usesPkcs12 f \<and> entered f w \<noteq> [] \<and> entered f w \<noteq> ''inline''"

definition certLine :: "form \<Rightarrow> lineEdit \<Rightarrow> string \<Rightarrow> string list" where
  "certLine f w key = (if namesFile f w then [key @ CHR '' '' # inQuotes (certShown f w)] else [])"

definition pkcsShown :: "form \<Rightarrow> string" where
  "pkcsShown f = (if origin f TxtPkcs12Path \<noteq> entered f TxtPkcs12Path
     then fileNameOfAbsolutePath (entered f TxtPkcs12Path) else entered f TxtPkcs12Path)"

definition keepsPkcs12 :: "form \<Rightarrow> bool" where
  "keepsPkcs12 f \<longleftrightarrow> usesPkcs12 f \<and> entered f TxtPkcs12Path \<noteq> []"

definition pkcsLine :: "form \<Rightarrow> string list" where
  "pkcsLine f = (if keepsPkcs12 f
     then [''pkcs12 '' @ (if origin f TxtPkcs12Path \<noteq> entered f TxtPkcs12Path then inQuotes (pkcsShown f) else pkcsShown f)]
     else [])"

definition certLines :: "form \<Rightarrow> string list" where
  "certLines f = certLine f TxtCA ''ca'' @ certLine f TxtCert ''cert'' @ certLine f TxtKey ''key'' @ pkcsLine f"

definition typeWord :: "form \<Rightarrow> string" where
  "typeWord f = (if current f CmbProxyAuth = 1 then ''stdin'' else if current f CmbProxyAuth = 2 then ''auto''
     else if current f CmbProxyAuth = 3 then ''auto-nct'' else [])"

definition methodWord :: "form \<Rightarrow> string" where
  "methodWord f = (if current f CmbAuthMethod = 1 then ''basic'' else if current f CmbAuthMethod = 2 then ''ntlm'' else [])"

definition spaced :: "string \<Rightarrow> string" where
  "spaced w = (if w \<noteq> [] then CHR '' '' # w else [])"

definition proxyLine :: "form \<Rightarrow> string list" where
  "proxyLine f = (if entered f TxtHTTPIP = [] then []
     else [''http-proxy '' @ entered f TxtHTTPIP @ CHR '' '' # entered f TxtHTTPPort @ spaced (typeWord f) @ spaced (methodWord f)])"

definition advancedLines :: "form \<Rightarrow> string list" where
  "advancedLines f =
     (if usesPkcs12 f then [] else checkLine f CbCertIsServer ''remote-cert-tls server'')
     @ fieldLine f TxtLinuxUser ''user'' @ fieldLine f TxtLinuxGroup ''group'' @ checkLine f CbMsfix ''mssfix''
     @ checkLine f CbBlockOutsideDns ''block-outside-dns'' @ fieldLine f TxtFragment ''fragment''
     @ choiceLine f CmbRouteMethod ''route-method exe'' ''route-method ipapi'' @ fieldLine f TxtDevNode ''dev-node''
     @ fieldLine f TxtVerbose ''verb'' @ fieldLine f TxtRouteDelay ''route-delay'' @ fieldLine f TxtMute ''mute''
     @ checkLine f CbRandomHost ''remote-random'' @ checkLine f CbResolveHostname ''resolve-retry infinite''
     @ checkLine f CbHTTPRetry ''http-proxy-retry'' @ proxyLine f
     @ checkLine f CbMuteWirelessWarning ''mute-replay-warnings''
     @ (if current f CmbChiper \<noteq> 0 then [''cipher '' @ fillCipherCombo ! current f CmbChiper] else [])
     @ checkLine f CbRedirectGateway ''redirect-gateway''"

definition formLines :: "string \<Rightarrow> form \<Rightarrow> string list" where
  "formLines stamp f = headerLines stamp @ generalLines f @ certLines f @ advancedLines f"

definition blockLines :: "form \<Rightarrow> lineEdit \<Rightarrow> string \<Rightarrow> string \<Rightarrow> string list" where
  "blockLines f w tag endTag =
     (if entered f w = ''inline'' then tag # splitOn CHR 0x0A (inlined f w) @ [endTag] else [])"

definition inlineLines :: "form \<Rightarrow> string list" where
  "inlineLines f = blockLines f TxtCA ''<ca>'' ''</ca>'' @ blockLines f TxtCert ''<cert>'' ''</cert>''
     @ blockLines f TxtKey ''<key>'' ''</key>''"

definition othersLines :: "string list \<Rightarrow> string list" where
  "othersLines oldFields =
     [] # (if oldFields = [] then [] else ''#Fields which could be not manage wih GUI '' # [] # oldFields)"

section \<open>The text is made of them\<close>

lemma unlines_append [simp]: "unlines (a @ b) = unlines a @ unlines b"
  by (induction a) simp_all

lemma text_lines:
  "checkText f w t = unlines (checkLine f w t)" "fieldText f u t = unlines (fieldLine f u t)"
  "choiceText f v one two = unlines (choiceLine f v one two)" "headerText stamp = unlines (headerLines stamp)"
  "concat (map (\<lambda>(ip, port). ''remote '' @ endLine (ip @ '' '' @ port)) rs) = unlines (map remoteLine rs)"
  "httpProxyText f = unlines (proxyLine f)"
  by (simp_all add: checkText_def checkLine_def fieldText_def fieldLine_def choiceText_def choiceLine_def headerText_def
      headerLines_def endLine_def unlines_def remoteLine_def split_def comp_def httpProxyText_def proxyLine_def Let_def
      typeWord_def methodWord_def spaced_def)

lemma generalText_lines: "generalText f = unlines (generalLines f)"
  by (simp only: generalText_def generalLines_def text_lines unlines_append)

lemma advancedText_lines: "advancedText f = unlines (advancedLines f)"
  by (simp add: advancedText_def advancedLines_def text_lines) (simp add: endLine_def)

lemma certText_lines: "fst (certText p f w key d) = unlines (certLine f w key)"
  by (simp add: certText_def certLine_def namesFile_def certShown_def Let_def endLine_def)

lemma pkcsText_lines: "fst (pkcsText p f d) = unlines (pkcsLine f)"
  by (simp add: pkcsText_def pkcsLine_def keepsPkcs12_def pkcsShown_def Let_def endLine_def)

lemma certTexts_lines: "fst (certTexts p f d) = unlines (certLines f)"
  unfolding certTexts_def certLines_def
  by (simp add: split_def certText_lines pkcsText_lines)

text \<open>One of the three blocks, when the text lacks both tags.\<close>

definition untaggedText :: "form \<Rightarrow> lineEdit \<Rightarrow> string \<Rightarrow> string \<Rightarrow> bool" where
  "untaggedText f w tag endTag \<longleftrightarrow> entered f w = ''inline'' \<longrightarrow>
     \<not> containsCI (inlined f w) tag \<and> \<not> containsCI (inlined f w) endTag"

lemma withTag_simps [simp]:
  "entered (withTag f w tag) = entered f"
  "inlined (withTag f w tag) w' = (if w' = w \<and> entered f w = ''inline'' \<and> \<not> containsCI (inlined f w) tag
     then endLine tag @ inlined f w else inlined f w')"
  by (simp_all add: withTag_def)

lemma containsCI_sublist: "containsCI t p \<longleftrightarrow> sublist (toLower p) (toLower t)"
  by (simp add: containsCI_def contains_sublist)

lemma tag_fresh:
  "\<not> containsCI t ''</ca>'' \<Longrightarrow> \<not> containsCI (endLine ''<ca>'' @ t) ''</ca>''"
  "\<not> containsCI t ''</cert>'' \<Longrightarrow> \<not> containsCI (endLine ''<cert>'' @ t) ''</cert>''"
  "\<not> containsCI t ''</key>'' \<Longrightarrow> \<not> containsCI (endLine ''<key>'' @ t) ''</key>''"
  by (simp_all add: containsCI_sublist endLine_def sublist_Cons_right)

definition untaggedInline :: "form \<Rightarrow> bool" where
  "untaggedInline f \<longleftrightarrow> untaggedText f TxtCA ''<ca>'' ''</ca>'' \<and> untaggedText f TxtCert ''<cert>'' ''</cert>'' \<and>
     untaggedText f TxtKey ''<key>'' ''</key>''"

lemma splitOn_text: "t @ [CHR 0x0A] = unlines (splitOn CHR 0x0A t)"
  using endLine_unlines [of t] by (simp add: endLine_def)

lemma blockText_lines:
  assumes "untaggedText f w tag endTag" and "\<not> containsCI (inlined f w) endTag \<Longrightarrow> \<not> containsCI (endLine tag @ inlined f w) endTag"
  shows "inlineText (withTag f w tag) w endTag = unlines (blockLines f w tag endTag)"
  using assms splitOn_text [of "inlined f w", symmetric]
  by (simp add: inlineText_def blockLines_def untaggedText_def) (simp add: endLine_def)

lemma inlineText_cong: "entered f w = entered g w \<Longrightarrow> inlined f w = inlined g w \<Longrightarrow> inlineText f w e = inlineText g w e"
  by (simp add: inlineText_def)

lemma withTags_simps [simp]:
  "entered (withTags f) = entered f" "inlined (withTags f) TxtCA = inlined (withTag f TxtCA ''<ca>'') TxtCA"
  "inlined (withTags f) TxtCert = inlined (withTag f TxtCert ''<cert>'') TxtCert"
  "inlined (withTags f) TxtKey = inlined (withTag f TxtKey ''<key>'') TxtKey"
  by (simp_all add: withTags_def)

lemma inlineTexts_lines:
  assumes "untaggedInline f"
  shows "inlineTexts (withTags f) = unlines (inlineLines f)"
proof -
  have "inlineText (withTags f) TxtCA ''</ca>'' = inlineText (withTag f TxtCA ''<ca>'') TxtCA ''</ca>''"
    "inlineText (withTags f) TxtCert ''</cert>'' = inlineText (withTag f TxtCert ''<cert>'') TxtCert ''</cert>''"
    "inlineText (withTags f) TxtKey ''</key>'' = inlineText (withTag f TxtKey ''<key>'') TxtKey ''</key>''"
    by (rule inlineText_cong; simp)+
  then show ?thesis
    using assms blockText_lines [of f TxtCA "''<ca>''" "''</ca>''", OF _ tag_fresh(1)]
      blockText_lines [of f TxtCert "''<cert>''" "''</cert>''", OF _ tag_fresh(2)]
      blockText_lines [of f TxtKey "''<key>''" "''</key>''", OF _ tag_fresh(3)]
    by (simp add: inlineTexts_def inlineLines_def untaggedInline_def)
qed

lemma othersText_lines: "othersText fs @ [CHR 0x0A] = unlines (othersLines fs)"
  using unlines_joinWith [of fs] by (simp add: othersText_def othersLines_def endLine_def)

definition savedLines :: "string \<Rightarrow> form \<Rightarrow> string list \<Rightarrow> string list" where
  "savedLines stamp f oldFields = formLines stamp f @ inlineLines f @ othersLines oldFields"

lemma savedText_lines:
  assumes "formText stamp p f d = (t, d1)" and "untaggedInline f"
  shows "endLine (t @ othersText oldFields) = unlines (savedLines stamp f oldFields)"
proof -
  have "t = headerText stamp @ generalText f @ fst (certTexts p f d) @ advancedText f @ inlineTexts (withTags f)"
    using assms(1) by (simp add: formText_def split: prod.splits)
  then show ?thesis using othersText_lines [of oldFields]
    by (simp only: endLine_def append.assoc savedLines_def formLines_def unlines_append text_lines generalText_lines
        certTexts_lines advancedText_lines inlineTexts_lines [OF assms(2)])
qed

section \<open>The lines that are read back\<close>

definition rawLine :: "string \<Rightarrow> bool" where
  "rawLine l \<longleftrightarrow> CHR 0x0A \<notin> set l \<and> CHR 0x0D \<notin> set l"

lemma textRead_written:
  assumes "list_all rawLine ls"
  shows "textLines (textRead (textMode (unlines ls))) = ls"
proof -
  have nl: "list_all (\<lambda>l. CHR 0x0A \<notin> set l) ls" using assms by (simp add: list_all_iff rawLine_def)
  have "textRead (unlines (map (\<lambda>l. l @ [CHR 0x0D]) ls)) = unlines ls"
    using assms by (induction ls) (auto simp: textRead_def rawLine_def filter_id_conv)
  moreover have "list_all lineText ls"
    using assms by (auto simp: list_all_iff lineText_def rawLine_def stripCR_def dest: last_in_set)
  ultimately show ?thesis by (simp add: textMode_unlines [OF nl] textLines_unlines)
qed

section \<open>Which block a line belongs to\<close>

lemma trimmed_prefix:
  assumes "l = [] \<or> \<not> isSpace (hd l)"
  shows "prefix (trimmed l) l"
proof -
  have "dropWhile isSpace l = l" using assms by (cases l) auto
  then have "rev l = takeWhile isSpace (rev l) @ rev (trimmed l)" by (simp add: trimmed_def)
  then have "l = trimmed l @ rev (takeWhile isSpace (rev l))" by (metis rev_append rev_rev_ident)
  then show ?thesis by (metis prefixI)
qed

lemma sublist_trimmed: "sublist (trimmed l) l"
proof -
  have "Sublist.suffix (rev (trimmed l)) (rev (dropWhile isSpace l))" by (simp add: trimmed_def suffix_dropWhile)
  then have "prefix (trimmed l) (dropWhile isSpace l)" by (simp add: suffix_to_prefix)
  then show ?thesis using suffix_dropWhile [of isSpace l]
    by (meson prefix_imp_sublist suffix_imp_sublist sublist_order.order.trans)
qed

lemma sublist_same_length:
  assumes "sublist a b" and "length b \<le> length a"
  shows "a = b"
proof -
  obtain ps ss where "b = ps @ a @ ss" using assms(1) by (auto simp: sublist_def)
  with assms(2) show ?thesis by simp
qed

lemma prefix_take: "prefix k t \<longleftrightarrow> take (length k) t = k"
  by (metis append_eq_conv_conj prefixE take_is_prefix)

lemma length_trimmed: "length (trimmed l) \<le> length l"
  by (rule sublist_length_le) (rule sublist_trimmed)

lemma upper_space [simp]: "isSpace (upperChar c) = isSpace c"
  unfolding isSpace_def upperChar_def code_def by (auto simp: of_char_of)

lemma lower_space [simp]: "isSpace (lowerChar c) = isSpace c"
  unfolding isSpace_def lowerChar_def code_def by (auto simp: of_char_of)

lemma dropWhile_upper: "dropWhile isSpace (toUpper l) = toUpper (dropWhile isSpace l)"
  by (induction l) simp_all

lemma rev_toUpper: "rev (toUpper l) = toUpper (rev l)"
  by (simp add: toUpper_def rev_map)

lemma trimmed_toUpper: "trimmed (toUpper l) = toUpper (trimmed l)"
  by (simp add: trimmed_def dropWhile_upper rev_toUpper)

lemma prefix_toUpper: "prefix a b \<Longrightarrow> prefix (toUpper a) (toUpper b)"
  by (auto simp: prefix_def toUpper_def)

lemma prefix_toLower: "prefix a b \<Longrightarrow> prefix (toLower a) (toLower b)"
  by (auto simp: prefix_def)

definition good :: "string \<Rightarrow> bool" where
  "good l \<longleftrightarrow> l = [] \<or> \<not> isSpace (hd l)"

named_theorems line_simps

lemma good_simps [line_simps]: "good []" "good (c # l) \<longleftrightarrow> \<not> isSpace c"
  by (simp_all add: good_def)

lemma no_word [line_simps]: "good l \<Longrightarrow> \<not> prefix key (toUpper l) \<Longrightarrow> \<not> isWord key l"
  using prefix_toUpper [OF trimmed_prefix, of l] by (auto simp: isWord_def trimmed_toUpper good_def)

lemma isWord_iff: "isWord key l \<longleftrightarrow> toUpper (trimmed l) = key"
  by (simp add: isWord_def trimmed_toUpper)

lemma keyAtStart_prefix [line_simps]: "keyAtStart key l \<longleftrightarrow> prefix key (toUpper l) \<and> trimmed key = key"
proof
  assume k: "keyAtStart key l"
  define x where "x = toUpper (take (length key) l)"
  have q: "qleft l (int (length key)) = take (length key) l" by (auto simp: qleft_def)
  from k have t: "trimmed x = key" by (simp add: keyAtStart_def q x_def)
  moreover have "length x \<le> length key" by (simp add: x_def toUpper_def)
  ultimately have "length (trimmed x) = length x" using length_trimmed [of x] by simp
  then have "trimmed x = x"
    using sublist_same_length [OF sublist_trimmed, of x] by simp
  with t have "toUpper (take (length key) l) = key" by (simp add: x_def)
  moreover have "prefix (toUpper (take (length key) l)) (toUpper l)" by (rule prefix_toUpper) (rule take_is_prefix)
  ultimately show "prefix key (toUpper l) \<and> trimmed key = key" using t by (metis trimmed_trimmed)
next
  assume k: "prefix key (toUpper l) \<and> trimmed key = key"
  then have "toUpper (take (length key) l) = key"
    by (auto simp: prefix_def toUpper_def take_map [symmetric])
  moreover have "qleft l (int (length key)) = take (length key) l" by (auto simp: qleft_def)
  ultimately show "keyAtStart key l" using k by (simp add: keyAtStart_def)
qed

lemma contains_whole:
  assumes "length l \<le> length key"
  shows "containsCI l key \<longleftrightarrow> toLower l = toLower key"
  using assms sublist_same_length [of "toLower key" "toLower l"] by (auto simp: containsCI_sublist)

lemma containsCI_start:
  assumes "n = int (length key)" and "good l"
  shows "containsCI (qleft (trimmed l) n) key \<longleftrightarrow> prefix (toLower key) (toLower (trimmed l))"
proof -
  have q: "qleft (trimmed l) n = take (length key) (trimmed l)" using assms(1) by (auto simp: qleft_def)
  have "toLower (take (length key) (trimmed l)) = toLower key \<longleftrightarrow> prefix (toLower key) (toLower (trimmed l))"
    by (simp add: prefix_take toLower_def take_map)
  then show ?thesis unfolding q by (simp add: contains_whole)
qed

lemma no_http [line_simps]:
  "good l \<Longrightarrow> \<not> prefix ''http-proxy-retry'' (toLower l) \<Longrightarrow> \<not> isHttpRetry l"
  "good l \<Longrightarrow> \<not> prefix ''http-proxy '' (toLower l) \<Longrightarrow> \<not> isHttpProxy l"
  using prefix_toLower [OF trimmed_prefix, of l]
  by (auto simp: isHttpRetry_def isHttpProxy_def containsCI_start good_def dest: prefix_order.trans)

lemma qleft_prefix: "prefix (qleft x n) x"
  by (simp add: qleft_def take_is_prefix)

lemma no_remote [line_simps]:
  assumes "good l" and "\<not> prefix ''REMOTE '' (toUpper l)"
  shows "\<not> isRemote l"
proof
  assume "isRemote l"
  then have "prefix ''REMOTE '' (toUpper (trimmed l))"
    using qleft_prefix [of "toUpper (trimmed l)" 7] by (simp add: isRemote_def)
  moreover have "prefix (toUpper (trimmed l)) (toUpper l)"
    using assms(1) by (intro prefix_toUpper trimmed_prefix) (simp add: good_def)
  ultimately show False using assms(2) prefix_order.trans by blast
qed

section \<open>Forms whose entries are plain\<close>

definition wordText :: "string \<Rightarrow> bool" where
  "wordText v \<longleftrightarrow> list_all (\<lambda>c. \<not> isSpace c) v"

definition unquotedWord :: "string \<Rightarrow> bool" where
  "unquotedWord v \<longleftrightarrow> wordText v \<and> quote \<notin> set v"

definition fileText' :: "string \<Rightarrow> bool" where
  "fileText' v \<longleftrightarrow> trimmed v = v \<and> rawLine v \<and> quote \<notin> set v"

definition plainForm :: "form \<Rightarrow> bool" where
  "plainForm f \<longleftrightarrow>
     list_all (\<lambda>w. wordText (entered f w)) [TxtMtu, TxtLinuxUser, TxtLinuxGroup, TxtFragment, TxtDevNode, TxtVerbose,
       TxtRouteDelay, TxtMute] \<and>
     unquotedWord (entered f TxtHTTPIP) \<and> unquotedWord (entered f TxtHTTPPort) \<and>
     list_all (\<lambda>r. fst r \<noteq> [] \<and> unquotedWord (fst r) \<and> unquotedWord (snd r)) (remotes f) \<and>
     list_all (\<lambda>w. namesFile f w \<longrightarrow> fileText' (certShown f w)) [TxtCA, TxtCert, TxtKey] \<and>
     (keepsPkcs12 f \<longrightarrow> fileText' (pkcsShown f)) \<and>
     current f CmbDev \<le> 2 \<and> current f CmbProto \<le> 2 \<and> current f CmbRouteMethod \<le> 2 \<and>
     current f CmbProxyAuth \<le> 3 \<and> current f CmbAuthMethod \<le> 2 \<and> current f CmbChiper < length fillCipherCombo"

section \<open>What the reader makes of the lines\<close>

lemma firstValue_simps [line_simps]:
  "firstValue m v d [] = d" "firstValue m v d (l # ls) = (if m l then v l else firstValue m v d ls)"
  "firstValue m v d (xs @ ys) = firstValue m v (firstValue m v d ys) xs"
proof -
  show "firstValue m v d (xs @ ys) = firstValue m v (firstValue m v d ys) xs"
    by (induction xs) (simp_all add: firstValue_def)
qed (simp_all add: firstValue_def)

lemma line_simps' [line_simps]:
  "list_ex m (checkLine f w t) \<longleftrightarrow> checked f w \<and> m t"
  "list_ex m (fieldLine f u key) \<longleftrightarrow> entered f u \<noteq> [] \<and> m (key @ CHR '' '' # entered f u)"
  "list_ex m (choiceLine f c one two) \<longleftrightarrow> (current f c = 1 \<and> m one) \<or> (1 < current f c \<and> m two)"
  "list_ex m (certLine f u key) \<longleftrightarrow> namesFile f u \<and> m (key @ CHR '' '' # inQuotes (certShown f u))"
  "firstValue m v d (checkLine f w t) = (if checked f w \<and> m t then v t else d)"
  "firstValue m v d (fieldLine f u key) =
     (if entered f u \<noteq> [] \<and> m (key @ CHR '' '' # entered f u) then v (key @ CHR '' '' # entered f u) else d)"
  "firstValue m v d (choiceLine f c one two) =
     (if current f c = 1 \<and> m one then v one else if 1 < current f c \<and> m two then v two else d)"
  "firstValue m v d (certLine f u key) =
     (if namesFile f u \<and> m (key @ CHR '' '' # inQuotes (certShown f u)) then v (key @ CHR '' '' # inQuotes (certShown f u)) else d)"
  by (auto simp: checkLine_def fieldLine_def choiceLine_def certLine_def firstValue_def)

definition pkcsText' :: "form \<Rightarrow> string" where
  "pkcsText' f = (if origin f TxtPkcs12Path \<noteq> entered f TxtPkcs12Path then inQuotes (pkcsShown f) else pkcsShown f)"

definition proxyRest :: "form \<Rightarrow> string" where
  "proxyRest f = spaced (typeWord f) @ spaced (methodWord f)"

definition cipherWord :: "form \<Rightarrow> string" where
  "cipherWord f = fillCipherCombo ! current f CmbChiper"

definition cipherLine :: "form \<Rightarrow> string list" where
  "cipherLine f = (if current f CmbChiper \<noteq> 0 then [''cipher '' @ cipherWord f] else [])"

definition serverLine :: "form \<Rightarrow> string list" where
  "serverLine f = (if usesPkcs12 f then [] else checkLine f CbCertIsServer ''remote-cert-tls server'')"

lemma more_line_simps [line_simps]:
  "list_ex m (pkcsLine f) \<longleftrightarrow> keepsPkcs12 f \<and> m (''pkcs12 '' @ pkcsText' f)"
  "list_ex m (proxyLine f) \<longleftrightarrow> entered f TxtHTTPIP \<noteq> [] \<and>
     m (''http-proxy '' @ entered f TxtHTTPIP @ CHR '' '' # entered f TxtHTTPPort @ proxyRest f)"
  "list_ex m (cipherLine f) \<longleftrightarrow> current f CmbChiper \<noteq> 0 \<and> m (''cipher '' @ cipherWord f)"
  "list_ex m (serverLine f) \<longleftrightarrow> \<not> usesPkcs12 f \<and> checked f CbCertIsServer \<and> m ''remote-cert-tls server''"
  "firstValue m v d (pkcsLine f) = (if keepsPkcs12 f \<and> m (''pkcs12 '' @ pkcsText' f) then v (''pkcs12 '' @ pkcsText' f) else d)"
  "firstValue m v d (proxyLine f) = (if entered f TxtHTTPIP \<noteq> [] \<and>
       m (''http-proxy '' @ entered f TxtHTTPIP @ CHR '' '' # entered f TxtHTTPPort @ proxyRest f)
     then v (''http-proxy '' @ entered f TxtHTTPIP @ CHR '' '' # entered f TxtHTTPPort @ proxyRest f) else d)"
  "firstValue m v d (cipherLine f) =
     (if current f CmbChiper \<noteq> 0 \<and> m (''cipher '' @ cipherWord f) then v (''cipher '' @ cipherWord f) else d)"
  "firstValue m v d (serverLine f) =
     (if \<not> usesPkcs12 f \<and> checked f CbCertIsServer \<and> m ''remote-cert-tls server'' then v ''remote-cert-tls server'' else d)"
  by (auto simp: pkcsLine_def pkcsText'_def proxyLine_def proxyRest_def cipherLine_def serverLine_def firstValue_def checkLine_def)

lemma advancedLines_split:
  "advancedLines f =
     serverLine f
     @ fieldLine f TxtLinuxUser ''user'' @ fieldLine f TxtLinuxGroup ''group'' @ checkLine f CbMsfix ''mssfix''
     @ checkLine f CbBlockOutsideDns ''block-outside-dns'' @ fieldLine f TxtFragment ''fragment''
     @ choiceLine f CmbRouteMethod ''route-method exe'' ''route-method ipapi'' @ fieldLine f TxtDevNode ''dev-node''
     @ fieldLine f TxtVerbose ''verb'' @ fieldLine f TxtRouteDelay ''route-delay'' @ fieldLine f TxtMute ''mute''
     @ checkLine f CbRandomHost ''remote-random'' @ checkLine f CbResolveHostname ''resolve-retry infinite''
     @ checkLine f CbHTTPRetry ''http-proxy-retry'' @ proxyLine f
     @ checkLine f CbMuteWirelessWarning ''mute-replay-warnings'' @ cipherLine f
     @ checkLine f CbRedirectGateway ''redirect-gateway''"
  by (simp only: advancedLines_def serverLine_def cipherLine_def cipherWord_def)

lemma list_ex_map [line_simps]: "list_ex P (map g xs) \<longleftrightarrow> list_ex (\<lambda>x. P (g x)) xs"
  by (induction xs) simp_all

lemma list_ex_False [line_simps]: "\<not> list_ex (\<lambda>x. False) xs"
  by (induction xs) simp_all

lemma firstValue_map [line_simps]:
  "firstValue m v d (map g xs) = firstValue (\<lambda>x. m (g x)) (\<lambda>x. v (g x)) d xs"
  by (induction xs arbitrary: d) (simp_all add: firstValue_def)

lemma firstValue_none [line_simps]: "firstValue (\<lambda>x. False) v d xs = d"
  by (induction xs) (simp_all add: firstValue_def)

lemma letters [line_simps]:
  "\<not> isSpace CHR ''#''" "\<not> isSpace CHR ''a''" "\<not> isSpace CHR ''b''" "\<not> isSpace CHR ''c''" "\<not> isSpace CHR ''d''" "\<not> isSpace CHR ''f''"
  "\<not> isSpace CHR ''g''" "\<not> isSpace CHR ''h''" "\<not> isSpace CHR ''k''" "\<not> isSpace CHR ''m''" "\<not> isSpace CHR ''n''"
  "\<not> isSpace CHR ''p''" "\<not> isSpace CHR ''r''" "\<not> isSpace CHR ''t''" "\<not> isSpace CHR ''u''" "\<not> isSpace CHR ''v''"
  by (simp_all add: isSpace_def code_def)

text \<open>The comment at the top is nobody's.\<close>

definition hashed :: "string \<Rightarrow> bool" where
  "hashed l \<longleftrightarrow> l = [] \<or> hd l = CHR ''#''"

lemma hashed_good: "hashed l \<Longrightarrow> good l"
  by (auto simp: hashed_def good_def letters)

lemma hashed_prefix: "hashed l \<Longrightarrow> c \<noteq> CHR ''#'' \<Longrightarrow> \<not> prefix (c # key) (toUpper l)"
  by (cases l) (auto simp: hashed_def)

lemma hashed_lower: "hashed l \<Longrightarrow> c \<noteq> CHR ''#'' \<Longrightarrow> \<not> prefix (c # key) (toLower l)"
  by (cases l) (auto simp: hashed_def)

lemma hashed_none:
  assumes "hashed l"
  shows "c \<noteq> CHR ''#'' \<Longrightarrow> \<not> isWord (c # key) l" "c \<noteq> CHR ''#'' \<Longrightarrow> \<not> keyAtStart (c # key) l"
    "\<not> isHttpRetry l" "\<not> isHttpProxy l" "\<not> isRemote l"
  using hashed_good [OF assms] hashed_prefix [OF assms] hashed_lower [OF assms]
  by (simp_all add: no_word keyAtStart_prefix no_http no_remote)

lemma header_hashed: "list_all hashed (headerLines stamp)"
  by (simp add: headerLines_def hashed_def)

lemma header_none:
  assumes "\<And>l. hashed l \<Longrightarrow> \<not> m l"
  shows "\<not> list_ex m (headerLines stamp)" "firstValue m v d (headerLines stamp) = d"
proof -
  have "list_ex m ls \<Longrightarrow> list_all hashed ls \<Longrightarrow> False" for ls using assms by (induction ls) auto
  then show "\<not> list_ex m (headerLines stamp)" using header_hashed by blast
  have "list_all hashed ls \<Longrightarrow> firstValue m v d ls = d" for ls using assms by (induction ls) (auto simp: firstValue_def)
  then show "firstValue m v d (headerLines stamp) = d" using header_hashed by blast
qed

lemmas header_simps [line_simps] =
  header_none [where m = "isWord (c # key)" for c key, OF hashed_none(1)]
  header_none [where m = "keyAtStart (c # key)" for c key, OF hashed_none(2)]
  header_none [where m = isHttpRetry, OF hashed_none(3)] header_none [where m = isHttpProxy, OF hashed_none(4)]
  header_none [where m = isRemote, OF hashed_none(5)]

lemma words [line_simps]:
  "isWord ''CLIENT'' ''client''" "isWord ''FLOAT'' ''float''" "isWord ''COMP-LZO'' ''comp-lzo''" "isWord ''NOBIND'' ''nobind''"
  "isWord ''PERSIST-KEY'' ''persist-key''" "isWord ''PERSIST-TUN'' ''persist-tun''" "isWord ''AUTH-NOCACHE'' ''auth-nocache''"
  "isWord ''REDIRECT-GATEWAY'' ''redirect-gateway''" "isWord ''REMOTE-CERT-TLS SERVER'' ''remote-cert-tls server''"
  "isWord ''MSSFIX'' ''mssfix''" "isWord ''BLOCK-OUTSIDE-DNS'' ''block-outside-dns''" "isWord ''REMOTE-RANDOM'' ''remote-random''"
  "isWord ''MUTE-REPLAY-WARNINGS'' ''mute-replay-warnings''"
  by (simp_all add: isWord_iff trimmed_def isSpace_def code_def)

lemma trimmed_good: "s \<noteq> [] \<Longrightarrow> \<not> isSpace (hd s) \<Longrightarrow> \<not> isSpace (last s) \<Longrightarrow> trimmed s = s"
  by (rule trimmed_id)

lemmas lines_defs = formLines_def generalLines_def certLines_def advancedLines_split remoteLine_def

lemma keys [line_simps]:
  "trimmed ''CA'' = ''CA''" "trimmed ''CERT'' = ''CERT''" "trimmed ''KEY'' = ''KEY''" "trimmed ''PKCS12'' = ''PKCS12''"
  "trimmed ''DEV'' = ''DEV''" "trimmed ''TUN-MTU'' = ''TUN-MTU''" "trimmed ''FRAGMENT'' = ''FRAGMENT''"
  "trimmed ''PROTO'' = ''PROTO''" "trimmed ''VERB'' = ''VERB''" "trimmed ''MUTE'' = ''MUTE''"
  "trimmed ''ROUTE-METHOD'' = ''ROUTE-METHOD''" "trimmed ''ROUTE-DELAY'' = ''ROUTE-DELAY''"
  "trimmed ''DEV-NODE'' = ''DEV-NODE''" "trimmed ''RESOLVE-RETRY'' = ''RESOLVE-RETRY''" "trimmed ''USER'' = ''USER''"
  "trimmed ''GROUP'' = ''GROUP''" "trimmed ''CIPHER'' = ''CIPHER''"
  by (simp_all add: trimmed_def isSpace_def code_def)

lemma wordText_simps:
  assumes "wordText v"
  shows "trimmed v = v" "CHR '' '' \<notin> set v" "rawLine v"
proof -
  have n: "\<not> isSpace c" if "c \<in> set v" for c using assms that by (simp add: wordText_def list_all_iff)
  then show "trimmed v = v" by (rule trimmed_no_space)
  show "CHR '' '' \<notin> set v" using n [of "CHR '' ''"] by auto
  show "rawLine v" using n [of "CHR 0x0A"] n [of "CHR 0x0D"] by (auto simp: rawLine_def isSpace_def code_def)
qed

lemma secondOfTwo_word: "wordText v \<Longrightarrow> CHR '' '' \<notin> set key \<Longrightarrow> secondOfTwo (key @ CHR '' '' # v) = Some v"
  by (simp add: secondOfTwo_def wordText_simps)

lemma textValue_word: "wordText v \<Longrightarrow> CHR '' '' \<notin> set key \<Longrightarrow> textValue (key @ CHR '' '' # v) = v"
  by (simp add: textValue_def secondOfTwo_word)

lemma httpRetry_word [line_simps]: "isHttpRetry ''http-proxy-retry''"
  by (simp add: isHttpRetry_def trimmed_def qleft_def isSpace_def code_def containsCI_sublist)

lemma checks_shown:
  "list_ex (checkMatch w) (formLines stamp f) \<longleftrightarrow> checked f w \<and> (w = CbCertIsServer \<longrightarrow> \<not> usesPkcs12 f)"
  by (cases w; simp add: lines_defs line_simps conj_commute split del: if_split)

lemma texts_shown:
  assumes "plainForm f" and "textKey w \<noteq> []"
  shows "firstValue (keyAtStart (textKey w)) textValue [] (formLines stamp f) = entered f w"
proof -
  have t: "wordText (entered f w)" using assms by (cases w) (simp_all add: plainForm_def)
  have m: "textValue ''mute-replay-warnings'' = []" by (simp add: textValue_def secondOfTwo_def)
  show ?thesis using assms(2) t
    by (cases w; simp add: lines_defs line_simps m split del: if_split; simp add: textValue_def secondOfTwo_def wordText_simps)
qed


lemma fileValue_quoted:
  assumes "fileText' v" and "length k = length key" and "k \<noteq> []" and "\<not> isSpace (hd k)"
  shows "fileOptionValue key (k @ CHR '' '' # inQuotes v) = v"
proof -
  let ?l = "k @ CHR '' '' # inQuotes v"
  have "trimmed ?l = ?l" using assms(3,4) by (intro trimmed_id) (simp_all add: inQuotes_def quote_def isSpace_def code_def)
  moreover have "qright ?l (int (length ?l) - int (length key)) = CHR '' '' # inQuotes v"
    using assms(2,3) by (cases key) (simp_all add: qright_def)
  moreover have "qreplace (CHR '' '' # inQuotes v) [quote] [] = CHR '' '' # v"
    using assms(1) by (auto simp: qreplace_drop_char inQuotes_def quote_def fileText'_def filter_id_conv)
  moreover have "trimmed (CHR '' '' # v) = trimmed v" by (simp add: trimmed_def isSpace_def code_def)
  ultimately show ?thesis using assms(1) by (simp add: fileOptionValue_def fileText'_def quote_def)
qed

lemma trimmed_prefix_kept:
  assumes "p \<noteq> []" and "\<not> isSpace (hd p)" and "\<not> isSpace c"
  shows "prefix (p @ [c]) (trimmed (p @ c # cs))"
proof -
  have "dropWhile isSpace (p @ c # cs) = p @ c # cs" using assms(1,2) by (cases p) auto
  moreover have "dropWhile isSpace (rev cs @ c # rev p) = dropWhile isSpace (rev cs) @ c # rev p"
    using assms(3) by (cases "\<exists>x\<in>set cs. \<not> isSpace x") (auto simp: dropWhile_append1 dropWhile_append3)
  ultimately show ?thesis by (simp add: trimmed_def prefix_def)
qed

lemma fileValue_bare:
  assumes "fileText' v" and "v \<noteq> []" and "length k = length key" and "k \<noteq> []" and "\<not> isSpace (hd k)"
  shows "fileOptionValue key (k @ CHR '' '' # v) = v"
proof -
  let ?l = "k @ CHR '' '' # v"
  have v: "\<not> isSpace (last v)" using assms(1,2) last_trimmed [of v] by (simp add: fileText'_def)
  have "trimmed ?l = ?l" using assms(2,4,5) v by (intro trimmed_id) simp_all
  moreover have "qright ?l (int (length ?l) - int (length key)) = CHR '' '' # v"
    using assms(3,4) by (cases key) (simp_all add: qright_def)
  moreover have "qreplace (CHR '' '' # v) [quote] [] = CHR '' '' # v"
    using assms(1) by (auto simp: qreplace_drop_char quote_def fileText'_def filter_id_conv)
  moreover have "trimmed (CHR '' '' # v) = trimmed v" by (simp add: trimmed_def isSpace_def code_def)
  ultimately show ?thesis using assms(1) by (simp add: fileOptionValue_def fileText'_def quote_def)
qed

definition savedFile :: "form \<Rightarrow> lineEdit \<Rightarrow> string" where
  "savedFile f w = (if w = TxtPkcs12Path then if keepsPkcs12 f then pkcsShown f else []
     else if namesFile f w then certShown f w else [])"

lemma pkcsText_value:
  assumes "plainForm f" and "keepsPkcs12 f"
  shows "fileOptionValue ''PKCS12'' (''pkcs12 '' @ pkcsText' f) = pkcsShown f"
proof -
  have p: "fileText' (pkcsShown f)" using assms by (simp add: plainForm_def)
  show ?thesis
  proof (cases "origin f TxtPkcs12Path \<noteq> entered f TxtPkcs12Path")
    case True
    then show ?thesis using fileValue_quoted [OF p, of "''pkcs12''" "''PKCS12''"] by (simp add: pkcsText'_def line_simps)
  next
    case False
    then have "pkcsShown f \<noteq> []" using assms(2) by (simp add: pkcsShown_def keepsPkcs12_def)
    with False show ?thesis using fileValue_bare [OF p, of "''pkcs12''" "''PKCS12''"] by (simp add: pkcsText'_def line_simps)
  qed
qed

lemma files_shown:
  assumes "plainForm f" and "fileKey w \<noteq> []"
  shows "firstValue (keyAtStart (fileKey w)) (fileOptionValue (fileKey w)) [] (formLines stamp f) = savedFile f w"
proof -
  have c: "namesFile f u \<Longrightarrow> fileText' (certShown f u)" if "u \<in> {TxtCA, TxtCert, TxtKey}" for u
    using assms(1) that by (auto simp: plainForm_def)
  have v: "namesFile f TxtCA \<Longrightarrow> fileOptionValue ''CA'' (''ca'' @ CHR '' '' # inQuotes (certShown f TxtCA)) = certShown f TxtCA"
    "namesFile f TxtCert \<Longrightarrow> fileOptionValue ''CERT'' (''cert'' @ CHR '' '' # inQuotes (certShown f TxtCert)) = certShown f TxtCert"
    "namesFile f TxtKey \<Longrightarrow> fileOptionValue ''KEY'' (''key'' @ CHR '' '' # inQuotes (certShown f TxtKey)) = certShown f TxtKey"
    by (rule fileValue_quoted; simp add: c line_simps)+
  show ?thesis
    by (insert assms(2), cases w; simp add: lines_defs line_simps savedFile_def split del: if_split;
        rule if_cong [OF refl _ refl]; rule v pkcsText_value [OF assms(1)]; assumption)
qed

lemma firstPart [line_simps]: "splitOn CHR '' '' (''http-proxy '' @ r) = ''http-proxy'' # splitOn CHR '' '' r"
  "splitOn CHR '' '' (''remote '' @ r) = ''remote'' # splitOn CHR '' '' r"
  using splitOn_Cons_sep [of "CHR '' ''" "''http-proxy''" r] splitOn_Cons_sep [of "CHR '' ''" "''remote''" r] by simp_all

lemma unquotedWord_simps:
  assumes "unquotedWord v"
  shows "wordText v" "unquoted v = v"
  using assms by (auto simp: unquotedWord_def unquoted_def qreplace_drop_char quote_def filter_id_conv)

lemma remote_shown:
  assumes "fst r \<noteq> []" and "unquotedWord (fst r)" and "unquotedWord (snd r)"
  shows "isRemote (remoteLine r)" "remoteValue (remoteLine r) = r" "\<not> isProtoRemote (remoteLine r)"
proof -
  note w = wordText_simps [OF unquotedWord_simps(1)] unquotedWord_simps(2)
  have s: "splitOn CHR '' '' (remoteLine r) = [''remote'', fst r, snd r]"
    using assms(2,3) by (simp only: remoteLine_def firstPart) (simp add: w)
  then show "remoteValue (remoteLine r) = r" "\<not> isProtoRemote (remoteLine r)"
    using assms(2,3) by (simp_all add: remoteValue_def w isProtoRemote_def)
  obtain c cs where c: "fst r = c # cs" using assms(1) by (cases "fst r") auto
  have "\<not> isSpace c" using assms(2) by (simp add: c unquotedWord_def wordText_def)
  then have "prefix (''remote '' @ [c]) (trimmed (remoteLine r))"
    unfolding remoteLine_def c using trimmed_prefix_kept [of "''remote ''" c "cs @ CHR '' '' # snd r"]
    by (simp add: line_simps)
  then obtain t where "trimmed (remoteLine r) = ''remote '' @ c # t" by (auto simp: prefix_def)
  then show "isRemote (remoteLine r)" by (simp add: isRemote_def s qleft_def)
qed

lemma filter_none: "\<not> list_ex P xs \<Longrightarrow> filter P xs = []"
  by (simp add: list_ex_iff filter_empty_conv)

lemma remotes_shown:
  assumes "plainForm f"
  shows "filter isRemote (formLines stamp f) = map remoteLine (remotes f)"
    and "map remoteValue (map remoteLine (remotes f)) = remotes f"
proof -
  have r: "isRemote (remoteLine r)" "remoteValue (remoteLine r) = r" if "r \<in> set (remotes f)" for r
    using assms that remote_shown [of r] by (auto simp: plainForm_def list_all_iff)
  then show "map remoteValue (map remoteLine (remotes f)) = remotes f" by (simp add: map_idI)
  have "filter isRemote (map remoteLine (remotes f)) = map remoteLine (remotes f)"
    using r(1) by (simp add: filter_id_conv)
  then show "filter isRemote (formLines stamp f) = map remoteLine (remotes f)"
    by (simp add: formLines_def generalLines_def certLines_def advancedLines_split filter_none line_simps)
qed

lemma no_protoRemote:
  assumes "plainForm f"
  shows "list_all (\<lambda>l. \<not> isProtoRemote l) (formLines stamp f)"
proof -
  have "\<not> isProtoRemote l" if "l \<in> set (formLines stamp f)" for l
  proof
    assume p: "isProtoRemote l"
    then have "l \<in> set (filter isRemote (formLines stamp f))" using that by (simp add: isProtoRemote_def)
    then obtain r where "r \<in> set (remotes f)" "l = remoteLine r" by (auto simp: remotes_shown [OF assms])
    with p assms remote_shown(3) [of r] show False by (auto simp: plainForm_def list_all_iff)
  qed
  then show ?thesis by (simp add: list_all_iff)
qed

lemma protoShown_plain:
  "list_all (\<lambda>l. \<not> isProtoRemote l) ls \<Longrightarrow>
    protoShown b i ls = (if b then i else firstValue (keyAtStart ''PROTO'') (choiceValue ''TCP'') i ls)"
  by (induction ls arbitrary: b i) (auto simp: Let_def firstValue_simps)

lemma choices_read [line_simps]:
  "choiceValue ''TUN'' ''dev tun'' = 1" "choiceValue ''TUN'' ''dev tap'' = 2" "choiceValue ''TCP'' ''proto tcp'' = 1"
  "choiceValue ''TCP'' ''proto udp'' = 2" "choiceValue ''EXE'' ''route-method exe'' = 1"
  "choiceValue ''EXE'' ''route-method ipapi'' = 2"
  by code_simp+

lemma ciphers_read: "list_all (\<lambda>i. cipherValue (''cipher '' @ fillCipherCombo ! i) = i) [0..<length fillCipherCombo]"
  by code_simp

definition savedDev :: "form \<Rightarrow> nat" where
  "savedDev f = (if current f CmbDev \<noteq> 0 \<or> entered f TxtDevNode = [] then current f CmbDev
     else if toUpper (entered f TxtDevNode) = ''TUN'' then 1 else 2)"

lemma devNode_read: "wordText v \<Longrightarrow> choiceValue ''TUN'' (''dev-node'' @ CHR '' '' # v) = (if toUpper v = ''TUN'' then 1 else 2)"
  by (simp add: choiceValue_def secondOfTwo_word del: append.simps)

definition proxyText :: "form \<Rightarrow> string" where
  "proxyText f = ''http-proxy '' @ entered f TxtHTTPIP @ CHR '' '' # entered f TxtHTTPPort @ proxyRest f"

lemma proxy_words:
  "proxyAuthIndex (toUpper (unquoted ''stdin'')) = 1" "proxyAuthIndex (toUpper (unquoted ''auto'')) = 2"
  "proxyAuthIndex (toUpper (unquoted ''auto-nct'')) = 3" "proxyAuthIndex (toUpper (unquoted ''basic'')) = 0"
  "proxyAuthIndex (toUpper (unquoted ''ntlm'')) = 0" "proxyAuthIndex (toUpper (unquoted [])) = 0"
  "authMethodIndex (toUpper (unquoted ''basic'')) = 1" "authMethodIndex (toUpper (unquoted ''ntlm'')) = 2"
  "authMethodIndex (toUpper (unquoted [])) = 0" "authMethodIndex [] = 0"
  by code_simp+

lemma proxy_shown:
  assumes "plainForm f" and "entered f TxtHTTPIP \<noteq> []"
  shows "isHttpProxy (proxyText f)" "proxyPart 1 (proxyText f) = entered f TxtHTTPIP"
    "proxyPart 2 (proxyText f) = entered f TxtHTTPPort"
    "proxyAuthIndex (toUpper (proxyPart 3 (proxyText f))) = current f CmbProxyAuth"
    "authMethodIndex (toUpper (proxyPart 4 (proxyText f))) = (if current f CmbProxyAuth = 0 then 0 else current f CmbAuthMethod)"
proof -
  have u: "unquotedWord (entered f TxtHTTPIP)" "unquotedWord (entered f TxtHTTPPort)"
    using assms(1) by (simp_all add: plainForm_def)
  note w = wordText_simps(2) [OF unquotedWord_simps(1)] unquotedWord_simps(2)
  obtain c cs where c: "entered f TxtHTTPIP = c # cs" using assms(2) by (cases "entered f TxtHTTPIP") auto
  have "\<not> isSpace c" using u(1) by (simp add: c unquotedWord_def wordText_def)
  then have "prefix (''http-proxy '' @ [c]) (trimmed (proxyText f))"
    unfolding proxyText_def c using trimmed_prefix_kept [of "''http-proxy ''" c "cs @ CHR '' '' # entered f TxtHTTPPort @ proxyRest f"]
    by (simp add: line_simps)
  then have "prefix ''http-proxy '' (trimmed (proxyText f))" by (auto simp: prefix_def)
  moreover have "good (proxyText f)" by (simp add: proxyText_def line_simps)
  ultimately show "isHttpProxy (proxyText f)"
    using prefix_toLower by (fastforce simp: isHttpProxy_def containsCI_start)
  have s: "splitOn CHR '' '' (proxyText f) = ''http-proxy'' # entered f TxtHTTPIP # splitOn CHR '' '' (entered f TxtHTTPPort @ proxyRest f)"
    using u by (simp only: proxyText_def firstPart) (simp add: w)
  have r: "splitOn CHR '' '' (entered f TxtHTTPPort @ proxyRest f) =
    entered f TxtHTTPPort # filter (\<lambda>v. v \<noteq> []) [typeWord f, methodWord f]"
    using u(2) by (auto simp: proxyRest_def spaced_def typeWord_def methodWord_def w)
  show "proxyPart 1 (proxyText f) = entered f TxtHTTPIP" "proxyPart 2 (proxyText f) = entered f TxtHTTPPort"
    using u by (simp_all add: proxyPart_def s r w Let_def)
  have p: "proxyPart 3 (proxyText f) = (if typeWord f \<noteq> [] then unquoted (typeWord f) else unquoted (methodWord f))"
    "proxyPart 4 (proxyText f) = (if typeWord f \<noteq> [] then unquoted (methodWord f) else [])"
    by (auto simp: proxyPart_def s r Let_def unquoted_def qreplace_drop_char)
  have i: "current f CmbProxyAuth \<in> {0, 1, 2, 3}" "current f CmbAuthMethod \<in> {0, 1, 2}"
    using assms(1) by (auto simp: plainForm_def)
  then show "proxyAuthIndex (toUpper (proxyPart 3 (proxyText f))) = current f CmbProxyAuth"
    "authMethodIndex (toUpper (proxyPart 4 (proxyText f))) = (if current f CmbProxyAuth = 0 then 0 else current f CmbAuthMethod)"
    using p by (auto simp: typeWord_def methodWord_def proxy_words)
qed

fun savedChoice :: "form \<Rightarrow> comboBox \<Rightarrow> nat" where
  "savedChoice f CmbDev = savedDev f"
| "savedChoice f CmbProxyAuth = (if entered f TxtHTTPIP = [] then 0 else current f CmbProxyAuth)"
| "savedChoice f CmbAuthMethod =
     (if entered f TxtHTTPIP = [] \<or> current f CmbProxyAuth = 0 then 0 else current f CmbAuthMethod)"
| "savedChoice f v = current f v"

lemma proxy_first:
  assumes "plainForm f"
  shows "firstValue isHttpProxy v d (formLines stamp f) = (if entered f TxtHTTPIP = [] then d else v (proxyText f))"
  using proxy_shown(1) [OF assms, unfolded proxyText_def]
  by (simp add: lines_defs line_simps split del: if_split) (simp add: proxyText_def)

lemma choices_shown:
  assumes "plainForm f"
  shows "choiceShown (formLines stamp f) (\<lambda>_. 0) v = savedChoice f v"
proof -
  have n: "current f CmbDev \<le> 2" "current f CmbProto \<le> 2" "current f CmbRouteMethod \<le> 2"
    "current f CmbChiper < length fillCipherCombo" "wordText (entered f TxtDevNode)"
    using assms by (simp_all add: plainForm_def)
  show ?thesis
  proof (cases v)
    case CmbDev
    then show ?thesis using n devNode_read [OF n(5)]
      by (auto simp: lines_defs line_simps savedDev_def)
  next
    case CmbProto
    have "firstValue (keyAtStart ''PROTO'') (choiceValue ''TCP'') 0 (formLines stamp f) = current f CmbProto"
      using n by (simp add: lines_defs line_simps)
    with CmbProto no_protoRemote [OF assms, of stamp] show ?thesis by (simp add: protoShown_plain)
  next
    case CmbRouteMethod
    then show ?thesis using n by (simp add: lines_defs line_simps)
  next
    case CmbChiper
    then show ?thesis using n(4) ciphers_read by (simp add: lines_defs line_simps list_all_iff cipherWord_def)
  qed (simp_all add: proxy_first [OF assms] proxy_shown [OF assms])
qed

lemma fields_shown:
  assumes "plainForm f"
  shows "textShown (formLines stamp f) (\<lambda>_. []) w =
    (if fileKey w \<noteq> [] then savedFile f w
     else if textKey w \<noteq> [] \<or> (w \<in> {TxtHTTPIP, TxtHTTPPort} \<and> entered f TxtHTTPIP \<noteq> []) then entered f w else [])"
  by (auto simp: textShown_def files_shown [OF assms] texts_shown [OF assms] proxy_first [OF assms] proxy_shown [OF assms]
      simp del: One_nat_def)

section \<open>Lines of options the form does not know\<close>

text \<open>What \<open>getAllFieldWhichNotIntoTheInterface\<close> keeps is passed over by the reader.\<close>

definition unknownLine :: "string \<Rightarrow> bool" where
  "unknownLine l \<longleftrightarrow> \<not> inForm l \<and> untagged l"

lemma otherLines_unknown: "otherLines t ls = Some os \<Longrightarrow> list_all unknownLine os"
  by (induction t ls arbitrary: os rule: otherLines.induct) (auto simp: unknownLine_def untagged_def split: if_splits)

lemma prefix_trimmed:
  assumes "prefix key (toUpper l)" and "trimmed key = key" and "key \<noteq> []"
  shows "prefix key (toUpper (trimmed l))"
proof -
  obtain k c where k: "key = k @ [c]" using assms(3) by (cases key rule: rev_cases) auto
  have hd: "\<not> isSpace (hd key)" and c: "\<not> isSpace c"
    using hd_trimmed [of key] last_trimmed [of key] assms(2,3) k by auto
  obtain r where r: "toUpper l = k @ c # r" using assms(1) k by (auto simp: prefix_def)
  have "prefix key (trimmed (toUpper l))"
  proof (cases "k = []")
    case True
    have "dropWhile isSpace (rev r @ [c]) = dropWhile isSpace (rev r) @ [c]"
      using c by (cases "\<exists>x\<in>set r. \<not> isSpace x") (auto simp: dropWhile_append1 dropWhile_append3)
    with True c show ?thesis by (simp add: r k trimmed_def prefix_def)
  next
    case False
    then show ?thesis using trimmed_prefix_kept [of k c r] hd c by (simp add: r k)
  qed
  then show ?thesis by (simp add: trimmed_toUpper)
qed

lemma upperStart_prefix: "upperStart key l \<longleftrightarrow> prefix key (toUpper (trimmed l))"
proof -
  have "qleft (trimmed l) (int (length key)) = take (length key) (trimmed l)" by (auto simp: qleft_def)
  then show ?thesis by (simp add: upperStart_def prefix_take toUpper_def take_map)
qed

lemma keyAtStart_upperStart: "keyAtStart key l \<Longrightarrow> key \<noteq> [] \<Longrightarrow> upperStart key l"
  by (simp add: keyAtStart_prefix upperStart_prefix prefix_trimmed)

lemma unknown_matches:
  assumes "unknownLine l"
  shows "\<not> checkMatch w l" "fileKey v \<noteq> [] \<Longrightarrow> \<not> keyAtStart (fileKey v) l" "textKey v \<noteq> [] \<Longrightarrow> \<not> keyAtStart (textKey v) l"
    "key \<in> {''DEV'', ''PROTO'', ''ROUTE-METHOD'', ''CIPHER''} \<Longrightarrow> \<not> keyAtStart key l"
    "\<not> isHttpProxy l" "\<not> isRemote l"
proof -
  have k: "\<not> keyAtStart key l" if "key \<in> set formStarts" for key
    using that assms keyAtStart_upperStart [of key l] by (auto simp: unknownLine_def inForm_def list_ex_iff formStarts_def)
  have w: "\<not> isWord key l" if "key \<in> set formWords" for key
    using that assms by (auto simp: unknownLine_def inForm_def isWord_iff)
  show "\<not> isHttpProxy l" using assms by (simp add: unknownLine_def inForm_def isHttpProxy_def)
  have h: "\<not> isHttpRetry l" using assms by (simp add: unknownLine_def inForm_def isHttpRetry_def)
  show "\<not> checkMatch w l" by (cases w) (simp_all add: h k w formStarts_def formWords_def)
  show "fileKey v \<noteq> [] \<Longrightarrow> \<not> keyAtStart (fileKey v) l" by (cases v) (simp_all add: k formStarts_def)
  show "textKey v \<noteq> [] \<Longrightarrow> \<not> keyAtStart (textKey v) l" by (cases v) (simp_all add: k formStarts_def)
  show "key \<in> {''DEV'', ''PROTO'', ''ROUTE-METHOD'', ''CIPHER''} \<Longrightarrow> \<not> keyAtStart key l"
    by (rule k) (auto simp: formStarts_def)
  have "\<not> upperStart ''REMOTE '' l" using assms by (auto simp: unknownLine_def inForm_def formStarts_def)
  moreover have "toUpper (qleft (trimmed l) 7) = qleft (toUpper (trimmed l)) 7" by (simp add: qleft_def toUpper_def take_map)
  ultimately show "\<not> isRemote l" by (simp add: isRemote_def upperStart_def)
qed

end
