(* ===== verification/EditorRoundtrip.thy ===== *)
theory EditorRoundtrip
  imports AdvConfigSave
begin

text \<open>
  The editor of all options as a whole: what is shown when a configuration it has saved is opened
  again, scripts included, and that the options it does not know are kept.
\<close>

section \<open>Lines that change nothing\<close>

definition neutral :: "string \<Rightarrow> bool" where
  "neutral l \<longleftrightarrow> hashed l \<or> unknownLine l"

lemma neutral_matches:
  assumes "neutral l"
  shows "\<not> checkMatch w l" "fileKey v \<noteq> [] \<Longrightarrow> \<not> keyAtStart (fileKey v) l" "textKey v \<noteq> [] \<Longrightarrow> \<not> keyAtStart (textKey v) l"
    "key \<in> {''DEV'', ''PROTO'', ''ROUTE-METHOD'', ''CIPHER''} \<Longrightarrow> \<not> keyAtStart key l" "\<not> isHttpProxy l" "\<not> isRemote l"
proof -
  have h: "hashed l \<Longrightarrow> \<not> checkMatch w l" "hashed l \<Longrightarrow> fileKey v \<noteq> [] \<Longrightarrow> \<not> keyAtStart (fileKey v) l"
    "hashed l \<Longrightarrow> textKey v \<noteq> [] \<Longrightarrow> \<not> keyAtStart (textKey v) l"
    by (cases w; simp add: hashed_none) (cases v; simp add: hashed_none)+
  show "\<not> checkMatch w l" "fileKey v \<noteq> [] \<Longrightarrow> \<not> keyAtStart (fileKey v) l" "textKey v \<noteq> [] \<Longrightarrow> \<not> keyAtStart (textKey v) l"
    "key \<in> {''DEV'', ''PROTO'', ''ROUTE-METHOD'', ''CIPHER''} \<Longrightarrow> \<not> keyAtStart key l" "\<not> isHttpProxy l" "\<not> isRemote l"
    using assms h unknown_matches [of l] hashed_none [of l] by (auto simp: neutral_def)
qed

lemma firstValue_neutral: "(\<And>l. neutral l \<Longrightarrow> \<not> m l) \<Longrightarrow> list_all neutral ys \<Longrightarrow> firstValue m v d (xs @ ys) = firstValue m v d xs"
proof -
  assume n: "\<And>l. neutral l \<Longrightarrow> \<not> m l" and "list_all neutral ys"
  then have "firstValue m v d ys = d" by (induction ys) (simp_all add: firstValue_simps)
  then show "firstValue m v d (xs @ ys) = firstValue m v d xs" by (simp add: firstValue_simps)
qed

lemma list_ex_neutral: "(\<And>l. neutral l \<Longrightarrow> \<not> m l) \<Longrightarrow> list_all neutral ys \<Longrightarrow> list_ex m (xs @ ys) = list_ex m xs"
  by (auto simp: list_ex_iff list_all_iff)

lemma protoShown_neutral: "list_all neutral ys \<Longrightarrow> protoShown b i (xs @ ys) = protoShown b i xs"
proof (induction xs arbitrary: b i)
  case Nil
  have "list_all neutral ys \<Longrightarrow> protoShown b i ys = i"
    by (induction ys) (simp_all add: Let_def neutral_matches isProtoRemote_def)
  with Nil show ?case by simp
qed (simp add: Let_def)

lemma shown_neutral:
  assumes "list_all neutral ys"
  shows "shownForm (xs @ ys) f = shownForm xs f"
proof -
  have "choiceShown (xs @ ys) old v = choiceShown xs old v" for old v
    by (cases v) (simp_all add: firstValue_neutral [OF _ assms] neutral_matches protoShown_neutral [OF assms])
  then have c: "choiceShown (xs @ ys) = choiceShown xs" by (intro ext)
  have t: "textShown (xs @ ys) = textShown xs" "originShown (xs @ ys) = originShown xs"
    by (intro ext; simp add: textShown_def originShown_def firstValue_neutral [OF _ assms] neutral_matches)+
  have r: "filter isRemote (xs @ ys) = filter isRemote xs"
    using assms neutral_matches(6) by (auto simp: list_all_iff filter_empty_conv)
  have "(\<lambda>w. list_ex (checkMatch w) (xs @ ys)) = (\<lambda>w. list_ex (checkMatch w) xs)"
    by (intro ext list_ex_neutral [OF _ assms] neutral_matches)
  then show ?thesis unfolding shownForm_def c t r by simp
qed

section \<open>The lines written\<close>

lemma all_simps: "list_all P xs \<longleftrightarrow> \<not> list_ex (\<lambda>l. \<not> P l) xs"
  by (simp add: list_all_iff list_ex_iff)

lemma formLines_all:
  "list_all P (formLines stamp f) \<longleftrightarrow> list_all P (headerLines stamp) \<and> list_all P (generalLines f @ certLines f @ advancedLines f)"
  by (simp add: formLines_def)

lemma lower_less: "lowerChar c = CHR ''<'' \<longleftrightarrow> c = CHR ''<''"
proof -
  have "char_of (code c + 32) \<noteq> CHR ''<''" if "65 \<le> code c" "code c \<le> 90"
  proof
    assume "char_of (code c + 32) = CHR ''<''"
    then have "code (char_of (code c + 32)) = 60" by (simp add: code_def)
    moreover have "code (char_of (code c + 32)) = code c + 32" using that by (simp add: code_def of_char_of)
    ultimately show False using that by simp
  qed
  then show ?thesis by (auto simp: lowerChar_def code_def)
qed

lemma tag_free: "untagged []" "c \<noteq> CHR ''<'' \<Longrightarrow> untagged (c # l)"
  by (auto simp: untagged_def startsWithCI_def toLower_def lower_less dest: sym)

lemma formLines_untagged: "list_all untagged (formLines stamp f)"
proof -
  have "list_all untagged (headerLines stamp)" by (simp add: headerLines_def tag_free)
  moreover have "list_all untagged (generalLines f @ certLines f @ advancedLines f)"
    by (simp add: all_simps lines_defs line_simps tag_free)
  ultimately show ?thesis by (simp add: formLines_def)
qed

lemma rawLine_simps: "rawLine []" "rawLine (c # l) \<longleftrightarrow> c \<noteq> CHR 0x0A \<and> c \<noteq> CHR 0x0D \<and> rawLine l"
  "rawLine (a @ b) \<longleftrightarrow> rawLine a \<and> rawLine b"
  by (auto simp: rawLine_def)

lemma inQuotes_raw: "rawLine (inQuotes v) \<longleftrightarrow> rawLine v"
  by (simp add: inQuotes_def quote_def rawLine_simps)

lemma ciphers_raw: "list_all (\<lambda>i. rawLine (fillCipherCombo ! i)) [0..<length fillCipherCombo]"
  by code_simp

lemma formLines_raw:
  assumes "plainForm f" and "rawLine stamp"
  shows "list_all rawLine (formLines stamp f)"
proof -
  have t: "rawLine (entered f w)" if "textKey w \<noteq> [] \<or> w = TxtHTTPIP \<or> w = TxtHTTPPort" for w
    using assms(1) that by (cases w) (simp_all add: plainForm_def unquotedWord_def wordText_simps)
  have r: "list_all (\<lambda>r. rawLine (fst r) \<and> rawLine (snd r)) (remotes f)"
    using assms(1) by (auto simp: plainForm_def list_all_iff unquotedWord_def wordText_simps)
  have c: "namesFile f w \<Longrightarrow> rawLine (certShown f w)" if "w \<in> {TxtCA, TxtCert, TxtKey}" for w
    using assms(1) that by (auto simp: plainForm_def fileText'_def)
  have p: "keepsPkcs12 f \<Longrightarrow> rawLine (pkcsText' f)"
    using assms(1) by (simp add: plainForm_def fileText'_def pkcsText'_def inQuotes_raw)
  have q: "rawLine (proxyRest f)" by (simp add: proxyRest_def spaced_def typeWord_def methodWord_def rawLine_simps)
  have i: "rawLine (cipherWord f)" using assms(1) ciphers_raw by (simp add: plainForm_def cipherWord_def list_all_iff)
  have "list_all rawLine (headerLines stamp)" using assms(2) by (simp add: headerLines_def rawLine_simps)
  moreover have "list_all rawLine (generalLines f @ certLines f @ advancedLines f)"
    using r by (simp add: all_simps [of rawLine] lines_defs line_simps rawLine_simps t c p q i inQuotes_raw) (simp add: list_all_iff list_ex_iff)
  ultimately show ?thesis by (simp add: formLines_def)
qed

lemma inForm_start: "key \<in> set formStarts \<Longrightarrow> trimmed key = key \<Longrightarrow> prefix key (toUpper l) \<Longrightarrow> inForm l"
  using prefix_trimmed [of key l] by (cases "key = []") (auto simp: inForm_def list_ex_iff upperStart_prefix formStarts_def)

lemma inForm_key: "keyAtStart key l \<Longrightarrow> key \<in> set formStarts \<Longrightarrow> inForm l"
  by (rule inForm_start) (auto simp: keyAtStart_prefix)

definition knownKey :: "string \<Rightarrow> bool" where
  "knownKey k \<longleftrightarrow> toUpper k \<in> set formStarts \<and> trimmed (toUpper k) = toUpper k"

lemma known_keys:
  "knownKey ''tun-mtu''" "knownKey ''ca''" "knownKey ''cert''" "knownKey ''key''" "knownKey ''user''"
  "knownKey ''group''" "knownKey ''fragment''" "knownKey ''dev-node''" "knownKey ''verb''"
  "knownKey ''route-delay''" "knownKey ''mute''" "knownKey ''pkcs12''" "knownKey ''cipher''"
  by code_simp+

lemma inForm_known: "knownKey k \<Longrightarrow> inForm (k @ v)"
  by (rule inForm_start) (auto simp: toUpper_def knownKey_def)

lemma inForm_words:
  "inForm ''client''" "inForm ''float''" "inForm ''comp-lzo''" "inForm ''nobind''" "inForm ''persist-key''"
  "inForm ''persist-tun''" "inForm ''auth-nocache''" "inForm ''remote-cert-tls server''" "inForm ''mssfix''"
  "inForm ''block-outside-dns''" "inForm ''remote-random''" "inForm ''mute-replay-warnings''"
  "inForm ''redirect-gateway''" "inForm ''http-proxy-retry''" "inForm ''resolve-retry infinite''"
  "inForm ''dev tun''" "inForm ''dev tap''" "inForm ''proto tcp''" "inForm ''proto udp''"
  "inForm ''route-method exe''" "inForm ''route-method ipapi''"
  by code_simp+

lemma inForm_lines:
  "inForm t \<Longrightarrow> list_all inForm (checkLine f w t)"
  "inForm one \<Longrightarrow> inForm two \<Longrightarrow> list_all inForm (choiceLine f c one two)"
  "knownKey k \<Longrightarrow> list_all inForm (fieldLine f u k)" "knownKey k \<Longrightarrow> list_all inForm (certLine f u k)"
  by (simp_all add: checkLine_def choiceLine_def fieldLine_def certLine_def inForm_known)

lemma inForm_hashes: "knownKey ''###''" "inForm []"
  by code_simp+

lemma inForm_header: "list_all inForm (headerLines stamp)"
  using inForm_known [OF inForm_hashes(1)] by (simp add: headerLines_def inForm_hashes(2))

lemma inForm_remotes:
  assumes "plainForm f"
  shows "list_all inForm (map remoteLine (remotes f))"
proof -
  have "inForm (remoteLine r)" if "r \<in> set (remotes f)" for r
  proof -
    have "isRemote (remoteLine r)" using that assms remote_shown(1) [of r] by (auto simp: plainForm_def list_all_iff)
    then show ?thesis by (auto simp: isRemote_def inForm_def list_ex_iff formStarts_def upperStart_def toUpper_def qleft_def take_map)
  qed
  then show ?thesis by (simp add: list_all_iff)
qed

lemma inForm_proxy:
  assumes "plainForm f"
  shows "list_all inForm (proxyLine f)"
  using proxy_shown(1) [OF assms] by (simp add: proxyLine_def proxyText_def proxyRest_def inForm_def isHttpProxy_def)

lemma inForm_rest: "list_all inForm (pkcsLine f)" "list_all inForm (cipherLine f)" "list_all inForm (serverLine f)"
  using inForm_known [OF known_keys(12)] inForm_known [OF known_keys(13)] inForm_words
  by (simp_all add: pkcsLine_def cipherLine_def serverLine_def checkLine_def)

lemma formLines_inForm:
  assumes "plainForm f"
  shows "list_all inForm (formLines stamp f)"
  unfolding formLines_def generalLines_def certLines_def advancedLines_split list_all_append
  by (intro conjI inForm_header inForm_remotes [OF assms] inForm_proxy [OF assms] inForm_rest inForm_lines inForm_words known_keys)

lemma otherLines_inForm: "list_all inForm xs \<Longrightarrow> otherLines None (xs @ ys) = otherLines None ys"
  by (induction xs) simp_all

lemma otherLines_same: "list_all unknownLine os \<Longrightarrow> otherLines None os = Some os"
  by (induction os) (simp_all add: unknownLine_def untagged_def)

lemma others_kept:
  assumes "plainForm f" and "list_all unknownLine os"
  shows "otherLines None (formLines stamp f @ othersLines os) = Some os"
proof -
  have "list_all inForm (othersLines [] @ [''#Fields which could be not manage wih GUI '', []])" by code_simp
  then have "otherLines None (othersLines os) = otherLines None os"
    by (simp add: othersLines_def)
  then show ?thesis
    by (simp add: otherLines_inForm [OF formLines_inForm [OF assms(1)]] otherLines_same [OF assms(2)])
qed

section \<open>The saved file\<close>

lemma certTexts_keep:
  assumes "readFile d p = Some t"
  shows "readFile (snd (certTexts path f d)) p = Some t"
proof -
  have c: "readFile (snd (copyFile a b e)) p = Some t" if "readFile e p = Some t" for a b e
    using that by (metis copyFile_keeps prod.collapse)
  have k: "readFile (snd (certText path f w key e)) p = Some t" if "readFile e p = Some t" for w key e
    using that by (simp add: certText_def Let_def c)
  have q: "readFile (snd (pkcsText path f e)) p = Some t" if "readFile e p = Some t" for e
    using that by (simp add: pkcsText_def Let_def c)
  show ?thesis by (simp add: certTexts_def split_def k q assms)
qed

lemma textLines_raw: "list_all rawLine (textLines (textRead t))"
proof -
  have "CHR 0x0D \<notin> set (textRead t)" by (simp add: textRead_def)
  moreover have "set w \<subseteq> set (textRead t)" if "w \<in> set (splitOn CHR 0x0A (textRead t))" for w
    using set_mono_sublist [OF splitOn_sublist [OF that]] .
  ultimately have r: "rawLine w" if "w \<in> set (splitOn CHR 0x0A (textRead t))" for w
    using that splitOn_pieces_fresh [OF that] by (auto simp: rawLine_def)
  have s: "rawLine (stripCR w)" if "rawLine w" for w
    using that by (auto simp: stripCR_def rawLine_def dest: in_set_butlastD)
  show ?thesis using r s by (auto simp: list_all_iff textLines_def Let_def dest: in_set_butlastD)
qed

lemma otherLines_subset: "otherLines t ls = Some os \<Longrightarrow> set os \<subseteq> set ls"
  by (induction t ls arbitrary: os rule: otherLines.induct) (auto split: if_splits)

lemma saved_file:
  assumes "configLinesOf ie l (cdConfigPath c) = Some ls" and "otherLines None ls = Some os"
    and "mayWrite (access ie) (cdConfigPath c)" and "cdConfigPath c \<noteq> dirOf c @ ''/scripts.conf''"
    and "plainForm f" and "untaggedInline f" and "inlineLines f = []" and "rawLine stamp"
  shows "\<exists>l3. saveEditor ie stamp c (f, l) = Some (withTags f, saveScripts ie c f l3) \<and>
    configLinesOf ie (saveScripts ie c f l3) (cdConfigPath c) = Some (formLines stamp f @ othersLines os)"
proof -
  let ?p = "cdConfigPath c"
  obtain body d1 where b: "formText stamp ?p f (disk l) = (body, d1)" by fastforce
  obtain t where t: "readFile (disk l) ?p = Some t" "mayRead (access ie) ?p" "ls = textLines (textRead t)"
    using assms(1) by (auto simp: configLinesOf_def split: option.splits if_splits)
  have "d1 = snd (certTexts ?p f (disk l))" using b by (simp add: formText_def split: prod.splits)
  then have "readFile d1 ?p = Some t" using certTexts_keep [OF t(1)] by simp
  then have o: "getAllFieldWhichNotIntoTheInterface ie c (l\<lparr>disk := d1\<rparr>) = Some (os, l\<lparr>disk := d1\<rparr>)"
    using t assms(2) by (simp add: getAllFieldWhichNotIntoTheInterface_def configLinesOf_def)
  define l3 where "l3 = onApp (createNewChecksum (ui (configs ie)) (base64OfContent (body @ othersText os)) (cdId c) ?p)
    (l\<lparr>disk := writeFile ?p (textMode (endLine (body @ othersText os))) d1\<rparr>)"
  have s: "saveEditor ie stamp c (f, l) = Some (withTags f, saveScripts ie c f l3)"
    using assms(3) b o by (simp add: saveEditor_def Let_def l3_def)
  have "readFile (disk (saveScripts ie c f l3)) ?p = Some (textMode (endLine (body @ othersText os)))"
    using saveScripts_keeps(1) [OF assms(4)] by (simp add: l3_def onApp_def readFile_write)
  also have "endLine (body @ othersText os) = unlines (formLines stamp f @ othersLines os)"
    using savedText_lines [OF b assms(6)] assms(7) by (simp add: savedLines_def)
  finally have r: "readFile (disk (saveScripts ie c f l3)) ?p = Some (textMode (unlines (formLines stamp f @ othersLines os)))" .
  have "list_all rawLine os" using otherLines_subset [OF assms(2)] textLines_raw [of t] t(3) by (auto simp: list_all_iff)
  then have "list_all rawLine (othersLines os)" by (simp add: othersLines_def rawLine_simps)
  then have "list_all rawLine (formLines stamp f @ othersLines os)"
    using formLines_raw [OF assms(5,8)] by simp
  then have "configLinesOf ie (saveScripts ie c f l3) ?p = Some (formLines stamp f @ othersLines os)"
    using r t(2) textRead_written by (simp add: configLinesOf_def del: unlines_append list.pred_inject list_all_append)
  with s show ?thesis by blast
qed

section \<open>The scripts\<close>

definition scriptLines :: "form \<Rightarrow> string list" where
  "scriptLines f =
     (if entered f TxtAfterConnect \<noteq> []
      then (''AC:'' @ entered f TxtAfterConnect) # (if entered f TxtScriptACDelay \<noteq> [] then [''TO:'' @ entered f TxtScriptACDelay] else [])
      else [])
     @ concat (map (\<lambda>(w, t). if entered f w \<noteq> [] then [t @ CHR '':'' # entered f w] else [])
        [(TxtAfterDisconnect, ''AD''), (TxtBeforeConnect, ''BC''), (TxtBeforeDisconnect, ''BD''), (TxtErrorConnect, ''EC'')])"

lemma scriptsText_lines: "scriptsText f = unlines (scriptLines f)"
  by (simp add: scriptsText_def scriptText_def scriptLines_def endLine_def)

fun scriptType :: "lineEdit \<Rightarrow> string" where
  "scriptType TxtAfterConnect = ''AC''" | "scriptType TxtAfterDisconnect = ''AD''" | "scriptType TxtBeforeConnect = ''BC''"
| "scriptType TxtBeforeDisconnect = ''BD''" | "scriptType TxtErrorConnect = ''EC''" | "scriptType TxtScriptACDelay = ''TO''"
| "scriptType w = []"

definition scriptOf :: "form \<Rightarrow> lineEdit \<Rightarrow> string" where
  "scriptOf f w = (if w = TxtScriptACDelay \<and> entered f TxtAfterConnect = [] then [] else entered f w)"

lemma script_start: "\<not> isSpace a \<Longrightarrow> toUpper (qleft (trimmed (a # b # CHR '':'' # v)) 3) = toUpper [a, b, CHR '':'']"
proof -
  assume a: "\<not> isSpace a"
  have "prefix ([a, b] @ [CHR '':'']) (trimmed ([a, b] @ CHR '':'' # v))"
    using a by (intro trimmed_prefix_kept) (simp_all add: isSpace_def code_def)
  then show ?thesis by (auto simp: prefix_def qleft_def)
qed

lemma scripts_read:
  assumes "scriptType w \<noteq> []" and "list_all rawLine (scriptLines f)"
  shows "scriptLine (scriptType w) (textMode (scriptsText f)) = scriptOf f w"
proof -
  have "textLines (textRead (textMode (scriptsText f))) = scriptLines f"
    using textRead_written [OF assms(2)] by (simp add: scriptsText_lines)
  then show ?thesis using assms(1)
    by (cases w) (simp_all add: scriptLine_def scriptLines_def scriptOf_def script_start isSpace_def code_def qright_def)
qed

lemma getScript_saved:
  assumes "scriptType w \<noteq> []" and "list_all rawLine (scriptLines f)"
    and "mayWrite (access ie) (dirOf c @ ''/scripts.conf'')" and "mayOpen (ui (configs ie)) (dirOf c @ ''/scripts.conf'')"
  shows "getScript (seeing (configs ie) (saveScripts ie c f l3)) c (scriptType w) s = (scriptOf f w, s)"
proof (cases "scriptsText f = []")
  case True
  have "scriptLine (scriptType w) (textMode []) = []"
    by (simp add: scriptLine_def textMode_def qreplace.simps textRead_def textLines_def)
  then have "scriptOf f w = []" using scripts_read [OF assms(1,2)] True by simp
  with True assms(3) show ?thesis
    by (simp add: getScript_def saveScripts_def Let_def seeing_def readFile_remove)
next
  case False
  then show ?thesis using scripts_read [OF assms(1,2)] assms(3,4)
    by (simp add: getScript_def saveScripts_def Let_def seeing_def readFile_write)
qed

definition scriptFields :: "form \<Rightarrow> (lineEdit \<Rightarrow> string) \<Rightarrow> lineEdit \<Rightarrow> string" where
  "scriptFields f old w =
     (if scriptType w = [] then old w
      else if w = TxtScriptACDelay \<and> scriptOf f w = [] then ''5000'' else scriptOf f w)"

lemma loadScripts_saved:
  assumes "list_all rawLine (scriptLines f)"
    and "mayWrite (access ie) (dirOf c @ ''/scripts.conf'')" and "mayOpen (ui (configs ie)) (dirOf c @ ''/scripts.conf'')"
  shows "loadScripts (seeing (configs ie) (saveScripts ie c f l3)) c (g, s) = (g\<lparr>entered := scriptFields f (entered g)\<rparr>, s)"
proof -
  note r = getScript_saved [OF _ assms]
  have "getScript (seeing (configs ie) (saveScripts ie c f l3)) c ''AC'' s = (scriptOf f TxtAfterConnect, s)"
    "getScript (seeing (configs ie) (saveScripts ie c f l3)) c ''AD'' s = (scriptOf f TxtAfterDisconnect, s)"
    "getScript (seeing (configs ie) (saveScripts ie c f l3)) c ''BC'' s = (scriptOf f TxtBeforeConnect, s)"
    "getScript (seeing (configs ie) (saveScripts ie c f l3)) c ''BD'' s = (scriptOf f TxtBeforeDisconnect, s)"
    "getScript (seeing (configs ie) (saveScripts ie c f l3)) c ''EC'' s = (scriptOf f TxtErrorConnect, s)"
    "getScript (seeing (configs ie) (saveScripts ie c f l3)) c ''TO'' s = (scriptOf f TxtScriptACDelay, s)" for s
    using r [of TxtAfterConnect] r [of TxtAfterDisconnect] r [of TxtBeforeConnect] r [of TxtBeforeDisconnect]
      r [of TxtErrorConnect] r [of TxtScriptACDelay] by simp_all
  note g = this
  have e: "(entered g)(TxtAfterConnect := scriptOf f TxtAfterConnect, TxtAfterDisconnect := scriptOf f TxtAfterDisconnect,
      TxtBeforeConnect := scriptOf f TxtBeforeConnect, TxtBeforeDisconnect := scriptOf f TxtBeforeDisconnect,
      TxtErrorConnect := scriptOf f TxtErrorConnect,
      TxtScriptACDelay := if scriptOf f TxtScriptACDelay = [] then ''5000'' else scriptOf f TxtScriptACDelay) = scriptFields f (entered g)"
    (is "?m = _")
  proof
    fix w show "?m w = scriptFields f (entered g) w" by (cases w) (simp_all add: scriptFields_def)
  qed
  then show ?thesis
    by (simp add: loadScripts_def showScript_def g setEntered_def split del: if_split)
      (simp add: e [symmetric] showScript_def g setEntered_def)
qed

section \<open>Saving and opening again\<close>

text \<open>What a new dialog shows of a saved form: the remark that a server certificate is asked for is lost with PKCS12, a device node alone counts as the device, a proxy method without a type is lost, files are shown without their directory, and fields that were not used are empty.\<close>

definition savedForm :: "importEnv \<Rightarrow> form \<Rightarrow> form" where
  "savedForm ie f = newForm\<lparr>
     checked := \<lambda>w. checked f w \<and> (w = CbCertIsServer \<longrightarrow> \<not> usesPkcs12 f), current := savedChoice f,
     entered := scriptFields f (\<lambda>w. if fileKey w \<noteq> [] then savedFile f w
       else if textKey w \<noteq> [] \<or> (w \<in> {TxtHTTPIP, TxtHTTPPort} \<and> entered f TxtHTTPIP \<noteq> []) then entered f w else []),
     remotes := remotes f, usesPkcs12 := keepsPkcs12 f, origin := \<lambda>w. if fileKey w \<noteq> [] then savedFile f w else [],
     lastDir := userDir ie\<rparr>"

definition freshForm :: "importEnv \<Rightarrow> form" where
  "freshForm ie = resetFields (newForm\<lparr>lastDir := userDir ie\<rparr>)"

lemma fresh_simps:
  "checked (freshForm ie) = (\<lambda>_. False)" "current (freshForm ie) = (\<lambda>_. 0)"
  "entered (freshForm ie) = (\<lambda>_. [])(TxtScriptACDelay := ''5000'')" "remotes (freshForm ie) = []"
  "origin (freshForm ie) = (\<lambda>_. [])" "inlined (freshForm ie) = (\<lambda>_. [])" "pathClicked (freshForm ie) = 0"
  "lastDir (freshForm ie) = userDir ie"
  by (auto simp: freshForm_def resetFields_def newForm_def)

lemma shown_saved:
  assumes "plainForm f"
  shows "shownForm (formLines stamp f) (freshForm ie)\<lparr>entered := scriptFields f (entered (shownForm (formLines stamp f) (freshForm ie))),
    usesPkcs12 := keepsPkcs12 f\<rparr> = savedForm ie f"
proof (rule form_eqI)
  have t: "textShown ls old w = textShown ls (\<lambda>_. []) w" if "old w = []" for ls old w
    using that by (auto simp: textShown_def)
  have "scriptFields f (textShown (formLines stamp f) (((entered (freshForm ie)))(TxtCA := [], TxtCert := [], TxtKey := []))) w
    = entered (savedForm ie f) w" for w
  proof (cases "w = TxtScriptACDelay")
    case False
    then show ?thesis using t [of _ w "formLines stamp f"] fields_shown [OF assms, of stamp w]
      by (simp add: scriptFields_def savedForm_def fresh_simps)
  qed (simp add: scriptFields_def savedForm_def)
  then show "entered (shownForm (formLines stamp f) (freshForm ie)\<lparr>entered := scriptFields f (entered (shownForm (formLines stamp f) (freshForm ie))),
      usesPkcs12 := keepsPkcs12 f\<rparr>) = entered (savedForm ie f)"
    by (simp add: shownForm_def fun_eq_iff)
  have "originShown (formLines stamp f) (\<lambda>_. []) w = (if fileKey w \<noteq> [] then savedFile f w else [])" for w
    by (simp add: originShown_def files_shown [OF assms])
  then show "origin (shownForm (formLines stamp f) (freshForm ie)\<lparr>entered := scriptFields f (entered (shownForm (formLines stamp f) (freshForm ie))),
      usesPkcs12 := keepsPkcs12 f\<rparr>) = origin (savedForm ie f)"
    by (simp add: shownForm_def fun_eq_iff fresh_simps savedForm_def)
qed (simp_all add: shownForm_def savedForm_def fresh_simps fun_eq_iff checks_shown choices_shown [OF assms]
    remotes_shown(1) [OF assms] remotes_shown(2) [OF assms, simplified] newForm_def)

lemma pkcs_shown: "list_ex (keyAtStart ''PKCS12'') (formLines stamp f) \<longleftrightarrow> keepsPkcs12 f"
  by (simp add: lines_defs line_simps split del: if_split)

lemma othersLines_neutral: "list_all unknownLine os \<Longrightarrow> list_all neutral (othersLines os) \<and> list_all untagged (othersLines os)"
  by (auto simp: othersLines_def neutral_def hashed_def list_all_iff unknownLine_def tag_free)

lemma saved_shown:
  assumes "configLinesOf ie l (cdConfigPath c) = Some (formLines stamp f @ othersLines os)" and "plainForm f"
    and "list_all unknownLine os"
    and "loadScripts (seeing (configs ie) l) c = (\<lambda>(g :: form, s). (g\<lparr>entered := scriptFields f (entered g)\<rparr>, s))"
  shows "showEditor ie c (newForm, l) = Some (savedForm ie f, l)"
proof -
  let ?ls = "formLines stamp f @ othersLines os" and ?g = "freshForm ie"
  have n: "list_all neutral (othersLines os)" and u: "list_all untagged ?ls"
    using othersLines_neutral [OF assms(3)] formLines_untagged by simp_all
  have "loadForm ?ls ?g = Some (fold plainLine ?ls (startLoading ?g))"
    using loadLines_plain [OF u, of "[]"] by (simp add: loadForm_start)
  moreover have "form.truncate (fold plainLine ?ls (startLoading ?g)) = shownForm (formLines stamp f) ?g"
    using truncate_fold [of ?g ?ls] shown_neutral [OF n] by (simp add: fresh_simps)
  moreover have "seen (fold plainLine ?ls (startLoading ?g)) IsPkcs12 \<longleftrightarrow> keepsPkcs12 f"
    using fold_seen [of "startLoading ?g" TxtPkcs12Path ?ls] neutral_matches(2) [of _ TxtPkcs12Path]
      list_ex_neutral [where m = "keyAtStart ''PKCS12''" and xs = "formLines stamp f", OF _ n]
    by (simp add: pkcs_shown)
  moreover have "(shownForm (formLines stamp f) ?g)\<lparr>entered := scriptFields f (entered (shownForm (formLines stamp f) ?g)),
      usesPkcs12 := keepsPkcs12 f\<rparr> = savedForm ie f"
    using shown_saved [OF assms(2), of stamp ie] by simp
  ultimately show ?thesis
    using assms(1,4) by (simp add: showEditor_def fillFieldFromConfig_def freshForm_def [symmetric])
qed

text \<open>A sample: a configuration with an option the editor does not know.\<close>

definition oldDisk :: fsys where
  "oldDisk = \<lparr>files = [(''v/a.ovpn'', unlines [''client'', ''pull'', ''verb 3''])], dirs = [''v'']\<rparr>"

definition oldLibrary :: library where
  "oldLibrary = \<lparr>app = oneClient, disk = oldDisk\<rparr>"

definition editedForm :: form where
  "editedForm = newForm\<lparr>checked := (\<lambda>w. w = CbClient \<or> w = CbNobind),
     current := (\<lambda>_. 1), entered := (\<lambda>w. if w = TxtVerbose then ''4'' else if w = TxtCA then ''my ca.crt''
       else if w = TxtHTTPIP then ''proxy'' else if w = TxtHTTPPort then ''8080''
       else if w = TxtAfterConnect then ''run.bat'' else []),
     origin := (\<lambda>w. if w = TxtCA then ''my ca.crt'' else []), remotes := [(''vpn.example.org'', ''1194'')]\<rparr>"

lemma old_lines:
  "configLinesOf sampleImport oldLibrary (cdConfigPath editorConnection) = Some [''client'', ''pull'', ''verb 3'']"
  "otherLines None [''client'', ''pull'', ''verb 3''] = Some [''pull'']"
  by (simp add: configLinesOf_def oldLibrary_def oldDisk_def editorConnection_def readFile_def sampleImport_def anyAccess_def
      textRead_def textLines_def stripCR_def) code_simp

lemma edited_plain: "plainForm editedForm" "list_all rawLine (scriptLines editedForm)"
  by (simp_all add: plainForm_def editedForm_def newForm_def wordText_def unquotedWord_def quote_def keepsPkcs12_def
      namesFile_def certShown_def fileText'_def rawLine_def trimmed_def qreplace.simps scriptLines_def fillCipherCombo_def isSpace_def code_def)

lemma sample_access:
  "mayWrite (access sampleImport) p" "mayOpen (ui (configs sampleImport)) p"
  "cdConfigPath editorConnection \<noteq> dirOf editorConnection @ ''/scripts.conf''"
  by (simp_all add: sampleImport_def anyAccess_def sampleConfigs_def clientEnv_def editorConnection_def dirOf_def
      qleft_def lastIndexOf_def index_or_minus_one_def)

text \<open>C16. A configuration that is saved and opened in a new dialog shows the form it was saved with, up to what the options cannot tell: the widgets are those of \<open>savedForm\<close>, each option, every remote in its order, the names of the certificate files, the ciphers and proxies, and the scripts with their delay.\<close>

theorem saved_form_is_shown_again:
  assumes "configLinesOf ie l (cdConfigPath c) = Some ls" and "otherLines None ls = Some os"
    and "mayWrite (access ie) (cdConfigPath c)" and "cdConfigPath c \<noteq> dirOf c @ ''/scripts.conf''"
    and "mayWrite (access ie) (dirOf c @ ''/scripts.conf'')" and "mayOpen (ui (configs ie)) (dirOf c @ ''/scripts.conf'')"
    and "plainForm f" and "''inline'' \<notin> entered f ` {TxtCA, TxtCert, TxtKey}" and "list_all rawLine (scriptLines f)" and "rawLine stamp"
  shows "\<exists>l'. saveEditor ie stamp c (f, l) = Some (f, l') \<and> showEditor ie c (newForm, l') = Some (savedForm ie f, l')"
proof -
  have i: "untaggedInline f" "inlineLines f = []" "withTags f = f"
    using assms(8) by (auto simp: untaggedInline_def untaggedText_def inlineLines_def blockLines_def withTags_def withTag_def)
  obtain l3 where "saveEditor ie stamp c (f, l) = Some (f, saveScripts ie c f l3)"
    "configLinesOf ie (saveScripts ie c f l3) (cdConfigPath c) = Some (formLines stamp f @ othersLines os)"
    using saved_file [OF assms(1-4,7) i(1,2) assms(10)] i(3) by auto
  moreover have "loadScripts (seeing (configs ie) (saveScripts ie c f l3)) c = (\<lambda>(g :: form, s). (g\<lparr>entered := scriptFields f (entered g)\<rparr>, s))"
    by (intro ext) (auto simp: loadScripts_saved [OF assms(9,5,6)])
  ultimately show ?thesis using saved_shown [OF _ assms(7) otherLines_unknown [OF assms(2)]] by blast
qed

lemma saved_form_is_shown_again_witness:
  "\<exists>l'. saveEditor sampleImport ''today'' editorConnection (editedForm, oldLibrary) = Some (editedForm, l') \<and>
    showEditor sampleImport editorConnection (newForm, l') = Some (savedForm sampleImport editedForm, l')"
  by (rule saved_form_is_shown_again [OF old_lines sample_access(1,3,1,2) edited_plain(1) _ edited_plain(2)])
    (simp_all add: editedForm_def newForm_def rawLine_def)

text \<open>C17. Options the editor does not know survive: saving keeps every line outside the form and the inline blocks, in its order, and saving a second time keeps the same lines, neither more nor less.\<close>

theorem unknown_options_survive:
  assumes "configLinesOf ie l (cdConfigPath c) = Some ls" and "otherLines None ls = Some os"
    and "mayWrite (access ie) (cdConfigPath c)" and "cdConfigPath c \<noteq> dirOf c @ ''/scripts.conf''"
    and "plainForm f" and "''inline'' \<notin> entered f ` {TxtCA, TxtCert, TxtKey}" and "rawLine stamp"
  shows "\<exists>l'. saveEditor ie stamp c (f, l) = Some (f, l') \<and>
    getAllFieldWhichNotIntoTheInterface ie c l' = Some (os, l')"
proof -
  have i: "untaggedInline f" "inlineLines f = []" "withTags f = f"
    using assms(6) by (auto simp: untaggedInline_def untaggedText_def inlineLines_def blockLines_def withTags_def withTag_def)
  obtain l3 where "saveEditor ie stamp c (f, l) = Some (f, saveScripts ie c f l3)"
    "configLinesOf ie (saveScripts ie c f l3) (cdConfigPath c) = Some (formLines stamp f @ othersLines os)"
    using saved_file [OF assms(1-5) i(1,2) assms(7)] i(3) by auto
  then show ?thesis using others_kept [OF assms(5) otherLines_unknown [OF assms(2)]]
    by (simp add: getAllFieldWhichNotIntoTheInterface_def)
qed

lemma unknown_options_survive_witness:
  "\<exists>l'. saveEditor sampleImport ''today'' editorConnection (editedForm, oldLibrary) = Some (editedForm, l') \<and>
    getAllFieldWhichNotIntoTheInterface sampleImport editorConnection l' = Some ([''pull''], l')"
  by (rule unknown_options_survive [OF old_lines sample_access(1,3) edited_plain(1)])
    (simp_all add: editedForm_def newForm_def rawLine_def)

end
