(* ===== verification/UpdateCheck.thy ===== *)
theory UpdateCheck
  imports Proxy
begin

text \<open>
  The search for a newer version: \<open>client/src/update/updatecheck.cpp\<close>. WinINet is a parameter: the
  answer to the n-th request, with the chunks its body is read in. What the thread does outside is
  the list of \<open>updateEvent\<close>s, in order. An answer without a status leaves the variable of the
  status as it was.
\<close>

section \<open>Comparing versions\<close>

record version =
  major :: int
  minor :: int
  patch :: int

definition currentVersion :: version where
  "currentVersion = \<lparr>major = 2, minor = 0, patch = 49\<rparr>"

definition cleaned :: "string \<Rightarrow> string" where
  "cleaned response = trimmed (qreplace response [CHR 0x0A] [])"

definition parseVersion :: "string \<Rightarrow> version option" where
  "parseVersion response =
     (case splitOn CHR ''.'' (cleaned response) of
        [a, b, c] \<Rightarrow>
          (case toIntOk a of None \<Rightarrow> None
           | Some ma \<Rightarrow> (case toIntOk b of None \<Rightarrow> None
              | Some mi \<Rightarrow> (case toIntOk c of None \<Rightarrow> None
                 | Some pa \<Rightarrow> Some \<lparr>major = ma, minor = mi, patch = pa\<rparr>)))
      | _ \<Rightarrow> None)"

definition newerVersionAvailable :: "version \<Rightarrow> version \<Rightarrow> bool" where
  "newerVersionAvailable v cur \<longleftrightarrow> major v > major cur \<or> minor v > minor cur \<or> patch v > patch cur"

definition versionText :: "version \<Rightarrow> string" where
  "versionText v = number (major v) @ ''.'' @ number (minor v) @ ''.'' @ number (patch v)"

text \<open>What is emitted, if anything.\<close>

definition finished :: "version \<Rightarrow> string \<Rightarrow> string option" where
  "finished cur response =
     (if cleaned response = [] then None
      else case parseVersion response of
        None \<Rightarrow> None
      | Some v \<Rightarrow> if newerVersionAvailable v cur then Some (versionText v) else None)"

section \<open>Asking the server\<close>

datatype openType = Direct | Preconfig | ViaProxy string

record httpRequest =
  openedAs :: openType
  secure :: bool
  login :: "(string \<times> string) option"

record httpAnswer =
  sendOk :: bool
  lastError :: int
  status :: "int option"
  chunks :: "string list"

datatype updateEvent = Sends httpRequest | AsksLogin | Emits string

definition certErrors :: "int list" where
  "certErrors = [12037, 12055, 12045]"

definition settingsAvailable :: "proxySettings \<Rightarrow> bool" where
  "settingsAvailable p \<longleftrightarrow> proxyIni p \<noteq> None"

definition hostAndPort :: "proxySettings \<Rightarrow> string" where
  "hostAndPort p = proxyHostValue p @ '':'' @ proxyPortValue p"

definition openTypeOf :: "proxySettings \<Rightarrow> openType" where
  "openTypeOf p =
     (if \<not> settingsAvailable p \<or> proxyTypeInUseValue p = ''CONFIG'' then Direct
      else if proxyTypeInUseValue p = ''IE'' then Preconfig
      else ViaProxy ((if useHttpProxyValue p then ''http='' else ''SOCKS='') @ hostAndPort p))"

definition statusAfter :: "int \<Rightarrow> httpAnswer \<Rightarrow> int" where
  "statusAfter old a = (case status a of None \<Rightarrow> old | Some st \<Rightarrow> st)"

text \<open>
  The loop that asks for a login while the server wants one: events, and the answer whose body
  is read in the end. \<open>n\<close> counts the requests sent, \<open>retry\<close> goes down to 0.
\<close>

fun loginLoop :: "(nat \<Rightarrow> httpAnswer) \<Rightarrow> (nat \<Rightarrow> string \<times> string) \<Rightarrow> proxySettings \<Rightarrow> bool \<Rightarrow> nat \<Rightarrow> nat \<Rightarrow> int
    \<Rightarrow> updateEvent list \<times> nat" where
  "loginLoop net user p https 0 n st = ([], n - 1)"
| "loginLoop net user p https (Suc retry) n st =
     (if st = 407 \<or> st = 401 then
        (let r = \<lparr>openedAs = ViaProxy (''http='' @ hostAndPort p), secure = https, login = Some (user n)\<rparr>;
             (ev, at) = loginLoop net user p https retry (Suc n) (statusAfter st (net n))
         in (AsksLogin # Sends r # ev, at))
      else ([], n - 1))"

text \<open>Every chunk is read into the same buffer.\<close>

definition bodyRead :: "httpAnswer \<Rightarrow> string" where
  "bodyRead a = fold (\<lambda>c buf. takeWhile (\<lambda>x. x \<noteq> CHR 0x00) c) (takeWhile (\<lambda>c. c \<noteq> []) (chunks a)) []"

definition runUpdateCheck :: "(nat \<Rightarrow> httpAnswer) \<Rightarrow> (nat \<Rightarrow> string \<times> string) \<Rightarrow> proxySettings \<Rightarrow> (string \<Rightarrow> string) \<Rightarrow> int
    \<Rightarrow> updateEvent list" where
  "runUpdateCheck net user p fromUtf8 garbage =
     (let r0 = \<lparr>openedAs = openTypeOf p, secure = False, login = None\<rparr>;
          st0 = statusAfter garbage (net 0);
          r1 = r0\<lparr>secure := True\<rparr>;
          https = (st0 = 400);
          finish = (\<lambda>n st. case loginLoop net user p https 3 n st of
             (ev, at) \<Rightarrow> ev @ (case finished currentVersion (fromUtf8 (bodyRead (net at))) of
                None \<Rightarrow> [] | Some v \<Rightarrow> [Emits v]))
      in if \<not> sendOk (net 0) \<and> lastError (net 0) \<in> set certErrors then [Sends r0, Emits ''error'']
         else if \<not> https then Sends r0 # finish 1 st0
         else if lastError (net 1) \<in> set certErrors then [Sends r0, Sends r1, Emits ''error'']
         else Sends r0 # Sends r1 # finish 2 (statusAfter 0 (net 1)))"

section \<open>Properties\<close>

instantiation version_ext :: (linorder) linorder
begin

definition less_eq_version_ext :: "'a version_scheme \<Rightarrow> 'a version_scheme \<Rightarrow> bool" where
  "less_eq_version_ext v w \<longleftrightarrow> major v < major w \<or> major v = major w \<and>
     (minor v < minor w \<or> minor v = minor w \<and> (patch v < patch w \<or> patch v = patch w \<and> version.more v \<le> version.more w))"

definition less_version_ext :: "'a version_scheme \<Rightarrow> 'a version_scheme \<Rightarrow> bool" where
  "less_version_ext v w \<longleftrightarrow> major v < major w \<or> major v = major w \<and>
     (minor v < minor w \<or> minor v = minor w \<and> (patch v < patch w \<or> patch v = patch w \<and> version.more v < version.more w))"

instance
proof
  fix u v w :: "'a version_scheme"
  show "u < v \<longleftrightarrow> u \<le> v \<and> \<not> v \<le> u" by (auto simp: less_eq_version_ext_def less_version_ext_def)
  show "u \<le> u" by (simp add: less_eq_version_ext_def)
  show "u \<le> v \<Longrightarrow> v \<le> w \<Longrightarrow> u \<le> w" by (auto simp: less_eq_version_ext_def)
  show "u \<le> v \<Longrightarrow> v \<le> u \<Longrightarrow> u = v" by (auto simp: less_eq_version_ext_def)
  show "u \<le> v \<or> v \<le> u" by (auto simp: less_eq_version_ext_def)
qed

end

text \<open>Which versions are announced: every version that is newer in the usual order, and besides those the versions of an older major version with a larger minor or patch number (and negative minor numbers with a larger patch number), since one larger component is enough: a user of 2.0.49 is offered 1.1.0.\<close>

theorem announced_versions:
  "newerVersionAvailable v currentVersion \<longleftrightarrow>
     v > currentVersion \<or> (major v < 2 \<and> (0 < minor v \<or> 49 < patch v)) \<or>
     (major v = 2 \<and> minor v < 0 \<and> 49 < patch v)"
  by (auto simp: newerVersionAvailable_def currentVersion_def less_version_ext_def)

definition asks :: "updateEvent list \<Rightarrow> nat" where
  "asks ev = count_list ev AsksLogin"

fun isSend :: "updateEvent \<Rightarrow> bool" where
  "isSend (Sends r) = True" | "isSend _ = False"

fun isEmit :: "updateEvent \<Rightarrow> bool" where
  "isEmit (Emits v) = True" | "isEmit _ = False"

lemma loginLoop_bound:
  "asks (fst (loginLoop net user p https r n st)) \<le> r \<and>
   length (filter isSend (fst (loginLoop net user p https r n st))) = asks (fst (loginLoop net user p https r n st)) \<and>
   filter isEmit (fst (loginLoop net user p https r n st)) = []"
proof (induction r arbitrary: n st)
  case (Suc r)
  from Suc [of "Suc n" "statusAfter st (net n)"] show ?case by (auto simp: asks_def split: prod.split)
qed (simp add: asks_def)

definition reported :: "(string \<Rightarrow> string) \<Rightarrow> httpAnswer \<Rightarrow> updateEvent list" where
  "reported fromUtf8 a =
     (case finished currentVersion (fromUtf8 (bodyRead a)) of None \<Rightarrow> [] | Some v \<Rightarrow> [Emits v])"

lemma reported_counts: "asks (reported d a) = 0" "filter isSend (reported d a) = []" "length (filter isEmit (reported d a)) \<le> 1"
  by (auto simp: reported_def asks_def split: option.split)

definition loopThenReport :: "(nat \<Rightarrow> httpAnswer) \<Rightarrow> (nat \<Rightarrow> string \<times> string) \<Rightarrow> proxySettings \<Rightarrow> (string \<Rightarrow> string)
    \<Rightarrow> bool \<Rightarrow> nat \<Rightarrow> int \<Rightarrow> updateEvent list" where
  "loopThenReport net user p d h n st =
     fst (loginLoop net user p h 3 n st) @ reported d (net (snd (loginLoop net user p h 3 n st)))"

lemma run_eq:
  "runUpdateCheck net user p d g =
     (let r0 = \<lparr>openedAs = openTypeOf p, secure = False, login = None\<rparr>; r1 = r0\<lparr>secure := True\<rparr>;
          st0 = statusAfter g (net 0)
      in if \<not> sendOk (net 0) \<and> lastError (net 0) \<in> set certErrors then [Sends r0, Emits ''error'']
         else if st0 \<noteq> 400 then Sends r0 # loopThenReport net user p d False 1 st0
         else if lastError (net 1) \<in> set certErrors then [Sends r0, Sends r1, Emits ''error'']
         else Sends r0 # Sends r1 # loopThenReport net user p d True 2 (statusAfter 0 (net 1)))"
  by (simp add: runUpdateCheck_def Let_def reported_def loopThenReport_def case_prod_beta)

lemma loop_counts:
  "asks (loopThenReport net user p d h n st) \<le> 3" "length (filter isSend (loopThenReport net user p d h n st)) \<le> 3"
  "length (filter isEmit (loopThenReport net user p d h n st)) \<le> 1"
proof -
  note b = loginLoop_bound [of net user p h 3 n st] and v = reported_counts [of d "net (snd (loginLoop net user p h 3 n st))"]
  have "asks (loopThenReport net user p d h n st) = asks (fst (loginLoop net user p h 3 n st))"
    using v(1) by (simp add: loopThenReport_def asks_def)
  with b v show "asks (loopThenReport net user p d h n st) \<le> 3"
    "length (filter isSend (loopThenReport net user p d h n st)) \<le> 3"
    "length (filter isEmit (loopThenReport net user p d h n st)) \<le> 1"
    by (simp_all add: loopThenReport_def)
qed

lemma asks_simps [simp]: "asks [] = 0" "asks (Sends r # ev) = asks ev" "asks (Emits v # ev) = asks ev"
  by (simp_all add: asks_def)

text \<open>The search ends whatever the server answers: it asks the user for a login at most three times, sends at most five requests and reports at most one result.\<close>

theorem update_check_is_bounded:
  "asks (runUpdateCheck net user p d g) \<le> 3 \<and> length (filter isSend (runUpdateCheck net user p d g)) \<le> 5 \<and>
   length (filter isEmit (runUpdateCheck net user p d g)) \<le> 1"
  using loop_counts(1-3) [of net user p d False 1 "statusAfter g (net 0)"]
    loop_counts(1-3) [of net user p d True 2 "statusAfter 0 (net 1)"]
  by (simp add: run_eq Let_def)

lemma bodyRead_last:
  assumes "list_all (\<lambda>c. c \<noteq> [] \<and> CHR 0x00 \<notin> set c) cs" and "cs \<noteq> []"
  shows "fold (\<lambda>c buf. takeWhile (\<lambda>x. x \<noteq> CHR 0x00) c) cs b = last cs"
  using assms
proof (induction cs arbitrary: b)
  case (Cons c cs)
  have "takeWhile (\<lambda>x. x \<noteq> CHR 0x00) c = c" using Cons.prems(1) by (auto simp: takeWhile_eq_all_conv)
  then show ?case using Cons by (cases cs) auto
qed simp

text \<open>Of an answer that is read in several pieces only the last one is looked at: a version number that arrives in two pieces is not recognised.\<close>

theorem only_the_last_piece_counts:
  assumes "list_all (\<lambda>c. c \<noteq> [] \<and> CHR 0x00 \<notin> set c) (chunks a)" and "chunks a \<noteq> []"
  shows "bodyRead a = last (chunks a)"
proof -
  have t: "takeWhile (\<lambda>c. c \<noteq> []) (chunks a) = chunks a"
    using assms(1) by (auto simp: takeWhile_eq_all_conv list_all_iff)
  show ?thesis unfolding bodyRead_def t by (rule bodyRead_last [OF assms])
qed

lemma only_the_last_piece_counts_witness:
  "bodyRead \<lparr>sendOk = True, lastError = 0, status = Some 200, chunks = [''2.0.'', ''50'']\<rparr> = ''50''"
  using only_the_last_piece_counts
    [of "\<lparr>sendOk = True, lastError = 0, status = Some 200, chunks = [''2.0.'', ''50'']\<rparr>"] by simp

end
