(* ===== verification/Daemon.thy ===== *)
theory Daemon
  imports Client
begin

text \<open>
  The start of the client: \<open>FrmMain::startDaemon\<close> of \<open>client/src/frmmain.cpp\<close>, which runs in a
  thread of its own. The other thread answers through \<open>daemonEnv\<close>: for each try whether the socket
  is online, whether the two waits of two seconds ended by a notification; then the TAP count after
  each request for a device, \<open>None\<close> when none arrives. The waits for the count have no time
  limit, so the function may not return, which is \<open>None\<close> here.
\<close>

record daemonEnv =
  online :: "nat \<Rightarrow> bool"
  connectNotified :: "nat \<Rightarrow> bool"
  dummyNotified :: "nat \<Rightarrow> bool"
  tapCountAfter :: "nat \<Rightarrow> int option"

section \<open>Connecting\<close>

text \<open>The result and the messages posted to the main window.\<close>

definition trySuccess :: "daemonEnv \<Rightarrow> nat \<Rightarrow> bool \<Rightarrow> bool" where
  "trySuccess d tries success \<longleftrightarrow> success \<or> (\<not> online d tries \<and> connectNotified d tries)"

definition tryPosts :: "daemonEnv \<Rightarrow> nat \<Rightarrow> bool \<Rightarrow> windowMessage list" where
  "tryPosts d tries success =
     (if online d tries then [] else [ConnectToService]) @
     (if trySuccess d tries success then [OnSendDummy] else [])"

function connectTries :: "daemonEnv \<Rightarrow> nat \<Rightarrow> bool \<Rightarrow> bool \<times> windowMessage list" where
  "connectTries d tries success =
     (if trySuccess d tries success \<and> dummyNotified d tries then (True, tryPosts d tries success)
      else if 5 < tries + 1 then (False, tryPosts d tries success @ [FailedToConnect])
      else (case connectTries d (tries + 1) (trySuccess d tries success) of
              (r, ms) \<Rightarrow> (r, tryPosts d tries success @ ms)))"
  by pat_completeness auto
termination by (relation "measure (\<lambda>(d, tries, success). 6 - tries)") auto

declare connectTries.simps [simp del]

section \<open>TAP devices\<close>

text \<open>Devices are requested until there are enough; the result is the number of requests.\<close>

partial_function (option) installTaps :: "(nat \<Rightarrow> int option) \<Rightarrow> int \<Rightarrow> nat \<Rightarrow> nat option" where
  "installTaps count needed n =
     (case count n of
        None \<Rightarrow> None
      | Some c \<Rightarrow> if c < needed then installTaps count needed (Suc n) else Some n)"

definition autostartKeys :: "client \<Rightarrow> int list" where
  "autostartKeys s = map fst (filter (\<lambda>(k, c). cdAutostart c) (objs s))"

text \<open>The flag is looked at for each connection in turn.\<close>

definition connectIfAutostart :: "cenv \<Rightarrow> int \<Rightarrow> client \<Rightarrow> client" where
  "connectIfAutostart e k s =
     (case getObj k s of None \<Rightarrow> s | Some c \<Rightarrow> if cdAutostart c then snd (connect e k s) else s)"

definition startDaemon :: "cenv \<Rightarrow> string \<Rightarrow> daemonEnv \<Rightarrow> client \<Rightarrow> (bool \<times> client) option" where
  "startDaemon e clientName d s =
     (case connectTries d 0 False of
        (connected, ms) \<Rightarrow>
          (let s1 = fold (onWindowMessage e clientName) ms s in
           if \<not> connected then Some (False, s1)
           else
             (let s2 = onWindowMessage e clientName ReceiveTapCount s1;
                  needed = int (length (autostartKeys s2))
              in map_option
                   (\<lambda>n. (True, fold (connectIfAutostart e) (map fst (objs s2))
                      (fold (onWindowMessage e clientName) (replicate n InstallTapDevice) s2)))
                   (installTaps (tapCountAfter d) needed 0))))"

section \<open>Connecting ends after six tries\<close>

lemma tryPosts_counts:
  "count_list (tryPosts d n b) ConnectToService \<le> 1" "count_list (tryPosts d n b) OnSendDummy \<le> 1"
  "FailedToConnect \<notin> set (tryPosts d n b)"
  by (simp_all add: tryPosts_def)

lemma connectTries_bound:
  assumes "n \<le> 5" and "m = ConnectToService \<or> m = OnSendDummy"
  shows "count_list (snd (connectTries d n b)) m \<le> 6 - n"
  using assms
proof (induction d n b rule: connectTries.induct)
  case (1 d n b)
  have p: "count_list (tryPosts d n b) m \<le> 1" using 1(3) tryPosts_counts by auto
  show ?case
  proof (cases "trySuccess d n b \<and> dummyNotified d n")
    case True
    then have "connectTries d n b = (True, tryPosts d n b)" by (simp add: connectTries.simps [of d n b])
    with p 1(2) show ?thesis by simp
  next
    case f: False
    show ?thesis
    proof (cases "5 < n + 1")
      case True
      with f have "connectTries d n b = (False, tryPosts d n b @ [FailedToConnect])"
        by (simp add: connectTries.simps [of d n b])
      with p 1(2,3) show ?thesis by auto
    next
      case False
      let ?next = "connectTries d (n + 1) (trySuccess d n b)"
      have "snd (connectTries d n b) = tryPosts d n b @ snd ?next"
        using f False by (auto simp: connectTries.simps [of d n b] split: prod.split)
      moreover have "count_list (snd ?next) m \<le> 6 - (n + 1)"
        using 1(1) [OF f False _ 1(3)] False by simp
      ultimately show ?thesis using p False by simp
    qed
  qed
qed

lemma connectTries_result: "fst (connectTries d n b) \<longleftrightarrow> FailedToConnect \<notin> set (snd (connectTries d n b))"
proof (induction d n b rule: connectTries.induct)
  case (1 d n b)
  then show ?case using tryPosts_counts(3) [of d n b]
    by (cases "trySuccess d n b \<and> dummyNotified d n"; cases "5 < n + 1")
      (auto simp: connectTries.simps [of d n b] split: prod.split)
qed

text \<open>The client gives up by itself: it asks at most six times for a connection and sends at most six dummy commands, and exactly when it fails it posts the notice that the service cannot be reached.\<close>

theorem connecting_gives_up:
  "count_list (snd (connectTries d 0 False)) ConnectToService \<le> 6 \<and>
   count_list (snd (connectTries d 0 False)) OnSendDummy \<le> 6 \<and>
   (fst (connectTries d 0 False) \<longleftrightarrow> FailedToConnect \<notin> set (snd (connectTries d 0 False)))"
  using connectTries_bound [of 0 _ d False] connectTries_result by simp

lemma connectTries_online:
  assumes "\<forall>m \<ge> n. online d m"
  shows "\<not> fst (connectTries d n False) \<and> OnSendDummy \<notin> set (snd (connectTries d n False))"
  using assms
proof (induction "6 - n" arbitrary: n)
  case (Suc k)
  have t: "\<not> trySuccess d n False" "tryPosts d n False = []"
    using Suc.prems by (simp_all add: trySuccess_def tryPosts_def)
  have "\<not> fst (connectTries d (n + 1) False) \<and> OnSendDummy \<notin> set (snd (connectTries d (n + 1) False))"
    using Suc(2) Suc.prems by (intro Suc(1)) simp_all
  with t show ?case by (simp add: connectTries.simps [of d n False] split: prod.split)
qed (simp add: connectTries.simps trySuccess_def tryPosts_def)

text \<open>A connection that is established too late for the first wait is never used: once the socket is online without the notification, \<open>success\<close> stays off and no dummy command is sent, so that the start fails although the service answers.\<close>

theorem late_connection_fails:
  assumes "\<not> connectNotified d 0" and "\<forall>n > 0. online d n"
  shows "\<not> fst (connectTries d 0 False) \<and> OnSendDummy \<notin> set (snd (connectTries d 0 False))"
proof -
  have t: "\<not> trySuccess d 0 False" using assms(1) by (simp add: trySuccess_def)
  then have "OnSendDummy \<notin> set (tryPosts d 0 False)" by (simp add: tryPosts_def)
  with t connectTries_online [of 1 d] assms(2) show ?thesis
    by (cases "connectTries d 1 False") (simp add: connectTries.simps [of d 0 False])
qed

definition lateSocket :: daemonEnv where
  "lateSocket = \<lparr>online = (\<lambda>n. 0 < n), connectNotified = (\<lambda>_. False), dummyNotified = (\<lambda>_. True),
     tapCountAfter = (\<lambda>_. Some 1)\<rparr>"

lemma late_connection_fails_witness:
  "\<not> fst (connectTries lateSocket 0 False) \<and> OnSendDummy \<notin> set (snd (connectTries lateSocket 0 False))"
  by (rule late_connection_fails) (simp_all add: lateSocket_def)

section \<open>Waiting for the devices\<close>

lemma installTaps_least:
  assumes "\<forall>m < k. \<exists>c. count (n + m) = Some c \<and> c < needed" and "count (n + k) = Some c" and "needed \<le> c"
  shows "installTaps count needed n = Some (n + k)"
  using assms
proof (induction k arbitrary: n)
  case 0
  then show ?case by (subst installTaps.simps) simp
next
  case (Suc k)
  from Suc.prems(1) obtain c0 where "count n = Some c0" "c0 < needed" by force
  moreover have "\<forall>m < k. \<exists>c. count (Suc n + m) = Some c \<and> c < needed"
    using Suc.prems(1) by (metis Suc_less_eq add_Suc_shift)
  ultimately show ?case
    using Suc.IH [of "Suc n"] Suc.prems(2,3) by (subst installTaps.simps) simp
qed

lemma installTaps_result:
  assumes "installTaps count needed n = Some r"
  shows "n \<le> r \<and> (\<exists>c. count r = Some c \<and> needed \<le> c) \<and> (\<forall>m. n \<le> m \<and> m < r \<longrightarrow> (\<exists>c. count m = Some c \<and> c < needed))"
proof (rule installTaps.raw_induct [OF _ assms])
  fix inst and count :: "nat \<Rightarrow> int option" and needed n r
  assume ih: "\<And>count needed n r. inst count needed n = Some r \<Longrightarrow>
      n \<le> r \<and> (\<exists>c. count r = Some c \<and> needed \<le> c) \<and> (\<forall>m. n \<le> m \<and> m < r \<longrightarrow> (\<exists>c. count m = Some c \<and> c < needed))"
    and eq: "(case count n of None \<Rightarrow> None | Some c \<Rightarrow> if c < needed then inst count needed (Suc n) else Some n) = Some r"
  then obtain c where c: "count n = Some c" by (cases "count n") auto
  show "n \<le> r \<and> (\<exists>c. count r = Some c \<and> needed \<le> c) \<and> (\<forall>m. n \<le> m \<and> m < r \<longrightarrow> (\<exists>c. count m = Some c \<and> c < needed))"
  proof (cases "c < needed")
    case True
    with eq c have "inst count needed (Suc n) = Some r" by simp
    from ih [OF this] True c show ?thesis by (metis Suc_leD Suc_leI le_neq_implies_less)
  qed (use eq c in auto)
qed

text \<open>C40. The wait for the TAP devices ends exactly when one of the counts reported reaches the number of connections that start automatically, all before it being reported too; the number of devices requested is the least that does. When installing fails for good, or a count is never reported, the start hangs and no connection is made.\<close>

theorem device_wait_ends_iff_count_reached:
  "installTaps (tapCountAfter d) needed 0 = Some r \<longleftrightarrow>
     (case tapCountAfter d r of None \<Rightarrow> False | Some c \<Rightarrow> needed \<le> c) \<and>
     list_all (\<lambda>m. case tapCountAfter d m of None \<Rightarrow> False | Some c \<Rightarrow> c < needed) [0..<r]"
proof
  assume "installTaps (tapCountAfter d) needed 0 = Some r"
  from installTaps_result [OF this] show
    "(case tapCountAfter d r of None \<Rightarrow> False | Some c \<Rightarrow> needed \<le> c) \<and>
     list_all (\<lambda>m. case tapCountAfter d m of None \<Rightarrow> False | Some c \<Rightarrow> c < needed) [0..<r]"
    by (force simp: list_all_iff split: option.splits)
next
  assume h: "(case tapCountAfter d r of None \<Rightarrow> False | Some c \<Rightarrow> needed \<le> c) \<and>
     list_all (\<lambda>m. case tapCountAfter d m of None \<Rightarrow> False | Some c \<Rightarrow> c < needed) [0..<r]"
  then obtain c where "tapCountAfter d r = Some c" "needed \<le> c" by (auto split: option.splits)
  moreover have "\<forall>m < r. \<exists>c. tapCountAfter d (0 + m) = Some c \<and> c < needed"
    using h by (force simp: list_all_iff split: option.splits)
  ultimately show "installTaps (tapCountAfter d) needed 0 = Some r"
    using installTaps_least [of r "tapCountAfter d" 0 needed c] by simp
qed

end
