(* ===== verification/ClientSettings.thy ===== *)
theory ClientSettings
  imports Proxy OpenVpn
begin

text \<open>
  The client's settings (\<open>client/src/widgets/settings/client/settings.cpp\<close>) and the page that changes
  them (\<open>clientsettingswidget.cpp\<close>). The eleven switches and the two texts are Qt properties with setters of one
  form; here a property is a constructor. The table \<open>settings\<close> is the list of its rows in the order
  they were inserted, and the three statements of \<open>save\<close> act on it as SQL says. An exception of the
  encryption is \<open>None\<close>.
\<close>

section \<open>Properties\<close>

datatype switch = UseInteract | StartOnWindows | BlockShutdown | ShowBallon | AutoRestart | AlwaysPopup
  | ShowSplash | EnableUpdate | UseSecurepoint | DhShowSmallKeyInformation | SendToTrayAfterConnect

datatype settingText = UpdateUrl | MaschineConfigDirectory

fun switchName :: "switch \<Rightarrow> string" where
  "switchName UseInteract = ''useInteract''" | "switchName StartOnWindows = ''startOnWindows''"
| "switchName BlockShutdown = ''blockShutdown''" | "switchName ShowBallon = ''showBallon''"
| "switchName AutoRestart = ''autoRestart''" | "switchName AlwaysPopup = ''alwaysPopup''"
| "switchName ShowSplash = ''showSplash''" | "switchName EnableUpdate = ''enableUpdate''"
| "switchName UseSecurepoint = ''useSecurepoint''"
| "switchName DhShowSmallKeyInformation = ''dhShowSmallKeyInformation''"
| "switchName SendToTrayAfterConnect = ''sendToTrayAfterConnect''"

fun textName :: "settingText \<Rightarrow> string" where
  "textName UpdateUrl = ''updateUrl''" | "textName MaschineConfigDirectory = ''maschineConfigDirectory''"

definition allSwitches :: "switch list" where
  "allSwitches = [UseInteract, StartOnWindows, BlockShutdown, ShowBallon, AutoRestart, AlwaysPopup, ShowSplash,
     EnableUpdate, UseSecurepoint, DhShowSmallKeyInformation, SendToTrayAfterConnect]"

definition switchOf :: "string \<Rightarrow> switch option" where
  "switchOf name = find (\<lambda>b. switchName b = name) allSwitches"

definition settingTextOf :: "string \<Rightarrow> settingText option" where
  "settingTextOf name = find (\<lambda>t. textName t = name) [UpdateUrl, MaschineConfigDirectory]"

record userSettings =
  isOnRefresh :: bool
  switches :: "switch \<Rightarrow> bool"
  settingTexts :: "settingText \<Rightarrow> string"
  isManaged :: bool
  showVpnLog :: bool
  startConfigPath :: string
  startUserValue :: string
  startPasswordValue :: string
  useGermanValue :: bool
  noSaveValue :: bool
  settingRows :: "(string \<times> string) list"
  runEntry :: "string option"

text \<open>The constructor; the table and the registry are those that are there.\<close>

definition newUserSettings :: "(string \<times> string) list \<Rightarrow> string option \<Rightarrow> userSettings" where
  "newUserSettings rows run = \<lparr>isOnRefresh = False,
     switches = (\<lambda>b. b \<in> {UseInteract, BlockShutdown, ShowBallon, ShowSplash, EnableUpdate, UseSecurepoint,
       DhShowSmallKeyInformation}),
     settingTexts = (\<lambda>_. []), isManaged = False, showVpnLog = False, startConfigPath = [], startUserValue = [],
     startPasswordValue = [], useGermanValue = False, noSaveValue = False, settingRows = rows, runEntry = run\<rparr>"

section \<open>Saving and loading\<close>

definition saveSetting :: "cryptApi \<Rightarrow> crypt \<Rightarrow> string \<Rightarrow> string \<Rightarrow> userSettings \<Rightarrow> userSettings option" where
  "saveSetting a c name value s =
     (if isOnRefresh s then Some s
      else
        Option.bind (encodePlaintext a c name) (\<lambda>n.
        Option.bind (encodePlaintext a c value) (\<lambda>v.
          let updated = map (\<lambda>r. if fst r = n then (n, v) else r) (settingRows s) in
          Some (s\<lparr>settingRows := if list_ex (\<lambda>r. fst r = n) updated then updated else updated @ [(n, v)]\<rparr>))))"

definition setSwitch :: "cryptApi \<Rightarrow> crypt \<Rightarrow> switch \<Rightarrow> bool \<Rightarrow> userSettings \<Rightarrow> userSettings option" where
  "setSwitch a c b flag s =
     (if flag = switches s b then Some s
      else saveSetting a c (switchName b) (if flag then ''1'' else ''0'') (s\<lparr>switches := (switches s)(b := flag)\<rparr>))"

definition setText :: "cryptApi \<Rightarrow> crypt \<Rightarrow> settingText \<Rightarrow> string \<Rightarrow> userSettings \<Rightarrow> userSettings option" where
  "setText a c t value s =
     (if value = settingTexts s t then Some s
      else saveSetting a c (textName t) value (s\<lparr>settingTexts := (settingTexts s)(t := value)\<rparr>))"

text \<open>One row: a name that is no property is passed over, and so is \<open>objectName\<close>, which no code reads.\<close>

definition rawFlag :: "string \<Rightarrow> bool" where
  "rawFlag raw \<longleftrightarrow> raw = ''1'' \<or> toLower raw = ''true''"

definition loadSetting :: "cryptApi \<Rightarrow> crypt \<Rightarrow> string \<times> string \<Rightarrow> userSettings \<Rightarrow> userSettings option" where
  "loadSetting a c r s =
     Option.bind (decodedText a c (fst r)) (\<lambda>name.
     Option.bind (decodedText a c (snd r)) (\<lambda>raw.
       case switchOf name of
         Some b \<Rightarrow> setSwitch a c b (rawFlag raw) s
       | None \<Rightarrow> (case settingTextOf name of Some t \<Rightarrow> setText a c t raw s | None \<Rightarrow> Some s)))"

primrec loadSettings :: "cryptApi \<Rightarrow> crypt \<Rightarrow> (string \<times> string) list \<Rightarrow> userSettings \<Rightarrow> userSettings option" where
  "loadSettings a c [] s = Some s"
| "loadSettings a c (r # rs) s = Option.bind (loadSetting a c r s) (loadSettings a c rs)"

definition loadOrRefresh :: "cryptApi \<Rightarrow> crypt \<Rightarrow> userSettings \<Rightarrow> userSettings option" where
  "loadOrRefresh a c s =
     map_option (\<lambda>s'. s'\<lparr>isOnRefresh := False\<rparr>) (loadSettings a c (settingRows s) (s\<lparr>isOnRefresh := True\<rparr>))"

text \<open>The entry of the registry's \<open>Run\<close> key.\<close>

definition setRegEntryStartOnWindows :: "string \<Rightarrow> bool \<Rightarrow> userSettings \<Rightarrow> userSettings" where
  "setRegEntryStartOnWindows applicationDir flag s =
     s\<lparr>runEntry := if flag
       then Some (qreplace (applicationDir @ ''/SSLVpnClient.exe'' @ (if isManaged s then '' -manage'' else [])
         @ (if useGermanValue s then '' -german'' else []) @ (if noSaveValue s then '' -noSave'' else [])) ''/'' [CHR 0x5C])
       else None\<rparr>"

section \<open>The settings page\<close>

text \<open>
  What Qt says of a text: \<open>parsedIp\<close> the protocol and canonical form if it is an address
  (\<open>QHostAddress::setAddress\<close>), \<open>toAce\<close> the ASCII form of a host name.
\<close>

record netApi =
  parsedIp :: "string \<Rightarrow> (bool \<times> string) option"
  toAce :: "string \<Rightarrow> string"

definition badHostChar :: "char \<Rightarrow> bool" where
  "badHostChar ch \<longleftrightarrow> isSpace ch \<or> code ch < 32 \<or> code ch = 127 \<or> ch = CHR ''['' \<or> ch = CHR '']'' \<or> ch = CHR ''%''"

definition hostAlnum :: "char \<Rightarrow> bool" where
  "hostAlnum ch \<longleftrightarrow> (65 \<le> code ch \<and> code ch \<le> 90) \<or> (97 \<le> code ch \<and> code ch \<le> 122) \<or> (48 \<le> code ch \<and> code ch \<le> 57)"

text \<open>The expressions \<open>label\<close> and \<open>numericOnly\<close>.\<close>

definition hostLabel :: "string \<Rightarrow> bool" where
  "hostLabel p \<longleftrightarrow> p \<noteq> [] \<and> length p \<le> 63 \<and> list_all (\<lambda>ch. hostAlnum ch \<or> ch = CHR ''-'') p \<and> hostAlnum (hd p) \<and> hostAlnum (last p)"

definition numericOnly :: "string \<Rightarrow> bool" where
  "numericOnly p \<longleftrightarrow> p \<noteq> [] \<and> list_all (\<lambda>ch. digitValue ch \<noteq> None) p"

definition validHostOrIp :: "netApi \<Rightarrow> string \<Rightarrow> string option" where
  "validHostOrIp q input =
     (if input = [] \<or> input \<noteq> trimmed input \<or> list_ex badHostChar input then None
      else
        (let host = (if last input = CHR ''.'' then butlast input else input) in
         case parsedIp q host of
           Some (v4, text) \<Rightarrow> if v4 \<and> text \<noteq> host then None else Some text
         | None \<Rightarrow>
             (let ace = toAce q host; parts = splitOn CHR ''.'' ace in
              if ace = [] \<or> 253 < length ace then None
              else if list_ex (\<lambda>p. 63 < length p \<or> \<not> hostLabel p) parts then None
              else if numericOnly (last parts) then None
              else Some ace)))"

definition validPort :: "string \<Rightarrow> string option" where
  "validPort input =
     (if input = [] \<or> input \<noteq> trimmed input \<or> list_ex (\<lambda>ch. digitValue ch = None) input then None
      else (case parseNat input of
              None \<Rightarrow> None
            | Some port \<Rightarrow> if 2 ^ 32 \<le> port \<or> port < 1 \<or> 65535 < port then None else Some (number (int port))))"

datatype proxyChoice = UseConfig | UseIE | UseManual

record settingsPage =
  choice :: proxyChoice
  rbHttpProxy :: bool
  txtProxyIP :: string
  txtProxyPort :: string

text \<open>The button back: an error is shown (\<open>Inl\<close>) or the page is left with the new proxy settings.\<close>

definition cmdBack :: "cryptApi \<Rightarrow> crypt \<Rightarrow> netApi \<Rightarrow> settingsPage \<Rightarrow> proxySettings \<Rightarrow> (string + proxySettings) option" where
  "cmdBack a c q w s =
     (case choice w of
        UseConfig \<Rightarrow> map_option Inr (setProxyTypeInUse a c ''CONFIG'' s)
      | UseIE \<Rightarrow> map_option Inr (setProxyTypeInUse a c ''IE'' s)
      | UseManual \<Rightarrow>
          (case validHostOrIp q (txtProxyIP w) of
             None \<Rightarrow> Some (Inl ''Invalid proxy address. Only IP addresses or host names are allowed.'')
           | Some host \<Rightarrow>
               (case validPort (txtProxyPort w) of
                  None \<Rightarrow> Some (Inl ''Invalid proxy port. Only numbers between 1 and 65535 are allowed.'')
                | Some port \<Rightarrow>
                    Option.bind (setProxyTypeInUse a c ''MANUAL'' s) (\<lambda>s.
                    Option.bind (setIsHttpProxy a c (rbHttpProxy w) s) (\<lambda>s.
                    Option.bind (setProxyHost a c host s) (\<lambda>s.
                    map_option Inr (setProxyPort a c port s)))))))"

text \<open>The page when it is shown: fields that are not set keep what they held.\<close>

definition showProxyPage :: "proxySettings \<Rightarrow> settingsPage \<Rightarrow> settingsPage" where
  "showProxyPage s w =
     (if proxyIni s = None \<or> proxyTypeInUseValue s = ''CONFIG'' then w\<lparr>choice := UseConfig\<rparr>
      else if proxyTypeInUseValue s = ''IE'' then w\<lparr>choice := UseIE\<rparr>
      else w\<lparr>choice := UseManual, txtProxyPort := if proxyPortValue s = [] then ''8080'' else proxyPortValue s,
        txtProxyIP := proxyHostValue s, rbHttpProxy := useHttpProxyValue s\<rparr>)"

definition cbStartOnWindows_clicked :: "cryptApi \<Rightarrow> crypt \<Rightarrow> string \<Rightarrow> bool \<Rightarrow> userSettings \<Rightarrow> userSettings option" where
  "cbStartOnWindows_clicked a c applicationDir flag s =
     map_option (setRegEntryStartOnWindows applicationDir flag) (setSwitch a c StartOnWindows flag s)"

text \<open>The other check boxes of the page, each with the property its handler sets.\<close>

definition pageSwitches :: "switch list" where
  "pageSwitches = [BlockShutdown, AlwaysPopup, UseInteract, DhShowSmallKeyInformation, SendToTrayAfterConnect]"

definition checkBox_toggled :: "cryptApi \<Rightarrow> crypt \<Rightarrow> switch \<Rightarrow> bool \<Rightarrow> userSettings \<Rightarrow> userSettings option" where
  "checkBox_toggled a c b flag s = (if b \<in> set pageSwitches then setSwitch a c b flag s else Some s)"

section \<open>Settings survive a restart\<close>

definition rowNames :: "cryptApi \<Rightarrow> crypt \<Rightarrow> string \<Rightarrow> string \<times> string \<Rightarrow> bool" where
  "rowNames a c name r \<longleftrightarrow> decodedText a c (fst r) = Some name"

definition canonicalRow :: "cryptApi \<Rightarrow> crypt \<Rightarrow> string \<times> string \<Rightarrow> bool" where
  "canonicalRow a c r \<longleftrightarrow> (\<forall>n. rowNames a c n r \<longrightarrow> encodePlaintext a c n = Some (fst r))"

definition rowHolds :: "cryptApi \<Rightarrow> crypt \<Rightarrow> userSettings \<Rightarrow> string \<times> string \<Rightarrow> bool" where
  "rowHolds a c s r \<longleftrightarrow> (\<exists>n v. rowNames a c n r \<and> decodedText a c (snd r) = Some v \<and>
     (\<forall>b. n = switchName b \<longrightarrow> rawFlag v = switches s b) \<and> (\<forall>t. n = textName t \<longrightarrow> v = settingTexts s t))"

definition defaultSettings :: userSettings where
  "defaultSettings = newUserSettings [] None"

text \<open>The table says what the object holds, and what it does not say is at its default.\<close>

definition tableFits :: "cryptApi \<Rightarrow> crypt \<Rightarrow> userSettings \<Rightarrow> bool" where
  "tableFits a c s \<longleftrightarrow> \<not> isOnRefresh s \<and> (\<forall>r \<in> set (settingRows s). rowHolds a c s r \<and> canonicalRow a c r) \<and>
     (\<forall>b. list_ex (rowNames a c (switchName b)) (settingRows s) \<or> switches s b = switches defaultSettings b) \<and>
     (\<forall>t. list_ex (rowNames a c (textName t)) (settingRows s) \<or> settingTexts s t = settingTexts defaultSettings t)"

lemma name_inj: "switchName b = switchName b' \<longleftrightarrow> b = b'" "textName t = textName t' \<longleftrightarrow> t = t'"
  by (cases b; cases b'; simp) (cases t; cases t'; simp)

lemma switch_not_text: "switchName b \<noteq> textName t"
  by (cases b; cases t) simp_all

lemma find_only: "x \<in> set xs \<Longrightarrow> find (\<lambda>y. y = x) xs = Some x"
  by (induction xs) auto

lemma switchOf_iff: "switchOf n = Some b \<longleftrightarrow> n = switchName b"
proof
  assume "switchOf n = Some b"
  then show "n = switchName b" unfolding switchOf_def find_Some_iff by blast
next
  have "b \<in> set allSwitches" by (cases b) (simp_all add: allSwitches_def)
  then show "n = switchName b \<Longrightarrow> switchOf n = Some b" by (simp add: switchOf_def name_inj find_only)
qed

lemma settingTextOf_iff: "settingTextOf n = Some t \<longleftrightarrow> n = textName t"
proof
  assume "settingTextOf n = Some t"
  then show "n = textName t" unfolding settingTextOf_def find_Some_iff by blast
next
  have "t \<in> set [UpdateUrl, MaschineConfigDirectory]" by (cases t) simp_all
  then show "n = textName t \<Longrightarrow> settingTextOf n = Some t"
    unfolding settingTextOf_def using find_only [of t] by (simp only: name_inj)
qed

lemma loadSetting_refreshing:
  assumes "isOnRefresh s0" and "rowHolds a c s r"
  shows "loadSetting a c r s0 = Some (s0\<lparr>
    switches := \<lambda>b. if rowNames a c (switchName b) r then switches s b else switches s0 b,
    settingTexts := \<lambda>t. if rowNames a c (textName t) r then settingTexts s t else settingTexts s0 t\<rparr>)"
proof -
  obtain n v where r: "decodedText a c (fst r) = Some n" "decodedText a c (snd r) = Some v"
    "\<And>b. n = switchName b \<Longrightarrow> rawFlag v = switches s b" "\<And>t. n = textName t \<Longrightarrow> v = settingTexts s t"
    using assms(2) by (auto simp: rowHolds_def rowNames_def)
  have names: "rowNames a c m r \<longleftrightarrow> m = n" for m using r(1) by (auto simp: rowNames_def)
  consider (sw) b where "n = switchName b" | (tx) t where "n = textName t"
    | (no_property) "\<And>b. n \<noteq> switchName b" "\<And>t. n \<noteq> textName t" by blast
  then show ?thesis
  proof cases
    case sw
    have S: "(\<lambda>x. if switchName x = n then switches s x else switches s0 x) = (switches s0)(b := switches s b)"
      and T: "(\<lambda>x. if textName x = n then settingTexts s x else settingTexts s0 x) = settingTexts s0"
      using switch_not_text [of b] by (auto simp: sw name_inj fun_eq_iff dest: sym)
    have o: "switchOf n = Some b" by (simp add: switchOf_iff sw)
    have "setSwitch a c b (rawFlag v) s0 = Some (s0\<lparr>switches := (switches s0)(b := switches s b)\<rparr>)"
      using assms(1) r(3) [OF sw] by (auto simp: setSwitch_def saveSetting_def)
    then show ?thesis unfolding names S T by (simp add: loadSetting_def r(1,2) o)
  next
    case tx
    have S: "(\<lambda>x. if switchName x = n then switches s x else switches s0 x) = switches s0"
      and T: "(\<lambda>x. if textName x = n then settingTexts s x else settingTexts s0 x) = (settingTexts s0)(t := settingTexts s t)"
      using switch_not_text [of _ t] by (auto simp: tx name_inj fun_eq_iff)
    have o: "switchOf n = None" "settingTextOf n = Some t"
      using switch_not_text switchOf_iff [of n] by (auto simp: settingTextOf_iff tx) (metis not_Some_eq)
    have "setText a c t v s0 = Some (s0\<lparr>settingTexts := (settingTexts s0)(t := settingTexts s t)\<rparr>)"
      using assms(1) r(4) [OF tx] by (auto simp: setText_def saveSetting_def)
    then show ?thesis unfolding names S T by (simp add: loadSetting_def r(1,2) o)
  next
    case no_property
    have S: "(\<lambda>x. if switchName x = n then switches s x else switches s0 x) = switches s0"
      and T: "(\<lambda>x. if textName x = n then settingTexts s x else settingTexts s0 x) = settingTexts s0"
      using no_property by (auto simp: fun_eq_iff dest: sym)
    have "switchOf n = None" "settingTextOf n = None"
      using no_property switchOf_iff [of n] settingTextOf_iff [of n] by (metis not_Some_eq)+
    then show ?thesis unfolding names S T by (simp add: loadSetting_def r(1,2))
  qed
qed

lemma loadSettings_refreshing:
  assumes "isOnRefresh s0" and "\<forall>r \<in> set rs. rowHolds a c s r"
  shows "loadSettings a c rs s0 = Some (s0\<lparr>
    switches := \<lambda>b. if list_ex (rowNames a c (switchName b)) rs then switches s b else switches s0 b,
    settingTexts := \<lambda>t. if list_ex (rowNames a c (textName t)) rs then settingTexts s t else settingTexts s0 t\<rparr>)"
  using assms
proof (induction rs arbitrary: s0)
  case (Cons r rs)
  let ?s1 = "s0\<lparr>switches := \<lambda>b. if rowNames a c (switchName b) r then switches s b else switches s0 b,
    settingTexts := \<lambda>t. if rowNames a c (textName t) r then settingTexts s t else settingTexts s0 t\<rparr>"
  have 1: "loadSetting a c r s0 = Some ?s1" using loadSetting_refreshing [of s0 a c s r] Cons.prems by simp
  have "isOnRefresh ?s1" using Cons.prems by simp
  with Cons.IH [of ?s1] Cons.prems(2) show ?case by (simp add: 1) (auto simp: fun_eq_iff intro!: userSettings.equality)
qed simp

lemma reload_from:
  assumes "tableFits a c s" and "settingRows n = settingRows s" and "\<not> isOnRefresh n"
    and "switches n = switches defaultSettings" and "settingTexts n = settingTexts defaultSettings"
  shows "loadOrRefresh a c n = Some (n\<lparr>switches := switches s, settingTexts := settingTexts s\<rparr>)"
proof -
  let ?m = "n\<lparr>isOnRefresh := True\<rparr>"
  have f: "(\<lambda>b. if list_ex (rowNames a c (switchName b)) (settingRows s) then switches s b else switches ?m b) = switches s"
    "(\<lambda>t. if list_ex (rowNames a c (textName t)) (settingRows s) then settingTexts s t else settingTexts ?m t) = settingTexts s"
    using assms(1,4,5) by (auto simp: tableFits_def fun_eq_iff)
  have "\<forall>r \<in> set (settingRows s). rowHolds a c s r" using assms(1) by (simp add: tableFits_def)
  from loadSettings_refreshing [of ?m, OF _ this]
  have "loadSettings a c (settingRows n) ?m = Some (?m\<lparr>switches := switches s, settingTexts := settingTexts s\<rparr>)"
    unfolding f assms(2) by simp
  then show ?thesis using assms(3) by (simp add: loadOrRefresh_def)
qed

lemma reload_fits:
  assumes "tableFits a c s"
  shows "loadOrRefresh a c (newUserSettings (settingRows s) run) =
    Some ((newUserSettings (settingRows s) run)\<lparr>switches := switches s, settingTexts := settingTexts s\<rparr>)"
  by (rule reload_from [OF assms]) (simp_all add: newUserSettings_def defaultSettings_def)

lemma save_rows:
  assumes "cipherWorks a c" and "\<not> isOnRefresh s" and "\<forall>r \<in> set (settingRows s). canonicalRow a c r"
  shows "\<exists>n v rs. saveSetting a c name value s = Some (s\<lparr>settingRows := rs\<rparr>) \<and>
    rowNames a c name (n, v) \<and> decodedText a c v = Some value \<and>
    (\<forall>r \<in> set rs. r = (n, v) \<or> (r \<in> set (settingRows s) \<and> \<not> rowNames a c name r)) \<and> (\<forall>r \<in> set rs. canonicalRow a c r) \<and>
    (\<forall>m. list_ex (rowNames a c m) rs \<longleftrightarrow> m = name \<or> list_ex (rowNames a c m) (settingRows s))"
proof -
  obtain n where n: "encodePlaintext a c name = Some n" "decodedText a c n = Some name"
    using cipher_round_trip [OF assms(1)] by blast
  obtain v where v: "encodePlaintext a c value = Some v" "decodedText a c v = Some value"
    using cipher_round_trip [OF assms(1)] by blast
  define up where "up = map (\<lambda>r. if fst r = n then (n, v) else r) (settingRows s)"
  define rs where "rs = (if list_ex (\<lambda>r. fst r = n) up then up else up @ [(n, v)])"
  have named: "rowNames a c name r \<longleftrightarrow> fst r = n" if "r \<in> set (settingRows s)" for r
    using assms(3) that n by (auto simp: canonicalRow_def rowNames_def)
  have nv: "rowNames a c m (n, v) \<longleftrightarrow> m = name" for m using n(2) by (auto simp: rowNames_def)
  have up: "r = (n, v) \<or> (r \<in> set (settingRows s) \<and> \<not> rowNames a c name r)" if "r \<in> set up" for r
    using that by (auto simp: up_def named split: if_splits)
  have "set rs \<subseteq> insert (n, v) (set up)" by (auto simp: rs_def)
  then have rows: "r = (n, v) \<or> (r \<in> set (settingRows s) \<and> \<not> rowNames a c name r)" if "r \<in> set rs" for r
    using that up [of r] by blast
  have "canonicalRow a c (n, v)" using n(1) by (auto simp: canonicalRow_def nv)
  with rows assms(3) have can: "\<forall>r \<in> set rs. canonicalRow a c r" by blast
  have ex: "rowNames a c m r'" if "rowNames a c m r" "r' = (if fst r = n then (n, v) else r)" for m r r'
    using that by (auto simp: rowNames_def)
  have "\<exists>r \<in> set rs. fst r = n" by (auto simp: rs_def list_ex_iff)
  then have "(n, v) \<in> set rs" using rows named by (metis fst_conv)
  moreover have "\<exists>r' \<in> set rs. rowNames a c m r'" if "r \<in> set (settingRows s)" "rowNames a c m r" for m r
  proof
    show "rowNames a c m (if fst r = n then (n, v) else r)" by (rule ex [OF that(2) refl])
    have "(if fst r = n then (n, v) else r) \<in> set up" using that(1) by (auto simp: up_def)
    then show "(if fst r = n then (n, v) else r) \<in> set rs" by (auto simp: rs_def)
  qed
  ultimately have "list_ex (rowNames a c m) rs \<longleftrightarrow> m = name \<or> list_ex (rowNames a c m) (settingRows s)" for m
    using rows nv [of m] unfolding list_ex_iff by blast
  moreover have "saveSetting a c name value s = Some (s\<lparr>settingRows := rs\<rparr>)"
    using assms(2) n(1) v(1) by (simp add: saveSetting_def rs_def up_def Let_def)
  ultimately show ?thesis using nv [of name] v(2) rows can by blast
qed

lemma setSwitch_fits:
  assumes "cipherWorks a c" and "tableFits a c s"
  shows "\<exists>s'. setSwitch a c b flag s = Some s' \<and> tableFits a c s' \<and> switches s' = (switches s)(b := flag) \<and> settingTexts s' = settingTexts s"
proof (cases "flag = switches s b")
  case True
  then have "setSwitch a c b flag s = Some s" "(switches s)(b := flag) = switches s" by (auto simp: setSwitch_def)
  with assms(2) show ?thesis by auto
next
  case False
  let ?t = "s\<lparr>switches := (switches s)(b := flag)\<rparr>"
  have "\<not> isOnRefresh ?t" "\<forall>r \<in> set (settingRows ?t). canonicalRow a c r" using assms(2) by (simp_all add: tableFits_def)
  from save_rows [OF assms(1) this, of "switchName b" "if flag then ''1'' else ''0''"] obtain n v rs where
    s: "saveSetting a c (switchName b) (if flag then ''1'' else ''0'') ?t = Some (?t\<lparr>settingRows := rs\<rparr>)" and
    n: "rowNames a c (switchName b) (n, v)" and v: "decodedText a c v = Some (if flag then ''1'' else ''0'')" and
    r: "\<forall>r \<in> set rs. r = (n, v) \<or> (r \<in> set (settingRows s) \<and> \<not> rowNames a c (switchName b) r)" and
    c: "\<forall>r \<in> set rs. canonicalRow a c r" and
    e: "\<forall>m. list_ex (rowNames a c m) rs \<longleftrightarrow> m = switchName b \<or> list_ex (rowNames a c m) (settingRows s)" by auto
  let ?s' = "?t\<lparr>settingRows := rs\<rparr>"
  have "rawFlag (if flag then ''1'' else ''0'') = flag" by (simp add: rawFlag_def toLower_def)
  then have "rowHolds a c ?s' (n, v)"
    using n v switch_not_text [of b] unfolding rowHolds_def by (intro exI [of _ "switchName b"] exI [of _ "if flag then ''1'' else ''0''"]) (simp add: name_inj)
  moreover have "rowHolds a c ?s' x" if "rowHolds a c s x" "\<not> rowNames a c (switchName b) x" for x
    using that by (auto simp: rowHolds_def)
  ultimately have "\<forall>r \<in> set rs. rowHolds a c ?s' r" using r assms(2) by (auto simp: tableFits_def)
  then have "tableFits a c ?s'" using assms(2) c e by (auto simp: tableFits_def name_inj)
  then show ?thesis using s False by (simp add: setSwitch_def)
qed

lemma setText_fits:
  assumes "cipherWorks a c" and "tableFits a c s"
  shows "\<exists>s'. setText a c t w s = Some s' \<and> tableFits a c s' \<and> settingTexts s' = (settingTexts s)(t := w) \<and> switches s' = switches s"
proof (cases "w = settingTexts s t")
  case True
  then have "setText a c t w s = Some s" "(settingTexts s)(t := w) = settingTexts s" by (auto simp: setText_def)
  with assms(2) show ?thesis by auto
next
  case False
  let ?t = "s\<lparr>settingTexts := (settingTexts s)(t := w)\<rparr>"
  have "\<not> isOnRefresh ?t" "\<forall>r \<in> set (settingRows ?t). canonicalRow a c r" using assms(2) by (simp_all add: tableFits_def)
  from save_rows [OF assms(1) this, of "textName t" w] obtain n v rs where
    s: "saveSetting a c (textName t) w ?t = Some (?t\<lparr>settingRows := rs\<rparr>)" and
    n: "rowNames a c (textName t) (n, v)" and v: "decodedText a c v = Some w" and
    r: "\<forall>r \<in> set rs. r = (n, v) \<or> (r \<in> set (settingRows s) \<and> \<not> rowNames a c (textName t) r)" and
    c: "\<forall>r \<in> set rs. canonicalRow a c r" and
    e: "\<forall>m. list_ex (rowNames a c m) rs \<longleftrightarrow> m = textName t \<or> list_ex (rowNames a c m) (settingRows s)" by auto
  let ?s' = "?t\<lparr>settingRows := rs\<rparr>"
  have "rowHolds a c ?s' (n, v)"
    using n v switch_not_text [of _ t] unfolding rowHolds_def by (intro exI [of _ "textName t"] exI [of _ w]) (auto simp: name_inj dest: sym)
  moreover have "rowHolds a c ?s' x" if "rowHolds a c s x" "\<not> rowNames a c (textName t) x" for x
    using that by (auto simp: rowHolds_def)
  ultimately have "\<forall>r \<in> set rs. rowHolds a c ?s' r" using r assms(2) by (auto simp: tableFits_def)
  then have "tableFits a c ?s'" using assms(2) c e by (auto simp: tableFits_def name_inj)
  then show ?thesis using s False by (simp add: setText_def)
qed

datatype settingChange = Switch switch bool | Write settingText string

fun changeSetting :: "cryptApi \<Rightarrow> crypt \<Rightarrow> settingChange \<Rightarrow> userSettings \<Rightarrow> userSettings option" where
  "changeSetting a c (Switch b flag) = setSwitch a c b flag"
| "changeSetting a c (Write t w) = setText a c t w"

primrec changeSettings :: "cryptApi \<Rightarrow> crypt \<Rightarrow> settingChange list \<Rightarrow> userSettings \<Rightarrow> userSettings option" where
  "changeSettings a c [] s = Some s"
| "changeSettings a c (x # xs) s = Option.bind (changeSetting a c x s) (changeSettings a c xs)"

text \<open>The last change of a property counts.\<close>

fun wantedSwitch :: "switch \<Rightarrow> bool \<Rightarrow> settingChange list \<Rightarrow> bool" where
  "wantedSwitch b old [] = old"
| "wantedSwitch b old (Switch b' flag # xs) = wantedSwitch b (if b' = b then flag else old) xs"
| "wantedSwitch b old (Write t w # xs) = wantedSwitch b old xs"

fun wantedText :: "settingText \<Rightarrow> string \<Rightarrow> settingChange list \<Rightarrow> string" where
  "wantedText t old [] = old"
| "wantedText t old (Write t' w # xs) = wantedText t (if t' = t then w else old) xs"
| "wantedText t old (Switch b flag # xs) = wantedText t old xs"

lemma changes_fit:
  assumes "cipherWorks a c" and "tableFits a c s"
  shows "\<exists>s'. changeSettings a c xs s = Some s' \<and> tableFits a c s' \<and>
    switches s' = (\<lambda>b. wantedSwitch b (switches s b) xs) \<and> settingTexts s' = (\<lambda>t. wantedText t (settingTexts s t) xs)"
  using assms(2)
proof (induction xs arbitrary: s)
  case (Cons x xs)
  have "\<exists>s1. changeSetting a c x s = Some s1 \<and> tableFits a c s1 \<and> (\<forall>b. switches s1 b = wantedSwitch b (switches s b) [x]) \<and>
      (\<forall>t. settingTexts s1 t = wantedText t (settingTexts s t) [x])"
    using setSwitch_fits [OF assms(1) Cons.prems] setText_fits [OF assms(1) Cons.prems]
    by (cases x) (simp; metis fun_upd_apply)+
  then obtain s1 where s1: "changeSetting a c x s = Some s1" "tableFits a c s1"
    "\<And>b. switches s1 b = wantedSwitch b (switches s b) [x]" "\<And>t. settingTexts s1 t = wantedText t (settingTexts s t) [x]" by blast
  have "wantedSwitch b (wantedSwitch b o1 [x]) xs = wantedSwitch b o1 (x # xs)"
    "wantedText t (wantedText t o2 [x]) xs = wantedText t o2 (x # xs)" for b o1 t o2
    by (cases x; simp)+
  with Cons.IH [OF s1(2)] s1(1) show ?case by (simp add: s1(3,4))
qed simp

text \<open>Every sequence of changes of the settings succeeds and survives a restart: the object the next start builds from the table has, for each property, the value it was changed to last, and the value of before where it was not changed.\<close>

theorem settings_survive_restart:
  assumes "cipherWorks a c" and "tableFits a c s"
  shows "\<exists>s' n. changeSettings a c xs s = Some s' \<and> loadOrRefresh a c (newUserSettings (settingRows s') run) = Some n \<and>
    switches n = (\<lambda>b. wantedSwitch b (switches s b) xs) \<and> settingTexts n = (\<lambda>t. wantedText t (settingTexts s t) xs)"
proof -
  obtain s' where "changeSettings a c xs s = Some s'" "tableFits a c s'"
    "switches s' = (\<lambda>b. wantedSwitch b (switches s b) xs)" "settingTexts s' = (\<lambda>t. wantedText t (settingTexts s t) xs)"
    using changes_fit [OF assms] by blast
  then show ?thesis using reload_fits [of a c s' run] by auto
qed

lemma settings_survive_restart_witness:
  "\<exists>s' n. changeSettings mirrorApi newCrypt [Switch AlwaysPopup True, Write UpdateUrl ''u'', Switch UseInteract False] defaultSettings = Some s' \<and>
    loadOrRefresh mirrorApi newCrypt (newUserSettings (settingRows s') None) = Some n \<and>
    switches n = (\<lambda>b. wantedSwitch b (switches defaultSettings b) [Switch AlwaysPopup True, Write UpdateUrl ''u'', Switch UseInteract False]) \<and>
    settingTexts n = (\<lambda>t. wantedText t (settingTexts defaultSettings t) [Switch AlwaysPopup True, Write UpdateUrl ''u'', Switch UseInteract False])"
  by (rule settings_survive_restart [OF cipherWorks_mirror]) (simp add: tableFits_def defaultSettings_def newUserSettings_def)

section \<open>What the page accepts as a proxy\<close>

text \<open>What is documented of Qt: an address is printed with letters, digits, dots and colons.\<close>

definition printsAddresses :: "netApi \<Rightarrow> bool" where
  "printsAddresses q \<longleftrightarrow> (\<forall>t v4 x. parsedIp q t = Some (v4, x) \<longrightarrow> x \<noteq> [] \<and> list_all (\<lambda>ch. hostAlnum ch \<or> ch = CHR ''.'' \<or> ch = CHR '':'') x)"

definition plainArgument :: "string \<Rightarrow> bool" where
  "plainArgument w \<longleftrightarrow> w \<noteq> [] \<and> hd w \<noteq> CHR ''-'' \<and> list_all (\<lambda>ch. \<not> isSpace ch \<and> ch \<noteq> CHR 0x22) w"

lemma plainArgument_space: "plainArgument w \<Longrightarrow> CHR '' '' \<notin> set w"
proof
  assume "plainArgument w" and "CHR '' '' \<in> set w"
  then have "\<not> isSpace CHR '' ''" by (simp add: plainArgument_def list_all_iff)
  then show False by (simp add: isSpace_def code_def)
qed

lemma hostAlnum_plain: "hostAlnum ch \<Longrightarrow> \<not> isSpace ch \<and> ch \<noteq> CHR 0x22 \<and> ch \<noteq> CHR ''-'' \<and> ch \<noteq> CHR '' ''"
  by (auto simp: hostAlnum_def isSpace_def code_def)

lemma validPort_plain:
  assumes "validPort t = Some p"
  shows "plainArgument p" and "\<exists>n. parseNat p = Some n \<and> 1 \<le> n \<and> n \<le> 65535"
proof -
  obtain n where n: "p = number (int n)" "1 \<le> n" "n \<le> 65535"
    using assms by (auto simp: validPort_def split: if_splits option.splits)
  have c: "48 \<le> code ch \<and> code ch \<le> 57" if "ch \<in> set p" for ch
    using that n natDigits_codes [of ch n] by (simp add: number_def)
  have "p \<noteq> []" using n by simp
  moreover from this c [of "hd p"] have "hd p \<noteq> CHR ''-''" by (auto simp: code_def)
  moreover have "\<not> isSpace ch \<and> ch \<noteq> CHR 0x22" if "ch \<in> set p" for ch using c [OF that] by (auto simp: isSpace_def code_def)
  ultimately show "plainArgument p" by (simp add: plainArgument_def list_all_iff)
  show "\<exists>n. parseNat p = Some n \<and> 1 \<le> n \<and> n \<le> 65535"
    using n by (simp add: number_def parseNat_def parseDigits_natDigits)
qed

lemma joinWith_chars: "x \<in> set (joinWith [d] ws) \<Longrightarrow> x = d \<or> (\<exists>w \<in> set ws. x \<in> set w)"
  by (induction "[d]" ws rule: joinWith.induct) auto

lemma validHost_plain:
  assumes "printsAddresses q" and "validHostOrIp q t = Some h"
  shows "plainArgument h"
proof -
  let ?host = "if last t = CHR ''.'' then butlast t else t"
  show ?thesis
  proof (cases "parsedIp q ?host")
    case (Some r)
    obtain v4 x where r: "r = (v4, x)" by (cases r)
    have h: "h = x" using assms(2) Some r by (auto simp: validHostOrIp_def Let_def split: if_splits)
    have x: "x \<noteq> []" "list_all (\<lambda>ch. hostAlnum ch \<or> ch = CHR ''.'' \<or> ch = CHR '':'') x"
      using assms(1) Some r by (auto simp: printsAddresses_def)
    have c: "\<not> isSpace ch \<and> ch \<noteq> CHR 0x22 \<and> ch \<noteq> CHR ''-''" if "ch \<in> set x" for ch
      using x(2) that hostAlnum_plain [of ch] by (auto simp: list_all_iff isSpace_def code_def)
    then show ?thesis using x(1) c [of "hd x"] by (simp add: plainArgument_def h list_all_iff)
  next
    case None
    have a: "h = toAce q ?host" "h \<noteq> []" "list_all hostLabel (splitOn CHR ''.'' h)"
      using assms(2) None by (auto simp: validHostOrIp_def Let_def list_ex_iff list_all_iff split: if_splits)
    have j: "h = joinWith [CHR ''.''] (splitOn CHR ''.'' h)" by (simp add: joinWith_splitOn)
    have l: "\<forall>ch \<in> set p. hostAlnum ch \<or> ch = CHR ''-''" "p \<noteq> []" "hostAlnum (hd p)" if "p \<in> set (splitOn CHR ''.'' h)" for p
      using a(3) that by (auto simp: list_all_iff hostLabel_def)
    have "\<not> isSpace ch \<and> ch \<noteq> CHR 0x22" if ch: "ch \<in> set h" for ch
    proof -
      have "ch \<in> set (joinWith [CHR ''.''] (splitOn CHR ''.'' h))" using ch by (simp only: j [symmetric])
      then consider "ch = CHR ''.''" | p where "p \<in> set (splitOn CHR ''.'' h)" "ch \<in> set p"
        by (blast dest: joinWith_chars)
      then show ?thesis
      proof cases
        case 2
        then have "hostAlnum ch \<or> ch = CHR ''-''" using l(1) by blast
        then show ?thesis using hostAlnum_plain [of ch] by (auto simp: isSpace_def code_def)
      qed (simp add: isSpace_def code_def)
    qed
    moreover have "hd h \<noteq> CHR ''-''"
    proof -
      obtain p ps where p: "splitOn CHR ''.'' h = p # ps" by (cases "splitOn CHR ''.'' h") auto
      with l(2,3) [of p] have "p \<noteq> []" "hostAlnum (hd p)" by simp_all
      then have "hd h = hd p" by (subst j) (cases ps; simp add: p)
      with \<open>hostAlnum (hd p)\<close> hostAlnum_plain show ?thesis by metis
    qed
    ultimately show ?thesis using a(2) by (simp add: plainArgument_def list_all_iff)
  qed
qed

lemma trimmed_filled:
  assumes "x \<in> set s" and "\<not> isSpace x"
  shows "trimmed s \<noteq> []"
proof
  assume "trimmed s = []"
  then have all: "\<forall>y \<in> set (dropWhile isSpace s). isSpace y" by (simp add: trimmed_def dropWhile_eq_Nil_conv)
  have "dropWhile isSpace s \<noteq> []" using assms by (auto simp: dropWhile_eq_Nil_conv)
  then have "\<not> isSpace (hd (dropWhile isSpace s))" by (rule hd_dropWhile)
  with all \<open>dropWhile isSpace s \<noteq> []\<close> show False using hd_in_set by blast
qed

definition proxyValues :: "proxySettings \<Rightarrow> string \<times> bool \<times> string \<times> string" where
  "proxyValues s = (proxyTypeInUseValue s, useHttpProxyValue s, proxyHostValue s, proxyPortValue s)"

lemma setter_values:
  "setProxyTypeInUse a c v s = Some s' \<Longrightarrow> proxyValues s' = (v, useHttpProxyValue s, proxyHostValue s, proxyPortValue s)"
  "setIsHttpProxy a c b s = Some s' \<Longrightarrow> proxyValues s' = (proxyTypeInUseValue s, b, proxyHostValue s, proxyPortValue s)"
  "setProxyHost a c v s = Some s' \<Longrightarrow> proxyValues s' = (proxyTypeInUseValue s, useHttpProxyValue s, v, proxyPortValue s)"
  "setProxyPort a c v s = Some s' \<Longrightarrow> proxyValues s' = (proxyTypeInUseValue s, useHttpProxyValue s, proxyHostValue s, v)"
  by (auto simp: proxyValues_def proxy_setter_defs split: if_splits)

lemma manual_values:
  assumes "cmdBack a c q w s = Some (Inr s')" and "choice w = UseManual"
  obtains host port where "validHostOrIp q (txtProxyIP w) = Some host" "validPort (txtProxyPort w) = Some port"
    "proxyValues s' = (''MANUAL'', rbHttpProxy w, host, port)"
proof -
  obtain host port s1 s2 s3 where h: "validHostOrIp q (txtProxyIP w) = Some host" "validPort (txtProxyPort w) = Some port"
    and s: "setProxyTypeInUse a c ''MANUAL'' s = Some s1" "setIsHttpProxy a c (rbHttpProxy w) s1 = Some s2"
      "setProxyHost a c host s2 = Some s3" "setProxyPort a c port s3 = Some s'"
    using assms by (auto simp: cmdBack_def bind_eq_Some_conv split: option.splits)
  have "proxyValues s' = (''MANUAL'', rbHttpProxy w, host, port)"
    using setter_values(1) [OF s(1)] setter_values(2) [OF s(2)] setter_values(3) [OF s(3)] setter_values(4) [OF s(4)]
    by (simp add: proxyValues_def)
  with h that show ?thesis by blast
qed

text \<open>C22. The proxy the user types cannot add an option to OpenVPN's command line: when the page is left with a manual proxy, the service splits the text of the request into exactly three arguments, the option of the chosen kind, a host that starts with no dash and holds no white space or quote, and a port between 1 and 65535.\<close>

theorem manual_proxy_is_one_option:
  assumes "cmdBack a c q w s = Some (Inr s')" and "choice w = UseManual" and "printsAddresses q"
    and "proxyString v = openVpnProxyString sys s'"
  shows "\<exists>host port n. plainArgument host \<and> plainArgument port \<and> parseNat port = Some n \<and> 1 \<le> n \<and> n \<le> 65535 \<and>
    vpnArguments v = [''--service'', exitEvent (vpnId v), ''0'', ''--config'', fullConfigPathValue v, ''--mute'', ''0'',
       if rbHttpProxy w then ''--http-proxy'' else ''--socks-proxy'', host, port]
     @ (if \<not> useNoInteract v then [''--auth-retry'', ''interact''] else []) @ [''--tls-cipher'', tlsCiphers]"
proof -
  obtain host port where h: "validHostOrIp q (txtProxyIP w) = Some host" and p: "validPort (txtProxyPort w) = Some port"
    and "proxyValues s' = (''MANUAL'', rbHttpProxy w, host, port)"
    using manual_values [OF assms(1,2)] by blast
  then have s': "proxyTypeInUseValue s' = ''MANUAL''" "useHttpProxyValue s' = rbHttpProxy w" "proxyHostValue s' = host" "proxyPortValue s' = port"
    by (simp_all add: proxyValues_def)
  have g: "plainArgument host" "plainArgument port" using validHost_plain [OF assms(3) h] validPort_plain(1) [OF p] .
  define opt where "opt = (if rbHttpProxy w then ''--http-proxy'' else ''--socks-proxy'')"
  have pr: "proxyString v = joinWith [CHR '' ''] [opt, host, port]"
    using s' g by (simp add: assms(4) openVpnProxyString_def opt_def plainArgument_def del: joinWith.simps)
  have "\<forall>x \<in> set [opt, host, port]. CHR '' '' \<notin> set x"
    using plainArgument_space [OF g(1)] plainArgument_space [OF g(2)] by (simp add: opt_def)
  then have sp: "splitOn CHR '' '' (proxyString v) = [opt, host, port]" unfolding pr by (intro splitOn_joinWith) simp_all
  have ne: "trimmed (proxyString v) \<noteq> []"
  proof -
    have "CHR ''-'' \<in> set (proxyString v)" by (simp add: pr opt_def)
    then show ?thesis by (rule trimmed_filled) (simp add: isSpace_def code_def)
  qed
  have "vpnArguments v = [''--service'', exitEvent (vpnId v), ''0'', ''--config'', fullConfigPathValue v, ''--mute'', ''0'',
       opt, host, port] @ (if \<not> useNoInteract v then [''--auth-retry'', ''interact''] else []) @ [''--tls-cipher'', tlsCiphers]"
    unfolding vpnArguments_def sp using ne by simp
  then show ?thesis unfolding opt_def using g validPort_plain(2) [OF p] by blast
qed

definition manualPage :: settingsPage where
  "manualPage = \<lparr>choice = UseManual, rbHttpProxy = True, txtProxyIP = ''proxy.example.org.'', txtProxyPort = ''08080''\<rparr>"

definition sampleNet :: netApi where
  "sampleNet = \<lparr>parsedIp = (\<lambda>_. None), toAce = (\<lambda>t. t)\<rparr>"

definition manualProxy :: proxySettings where
  "manualProxy = \<lparr>proxyTypeInUseValue = ''MANUAL'', useHttpProxyValue = True, proxyHostValue = ''proxy.example.org'',
     proxyPortValue = ''8080'', proxyIni = Some [], oldProxyIni = None\<rparr>"

lemma manual_page_left:
  "cmdBack mirrorApi newCrypt sampleNet manualPage manualProxy = Some (Inr manualProxy)"
proof -
  have "parseNat ''08080'' = Some 8080" by (simp add: parseNat_def digitValue_def code_def)
  then have "validPort ''08080'' = Some (number 8080)"
    by (simp add: validPort_def trimmed_def isSpace_def digitValue_def code_def)
  moreover have "number 8080 = ''8080''"
    by (simp add: number_def digitChar_def natDigits.simps char_of_def bit_0 bit_numeral_rec bit_Suc)
  moreover have "validHostOrIp sampleNet ''proxy.example.org.'' = Some ''proxy.example.org''"
    by code_simp
  ultimately show ?thesis
    by (simp add: cmdBack_def manualPage_def manualProxy_def setProxyTypeInUse_def setIsHttpProxy_def setProxyHost_def setProxyPort_def)
qed

lemma manual_proxy_is_one_option_witness:
  "\<exists>host port n. plainArgument host \<and> plainArgument port \<and> parseNat port = Some n \<and> 1 \<le> n \<and> n \<le> 65535 \<and>
    vpnArguments (newOpenVpn\<lparr>proxyString := openVpnProxyString [] manualProxy\<rparr>) =
      [''--service'', exitEvent (vpnId newOpenVpn), ''0'', ''--config'', fullConfigPathValue newOpenVpn, ''--mute'', ''0'',
       ''--http-proxy'', host, port]
     @ (if \<not> useNoInteract newOpenVpn then [''--auth-retry'', ''interact''] else []) @ [''--tls-cipher'', tlsCiphers]"
  using manual_proxy_is_one_option [OF manual_page_left, of "newOpenVpn\<lparr>proxyString := openVpnProxyString [] manualProxy\<rparr>" "[]"]
  by (simp add: manualPage_def printsAddresses_def sampleNet_def exitEvent_def)

end
