(* ===== verification/Database.thy ===== *)
theory Database
  imports ClientSettings
begin

text \<open>
  The database of the client (\<open>client/src/database/database.cpp\<close>), as far as the table \<open>settings\<close> is
  concerned: the constructor creates the file with default settings, or adds the one setting an
  older version did not have. Its file is \<open>None\<close> when it does not exist, else the rows of \<open>settings\<close>; a new
  table \<open>vpn\<close> is empty. An exception of the encryption is \<open>None\<close>. A start of the program opens the database,
  builds the settings object and loads it (\<open>WinMain\<close>); the settings are then changed any number of times.
\<close>

section \<open>The constructor\<close>

definition settingsRow :: "cryptApi \<Rightarrow> crypt \<Rightarrow> string \<times> string \<Rightarrow> (string \<times> string) option" where
  "settingsRow a c r =
     Option.bind (encodePlaintext a c (fst r)) (\<lambda>n. map_option (Pair n) (encodePlaintext a c (snd r)))"

primrec settingsRows :: "cryptApi \<Rightarrow> crypt \<Rightarrow> (string \<times> string) list \<Rightarrow> (string \<times> string) list option" where
  "settingsRows a c [] = Some []"
| "settingsRows a c (r # rs) =
     Option.bind (settingsRow a c r) (\<lambda>x. map_option (Cons x) (settingsRows a c rs))"

definition settingsSql :: "string \<Rightarrow> (string \<times> string) list" where
  "settingsSql applicationDir =
     [(''useInteract'', ''1''), (''startOnWindows'', ''0''), (''blockShutdown'', ''1''), (''showBallon'', ''1''),
      (''autoRestart'', ''1''), (''alwaysPopup'', ''0''), (''showSplash'', ''1''), (''enableUpdate'', ''1''),
      (''updateUrl'', ''http://updatevpnc.securepoint.de/vpn-changelog.xml''), (''useSecurepoint'', ''1''),
      (''maschineConfigDirectory'', applicationDir @ ''/configs''), (''dhShowSmallKeyInformation'', ''1'')]"

definition openDatabase :: "cryptApi \<Rightarrow> crypt \<Rightarrow> string \<Rightarrow> (string \<times> string) list option \<Rightarrow> (string \<times> string) list option" where
  "openDatabase a c applicationDir table =
     (case table of
        None \<Rightarrow> settingsRows a c (settingsSql applicationDir)
      | Some rs \<Rightarrow>
          Option.bind (encodePlaintext a c ''dhShowSmallKeyInformation'') (\<lambda>n.
            if list_ex (\<lambda>r. fst r = n) rs then Some rs
            else map_option (\<lambda>v. rs @ [(n, v)]) (encodePlaintext a c ''1'')))"

section \<open>Records as text\<close>

definition joinRecord :: "string \<Rightarrow> bool \<Rightarrow> string list \<Rightarrow> string" where
  "joinRecord separator setNewline record =
     joinWith separator (map (\<lambda>v. qreplace v separator ''#INV-SEP#'') record) @ (if setNewline then nl else [])"

section \<open>Starts of the program\<close>

definition programStart :: "cryptApi \<Rightarrow> crypt \<Rightarrow> string \<Rightarrow> string option \<Rightarrow> (string \<times> string) list option \<Rightarrow> userSettings option" where
  "programStart a c applicationDir run table =
     Option.bind (openDatabase a c applicationDir table) (\<lambda>rs. loadOrRefresh a c (newUserSettings rs run))"

fun programRuns :: "cryptApi \<Rightarrow> crypt \<Rightarrow> string \<Rightarrow> string option \<Rightarrow> settingChange list list \<Rightarrow> (string \<times> string) list option \<Rightarrow> userSettings option" where
  "programRuns a c dir run [] table = programStart a c dir run table"
| "programRuns a c dir run (xs # xss) table =
     Option.bind (programStart a c dir run table) (\<lambda>s.
     Option.bind (changeSettings a c xs s) (\<lambda>s'. programRuns a c dir run xss (Some (settingRows s'))))"

section \<open>The settings of a new database\<close>

definition freshSwitches :: "switch \<Rightarrow> bool" where
  "freshSwitches b \<longleftrightarrow> b \<notin> {StartOnWindows, AlwaysPopup, SendToTrayAfterConnect}"

definition freshTexts :: "string \<Rightarrow> settingText \<Rightarrow> string" where
  "freshTexts dir t = (case t of UpdateUrl \<Rightarrow> ''http://updatevpnc.securepoint.de/vpn-changelog.xml''
     | MaschineConfigDirectory \<Rightarrow> dir @ ''/configs'')"

text \<open>A row as the constructor writes it.\<close>

definition rowFor :: "cryptApi \<Rightarrow> crypt \<Rightarrow> string \<times> string \<Rightarrow> string \<times> string \<Rightarrow> bool" where
  "rowFor a c p r \<longleftrightarrow> rowNames a c (fst p) r \<and> canonicalRow a c r \<and> decodedText a c (snd r) = Some (snd p)"

lemma settingsRow_for:
  assumes "cipherWorks a c"
  shows "\<exists>r. settingsRow a c p = Some r \<and> rowFor a c p r"
proof -
  obtain n where n: "encodePlaintext a c (fst p) = Some n" "decodedText a c n = Some (fst p)"
    using cipher_round_trip [OF assms] by blast
  obtain v where "encodePlaintext a c (snd p) = Some v" "decodedText a c v = Some (snd p)"
    using cipher_round_trip [OF assms] by blast
  with n show ?thesis by (auto simp: settingsRow_def rowFor_def rowNames_def canonicalRow_def)
qed

lemma settingsRows_for:
  assumes "cipherWorks a c"
  shows "\<exists>rs. settingsRows a c ps = Some rs \<and> list_all2 (rowFor a c) ps rs"
proof (induction ps)
  case (Cons p ps)
  then show ?case using settingsRow_for [OF assms, of p] by auto
qed simp

lemma rows_named:
  assumes "list_all2 (rowFor a c) ps rs"
  shows "list_ex (rowNames a c n) rs \<longleftrightarrow> n \<in> fst ` set ps"
  using assms by (induction rule: list_all2_induct) (auto simp: rowFor_def rowNames_def)

lemma rows_hold:
  assumes "list_all2 (rowFor a c) ps rs" and "r \<in> set rs"
  obtains p where "p \<in> set ps" and "rowFor a c p r"
  using assms by (auto simp: list_all2_conv_all_nth in_set_conv_nth) (metis nth_mem prod.collapse)

lemma fresh_table_fits:
  assumes "list_all2 (rowFor a c) (settingsSql dir) rs"
  shows "tableFits a c ((newUserSettings rs run)\<lparr>switches := freshSwitches, settingTexts := freshTexts dir\<rparr>)"
proof -
  let ?s = "(newUserSettings rs run)\<lparr>switches := freshSwitches, settingTexts := freshTexts dir\<rparr>"
  have "rowHolds a c ?s r \<and> canonicalRow a c r" if r: "r \<in> set rs" for r
  proof -
    obtain p where p: "p \<in> set (settingsSql dir)" "rowFor a c p r" using rows_hold [OF assms r] by blast
    have "(\<forall>b. fst p = switchName b \<longrightarrow> rawFlag (snd p) = freshSwitches b) \<and> (\<forall>t. fst p = textName t \<longrightarrow> snd p = freshTexts dir t)"
    proof (intro conjI allI impI)
      fix b assume "fst p = switchName b"
      then show "rawFlag (snd p) = freshSwitches b"
        using p(1) by (cases b) (auto simp: settingsSql_def freshSwitches_def rawFlag_def toLower_def)
    next
      fix t assume "fst p = textName t"
      then show "snd p = freshTexts dir t" using p(1) by (cases t) (auto simp: settingsSql_def freshTexts_def)
    qed
    then show ?thesis using p(2) unfolding rowHolds_def rowFor_def by auto
  qed
  moreover have "list_ex (rowNames a c (switchName b)) rs \<or> freshSwitches b = switches defaultSettings b" for b
    unfolding rows_named [OF assms]
    by (cases b) (simp_all add: settingsSql_def freshSwitches_def defaultSettings_def newUserSettings_def)
  moreover have "list_ex (rowNames a c (textName t)) rs" for t
    unfolding rows_named [OF assms] by (cases t) (simp_all add: settingsSql_def)
  ultimately show ?thesis by (simp add: tableFits_def newUserSettings_def)
qed

lemma tableFits_fields:
  "tableFits a c s \<Longrightarrow> \<not> isOnRefresh s' \<Longrightarrow> settingRows s' = settingRows s \<Longrightarrow> switches s' = switches s \<Longrightarrow>
     settingTexts s' = settingTexts s \<Longrightarrow> tableFits a c s'"
  by (simp add: tableFits_def rowHolds_def)

lemma migrated_fits:
  assumes "cipherWorks a c" and "tableFits a c s"
  shows "\<exists>rs. openDatabase a c dir (Some (settingRows s)) = Some rs \<and> tableFits a c (s\<lparr>settingRows := rs\<rparr>)"
proof -
  let ?n = "''dhShowSmallKeyInformation''"
  obtain r where r: "settingsRow a c (?n, ''1'') = Some r" "rowFor a c (?n, ''1'') r"
    using settingsRow_for [OF assms(1)] by blast
  then have e: "encodePlaintext a c ?n = Some (fst r)" "encodePlaintext a c ''1'' = Some (snd r)"
    by (auto simp: settingsRow_def bind_eq_Some_conv)
  show ?thesis
  proof (cases "list_ex (\<lambda>x. fst x = fst r) (settingRows s)")
    case True
    then show ?thesis using assms(2) by (simp add: openDatabase_def e)
  next
    case False
    have no: "\<not> list_ex (rowNames a c ?n) (settingRows s)"
      using False assms(2) e(1) by (auto simp: list_ex_iff tableFits_def canonicalRow_def)
    then have s: "switches s DhShowSmallKeyInformation"
      using assms(2) by (auto simp: tableFits_def defaultSettings_def newUserSettings_def dest!: spec [of _ DhShowSmallKeyInformation])
    let ?s = "s\<lparr>settingRows := settingRows s @ [r]\<rparr>"
    have names: "rowNames a c m r \<longleftrightarrow> m = ?n" for m using r(2) by (auto simp: rowFor_def rowNames_def)
    have "?n = switchName DhShowSmallKeyInformation" by simp
    then have "rowHolds a c ?s r"
      using r(2) s switch_not_text [of DhShowSmallKeyInformation]
      unfolding rowHolds_def rowFor_def by (intro exI [of _ ?n] exI [of _ "''1''"]) (auto simp: name_inj rawFlag_def simp del: switchName.simps)
    moreover have "rowHolds a c ?s x" if "rowHolds a c s x" for x using that by (simp add: rowHolds_def)
    ultimately have "tableFits a c ?s"
      using assms(2) r(2) by (auto simp: tableFits_def rowFor_def)
    moreover have "openDatabase a c dir (Some (settingRows s)) = Some (settingRows s @ [r])"
      using False by (simp add: openDatabase_def e)
    ultimately show ?thesis by auto
  qed
qed

lemma programStart_fits:
  assumes "cipherWorks a c" and "tableFits a c s"
  shows "\<exists>n. programStart a c dir run (Some (settingRows s)) = Some n \<and> tableFits a c n \<and> switches n = switches s \<and> settingTexts n = settingTexts s"
proof -
  obtain rs where rs: "openDatabase a c dir (Some (settingRows s)) = Some rs" and f: "tableFits a c (s\<lparr>settingRows := rs\<rparr>)"
    using migrated_fits [OF assms] by blast
  let ?n = "(newUserSettings rs run)\<lparr>switches := switches s, settingTexts := settingTexts s\<rparr>"
  have "programStart a c dir run (Some (settingRows s)) = Some ?n"
    using reload_fits [OF f, of run] by (simp add: programStart_def rs)
  moreover have "tableFits a c ?n" by (rule tableFits_fields [OF f]) (simp_all add: newUserSettings_def)
  ultimately show ?thesis by simp
qed

lemma first_start_fits:
  assumes "cipherWorks a c"
  shows "\<exists>n. programStart a c dir run None = Some n \<and> tableFits a c n \<and> switches n = freshSwitches \<and> settingTexts n = freshTexts dir"
proof -
  obtain rs where rs: "settingsRows a c (settingsSql dir) = Some rs" "list_all2 (rowFor a c) (settingsSql dir) rs"
    using settingsRows_for [OF assms] by blast
  let ?n = "(newUserSettings rs run)\<lparr>switches := freshSwitches, settingTexts := freshTexts dir\<rparr>"
  have f: "tableFits a c ?n" by (rule fresh_table_fits [OF rs(2)])
  from reload_fits [OF f, of run] have "programStart a c dir run None = Some ?n"
    by (simp add: programStart_def openDatabase_def rs(1)) (simp add: newUserSettings_def)
  with f show ?thesis by auto
qed

lemma wanted_append:
  "wantedSwitch b o1 (xs @ ys) = wantedSwitch b (wantedSwitch b o1 xs) ys"
  "wantedText t o2 (xs @ ys) = wantedText t (wantedText t o2 xs) ys"
  by (induction b o1 xs rule: wantedSwitch.induct; simp) (induction t o2 xs rule: wantedText.induct; simp)

lemma runs_fit:
  assumes "cipherWorks a c" and "programStart a c dir run table = Some s" and "tableFits a c s"
  shows "\<exists>n. programRuns a c dir run xss table = Some n \<and> tableFits a c n \<and>
    switches n = (\<lambda>b. wantedSwitch b (switches s b) (concat xss)) \<and> settingTexts n = (\<lambda>t. wantedText t (settingTexts s t) (concat xss))"
  using assms(2,3)
proof (induction xss arbitrary: table s)
  case (Cons xs xss)
  obtain s1 where s1: "changeSettings a c xs s = Some s1" "tableFits a c s1"
    "switches s1 = (\<lambda>b. wantedSwitch b (switches s b) xs)" "settingTexts s1 = (\<lambda>t. wantedText t (settingTexts s t) xs)"
    using changes_fit [OF assms(1) Cons.prems(2)] by blast
  obtain s2 where s2: "programStart a c dir run (Some (settingRows s1)) = Some s2" "tableFits a c s2"
    "switches s2 = switches s1" "settingTexts s2 = settingTexts s1"
    using programStart_fits [OF assms(1) s1(2)] by blast
  from Cons.IH [OF s2(1,2)] show ?case by (simp add: Cons.prems(1) s1 s2(3,4) wanted_append)
qed simp

text \<open>C21. Settings survive any number of restarts: from the start without a database on, whatever was changed in the runs before, a start succeeds and yields for each property the value it was changed to last, or the value the constructor of the database wrote.\<close>

theorem settings_survive_restarts:
  assumes "cipherWorks a c"
  shows "\<exists>n. programRuns a c dir run xss None = Some n \<and>
    switches n = (\<lambda>b. wantedSwitch b (b \<notin> {StartOnWindows, AlwaysPopup, SendToTrayAfterConnect}) (concat xss)) \<and>
    settingTexts n UpdateUrl = wantedText UpdateUrl ''http://updatevpnc.securepoint.de/vpn-changelog.xml'' (concat xss) \<and>
    settingTexts n MaschineConfigDirectory = wantedText MaschineConfigDirectory (dir @ ''/configs'') (concat xss)"
proof -
  obtain s where s: "programStart a c dir run None = Some s" "tableFits a c s" "switches s = freshSwitches" "settingTexts s = freshTexts dir"
    using first_start_fits [OF assms] by blast
  from runs_fit [OF assms s(1,2), of xss] show ?thesis by (auto simp: s(3,4) freshSwitches_def freshTexts_def)
qed

lemma settings_survive_restarts_witness:
  "\<exists>n. programRuns mirrorApi newCrypt ''C:/vpn'' None [[Switch AlwaysPopup True, Write UpdateUrl ''u''], [Switch AlwaysPopup False]] None = Some n \<and>
    \<not> switches n AlwaysPopup \<and> switches n UseInteract \<and> settingTexts n UpdateUrl = ''u'' \<and>
    settingTexts n MaschineConfigDirectory = ''C:/vpn/configs''"
  using settings_survive_restarts [OF cipherWorks_mirror, of "''C:/vpn''" None "[[Switch AlwaysPopup True, Write UpdateUrl ''u''], [Switch AlwaysPopup False]]"]
  by auto

end
