(* ===== verification/CommandLine.thy ===== *)
theory CommandLine
  imports Prelude
begin

text \<open>
  The client splits its command line itself: \<open>CommandLineToArgvA\<close> of \<open>client/src/main.cpp\<close>. One block
  of memory holds the table of pointers and behind it the characters; both only grow, so the
  table is a list of offsets and the characters written so far are a list. \<open>blank\<close> is the
  group of characters that end an argument outside quotes. The reference the code is compared with is
  \<open>arguments\<close>, which cuts one word after the other off the text.
\<close>

section \<open>The splitter\<close>

definition nul :: char where
  "nul = CHR 0x00"

definition quote :: char where
  "quote = CHR 0x22"

definition blank :: "char \<Rightarrow> bool" where
  "blank a \<longleftrightarrow> a = CHR '' '' \<or> a = CHR 0x09 \<or> a = CHR 0x0A \<or> a = CHR 0x0D"

text \<open>The text of a pointer to characters, up to the first 0.\<close>

definition cString :: "string \<Rightarrow> string" where
  "cString = takeWhile (\<lambda>a. a \<noteq> nul)"

record splitter =
  argvText :: string
  argvTable :: "nat list"
  in_QM :: bool
  in_TEXT :: bool
  in_SPACE :: bool

definition newSplitter :: splitter where
  "newSplitter = \<lparr>argvText = [], argvTable = [], in_QM = False, in_TEXT = False, in_SPACE = True\<rparr>"

definition beginArgument :: "splitter \<Rightarrow> splitter" where
  "beginArgument s = (if in_SPACE s then s\<lparr>argvTable := argvTable s @ [length (argvText s)]\<rparr> else s)"

definition splitChar :: "char \<Rightarrow> splitter \<Rightarrow> splitter" where
  "splitChar a s =
     (if in_QM s then
        (if a = quote then s\<lparr>in_QM := False\<rparr> else s\<lparr>argvText := argvText s @ [a]\<rparr>)
      else if a = quote then
        (beginArgument (s\<lparr>in_QM := True, in_TEXT := True\<rparr>))\<lparr>in_SPACE := False\<rparr>
      else if blank a then
        (if in_TEXT s then s\<lparr>argvText := argvText s @ [nul]\<rparr> else s)\<lparr>in_TEXT := False, in_SPACE := True\<rparr>
      else
        (let s' = beginArgument (s\<lparr>in_TEXT := True\<rparr>) in s'\<lparr>argvText := argvText s' @ [a], in_SPACE := False\<rparr>))"

definition splitCommandLine :: "string \<Rightarrow> splitter" where
  "splitCommandLine cmdLine = fold splitChar (cString cmdLine) newSplitter"

text \<open>What the caller reads through the table, with the last 0 written.\<close>

definition argumentTexts :: "splitter \<Rightarrow> string list" where
  "argumentTexts s = map (\<lambda>p. cString (drop p (argvText s @ [nul]))) (argvTable s)"

definition commandLineToArgv :: "string \<Rightarrow> string list" where
  "commandLineToArgv cmdLine = argumentTexts (splitCommandLine cmdLine)"

text \<open>The sizes of the block: entries of the table and bytes of text.\<close>

definition tableSize :: "nat \<Rightarrow> nat" where
  "tableSize len = (len + 2) div 2 + 1"

definition textSize :: "nat \<Rightarrow> nat" where
  "textSize len = len + 2"

section \<open>The reference\<close>

text \<open>One word, with or without open quotes: quotes are dropped, blanks inside them are kept.\<close>

fun cutWord :: "bool \<Rightarrow> string \<Rightarrow> string \<times> string" where
  "cutWord q [] = ([], [])"
| "cutWord q (a # s) =
     (if a = quote then cutWord (\<not> q) s
      else if \<not> q \<and> blank a then ([], s)
      else map_prod ((#) a) id (cutWord q s))"

lemma cutWord_length: "length (snd (cutWord q s)) \<le> length s"
  by (induction q s rule: cutWord.induct) auto

function arguments :: "string \<Rightarrow> string list" where
  "arguments [] = []"
| "arguments (a # s) =
     (if blank a then arguments s
      else (case cutWord False (a # s) of (w, rest) \<Rightarrow> w # arguments rest))"
  by pat_completeness auto
termination
proof (relation "measure length")
  fix a s w rest
  assume "\<not> blank a" and "(w, rest) = cutWord False (a # s)"
  then have "rest = snd (cutWord False (a # s))" by (metis snd_conv)
  also have "\<dots> = snd (cutWord (a = quote) s)" using \<open>\<not> blank a\<close> by (cases "a = quote") simp_all
  finally have "rest = snd (cutWord (a = quote) s)" .
  then show "(rest, a # s) \<in> measure length" using cutWord_length [of "a = quote" s] by simp
qed auto

declare arguments.simps [simp del]

section \<open>The splitter gives the words\<close>

text \<open>The text of finished words and their offsets.\<close>

definition laid :: "string list \<Rightarrow> string" where
  "laid ws = concat (map (\<lambda>w. w @ [nul]) ws)"

fun offsets :: "nat \<Rightarrow> string list \<Rightarrow> nat list" where
  "offsets k [] = []"
| "offsets k (w # ws) = k # offsets (k + length w + 1) ws"

lemma laid_simps [simp]: "laid [] = []" "laid (w # ws) = w @ nul # laid ws" "laid (us @ ws) = laid us @ laid ws"
  by (simp_all add: laid_def)

lemma offsets_append: "offsets k (us @ ws) = offsets k us @ offsets (k + length (laid us)) ws"
  by (induction us arbitrary: k) (simp_all add: ac_simps)

lemma cString_ends: "nul \<notin> set w \<Longrightarrow> cString (w @ nul # r) = w"
  by (induction w) (auto simp: cString_def)

lemma cString_clean: "nul \<notin> set (cString s)"
  by (auto simp: cString_def dest: set_takeWhileD)

lemma read_back:
  assumes "\<forall>w \<in> set ws. nul \<notin> set w"
  shows "map (\<lambda>p. cString (drop p (pre @ laid ws @ r))) (offsets (length pre) ws) = ws"
  using assms
proof (induction ws arbitrary: pre)
  case (Cons w ws)
  have "map (\<lambda>p. cString (drop p ((pre @ w @ [nul]) @ laid ws @ r))) (offsets (length (pre @ w @ [nul])) ws) = ws"
    using Cons by (intro Cons.IH) simp
  then show ?case using Cons.prems by (simp add: cString_ends add.assoc)
qed simp

text \<open>The state between two words, and inside the word of which \<open>w\<close> is written.\<close>

definition between :: "string list \<Rightarrow> splitter \<Rightarrow> bool" where
  "between ws s \<longleftrightarrow> argvText s = laid ws \<and> argvTable s = offsets 0 ws \<and> \<not> in_QM s \<and> \<not> in_TEXT s \<and> in_SPACE s"

definition inside :: "string list \<Rightarrow> string \<Rightarrow> bool \<Rightarrow> splitter \<Rightarrow> bool" where
  "inside ws w q s \<longleftrightarrow> argvText s = laid ws @ w \<and> argvTable s = offsets 0 (ws @ [w]) \<and> in_QM s = q \<and> in_TEXT s \<and> \<not> in_SPACE s"

lemma last_offset: "offsets 0 (ws @ [w]) = offsets 0 (ws @ [w'])"
  by (simp add: offsets_append)

lemma between_step:
  assumes "between ws s"
  shows "blank a \<Longrightarrow> between ws (splitChar a s)"
    and "a = quote \<Longrightarrow> inside ws [] True (splitChar a s)"
    and "\<not> blank a \<Longrightarrow> a \<noteq> quote \<Longrightarrow> inside ws [a] False (splitChar a s)"
  using assms by (auto simp: between_def inside_def splitChar_def beginArgument_def Let_def offsets_append blank_def quote_def)

lemma inside_step:
  assumes "inside ws w q s"
  shows "a = quote \<Longrightarrow> inside ws w (\<not> q) (splitChar a s)"
    and "\<not> q \<Longrightarrow> blank a \<Longrightarrow> between (ws @ [w]) (splitChar a s)"
    and "a \<noteq> quote \<Longrightarrow> q \<or> \<not> blank a \<Longrightarrow> inside ws (w @ [a]) q (splitChar a s)"
  using assms
  by (auto simp: between_def inside_def splitChar_def beginArgument_def Let_def offsets_append blank_def quote_def)

lemma inside_word:
  assumes "inside ws w q s"
  shows "(\<exists>q'. inside ws (w @ fst (cutWord q t)) q' (fold splitChar t s) \<and> snd (cutWord q t) = []) \<or>
    (\<exists>s'. between (ws @ [w @ fst (cutWord q t)]) s' \<and> fold splitChar t s = fold splitChar (snd (cutWord q t)) s')"
  using assms
proof (induction q t arbitrary: w s rule: cutWord.induct)
  case (2 q a t)
  consider "a = quote" | "a \<noteq> quote" "\<not> q" "blank a" | "a \<noteq> quote" "q \<or> \<not> blank a" by blast
  then show ?case
  proof cases
    case 1
    with "2.IH"(1) [OF 1 inside_step(1) [OF "2.prems" 1]] show ?thesis by simp
  next
    case 2
    with inside_step(2) [OF "2.prems"] show ?thesis by auto
  next
    case 3
    with "2.IH"(2) [OF 3(1) _ inside_step(3) [OF "2.prems" 3]] show ?thesis by auto
  qed
qed auto

lemma final_words:
  assumes "\<forall>w \<in> set ws. nul \<notin> set w"
  shows "between ws s \<Longrightarrow> argumentTexts s = ws"
    and "inside ws w q s \<Longrightarrow> nul \<notin> set w \<Longrightarrow> argumentTexts s = ws @ [w]"
proof -
  show "between ws s \<Longrightarrow> argumentTexts s = ws"
    using read_back [OF assms, of "[]" "[nul]"] by (simp add: between_def argumentTexts_def)
  assume "inside ws w q s" and w: "nul \<notin> set w"
  moreover have "map (\<lambda>p. cString (drop p ([] @ laid (ws @ [w]) @ []))) (offsets (length []) (ws @ [w])) = ws @ [w]"
    using read_back [of "ws @ [w]" "[]" "[]"] assms w by auto
  ultimately show "argumentTexts s = ws @ [w]" by (simp add: inside_def argumentTexts_def)
qed

lemma cutWord_set: "set (fst (cutWord q t)) \<subseteq> set t" "set (snd (cutWord q t)) \<subseteq> set t"
  by (induction q t rule: cutWord.induct) auto

lemma split_words:
  assumes "between ws s" and "nul \<notin> set t" and "\<forall>w \<in> set ws. nul \<notin> set w"
  shows "argumentTexts (fold splitChar t s) = ws @ arguments t"
  using assms
proof (induction t arbitrary: ws s rule: arguments.induct)
  case 1
  then show ?case by (simp add: arguments.simps final_words)
next
  case (2 a t)
  show ?case
  proof (cases "blank a")
    case True
    with "2.IH"(1) [OF True between_step(1) [OF "2.prems"(1) True]] "2.prems" show ?thesis by (simp add: arguments.simps)
  next
    case False
    let ?c = "cutWord False (a # t)"
    have n: "nul \<notin> set (fst ?c)" "nul \<notin> set (snd ?c)"
      using cutWord_set [of False "a # t"] "2.prems"(2) by blast+
    have args: "arguments (a # t) = fst ?c # arguments (snd ?c)" 
      using False by (simp add: arguments.simps(2) case_prod_beta del: cutWord.simps)
    have word: "(\<exists>q'. inside ws (fst ?c) q' (fold splitChar (a # t) s) \<and> snd ?c = []) \<or>
      (\<exists>s'. between (ws @ [fst ?c]) s' \<and> fold splitChar (a # t) s = fold splitChar (snd ?c) s')"
    proof (cases "a = quote")
      case True
      with inside_word [OF between_step(2) [OF "2.prems"(1) True], of t] show ?thesis by simp
    next
      case f: False
      with inside_word [OF between_step(3) [OF "2.prems"(1) False f], of t] False show ?thesis by simp
    qed
    then show ?thesis
    proof
      assume "\<exists>q'. inside ws (fst ?c) q' (fold splitChar (a # t) s) \<and> snd ?c = []"
      then obtain q' where "inside ws (fst ?c) q' (fold splitChar (a # t) s)" and e: "snd ?c = []" by blast
      then have "argumentTexts (fold splitChar (a # t) s) = ws @ [fst ?c]" using final_words(2) [OF "2.prems"(3)] n(1) by blast
      then show ?thesis unfolding args e by (simp add: arguments.simps)
    next
      assume "\<exists>s'. between (ws @ [fst ?c]) s' \<and> fold splitChar (a # t) s = fold splitChar (snd ?c) s'"
      then obtain s' where s': "between (ws @ [fst ?c]) s'" "fold splitChar (a # t) s = fold splitChar (snd ?c) s'" by blast
      have "argumentTexts (fold splitChar (snd ?c) s') = (ws @ [fst ?c]) @ arguments (snd ?c)"
        by (rule "2.IH"(2) [OF False prod.collapse s'(1) n(2)]) (use n(1) "2.prems"(3) in simp)
      then show ?thesis unfolding s'(2) args by simp
    qed
  qed
qed

lemma commandLine_words: "commandLineToArgv t = arguments (cString t)"
proof -
  have "between [] newSplitter" by (simp add: between_def newSplitter_def)
  from split_words [OF this cString_clean] show ?thesis by (simp add: commandLineToArgv_def splitCommandLine_def)
qed

text \<open>C23. The splitter of the command line, which writes into one block through two indices, yields exactly the words of the text up to its first 0: a word ends at a blank outside quotes, quotes are dropped and may stand inside a word, and a missing closing quote ends with the text.\<close>

theorem command_line_gives_its_words:
  "commandLineToArgv t = arguments (cString t)"
  by (rule commandLine_words)

section \<open>The block is large enough\<close>

text \<open>An argument needs a character that starts it and, but for the last, a blank that ends it.\<close>

definition roomLeft :: "nat \<Rightarrow> splitter \<Rightarrow> bool" where
  "roomLeft read s \<longleftrightarrow> length (argvText s) \<le> read \<and> 2 * length (argvTable s) \<le> read + (if in_SPACE s then 0 else 1) \<and>
     list_all (\<lambda>p. p \<le> length (argvText s)) (argvTable s)"

lemma roomLeft_step: "roomLeft n s \<Longrightarrow> roomLeft (Suc n) (splitChar a s)"
  by (auto simp: roomLeft_def splitChar_def beginArgument_def Let_def list_all_iff)

lemma roomLeft_fold: "roomLeft n s \<Longrightarrow> roomLeft (n + length t) (fold splitChar t s)"
proof (induction t arbitrary: n s)
  case (Cons a t)
  from Cons.IH [OF roomLeft_step [OF Cons.prems]] show ?case by simp
qed simp

text \<open>C38. The splitter stays inside its block: at every moment the characters written and the 0 behind them fit in the room for the text, the pointers and the null pointer behind them fit in the table, and every pointer points into the text.\<close>

theorem argument_vector_fits:
  "let s = fold splitChar (take n (cString t)) newSplitter; len = length (cString t) in
    length (argvText s) + 1 < textSize len \<and> length (argvTable s) + 1 \<le> tableSize len \<and>
    list_all (\<lambda>p. p + 1 < textSize len) (argvTable s)"
proof -
  let ?t = "take n (cString t)"
  have "roomLeft 0 newSplitter" by (simp add: roomLeft_def newSplitter_def)
  then have r: "roomLeft (length ?t) (fold splitChar ?t newSplitter)" using roomLeft_fold [of 0 newSplitter ?t] by simp
  have "length ?t \<le> length (cString t)" by simp
  with r show ?thesis
    by (auto simp: roomLeft_def textSize_def tableSize_def Let_def list_all_iff split: if_splits)
qed

section \<open>Quoted arguments\<close>

definition quoteArgument :: "string \<Rightarrow> string" where
  "quoteArgument w = quote # w @ [quote]"

lemma joinWith_set: "set (joinWith sep ws) \<subseteq> set sep \<union> \<Union> (set ` set ws)"
  by (induction sep ws rule: joinWith.induct) auto

lemma cutWord_quoted:
  assumes "quote \<notin> set w"
  shows "cutWord True (w @ quote # r) = map_prod ((@) w) id (cutWord False r)"
  using assms by (induction w) (auto simp: prod.map_comp comp_def map_prod_def case_prod_beta)

lemma arguments_quoted:
  assumes "\<forall>w \<in> set ws. quote \<notin> set w"
  shows "arguments (joinWith '' '' (map quoteArgument ws)) = ws"
  using assms
proof (induction ws)
  case (Cons w ws)
  have b: "\<not> blank quote" "blank CHR '' ''" by (simp_all add: blank_def quote_def)
  have w: "quote \<notin> set w" using Cons.prems by simp
  have one: "arguments (quote # w @ quote # r) = w # arguments r'" if "cutWord False r = ([], r')" for r r'
    using b cutWord_quoted [OF w, of r] that by (simp add: arguments.simps(2))
  show ?case
  proof (cases ws)
    case Nil
    then show ?thesis using one [of "[]" "[]"] by (simp add: quoteArgument_def arguments.simps)
  next
    case (Cons v vs)
    have "arguments (quote # w @ quote # CHR '' '' # joinWith '' '' (map quoteArgument ws)) = w # arguments (joinWith '' '' (map quoteArgument ws))"
      by (rule one) (simp add: b quote_def)
    then have "arguments (quoteArgument w @ '' '' @ joinWith '' '' (map quoteArgument ws)) = w # ws"
      using Cons.IH Cons.prems by (simp add: quoteArgument_def [of w])
    then show ?thesis by (simp add: Cons)
  qed
qed (simp add: arguments.simps)

theorem quoted_arguments_are_read_back:
  assumes "\<forall>w \<in> set ws. quote \<notin> set w \<and> nul \<notin> set w"
  shows "commandLineToArgv (joinWith '' '' (map quoteArgument ws)) = ws"
proof -
  have "nul \<notin> set (joinWith '' '' (map quoteArgument ws))"
    using assms joinWith_set [of "'' ''" "map quoteArgument ws"] by (fastforce simp: quoteArgument_def nul_def quote_def)
  then have "cString (joinWith '' '' (map quoteArgument ws)) = joinWith '' '' (map quoteArgument ws)"
    by (auto simp: cString_def takeWhile_eq_all_conv)
  with arguments_quoted [of ws] assms show ?thesis by (simp add: commandLine_words)
qed

end
