(* ===== verification/ClientStart.thy ===== *)
theory ClientStart
  imports Configs Daemon Database CommandLine
begin

text \<open>
  The start of the client: \<open>WinMain\<close> of \<open>client/src/main.cpp\<close> with the shared memory that tells the
  instances apart (\<open>client/src/single_application.cpp\<close>). \<open>handleCli\<close> is the loop over the arguments;
  most of the options that ask something of the service use a socket of their own (\<open>ClientCom\<close>) and end the
  program after its answer. The text of an answer is the format of \<open>printf\<close>: with a per cent sign in
  it the behaviour is undefined. Whether the service can be reached and what it answers are parameters, as
  are the services of Windows and the daemon's waits. Printing is kept in \<open>printed\<close>.
\<close>

section \<open>State\<close>

record startup =
  cliSettings :: userSettings
  cliLibrary :: library
  globalSaveUserData :: bool
  bSilent :: bool
  bDebug :: bool
  startDaemonDelay :: int
  loadGermanTranslation :: bool
  noSaveOption :: bool
  cmdFound :: bool
  printed :: "string list"
  requests :: "(string \<times> string) list"
  sharedMemory :: "string option"
  clientName :: string
  selfKey :: string

record startEnv =
  configSide :: configEnv
  isUserAdmin :: bool
  managementReachable :: bool
  reply :: "(string \<times> string) option"
  netmanStarts :: bool
  vpnServiceRunning :: bool
  random1 :: nat
  random2 :: nat
  databaseFile :: "(string \<times> string) list option"
  daemonSide :: daemonEnv

text \<open>
  How the program goes on: it runs, it ends, it waits for an answer for ever, it ends with an exception
  that nobody catches, or what it does is undefined.
\<close>

datatype cliEnd = Proceed | Exit | Waits | Uncaught | Undefined

definition newStartup :: "string option \<Rightarrow> string option \<Rightarrow> string \<Rightarrow> library \<Rightarrow> startup" where
  "newStartup run memory key l = \<lparr>cliSettings = newUserSettings [] run, cliLibrary = l, globalSaveUserData = True,
     bSilent = False, bDebug = False, startDaemonDelay = 0, loadGermanTranslation = False, noSaveOption = False,
     cmdFound = True, printed = [], requests = [], sharedMemory = memory, clientName = [],
     selfKey = key\<rparr>"

definition say :: "string \<Rightarrow> startup \<Rightarrow> startup" where
  "say t s = s\<lparr>printed := printed s @ [t]\<rparr>"

definition onSettings :: "(userSettings \<Rightarrow> userSettings) \<Rightarrow> startup \<Rightarrow> startup" where
  "onSettings f s = s\<lparr>cliSettings := f (cliSettings s)\<rparr>"

section \<open>The socket of the command line\<close>

text \<open>\<open>printf\<close> with a text as its format and no arguments.\<close>

definition printFormat :: "string \<Rightarrow> startup \<Rightarrow> startup \<times> cliEnd" where
  "printFormat t s = (if CHR ''%'' \<in> set t then (s, Undefined) else (say t s, Exit))"

definition slotRead :: "string \<Rightarrow> string \<Rightarrow> startup \<Rightarrow> startup \<times> cliEnd" where
  "slotRead command params s =
     (if command = ''VPN_LOG'' \<or> command = ''VPN_ERROR'' \<or> command = ''GET_CLIENTS'' then printFormat params s
      else (s, Exit))"

definition sendCommand :: "string \<Rightarrow> string \<Rightarrow> startup \<Rightarrow> startup" where
  "sendCommand command params s = s\<lparr>requests := requests s @ [(command, params)]\<rparr>"

text \<open>Send, then run the event loop until the answer has been handled.\<close>

definition ask :: "startEnv \<Rightarrow> string \<Rightarrow> string \<Rightarrow> startup \<Rightarrow> startup \<times> cliEnd" where
  "ask e command params s =
     (if \<not> managementReachable e then (s, Exit)
      else (case reply e of
              None \<Rightarrow> (sendCommand command params s, Waits)
            | Some (c, p) \<Rightarrow> slotRead c p (sendCommand command params s)))"

section \<open>Options that end the program\<close>

definition refreshed :: "startEnv \<Rightarrow> startup \<Rightarrow> startup" where
  "refreshed e s = s\<lparr>cliLibrary := refreshConfigs (configSide e) (cliLibrary s)\<rparr>"

definition cliDisconnect :: "startEnv \<Rightarrow> string \<Rightarrow> string \<Rightarrow> startup \<Rightarrow> startup \<times> cliEnd" where
  "cliDisconnect e clientIdString connectionIdString s =
     (case toIntOk connectionIdString of
        None \<Rightarrow> (say ''Invalid ID! See -status for valid IDs.'' s, Exit)
      | Some connectionId \<Rightarrow>
          if toIntOk clientIdString = None then
            (say ''Invalid client ID(not a number)! See -clients for valid IDs.'' s, Exit)
          else
            (let s1 = refreshed e s in
             if \<not> isConfigInList connectionId (app (cliLibrary s1)) then
               (say ''Unknown ID! See -status for known IDs.'' s1, Exit)
             else (case configWithId connectionId (app (cliLibrary s1)) of
               None \<Rightarrow> (s1, Undefined)
             | Some c \<Rightarrow>
                 if cdState c \<noteq> Connected \<and> cdState c \<noteq> Connecting then
                   (say ''Already disconnected! See -status for status.'' s1, Exit)
                 else if \<not> managementReachable e then
                   (say (''Can'' @ [CHR 0x27] @ ''t connect to the management service.'') s1, Exit)
                 else (sendCommand ''Close'' (qarg (qarg ''%1;%2'' clientIdString) connectionIdString) s1, Exit))))"

fun stateText :: "connectionState \<Rightarrow> string" where
  "stateText Connected = ''CONNECTED''" | "stateText Connecting = ''CONNECTING''"
| "stateText Disconnected = ''DISCONNECTED''" | "stateText Disconnecting = ''DISCONNECTING''"
| "stateText Error = ''ERROR''"

definition statusLine :: "connectionData \<Rightarrow> string" where
  "statusLine c = number (i32 (cdId c)) @ '' '' @ cdName c @ '' '' @ stateText (cdState c) @ '' ['' @ cdErrorMsg c @ '']'' @ nl"

definition cliStatus :: "startEnv \<Rightarrow> startup \<Rightarrow> startup \<times> cliEnd" where
  "cliStatus e s =
     (let s1 = refreshed e s in (fold (\<lambda>x. say (statusLine (snd x))) (objs (app (cliLibrary s1))) s1, Exit))"

definition helpLines :: "string list" where
  "helpLines = map (\<lambda>t. t @ nl)
     [''Version 2.0.50'', nl @ ''Usage: SSLVpnClient.com [options]'', ''Options:'',
      ''-help: Display this information'', ''-german: Change the language to german'',
      ''-silent: Suppress all user interaction (Confirmation dialogs)'',
      ''-disconnect id (disconnect for clientId and connectionId e.g. -disconnect 0 1). See also -clients and -status'',
      ''-user username used for all connections'', ''-noSave prevent storage of the user credentials'',
      ''-pwd password used for all connections '', ''-vpnlog: Print the VPN Log in the command line'',
      ''-status: shows the status of the connections in the currently running VPN Client instance of the current folder [ ID NAME STATUS ]'',
      ''-stop: Close the VPN Client'', ''-log clientid configid: Prints the VPN Log for the given configuration'',
      ''-error id: Prints the last error for the given configuration'',
      ''-clients: Show a list of running clients with their id [NAME ID]'',
      ''-version: Shows the current version of the client'']"

definition printHelp :: "startup \<Rightarrow> startup" where
  "printHelp s = fold say helpLines s"

text \<open>
  The pointer behind the last argument is null, which is the empty string: \<open>-log\<close> with one argument reads it.
\<close>

definition nextButOne :: "string list \<Rightarrow> string" where
  "nextButOne rest = (if 2 \<le> length rest then rest ! 1 else [])"

definition cliQuery :: "startEnv \<Rightarrow> string \<Rightarrow> string list \<Rightarrow> startup \<Rightarrow> (startup \<times> cliEnd) option" where
  "cliQuery e a rest s =
     (if a = ''-disconnect'' \<and> 2 \<le> length rest then Some (cliDisconnect e (rest ! 0) (rest ! 1) s)
      else if a = ''-status'' then Some (cliStatus e s)
      else if a = ''-log'' \<and> 1 \<le> length rest then Some (ask e ''GETLOG'' (rest ! 0 @ '';'' @ nextButOne rest) s)
      else if a = ''-error'' \<and> 2 \<le> length rest then Some (ask e ''GET_ERROR'' (rest ! 0 @ '';'' @ rest ! 1) s)
      else if a = ''-stop'' then Some (ask e ''STOP_CLIENTS'' [] s)
      else if a = ''-clients'' then Some (ask e ''GET_CLIENTS'' [] s)
      else if a = ''-help'' then Some (printHelp s, Exit)
      else if a = ''-version'' then Some (say (''SSLVpnClient Version 2.0.50'' @ nl) s, Exit)
      else None)"

section \<open>The loop over the arguments\<close>

definition cliFlag :: "string \<Rightarrow> startup \<Rightarrow> startup option" where
  "cliFlag a s =
     (if a = ''-german'' then Some (s\<lparr>loadGermanTranslation := True\<rparr>)
      else if a = ''-silent'' then Some (s\<lparr>bSilent := True\<rparr>)
      else if a = ''-debug'' then Some (s\<lparr>bDebug := True\<rparr>)
      else if a = ''-manage'' then Some (onSettings (isManaged_update (\<lambda>_. True)) s)
      else if a = ''-noSave'' then Some (s\<lparr>globalSaveUserData := False, noSaveOption := True\<rparr>)
      else if a = ''-vpnlog'' then Some (onSettings (showVpnLog_update (\<lambda>_. True)) s)
      else None)"

text \<open>\<open>-user\<close> and \<open>-pwd\<close> skip the argument they take, \<open>-delayDaemon\<close> does not.\<close>

function handleCli :: "startEnv \<Rightarrow> string list \<Rightarrow> startup \<Rightarrow> startup \<times> cliEnd" where
  "handleCli e [] s = (s, Proceed)"
| "handleCli e (a # rest) s =
     (case cliFlag a s of
        Some s' \<Rightarrow> handleCli e rest s'
      | None \<Rightarrow>
          if a = ''-delayDaemon'' \<and> rest \<noteq> [] then handleCli e rest (s\<lparr>startDaemonDelay := toInt (hd rest)\<rparr>)
          else if a = ''-user'' \<and> rest \<noteq> [] then
            handleCli e (tl rest) (onSettings (startUserValue_update (\<lambda>_. hd rest)) s)
          else if a = ''-pwd'' \<and> rest \<noteq> [] then
            handleCli e (tl rest) (onSettings (startPasswordValue_update (\<lambda>_. hd rest)) s)
          else (case cliQuery e a rest s of
                  Some r \<Rightarrow> r
                | None \<Rightarrow> handleCli e rest (s\<lparr>cmdFound := False\<rparr>)))"
  by pat_completeness auto
termination by (relation "measure (\<lambda>(e, l, s). length l)") auto

declare handleCli.simps [simp del]

section \<open>Instances\<close>

text \<open>
  The shared memory has 25 bytes, 0 at first. An instance that finds it (\<open>attach\<close>) counts up the number at
  its start; the first one creates it.
\<close>

definition overwrite :: "string \<Rightarrow> string \<Rightarrow> string" where
  "overwrite t memory = take (length memory) t @ drop (length t) memory"

definition toUInt :: "string \<Rightarrow> nat" where
  "toUInt t = (case parseNat (trimmed t) of None \<Rightarrow> 0 | Some n \<Rightarrow> if n < 2 ^ 32 then n else 0)"

definition setSharedKey :: "startup \<Rightarrow> bool \<times> startup" where
  "setSharedKey s =
     (case sharedMemory s of
        Some m \<Rightarrow>
          (let i = qarg ''%1'' (number (int ((toUInt (cString m) + 1) mod 2 ^ 32))) in
           (True, s\<lparr>clientName := ''SPSSlVpnClient'' @ i, sharedMemory := Some (overwrite i m)\<rparr>))
      | None \<Rightarrow> (False, s\<lparr>clientName := ''SPSSlVpnClient1'', sharedMemory := Some (overwrite ''1'' (replicate 25 nul))\<rparr>))"

definition sendMessage :: "string \<Rightarrow> startup \<Rightarrow> startup" where
  "sendMessage message s = s\<lparr>sharedMemory := map_option (overwrite (''1'' @ message @ [nul])) (sharedMemory s)\<rparr>"

section \<open>The start\<close>

definition startPortable :: "startEnv \<Rightarrow> startup \<Rightarrow> startup \<times> cliEnd" where
  "startPortable e s =
     (if \<not> isPortable (ui (configSide e)) then (s, Proceed)
      else if \<not> netmanStarts e then 
        (s\<lparr>cliLibrary := onApp (cause (MessageBox (''Failed to start netman'' @ nl @
          ''Either the program was not started as administrator or there was an error while starting netman''))) (cliLibrary s)\<rparr>, Exit)
      else if vpnServiceRunning e then (say (''Already running'' @ nl) s, Proceed)
      else (s\<lparr>cliLibrary := onApp (cause (RunTool (clientDir (ui (configSide e)) @ ''/SPSSLVpnService.exe'') ''-e'')) (cliLibrary s)\<rparr>, Proceed))"

text \<open>
  The key in \<open>sslpnv2.ini\<close>: a stored one must be readable, otherwise one is made of the time and two random
  numbers and stored encrypted. No later code uses it. \<open>None\<close>: the program ends with code 1.
\<close>

definition keyText :: "startEnv \<Rightarrow> string" where
  "keyText e =
     (let t1 = number (int (random1 e mod 1500 + 1)); t2 = number (int (random2 e mod 2500 + 1)) in
      ''S3m!BHF'' @ t1 @ ''83$%kd'' @ t2 @ number (now (ui (configSide e))) @ t1)"

definition checkKey :: "startEnv \<Rightarrow> startup \<Rightarrow> startup option" where
  "checkKey e s =
     (let a = cryptography (ui (configSide e)); c = cryptState (ui (configSide e)) in
      if selfKey s \<noteq> [] then map_option (\<lambda>_. s) (decodedText a c (selfKey s))
      else Option.bind (encodePlaintext a c (keyText e)) (\<lambda>k. map_option (\<lambda>_. s\<lparr>selfKey := k\<rparr>) (decodedText a c k)))"

definition loadAll :: "startEnv \<Rightarrow> startup \<Rightarrow> startup option" where
  "loadAll e s =
     (let a = cryptography (ui (configSide e)); c = cryptState (ui (configSide e)) in
      Option.bind (openDatabase a c (clientDir (ui (configSide e))) (databaseFile e)) (\<lambda>rs.
      map_option (\<lambda>set. s\<lparr>cliSettings := set\<lparr>useGermanValue := useGermanValue set \<or> loadGermanTranslation s,
          noSaveValue := noSaveValue set \<or> noSaveOption s\<rparr>,
        cliLibrary := cleanupConfigs (configSide e) (cliLibrary s)\<rparr>)
        (loadOrRefresh a c ((cliSettings s)\<lparr>settingRows := rs\<rparr>))))"

definition startClient :: "startEnv \<Rightarrow> startup \<Rightarrow> startup \<times> cliEnd" where
  "startClient e s =
     (case setSharedKey s of
        (isRunning, s1) \<Rightarrow>
          if \<not> isPortable (ui (configSide e)) \<and> isRunning then (sendMessage ''Someone is out there'' s1, Exit)
          else
            (case startPortable e s1 of
               (s2, Proceed) \<Rightarrow>
                 (case checkKey e s2 of
                    None \<Rightarrow> (s2, Exit)
                  | Some s3 \<Rightarrow> (case loadAll e s3 of None \<Rightarrow> (s3, Uncaught) | Some s4 \<Rightarrow> (s4, Proceed)))
             | r \<Rightarrow> r))"

text \<open>The arguments are those behind the path of the program.\<close>

definition winMain :: "startEnv \<Rightarrow> string \<Rightarrow> startup \<Rightarrow> startup \<times> cliEnd" where
  "winMain e cmdLine s =
     (let argv = commandLineToArgv cmdLine;
          s1 = (if isUserAdmin e \<or> isPortable (ui (configSide e)) then onSettings (isManaged_update (\<lambda>_. True)) s else s) in
      case handleCli e (tl argv) s1 of
        (s2, Proceed) \<Rightarrow>
          if \<not> cmdFound s2 then (say (''Unknown command'' @ nl @ ''Exiting...'' @ nl) s2, Exit)
          else startClient e (if length argv = 1 then printHelp s2 else s2)
      | r \<Rightarrow> r)"

text \<open>When the timer of \<open>startDaemonDelay\<close> fires.\<close>

definition delayedStart :: "startEnv \<Rightarrow> startup \<Rightarrow> (bool \<times> client) option" where
  "delayedStart e s = startDaemon (ui (configSide e)) (clientName s) (daemonSide e) (app (cliLibrary s))"

section \<open>Ending the session of Windows\<close>

definition shutdownWarning :: string where
  "shutdownWarning = ''You are still connected to a vpn network!'' @ nl @ ''Please disconnect before you close your windows session.'' @ nl @
     ''By forcing the quit from windows malfunctions can occurred!''"

definition nativeEventFilter :: "bool \<Rightarrow> startup \<Rightarrow> bool \<times> startup" where
  "nativeEventFilter queryEndSession s =
     (if queryEndSession \<and> switches (cliSettings s) BlockShutdown \<and>
         list_ex (\<lambda>x. cdState (snd x) = Connected) (objs (app (cliLibrary s)))
      then (True, s\<lparr>cliLibrary := onApp (cause (MessageBox shutdownWarning)) (cliLibrary s)\<rparr>)
      else (False, s))"

section \<open>An unknown argument ends the start\<close>

lemma cliFlag_fields:
  assumes "cliFlag a s = Some s'"
  shows "cmdFound s' = cmdFound s"
  using assms by (auto simp: cliFlag_def onSettings_def split: if_splits)

definition optionNames :: "string list" where
  "optionNames = [''-german'', ''-silent'', ''-debug'', ''-manage'', ''-noSave'', ''-vpnlog'', ''-delayDaemon'', ''-user'',
     ''-pwd'', ''-disconnect'', ''-status'', ''-log'', ''-error'', ''-stop'', ''-clients'', ''-help'', ''-version'']"

lemma options_are_no_numbers: "list_all (\<lambda>a. toIntOk a = None) optionNames"
  by code_simp

lemma number_is_no_option: "toIntOk a \<noteq> None \<Longrightarrow> a \<notin> set optionNames"
  using options_are_no_numbers by (auto simp: list_all_iff)

lemma no_option:
  assumes "a \<notin> set optionNames"
  shows "cliFlag a s = None" and "cliQuery e a rest s = None" and "a \<noteq> ''-delayDaemon''" and "a \<noteq> ''-user''" and "a \<noteq> ''-pwd''"
proof -
  have ne: "a \<noteq> x" if "x \<in> set optionNames" for x using that assms by blast
  note names = ne [of "''-german''"] ne [of "''-silent''"] ne [of "''-debug''"] ne [of "''-manage''"] ne [of "''-noSave''"]
    ne [of "''-vpnlog''"] ne [of "''-disconnect''"] ne [of "''-status''"] ne [of "''-log''"] ne [of "''-error''"]
    ne [of "''-stop''"] ne [of "''-clients''"] ne [of "''-help''"] ne [of "''-version''"]
  show "cliFlag a s = None" unfolding cliFlag_def using names(1-6) by (simp add: optionNames_def)
  show "cliQuery e a rest s = None" unfolding cliQuery_def using names(7-14) by (simp add: optionNames_def)
  show "a \<noteq> ''-delayDaemon''" "a \<noteq> ''-user''" "a \<noteq> ''-pwd''"
    using ne [of "''-delayDaemon''"] ne [of "''-user''"] ne [of "''-pwd''"] by (simp_all add: optionNames_def)
qed

lemma ask_ends: "snd (ask e c p s) \<noteq> Proceed"
  by (simp add: ask_def slotRead_def printFormat_def split: option.split prod.split)

lemma disconnect_ends: "snd (cliDisconnect e c i s) \<noteq> Proceed"
  by (simp add: cliDisconnect_def Let_def split: option.split)

lemma cliQuery_ends: "cliQuery e a rest s = Some r \<Longrightarrow> snd r \<noteq> Proceed"
  using ask_ends disconnect_ends by (auto simp: cliQuery_def cliStatus_def Let_def split: if_splits)

text \<open>A step of the loop that does not end the program.\<close>

lemma handleCli_step:
  assumes "handleCli e (a # rest) s = (s', Proceed)"
  obtains x l where "handleCli e l x = (s', Proceed)" and "l = rest \<or> (l = tl rest \<and> rest \<noteq> [])" and "cmdFound x \<longrightarrow> cmdFound s"
proof (cases "cliFlag a s")
  case (Some s1)
  with assms show ?thesis using cliFlag_fields [OF Some] by (intro that [of rest s1]) (simp_all add: handleCli.simps(2))
next
  case None
  note step = assms [unfolded handleCli.simps(2) None option.case]
  consider "a = ''-delayDaemon'' \<and> rest \<noteq> []" | "\<not> (a = ''-delayDaemon'' \<and> rest \<noteq> [])" "a = ''-user'' \<and> rest \<noteq> []"
    | "\<not> (a = ''-delayDaemon'' \<and> rest \<noteq> [])" "\<not> (a = ''-user'' \<and> rest \<noteq> [])" "a = ''-pwd'' \<and> rest \<noteq> []"
    | "\<not> (a = ''-delayDaemon'' \<and> rest \<noteq> [])" "\<not> (a = ''-user'' \<and> rest \<noteq> [])" "\<not> (a = ''-pwd'' \<and> rest \<noteq> [])" by blast
  then show ?thesis
  proof cases
    case 1
    with step show ?thesis by (intro that [of rest "s\<lparr>startDaemonDelay := toInt (hd rest)\<rparr>"]) simp_all
  next
    case 2
    note step [unfolded if_not_P [OF 2(1)] if_P [OF 2(2)]]
    with 2 show ?thesis by (intro that [of "tl rest" "onSettings (startUserValue_update (\<lambda>_. hd rest)) s"]) (simp_all add: onSettings_def)
  next
    case 3
    note step [unfolded if_not_P [OF 3(1)] if_not_P [OF 3(2)] if_P [OF 3(3)]]
    with 3 show ?thesis by (intro that [of "tl rest" "onSettings (startPasswordValue_update (\<lambda>_. hd rest)) s"]) (simp_all add: onSettings_def)
  next
    case 4
    note ends = step [unfolded if_not_P [OF 4(1)] if_not_P [OF 4(2)] if_not_P [OF 4(3)]]
    show ?thesis
    proof (cases "cliQuery e a rest s")
      case None
      with ends show ?thesis by (intro that [of rest "s\<lparr>cmdFound := False\<rparr>"]) simp_all
    next
      case (Some r)
      with ends cliQuery_ends [OF Some] show ?thesis by simp
    qed
  qed
qed

lemma unknown_stays:
  assumes "handleCli e l s = (s', Proceed)" and "\<not> cmdFound s"
  shows "\<not> cmdFound s'"
  using assms
proof (induction "length l" arbitrary: l s rule: less_induct)
  case less
  show ?case
  proof (cases l)
    case Nil
    with less.prems show ?thesis by (simp add: handleCli.simps)
  next
    case (Cons a rest)
    from less.prems(1) obtain x l' where x: "handleCli e l' x = (s', Proceed)"
      "l' = rest \<or> (l' = tl rest \<and> rest \<noteq> [])" "cmdFound x \<longrightarrow> cmdFound s"
      unfolding Cons by (rule handleCli_step)
    have "length l' < length l" using x(2) by (auto simp: Cons)
    from less.hyps [OF this x(1)] x(3) less.prems(2) show ?thesis by blast
  qed
qed

lemma number_is_unknown:
  assumes "toIntOk n \<noteq> None" and "handleCli e (n # rest) s = (s', Proceed)"
  shows "\<not> cmdFound s'"
proof -
  note none = no_option [OF number_is_no_option [OF assms(1)]]
  have "handleCli e (n # rest) s = handleCli e rest (s\<lparr>cmdFound := False\<rparr>)"
    unfolding handleCli.simps(2) none(1) using none(2) [of e rest s] none(3-5) by simp
  with assms(2) unknown_stays [of e rest "s\<lparr>cmdFound := False\<rparr>" s'] show ?thesis by simp
qed

lemma delay_is_unknown:
  assumes "toIntOk n \<noteq> None" and "handleCli e (pre @ ''-delayDaemon'' # n # rest) s = (s', Proceed)"
  shows "\<not> cmdFound s'"
  using assms(2)
proof (induction "length pre" arbitrary: pre s rule: less_induct)
  case less
  show ?case
  proof (cases pre)
    case Nil
    have "handleCli e (''-delayDaemon'' # n # rest) s = handleCli e (n # rest) (s\<lparr>startDaemonDelay := toInt n\<rparr>)"
      by (subst handleCli.simps(2)) (simp add: cliFlag_def)
    with less.prems number_is_unknown [OF assms(1)] show ?thesis by (simp add: Nil)
  next
    case (Cons a p)
    let ?l = "p @ ''-delayDaemon'' # n # rest"
    have "handleCli e (a # ?l) s = (s', Proceed)" using less.prems by (simp add: Cons)
    then obtain x l where x: "handleCli e l x = (s', Proceed)" and l: "l = ?l \<or> (l = tl ?l \<and> ?l \<noteq> [])"
      by (rule handleCli_step)
    consider "l = ?l" | "p = []" "l = n # rest" | b q where "p = b # q" "l = q @ ''-delayDaemon'' # n # rest"
      using l by (cases p) auto
    then show ?thesis
    proof cases
      case 1
      show ?thesis by (rule less.hyps [OF _ x [unfolded 1]]) (simp add: Cons)
    next
      case 2
      show ?thesis by (rule number_is_unknown [OF assms(1) x [unfolded 2(2)]])
    next
      case 3
      show ?thesis by (rule less.hyps [OF _ x [unfolded 3(2)]]) (simp add: Cons 3(1))
    qed
  qed
qed

text \<open>C39. A start with \<open>-delayDaemon\<close> and its number never opens the client: the number is read a second time as an option, which is unknown, so the program ends with its message, unless another option ends it before.\<close>

theorem delayed_start_never_opens_the_client:
  assumes "commandLineToArgv t = path # pre @ ''-delayDaemon'' # n # rest" and "toIntOk n \<noteq> None"
  shows "snd (winMain e t s) \<noteq> Proceed"
proof
  assume p: "snd (winMain e t s) = Proceed"
  let ?s = "if isUserAdmin e \<or> isPortable (ui (configSide e)) then onSettings (isManaged_update (\<lambda>_. True)) s else s"
  obtain s1 r where h: "handleCli e (pre @ ''-delayDaemon'' # n # rest) ?s = (s1, r)" by fastforce
  show False
  proof (cases "r = Proceed")
    case True
    then have "\<not> cmdFound s1" using delay_is_unknown [OF assms(2)] h by blast
    with p h True show False by (simp add: winMain_def assms(1) Let_def)
  next
    case False
    with p h show False by (cases r) (simp_all add: winMain_def assms(1) Let_def)
  qed
qed

lemma delayed_start_never_opens_the_client_witness:
  "\<forall>e s. snd (winMain e (''vpn.exe -silent -delayDaemon 5000'') s) \<noteq> Proceed"
proof (intro allI)
  fix e s
  have "commandLineToArgv ''vpn.exe -silent -delayDaemon 5000'' = ''vpn.exe'' # [''-silent''] @ ''-delayDaemon'' # ''5000'' # []"
    by code_simp
  from delayed_start_never_opens_the_client [OF this] show "snd (winMain e ''vpn.exe -silent -delayDaemon 5000'' s) \<noteq> Proceed"
    by (simp add: toIntOk_def trimmed_def isSpace_def parseNat_def digitValue_def code_def inInt32_def)
qed

section \<open>Instances have different names\<close>

lemma natDigits_monotone: "length (natDigits n) \<le> length (natDigits (n + 1))"
proof (induction n rule: natDigits.induct)
  case (1 n)
  show ?case
  proof (cases "n < 10")
    case True
    have "0 < length (natDigits (n + 1))" by simp
    moreover have "length (natDigits n) = 1" using True by (simp add: natDigits.simps [of n])
    ultimately show ?thesis by linarith
  next
    case False
    have l: "length (natDigits m) = Suc (length (natDigits (m div 10)))" if "\<not> m < 10" for m
      using that by (simp add: natDigits.simps [of m])
    have "(n + 1) div 10 = n div 10 \<or> (n + 1) div 10 = n div 10 + 1" by linarith
    then show ?thesis using 1 [OF False] l [of n] l [of "n + 1"] False by auto
  qed
qed

lemma natDigits_short: "n < 10 ^ k \<Longrightarrow> 0 < k \<Longrightarrow> length (natDigits n) \<le> k"
proof (induction n arbitrary: k rule: natDigits.induct)
  case (1 n)
  show ?case
  proof (cases "n < 10")
    case True
    with 1(3) show ?thesis by (simp add: natDigits.simps [of n])
  next
    case False
    with 1(2,3) obtain j where k: "k = Suc j" "0 < j" by (cases k; cases "k - 1") auto
    then have "n div 10 < 10 ^ j" using 1(2) by (simp add: less_mult_imp_div_less mult.commute)
    with 1(1) [OF False] k(2) have "length (natDigits (n div 10)) \<le> j" by blast
    with False k show ?thesis by (simp add: natDigits.simps [of n])
  qed
qed

definition counted :: "nat \<Rightarrow> startup \<Rightarrow> bool" where
  "counted k s \<longleftrightarrow> clientName s = ''SPSSlVpnClient'' @ natDigits k \<and>
     sharedMemory s = Some (natDigits k @ replicate (25 - length (natDigits k)) nul)"

lemma counted_cString: "cString (natDigits k @ replicate j nul) = natDigits k"
proof -
  have "nul \<notin> set (natDigits k)" using natDigits_codes by (fastforce simp: nul_def code_def)
  then show ?thesis by (cases j) (simp_all add: cString_ends, simp add: cString_def takeWhile_eq_all_conv, blast)
qed

lemma counted_step:
  assumes "counted k s" and "k + 1 < 2 ^ 32"
  shows "counted (k + 1) (snd (setSharedKey s)) \<and> fst (setSharedKey s)"
proof -
  let ?m = "natDigits k @ replicate (25 - length (natDigits k)) nul"
  have s: "length (natDigits (k + 1)) \<le> 10" by (rule natDigits_short) (use assms(2) in simp_all)
  have o: "overwrite (natDigits (k + 1)) ?m = natDigits (k + 1) @ replicate (25 - length (natDigits (k + 1))) nul"
    using s natDigits_monotone [of k] by (simp add: overwrite_def)
  have t: "trimmed (natDigits k) = natDigits k" using trimmed_number [of "int k"] by (simp add: number_def)
  have "toUInt (cString ?m) = k" using assms(2) by (simp add: counted_cString toUInt_def t)
  then have i: "qarg ''%1'' (number (int ((toUInt (cString ?m) + 1) mod 2 ^ 32))) = natDigits (k + 1)"
    using assms(2) by (simp add: qarg_1 number_def nat_add_distrib)
  have "setSharedKey s = (True, s\<lparr>clientName := ''SPSSlVpnClient'' @ natDigits (k + 1), sharedMemory := Some (overwrite (natDigits (k + 1)) ?m)\<rparr>)"
    using assms(1) unfolding counted_def by (simp only: setSharedKey_def option.case Let_def i)
  then show ?thesis by (simp add: counted_def o [simplified])
qed

text \<open>The instances that start one after the other, while the first is still running.\<close>

primrec instances :: "nat \<Rightarrow> startup \<Rightarrow> startup" where
  "instances 0 s = snd (setSharedKey s)"
| "instances (Suc k) s = snd (setSharedKey (instances k s))"

lemma instances_counted: "sharedMemory s = None \<Longrightarrow> k + 1 < 2 ^ 32 \<Longrightarrow> counted (k + 1) (instances k s)"
proof (induction k)
  case 0
  have "natDigits (Suc 0) = ''1''" using number_digits(2) by (simp add: number_def)
  with 0 show ?case by (simp add: setSharedKey_def counted_def overwrite_def)
next
  case (Suc k)
  then show ?case using counted_step [of "k + 1" "instances k s"] by simp
qed

text \<open>Clients that start while an earlier one is running get names of their own: the k-th is called after its number, which is counted up in the shared memory, whose 25 bytes are enough for every 32-bit number.\<close>

theorem instances_have_their_own_names:
  assumes "sharedMemory s = None" and "k + 1 < 2 ^ 32"
  shows "clientName (instances k s) = ''SPSSlVpnClient'' @ number (int (k + 1)) \<and>
    map_option length (sharedMemory (instances k s)) = Some 25"
proof -
  have c: "counted (k + 1) (instances k s)" by (rule instances_counted [OF assms])
  have "length (natDigits (k + 1)) \<le> 10" by (rule natDigits_short) (use assms(2) in simp_all)
  with c show ?thesis by (simp add: counted_def number_def nat_add_distrib)
qed

lemma instances_have_their_own_names_witness:
  "\<forall>l. clientName (instances 4 (newStartup None None [] l)) = ''SPSSlVpnClient5''"
  using instances_have_their_own_names [of "newStartup None None [] _" 4] by (simp add: newStartup_def number_digits)

text \<open>The message of an installed client that ends because another runs replaces the number.\<close>

lemma message_resets_the_names:
  assumes "sharedMemory s = None" and "k + 1 < 2 ^ 32"
  shows "clientName (snd (setSharedKey (sendMessage ''Someone is out there'' (instances k s)))) = ''SPSSlVpnClient1''"
proof -
  let ?m = "''1Someone is out there'' @ [nul]"
  obtain m where m: "sharedMemory (instances k s) = Some m" "length m = 25"
    using instances_counted [OF assms] natDigits_short [of "k + 1" 10] assms(2) by (auto simp: counted_def)
  have "overwrite ?m m = ?m @ drop 22 m" using m(2) by (simp add: overwrite_def eval_nat_numeral)
  then have "cString (overwrite ?m m) = ''1Someone is out there''" by (simp add: cString_def nul_def)
  moreover have "toUInt ''1Someone is out there'' = 0" by code_simp
  ultimately have "toUInt (cString (overwrite ?m m)) = 0" by simp
  then show ?thesis using m(1) by (simp add: setSharedKey_def sendMessage_def Let_def qarg_1 number_digits)
qed

section \<open>Options and settings of a start\<close>

datatype cliOption = German | Silent | DebugOutput | Manage | NoSave | ShowLog | LoginUser string | LoginPassword string

primrec optionArguments :: "cliOption \<Rightarrow> string list" where
  "optionArguments German = [''-german'']" | "optionArguments Silent = [''-silent'']"
| "optionArguments DebugOutput = [''-debug'']" | "optionArguments Manage = [''-manage'']"
| "optionArguments NoSave = [''-noSave'']" | "optionArguments ShowLog = [''-vpnlog'']"
| "optionArguments (LoginUser u) = [''-user'', u]" | "optionArguments (LoginPassword p) = [''-pwd'', p]"

primrec applyOption :: "cliOption \<Rightarrow> startup \<Rightarrow> startup" where
  "applyOption German s = s\<lparr>loadGermanTranslation := True\<rparr>" | "applyOption Silent s = s\<lparr>bSilent := True\<rparr>"
| "applyOption DebugOutput s = s\<lparr>bDebug := True\<rparr>" | "applyOption Manage s = onSettings (isManaged_update (\<lambda>_. True)) s"
| "applyOption NoSave s = s\<lparr>globalSaveUserData := False, noSaveOption := True\<rparr>"
| "applyOption ShowLog s = onSettings (showVpnLog_update (\<lambda>_. True)) s"
| "applyOption (LoginUser u) s = onSettings (startUserValue_update (\<lambda>_. u)) s"
| "applyOption (LoginPassword p) s = onSettings (startPasswordValue_update (\<lambda>_. p)) s"

fun lastUser :: "string \<Rightarrow> cliOption list \<Rightarrow> string" where
  "lastUser u [] = u" | "lastUser u (LoginUser v # os) = lastUser v os" | "lastUser u (_ # os) = lastUser u os"

fun lastPassword :: "string \<Rightarrow> cliOption list \<Rightarrow> string" where
  "lastPassword p [] = p" | "lastPassword p (LoginPassword q # os) = lastPassword q os" | "lastPassword p (_ # os) = lastPassword p os"

lemma handleCli_options:
  "handleCli e (concat (map optionArguments opts)) s = (fold applyOption opts s, Proceed)"
proof (induction opts arbitrary: s)
  case (Cons x opts)
  have "handleCli e (optionArguments x @ rest) s = handleCli e rest (applyOption x s)" for rest
    by (cases x) (simp_all add: handleCli.simps(2) cliFlag_def)
  then show ?case using Cons.IH by simp
qed (simp add: handleCli.simps)

text \<open>What the options leave alone, and what they set.\<close>

lemma options_keep:
  "switches (cliSettings (fold applyOption opts s)) = switches (cliSettings s)"
  "settingTexts (cliSettings (fold applyOption opts s)) = settingTexts (cliSettings s)"
  "isOnRefresh (cliSettings (fold applyOption opts s)) = isOnRefresh (cliSettings s)"
  "useGermanValue (cliSettings (fold applyOption opts s)) = useGermanValue (cliSettings s)"
  "noSaveValue (cliSettings (fold applyOption opts s)) = noSaveValue (cliSettings s)"
  "cmdFound (fold applyOption opts s) = cmdFound s" "sharedMemory (fold applyOption opts s) = sharedMemory s"
  "selfKey (fold applyOption opts s) = selfKey s"
proof -
  have one: "switches (cliSettings (applyOption x s)) = switches (cliSettings s) \<and>
    settingTexts (cliSettings (applyOption x s)) = settingTexts (cliSettings s) \<and>
    isOnRefresh (cliSettings (applyOption x s)) = isOnRefresh (cliSettings s) \<and>
    useGermanValue (cliSettings (applyOption x s)) = useGermanValue (cliSettings s) \<and>
    noSaveValue (cliSettings (applyOption x s)) = noSaveValue (cliSettings s) \<and>
    cmdFound (applyOption x s) = cmdFound s \<and> sharedMemory (applyOption x s) = sharedMemory s \<and> selfKey (applyOption x s) = selfKey s"
    for x s by (cases x) (simp_all add: onSettings_def)
  show "switches (cliSettings (fold applyOption opts s)) = switches (cliSettings s)"
    "settingTexts (cliSettings (fold applyOption opts s)) = settingTexts (cliSettings s)"
    "isOnRefresh (cliSettings (fold applyOption opts s)) = isOnRefresh (cliSettings s)"
    "useGermanValue (cliSettings (fold applyOption opts s)) = useGermanValue (cliSettings s)"
    "noSaveValue (cliSettings (fold applyOption opts s)) = noSaveValue (cliSettings s)"
    "cmdFound (fold applyOption opts s) = cmdFound s" "sharedMemory (fold applyOption opts s) = sharedMemory s"
    "selfKey (fold applyOption opts s) = selfKey s"
    by (induction opts arbitrary: s; simp add: one)+
qed

lemma options_set:
  "isManaged (cliSettings (fold applyOption opts s)) \<longleftrightarrow> isManaged (cliSettings s) \<or> Manage \<in> set opts"
  "loadGermanTranslation (fold applyOption opts s) \<longleftrightarrow> loadGermanTranslation s \<or> German \<in> set opts"
  "noSaveOption (fold applyOption opts s) \<longleftrightarrow> noSaveOption s \<or> NoSave \<in> set opts"
  "globalSaveUserData (fold applyOption opts s) \<longleftrightarrow> globalSaveUserData s \<and> NoSave \<notin> set opts"
  "startUserValue (cliSettings (fold applyOption opts s)) = lastUser (startUserValue (cliSettings s)) opts"
  "startPasswordValue (cliSettings (fold applyOption opts s)) = lastPassword (startPasswordValue (cliSettings s)) opts"
proof (induction opts arbitrary: s)
  case (Cons x opts)
  {
    case 1
    show ?case by (cases x) (simp_all add: Cons.IH onSettings_def)
  next
    case 2
    show ?case by (cases x) (simp_all add: Cons.IH onSettings_def)
  next
    case 3
    show ?case by (cases x) (simp_all add: Cons.IH onSettings_def)
  next
    case 4
    show ?case by (cases x) (simp_all add: Cons.IH onSettings_def)
  next
    case 5
    show ?case by (cases x) (simp_all add: Cons.IH onSettings_def)
  next
    case 6
    show ?case by (cases x) (simp_all add: Cons.IH onSettings_def)
  }
qed simp_all

lemma checkKey_new:
  assumes "cipherWorks (cryptography (ui (configSide e))) (cryptState (ui (configSide e)))" and "selfKey s = []"
  shows "\<exists>k. checkKey e s = Some (s\<lparr>selfKey := k\<rparr>)"
  using cipher_round_trip [OF assms(1), of "keyText e"] assms(2) by (auto simp: checkKey_def Let_def)

lemma loadAll_fits:
  assumes "cipherWorks (cryptography (ui (configSide e))) (cryptState (ui (configSide e)))"
    and "tableFits (cryptography (ui (configSide e))) (cryptState (ui (configSide e))) stored" and "databaseFile e = Some (settingRows stored)"
    and "\<not> isOnRefresh (cliSettings s)" and "switches (cliSettings s) = switches defaultSettings"
    and "settingTexts (cliSettings s) = settingTexts defaultSettings"
  shows "\<exists>rs. loadAll e s = Some (s\<lparr>cliSettings := (cliSettings s)\<lparr>settingRows := rs, switches := switches stored, settingTexts := settingTexts stored,
      useGermanValue := useGermanValue (cliSettings s) \<or> loadGermanTranslation s, noSaveValue := noSaveValue (cliSettings s) \<or> noSaveOption s\<rparr>,
    cliLibrary := cleanupConfigs (configSide e) (cliLibrary s)\<rparr>)"
proof -
  let ?a = "cryptography (ui (configSide e))" and ?c = "cryptState (ui (configSide e))"
  obtain rs where rs: "openDatabase ?a ?c (clientDir (ui (configSide e))) (Some (settingRows stored)) = Some rs"
    "tableFits ?a ?c (stored\<lparr>settingRows := rs\<rparr>)" using migrated_fits [OF assms(1,2)] by blast
  have "loadOrRefresh ?a ?c ((cliSettings s)\<lparr>settingRows := rs\<rparr>) = Some ((cliSettings s)\<lparr>settingRows := rs,
      switches := switches (stored\<lparr>settingRows := rs\<rparr>), settingTexts := settingTexts (stored\<lparr>settingRows := rs\<rparr>)\<rparr>)"
    by (rule reload_from [OF rs(2)]) (use assms(4-6) in simp_all)
  then show ?thesis by (intro exI [of _ rs]) (simp add: loadAll_def Let_def assms(3) rs(1))
qed

text \<open>The command line of a program and its options, each in quotes.\<close>

definition commandLineOf :: "string \<Rightarrow> cliOption list \<Rightarrow> string" where
  "commandLineOf path opts = joinWith '' '' (map quoteArgument (path # concat (map optionArguments opts)))"

fun plainOptionText :: "cliOption \<Rightarrow> bool" where
  "plainOptionText (LoginUser u) \<longleftrightarrow> quote \<notin> set u \<and> nul \<notin> set u"
| "plainOptionText (LoginPassword p) \<longleftrightarrow> quote \<notin> set p \<and> nul \<notin> set p"
| "plainOptionText _ \<longleftrightarrow> True"

lemma optionArguments_plain:
  "plainOptionText x \<Longrightarrow> w \<in> set (optionArguments x) \<Longrightarrow> quote \<notin> set w \<and> nul \<notin> set w"
  by (cases x) (auto simp: quote_def nul_def)

lemma commandLineOf_argv:
  assumes "quote \<notin> set path" and "nul \<notin> set path" and "list_all plainOptionText opts"
  shows "commandLineToArgv (commandLineOf path opts) = path # concat (map optionArguments opts)"
  unfolding commandLineOf_def
  by (rule quoted_arguments_are_read_back) (use assms optionArguments_plain in \<open>auto simp: list_all_iff\<close>)


definition firstStart :: startEnv where
  "firstStart = \<lparr>configSide = \<lparr>ui = clientEnv, vpnRows = (\<lambda>_. []), absolutePath = (\<lambda>p. p), relativePath = (\<lambda>p. p), stdSort = (\<lambda>l. l)\<rparr>,
     isUserAdmin = False, managementReachable = True, reply = None, netmanStarts = True, vpnServiceRunning = True,
     random1 = 1, random2 = 2, databaseFile = Some [], daemonSide = lateSocket\<rparr>"


section \<open>Disconnecting from the command line\<close>

lemma trimmed_rest: "x \<in> set s \<Longrightarrow> isSpace x \<or> x \<in> set (trimmed s)"
proof -
  assume "x \<in> set s"
  have w: "y \<in> set t \<Longrightarrow> isSpace y \<or> y \<in> set (dropWhile isSpace t)" for y and t :: string
    by (induction t) auto
  show ?thesis using w [OF \<open>x \<in> set s\<close>] w [of x "rev (dropWhile isSpace s)"] by (auto simp: trimmed_def)
qed

lemma parseDigits_chars: "parseDigits n t = Some m \<Longrightarrow> x \<in> set t \<Longrightarrow> digitValue x \<noteq> None"
  by (induction n t rule: parseDigits.induct) (auto split: option.splits)

definition numberChar :: "char \<Rightarrow> bool" where
  "numberChar x \<longleftrightarrow> isSpace x \<or> x = CHR ''-'' \<or> x = CHR ''+'' \<or> digitValue x \<noteq> None"

lemma toIntOk_chars:
  assumes "toIntOk s = Some i"
  shows "s \<noteq> [] \<and> (\<forall>x \<in> set s. numberChar x)"
proof -
  have t: "numberChar x" if "x \<in> set (trimmed s)" for x
  proof (cases "trimmed s")
    case (Cons a w)
    let ?b = "if a = CHR ''-'' \<or> a = CHR ''+'' then w else a # w"
    have "parseNat ?b \<noteq> None"
      using assms by (auto simp: toIntOk_def Cons Let_def split: if_splits option.splits)
    then have "\<forall>y \<in> set ?b. digitValue y \<noteq> None"
      using parseDigits_chars [of 0 ?b] unfolding parseNat_def by (meson not_Some_eq)
    with that show ?thesis by (auto simp: Cons numberChar_def split: if_splits)
  qed (use that in simp)
  have "s \<noteq> []" using assms by (auto simp: toIntOk_def trimmed_def parseNat_def)
  with t show ?thesis using trimmed_rest [of _ s] by (auto simp: numberChar_def)
qed

lemma numberChar_plain: "numberChar x \<Longrightarrow> x \<noteq> quote \<and> x \<noteq> nul \<and> x \<noteq> CHR '';'' \<and> x \<noteq> CHR ''%''"
  by (auto simp: numberChar_def isSpace_def digitValue_def quote_def nul_def code_def)

lemma number_text_plain:
  assumes "toIntOk s = Some i"
  shows "quote \<notin> set s" and "nul \<notin> set s" and "CHR '';'' \<notin> set s" and "CHR ''%'' \<notin> set s" and "s \<noteq> []"
  using toIntOk_chars [OF assms] numberChar_plain by blast+

definition disconnectLine :: "string \<Rightarrow> string \<Rightarrow> string \<Rightarrow> string" where
  "disconnectLine path c i = joinWith '' '' (map quoteArgument [path, ''-disconnect'', c, i])"

text \<open>The connection is active in the list the program has read.\<close>

definition listedActive :: "startEnv \<Rightarrow> int \<Rightarrow> startup \<Rightarrow> bool" where
  "listedActive e n s \<longleftrightarrow> (case configWithId n (app (refreshConfigs (configSide e) (cliLibrary s))) of
     None \<Rightarrow> False | Some c \<Rightarrow> cdState c = Connected \<or> cdState c = Connecting)"

lemma isConfigInList_iff: "isConfigInList n s \<longleftrightarrow> configWithId n s \<noteq> None"
  by (force simp: isConfigInList_def configWithId_def list_ex_iff find_None_iff)

lemma disconnect_request:
  assumes "quote \<notin> set path" and "nul \<notin> set path" and "toIntOk c = Some m" and "toIntOk i = Some n"
  shows "snd (winMain e (disconnectLine path c i) s) = Exit \<and>
    requests (fst (winMain e (disconnectLine path c i) s)) =
      requests s @ (if managementReachable e \<and> listedActive e n s then [(''Close'', c @ '';'' @ i)] else [])"
proof -
  let ?s = "if isUserAdmin e \<or> isPortable (ui (configSide e)) then onSettings (isManaged_update (\<lambda>_. True)) s else s"
  have argv: "commandLineToArgv (disconnectLine path c i) = [path, ''-disconnect'', c, i]"
    unfolding disconnectLine_def
    by (rule quoted_arguments_are_read_back)
      (use assms(1,2) number_text_plain(1,2) [OF assms(3)] number_text_plain(1,2) [OF assms(4)] in \<open>simp add: quote_def nul_def\<close>)
  have q: "cliQuery e ''-disconnect'' [c, i] ?s = Some (cliDisconnect e c i ?s)"
    by (simp add: cliQuery_def)
  have h: "handleCli e [''-disconnect'', c, i] ?s = cliDisconnect e c i ?s"
    by (subst handleCli.simps(2)) (simp add: cliFlag_def q)
  have f: "requests ?s = requests s" "cliLibrary ?s = cliLibrary s" by (simp_all add: onSettings_def)
  have d: "snd (cliDisconnect e c i ?s) = Exit" "requests (fst (cliDisconnect e c i ?s)) =
      requests s @ (if managementReachable e \<and> listedActive e n s then [(''Close'', c @ '';'' @ i)] else [])"
    using f number_text_plain(4) [OF assms(3)]
    by (auto simp: cliDisconnect_def assms(3,4) Let_def refreshed_def say_def sendCommand_def listedActive_def isConfigInList_iff
      qarg_12 split: option.splits)
  obtain s1 where "cliDisconnect e c i ?s = (s1, Exit)" using d(1) by (cases "cliDisconnect e c i ?s") simp
  with d(2) h show ?thesis by (simp add: winMain_def argv Let_def)
qed

end
