(* ===== verification/Crc.thy ===== *)
theory Crc
  imports Prelude "HOL-Library.Word"
begin

unbundle bit_operations_syntax

text \<open>
  The checksum and the cipher of the archives (\<open>client/src/zip/zip.cpp\<close>, \<open>client/src/zip/unzip.cpp\<close>; both
  files hold the same table and the same loops). \<open>unsigned long\<close> has 32 bits. The reference is the division of
  the text by the polynomial bit by bit.
\<close>

section \<open>The code\<close>

type_synonym ulg = "32 word"

definition crc_table :: "ulg list" where
  "crc_table = [
     0x00000000, 0x77073096, 0xee0e612c, 0x990951ba, 0x076dc419, 0x706af48f, 0xe963a535, 0x9e6495a3,
     0x0edb8832, 0x79dcb8a4, 0xe0d5e91e, 0x97d2d988, 0x09b64c2b, 0x7eb17cbd, 0xe7b82d07, 0x90bf1d91,
     0x1db71064, 0x6ab020f2, 0xf3b97148, 0x84be41de, 0x1adad47d, 0x6ddde4eb, 0xf4d4b551, 0x83d385c7,
     0x136c9856, 0x646ba8c0, 0xfd62f97a, 0x8a65c9ec, 0x14015c4f, 0x63066cd9, 0xfa0f3d63, 0x8d080df5,
     0x3b6e20c8, 0x4c69105e, 0xd56041e4, 0xa2677172, 0x3c03e4d1, 0x4b04d447, 0xd20d85fd, 0xa50ab56b,
     0x35b5a8fa, 0x42b2986c, 0xdbbbc9d6, 0xacbcf940, 0x32d86ce3, 0x45df5c75, 0xdcd60dcf, 0xabd13d59,
     0x26d930ac, 0x51de003a, 0xc8d75180, 0xbfd06116, 0x21b4f4b5, 0x56b3c423, 0xcfba9599, 0xb8bda50f,
     0x2802b89e, 0x5f058808, 0xc60cd9b2, 0xb10be924, 0x2f6f7c87, 0x58684c11, 0xc1611dab, 0xb6662d3d,
     0x76dc4190, 0x01db7106, 0x98d220bc, 0xefd5102a, 0x71b18589, 0x06b6b51f, 0x9fbfe4a5, 0xe8b8d433,
     0x7807c9a2, 0x0f00f934, 0x9609a88e, 0xe10e9818, 0x7f6a0dbb, 0x086d3d2d, 0x91646c97, 0xe6635c01,
     0x6b6b51f4, 0x1c6c6162, 0x856530d8, 0xf262004e, 0x6c0695ed, 0x1b01a57b, 0x8208f4c1, 0xf50fc457,
     0x65b0d9c6, 0x12b7e950, 0x8bbeb8ea, 0xfcb9887c, 0x62dd1ddf, 0x15da2d49, 0x8cd37cf3, 0xfbd44c65,
     0x4db26158, 0x3ab551ce, 0xa3bc0074, 0xd4bb30e2, 0x4adfa541, 0x3dd895d7, 0xa4d1c46d, 0xd3d6f4fb,
     0x4369e96a, 0x346ed9fc, 0xad678846, 0xda60b8d0, 0x44042d73, 0x33031de5, 0xaa0a4c5f, 0xdd0d7cc9,
     0x5005713c, 0x270241aa, 0xbe0b1010, 0xc90c2086, 0x5768b525, 0x206f85b3, 0xb966d409, 0xce61e49f,
     0x5edef90e, 0x29d9c998, 0xb0d09822, 0xc7d7a8b4, 0x59b33d17, 0x2eb40d81, 0xb7bd5c3b, 0xc0ba6cad,
     0xedb88320, 0x9abfb3b6, 0x03b6e20c, 0x74b1d29a, 0xead54739, 0x9dd277af, 0x04db2615, 0x73dc1683,
     0xe3630b12, 0x94643b84, 0x0d6d6a3e, 0x7a6a5aa8, 0xe40ecf0b, 0x9309ff9d, 0x0a00ae27, 0x7d079eb1,
     0xf00f9344, 0x8708a3d2, 0x1e01f268, 0x6906c2fe, 0xf762575d, 0x806567cb, 0x196c3671, 0x6e6b06e7,
     0xfed41b76, 0x89d32be0, 0x10da7a5a, 0x67dd4acc, 0xf9b9df6f, 0x8ebeeff9, 0x17b7be43, 0x60b08ed5,
     0xd6d6a3e8, 0xa1d1937e, 0x38d8c2c4, 0x4fdff252, 0xd1bb67f1, 0xa6bc5767, 0x3fb506dd, 0x48b2364b,
     0xd80d2bda, 0xaf0a1b4c, 0x36034af6, 0x41047a60, 0xdf60efc3, 0xa867df55, 0x316e8eef, 0x4669be79,
     0xcb61b38c, 0xbc66831a, 0x256fd2a0, 0x5268e236, 0xcc0c7795, 0xbb0b4703, 0x220216b9, 0x5505262f,
     0xc5ba3bbe, 0xb2bd0b28, 0x2bb45a92, 0x5cb36a04, 0xc2d7ffa7, 0xb5d0cf31, 0x2cd99e8b, 0x5bdeae1d,
     0x9b64c2b0, 0xec63f226, 0x756aa39c, 0x026d930a, 0x9c0906a9, 0xeb0e363f, 0x72076785, 0x05005713,
     0x95bf4a82, 0xe2b87a14, 0x7bb12bae, 0x0cb61b38, 0x92d28e9b, 0xe5d5be0d, 0x7cdcefb7, 0x0bdbdf21,
     0x86d3d2d4, 0xf1d4e242, 0x68ddb3f8, 0x1fda836e, 0x81be16cd, 0xf6b9265b, 0x6fb077e1, 0x18b74777,
     0x88085ae6, 0xff0f6a70, 0x66063bca, 0x11010b5c, 0x8f659eff, 0xf862ae69, 0x616bffd3, 0x166ccf45,
     0xa00ae278, 0xd70dd2ee, 0x4e048354, 0x3903b3c2, 0xa7672661, 0xd06016f7, 0x4969474d, 0x3e6e77db,
     0xaed16a4a, 0xd9d65adc, 0x40df0b66, 0x37d83bf0, 0xa9bcae53, 0xdebb9ec5, 0x47b2cf7f, 0x30b5ffe9,
     0xbdbdf21c, 0xcabac28a, 0x53b39330, 0x24b4a3a6, 0xbad03605, 0xcdd70693, 0x54de5729, 0x23d967bf,
     0xb3667a2e, 0xc4614ab8, 0x5d681b02, 0x2a6f2b94, 0xb40bbe37, 0xc30c8ea1, 0x5a05df1b, 0x2d02ef8d]"

definition byteOf :: "char \<Rightarrow> ulg" where
  "byteOf ch = word_of_nat (code ch)"

text \<open>\<open>CRC32(c, b)\<close>.\<close>

definition crcStep :: "ulg \<Rightarrow> ulg \<Rightarrow> ulg" where
  "crcStep c b = crc_table ! unat ((c XOR b) AND 0xff) XOR drop_bit 8 c"

definition crcDo8 :: "string \<Rightarrow> ulg \<Rightarrow> ulg" where
  "crcDo8 buf c = crcStep (crcStep (crcStep (crcStep (crcStep (crcStep (crcStep (crcStep c
     (byteOf (buf ! 0))) (byteOf (buf ! 1))) (byteOf (buf ! 2))) (byteOf (buf ! 3)))
     (byteOf (buf ! 4))) (byteOf (buf ! 5))) (byteOf (buf ! 6))) (byteOf (buf ! 7))"

function crcLoop :: "string \<Rightarrow> ulg \<Rightarrow> ulg" where
  "crcLoop buf c =
     (if 8 \<le> length buf then crcLoop (drop 8 buf) (crcDo8 buf c) else fold (\<lambda>ch c. crcStep c (byteOf ch)) buf c)"
  by pat_completeness auto
termination by (relation "measure (\<lambda>(buf, c). length buf)") auto

declare crcLoop.simps [simp del]

definition crc32 :: "ulg \<Rightarrow> string \<Rightarrow> ulg" where
  "crc32 crc buf = crcLoop buf (crc XOR 0xffffffff) XOR 0xffffffff"

section \<open>The cipher of an entry\<close>

type_synonym zipKeys = "ulg \<times> ulg \<times> ulg"

definition initialKeys :: zipKeys where
  "initialKeys = (305419896, 591751049, 878082192)"

definition update_keys :: "char \<Rightarrow> zipKeys \<Rightarrow> zipKeys" where
  "update_keys ch k =
     (case k of (k0, k1, k2) \<Rightarrow>
        (let k0' = crcStep k0 (byteOf ch); k1' = (k1 + (k0' AND 0xff)) * 134775813 + 1 in
         (k0', k1', crcStep k2 (drop_bit 24 k1'))))"

definition decrypt_byte :: "zipKeys \<Rightarrow> ulg" where
  "decrypt_byte k =
     (case k of (k0, k1, k2) \<Rightarrow>
        (let temp = (k2 AND 0xffff) OR 2 in drop_bit 8 (temp * (temp XOR 1)) AND 0xff))"

definition xorChar :: "char \<Rightarrow> ulg \<Rightarrow> char" where
  "xorChar ch t = char_of (unat ((byteOf ch XOR t) AND 0xff))"

definition zencode :: "zipKeys \<Rightarrow> char \<Rightarrow> zipKeys \<times> char" where
  "zencode k ch = (update_keys ch k, xorChar ch (decrypt_byte k))"

definition zdecode :: "zipKeys \<Rightarrow> char \<Rightarrow> zipKeys \<times> char" where
  "zdecode k ch = (let ch' = xorChar ch (decrypt_byte k) in (update_keys ch' k, ch'))"

definition passwordKeys :: "string \<Rightarrow> zipKeys" where
  "passwordKeys password = fold update_keys password initialKeys"

primrec encodeAll :: "zipKeys \<Rightarrow> string \<Rightarrow> string" where
  "encodeAll k [] = []"
| "encodeAll k (ch # s) = (case zencode k ch of (k', x) \<Rightarrow> x # encodeAll k' s)"

primrec decodeAll :: "zipKeys \<Rightarrow> string \<Rightarrow> string" where
  "decodeAll k [] = []"
| "decodeAll k (ch # s) = (case zdecode k ch of (k', x) \<Rightarrow> x # decodeAll k' s)"

section \<open>The reference\<close>

definition shiftBit :: "ulg \<Rightarrow> ulg" where
  "shiftBit x = (if bit x 0 then drop_bit 1 x XOR 0xedb88320 else drop_bit 1 x)"

definition divideByte :: "ulg \<Rightarrow> ulg \<Rightarrow> ulg" where
  "divideByte c b = (shiftBit ^^ 8) (c XOR b)"

definition remainder32 :: "ulg \<Rightarrow> string \<Rightarrow> ulg" where
  "remainder32 crc buf = fold (\<lambda>ch c. divideByte c (byteOf ch)) buf (crc XOR 0xffffffff) XOR 0xffffffff"

lemma shiftBit_xor: "shiftBit (x XOR y) = shiftBit x XOR shiftBit y"
  by (auto simp: shiftBit_def bit_xor_iff ac_simps)

lemma shiftBits_xor: "(shiftBit ^^ n) (x XOR y) = (shiftBit ^^ n) x XOR (shiftBit ^^ n) y"
  by (induction n) (simp_all add: shiftBit_xor)

lemma shiftBits_high: "(\<And>i. i < n \<Longrightarrow> \<not> bit x i) \<Longrightarrow> (shiftBit ^^ n) x = drop_bit n x"
proof (induction n)
  case (Suc n)
  then have "(shiftBit ^^ n) x = drop_bit n x" by simp
  moreover have "\<not> bit (drop_bit n x) 0" using Suc.prems [of n] by (simp add: bit_drop_bit_eq)
  moreover have "drop_bit 1 (drop_bit n x) = drop_bit (Suc n) x" by simp
  ultimately show ?case by (simp only: funpow.simps comp_apply shiftBit_def [of "drop_bit n x"] if_False)
qed simp

definition tableEntries :: "nat \<Rightarrow> ulg list" where
  "tableEntries k = map (\<lambda>n. (shiftBit ^^ 8) (word_of_nat n)) [0..<2 ^ k]"

text \<open>The entries are linear in their number, so each doubling of the table is one more power of two.\<close>

lemma word_doubling:
  assumes "m < 2 ^ k" "k < 8"
  shows "word_of_nat (2 ^ k + m) = (2 ^ k :: ulg) XOR word_of_nat m"
proof -
  have "(2 ^ k :: ulg) AND word_of_nat m = 0"
    using assms take_bit_nat_eq_self [of m k] bit_take_bit_iff [of k m k]
    by (intro bit_eqI) (auto simp: bit_simps)
  then show ?thesis by (simp add: disjunctive_add_eq_xor)
qed

lemma tableEntries_Suc:
  assumes "k < 8"
  shows "tableEntries (Suc k) = tableEntries k @ map (\<lambda>x. (shiftBit ^^ 8) (2 ^ k) XOR x) (tableEntries k)"
proof -
  have "[0..<2 ^ Suc k] = [0..<2 ^ k] @ map (\<lambda>m. 2 ^ k + m) [0..<2 ^ k]"
    using upt_add_eq_append [of 0 "2 ^ k" "2 ^ k"] map_add_upt [of "2 ^ k" "2 ^ k"]
    by (simp add: mult_2 add.commute)
  then show ?thesis
    using assms by (auto simp add: tableEntries_def word_doubling shiftBits_xor simp del: upt.simps of_nat_add)
qed

lemma table_powers: 
  "(shiftBit ^^ 8) 1 = crc_table ! 1" "(shiftBit ^^ 8) 2 = crc_table ! 2" "(shiftBit ^^ 8) 4 = crc_table ! 4"
 "(shiftBit ^^ 8) 8 = crc_table ! 8" "(shiftBit ^^ 8) 16 = crc_table ! 16" "(shiftBit ^^ 8) 32 = crc_table ! 32"
 "(shiftBit ^^ 8) 64 = crc_table ! 64" "(shiftBit ^^ 8) 128 = crc_table ! 128" 
  by code_simp+

fun doubled :: "ulg list \<Rightarrow> ulg list \<Rightarrow> ulg list" where
 "doubled t [] = t"
| "doubled t (e # es) = doubled (t @ map (\<lambda>x. e XOR x) t) es"

lemma doubled_table: "doubled [0] [0x77073096, 0xee0e612c, 0x076dc419,0x0edb8832,0x1db71064,0x3b6e20c8,0x76dc4190,0xedb88320] = crc_table"
  by (simp add: crc_table_def)

lemma table_entries: "crc_table = tableEntries 8"
proof -
  have "tableEntries 0 = [0]" by (simp add: tableEntries_def shiftBits_high)
  then have "tableEntries 8 = doubled [0] (map (\<lambda>k. (shiftBit ^^ 8) (2 ^ k)) [0..<8])"
    by (simp add: numeral_eq_Suc tableEntries_Suc upt_rec del: funpow.simps)
  also have "\<dots> = doubled [0] [crc_table ! 1, crc_table ! 2, crc_table ! 4, crc_table ! 8, crc_table ! 16,
      crc_table ! 32, crc_table ! 64, crc_table ! 128]"
    by (simp add: upt_rec table_powers del: funpow.simps)
  also have "\<dots> = crc_table" by (simp add: crc_table_def)
  finally show ?thesis by simp
qed

lemma table_nth: "n < 256 \<Longrightarrow> crc_table ! n = (shiftBit ^^ 8) (word_of_nat n)"
  by (subst table_entries) (simp add: tableEntries_def del: funpow.simps)

lemma mask8: "x AND 0xff = take_bit 8 (x :: ulg)"
proof -
  have "(0xff :: ulg) = mask 8" by (simp add: mask_eq_exp_minus_1)
  then show ?thesis by (simp add: take_bit_eq_mask)
qed

lemma unat_mask8: "unat (x AND 0xff :: ulg) < 256"
proof -
  have "unat (x AND 0xff) \<le> unat (0xff :: ulg)" by (rule iffD1 [OF word_le_nat_alt word_and_le1])
  then show ?thesis by simp
qed

lemma split8: "x = take_bit 8 x XOR (x AND NOT (mask 8))" for x :: ulg
  by (rule bit_eqI) (auto simp: bit_simps)

lemma drop_high8: "drop_bit 8 (x AND NOT (mask 8)) = drop_bit 8 x" for x :: ulg
  by (rule bit_eqI) (auto simp: bit_drop_bit_eq bit_and_iff bit_not_iff bit_mask_iff dest: bit_imp_le_length)

text \<open>One look-up in the table is a division by eight single shifts.\<close>

lemma shift8: "(shiftBit ^^ 8) x = crc_table ! unat (x AND 0xff) XOR drop_bit 8 x"
proof -
  have "(shiftBit ^^ 8) x = (shiftBit ^^ 8) (take_bit 8 x) XOR (shiftBit ^^ 8) (x AND NOT (mask 8))"
    by (subst split8 [of x]) (rule shiftBits_xor)
  also have "(shiftBit ^^ 8) (x AND NOT (mask 8)) = drop_bit 8 x"
    by (subst shiftBits_high) (auto simp: bit_and_iff bit_not_iff bit_mask_iff drop_high8 simp del: drop_bit_and funpow.simps)
  also have "(shiftBit ^^ 8) (take_bit 8 x) = crc_table ! unat (x AND 0xff)"
    by (simp add: table_nth unat_mask8) (simp add: mask8)
  finally show ?thesis .
qed

lemma code_bound: "code ch < 256"
  by (simp add: code_def)

lemma unat_byteOf: "unat (byteOf ch) = code ch"
proof -
  have "code ch < 2 ^ 32" by (rule less_trans [OF code_bound]) simp
  then show ?thesis by (simp add: byteOf_def unsigned_of_nat take_bit_nat_eq_self)
qed

lemma byteOf_drop8: "drop_bit 8 (byteOf ch) = 0"
  using code_bound [of ch] by (simp add: drop_bit_eq_div word_arith_nat_div unat_byteOf)

lemma crcStep_divideByte: "crcStep c (byteOf ch) = divideByte c (byteOf ch)"
  by (simp add: crcStep_def divideByte_def shift8 byteOf_drop8)

lemma do8_fold:
  assumes "8 \<le> length buf"
  shows "crcDo8 buf c = fold (\<lambda>ch c. crcStep c (byteOf ch)) (take 8 buf) c"
proof -
  have "take 8 buf = map (\<lambda>i. buf ! i) [0..<8]"
    using assms by (intro nth_equalityI) auto
  then show ?thesis by (simp add: crcDo8_def upt_rec numeral_eq_Suc)
qed

lemma crcLoop_fold: "crcLoop buf c = fold (\<lambda>ch c. crcStep c (byteOf ch)) buf c"
proof (induction buf c rule: crcLoop.induct)
  case (1 buf c)
  show ?case
  proof (cases "8 \<le> length buf")
    case True
    then have "crcLoop buf c = fold (\<lambda>ch c. crcStep c (byteOf ch)) (take 8 buf @ drop 8 buf) c"
      using 1 by (simp only: crcLoop.simps [of buf c] fold_append comp_def do8_fold if_True)
    then show ?thesis by simp
  next
    case False
    then show ?thesis by (simp add: crcLoop.simps [of buf c])
  qed
qed

section \<open>Facts on the checksum\<close>

lemma xor_left_inj: "a XOR c = b XOR c \<Longrightarrow> a = b" for a :: ulg
  by (metis xor.assoc xor_self_eq xor.right_neutral)

lemma shiftBit_inj: "shiftBit x = shiftBit y \<Longrightarrow> x = y"
proof -
  assume e: "shiftBit x = shiftBit y"
  have top: "bit (shiftBit z) 31 \<longleftrightarrow> bit z 0" for z
    by (auto simp: shiftBit_def bit_simps dest: bit_imp_le_length)
  from e top have z: "bit x 0 = bit y 0" by metis
  with e have d: "drop_bit 1 x = drop_bit 1 y"
    by (auto simp: shiftBit_def simp del: One_nat_def split: if_splits dest: xor_left_inj)
  show "x = y"
  proof (rule bit_eqI)
    fix n show "bit x n = bit y n"
    proof (cases n)
      case 0 with z show ?thesis by simp
    next
      case (Suc m)
      from d have "bit (drop_bit 1 x) m = bit (drop_bit 1 y) m" by simp
      with Suc show ?thesis by (simp add: bit_drop_bit_eq)
    qed
  qed
qed

lemma shiftBits_inj: "(shiftBit ^^ n) x = (shiftBit ^^ n) y \<Longrightarrow> x = y"
  by (induction n) (auto dest: shiftBit_inj)

lemma byteOf_inj: "byteOf a = byteOf b \<Longrightarrow> a = b"
  by (metis unat_byteOf code_def char_of_char)

lemma xor_right_inj: "c XOR a = c XOR b \<Longrightarrow> a = b" for a :: ulg
  by (metis xor.commute xor_left_inj)

lemma divideByte_inj: "divideByte c b = divideByte c' b \<Longrightarrow> c = c'"
  by (auto simp: divideByte_def dest: shiftBits_inj xor_left_inj)

lemma fold_divide_inj:
  "fold (\<lambda>ch c. divideByte c (byteOf ch)) s c = fold (\<lambda>ch c. divideByte c (byteOf ch)) s c' \<Longrightarrow> c = c'"
  by (induction s arbitrary: c c') (auto dest: divideByte_inj)

lemma xorChar_twice: "xorChar (xorChar ch t) t = ch"
proof -
  have b: "code ch < 256" by (simp add: code_def)
  have m: "byteOf (char_of (unat (x AND 0xff))) = x AND 0xff" for x
  proof -
    have "code (char_of (unat (x AND 0xff))) = unat (x AND 0xff)"
      using unat_mask8 [of x] by (simp add: code_def)
    then show ?thesis by (simp add: byteOf_def)
  qed
  have i: "byteOf ch AND 0xff = byteOf ch"
    using b by (simp add: mask8 word_unat_eq_iff unsigned_take_bit_eq unat_byteOf take_bit_nat_eq_self)
  have "((byteOf ch XOR t) AND 0xff XOR t) AND 0xff = byteOf ch AND 0xff"
    by (rule bit_eqI) (auto simp: bit_simps)
  then have "xorChar (xorChar ch t) t = char_of (unat (byteOf ch AND 0xff))"
    by (simp add: xorChar_def m)
  also have "\<dots> = ch" unfolding i by (simp add: unat_byteOf code_def)
  finally show ?thesis .
qed

section \<open>Properties\<close>

text \<open>
  C26. The checksum the archive code computes with its table of 256 entries, eight bytes at a time, is the
  remainder of the division bit by bit, for every text and every start value.
\<close>

theorem checksum_is_the_remainder: "crc32 crc buf = remainder32 crc buf"
  by (simp add: crc32_def remainder32_def crcLoop_fold crcStep_divideByte)

text \<open>
  A text in which one byte is replaced by another one has another checksum, wherever the byte stands.
\<close>

theorem changed_byte_changes_checksum:
  assumes "a \<noteq> b"
  shows "crc32 crc (s @ a # t) \<noteq> crc32 crc (s @ b # t)"
  using assms
  by (auto simp: crc32_def crcLoop_fold crcStep_divideByte divideByte_def
      dest!: xor_left_inj fold_divide_inj [unfolded divideByte_def] shiftBits_inj xor_right_inj byteOf_inj)

theorem changed_byte_changes_checksum_witness: "crc32 0 ''cert'' \<noteq> crc32 0 ''celt''"
  using changed_byte_changes_checksum [of "CHR ''r''" "CHR ''l''" 0 "''ce''" "''t''"] by simp

text \<open>
  What the cipher of an entry encodes with a password comes back when it is decoded with the same password.
\<close>

theorem decoded_entry_is_the_entry: "decodeAll k (encodeAll k s) = s"
proof (induction s arbitrary: k)
  case (Cons ch s)
  then show ?case by (simp add: zencode_def zdecode_def Let_def xorChar_twice)
qed simp

end
