(* ===== verification/ZipWrite.thy ===== *)
theory ZipWrite
  imports Crc
begin

text \<open>
  Writing an archive (\<open>client/src/zip/zip.cpp\<close>) the way \<open>CZip::archive\<close> (\<open>client/src/zip/czip.cpp\<close>) does it: an
  archive that is created by its file name, without a password, filled with the files of a directory. The file that is
  written is a position and the bytes so far; all writes succeed. Numbers are \<open>nat\<close> and are cut to their width where
  they are written. The compressor \<open>deflate\<close> and the type it finds (\<open>binary\<close> or \<open>ascii\<close>) are parameters.
\<close>

section \<open>Numbers in the file\<close>

text \<open>\<open>PUTSH\<close> and \<open>PUTLG\<close>: least significant byte first.\<close>

definition byteChar :: "nat \<Rightarrow> char" where
  "byteChar n = char_of (n mod 256)"

definition putsh :: "nat \<Rightarrow> string" where
  "putsh a = [byteChar a, byteChar (a div 256)]"

definition putlg :: "nat \<Rightarrow> string" where
  "putlg a = putsh (a mod 65536) @ putsh (a div 65536)"

section \<open>The records of the archive\<close>

record zlist =
  zvem :: nat
  zver :: nat
  zflg :: nat
  zhow :: nat
  ztim :: nat
  zcrc :: nat
  zsiz :: nat
  zlen :: nat
  znam :: nat
  zext :: nat
  zcext :: nat
  zcom :: nat
  zdsk :: nat
  zatt :: nat
  zlflg :: nat
  zatx :: nat
  zoff :: nat
  zextra :: string
  zcextra :: string
  zcomment :: string
  ziname :: string

definition putlocal :: "zlist \<Rightarrow> string" where
  "putlocal z =
     putlg 0x04034b50 @ putsh (zver z) @ putsh (zlflg z) @ putsh (zhow z) @ putlg (ztim z) @ putlg (zcrc z) @
     putlg (zsiz z) @ putlg (zlen z) @ putsh (znam z) @ putsh (zext z) @ take (znam z) (ziname z) @
     (if zext z \<noteq> 0 then take (zext z) (zextra z) else [])"

definition putcentral :: "zlist \<Rightarrow> string" where
  "putcentral z =
     putlg 0x02014b50 @ putsh (zvem z) @ putsh (zver z) @ putsh (zflg z) @ putsh (zhow z) @ putlg (ztim z) @
     putlg (zcrc z) @ putlg (zsiz z) @ putlg (zlen z) @ putsh (znam z) @ putsh (zcext z) @ putsh (zcom z) @
     putsh (zdsk z) @ putsh (zatt z) @ putlg (zatx z) @ putlg (zoff z) @ take (znam z) (ziname z) @
     (if zcext z \<noteq> 0 then take (zcext z) (zcextra z) else []) @
     (if zcom z \<noteq> 0 then take (zcom z) (zcomment z) else [])"

definition putend :: "nat \<Rightarrow> nat \<Rightarrow> nat \<Rightarrow> string \<Rightarrow> string" where
  "putend n s c comment =
     putlg 0x06054b50 @ putsh 0 @ putsh 0 @ putsh n @ putsh n @ putlg s @ putlg c @ putsh (length comment) @ comment"

section \<open>The files that are added\<close>

text \<open>
  What the system tells of an open file: its bytes, its attributes, its three times as \<open>FILETIME\<close> and the last write
  time in parts (\<open>FileTimeToSystemTime\<close>).
\<close>

record sysTime =
  wYear :: nat
  wMonth :: nat
  wDay :: nat
  wHour :: nat
  wMinute :: nat
  wSecond :: nat

record inFile =
  fileBytes :: string
  fileAttributes :: nat
  lastAccess :: int
  lastWrite :: int
  creation :: int
  lastWriteParts :: sysTime

text \<open>Truncating division, then the low 32 bits where the value is stored.\<close>

definition filetime2timet :: "int \<Rightarrow> nat" where
  "filetime2timet ft =
     (let i = ft - 116444736000000000 in
      nat ((if 0 \<le> i then i div 10000000 else - ((- i) div 10000000)) mod 2 ^ 32))"

text \<open>\<open>(dosdate << 16) | dostime\<close>; the seconds are doubled before they are cut to five bits.\<close>

definition filetime2dosdatetime :: "sysTime \<Rightarrow> nat \<times> nat" where
  "filetime2dosdatetime st =
     (nat ((int (wYear st) - 1980) mod 128) * 512 + (wMonth st mod 16) * 32 + wDay st mod 32,
      (wHour st mod 32) * 2048 + (wMinute st mod 64) * 32 + (wSecond st * 2) mod 32)"

text \<open>A number at a position of a file, as \<open>ReadFile\<close> puts it into a variable.\<close>

definition numberAt :: "string \<Rightarrow> nat \<Rightarrow> nat \<Rightarrow> nat" where
  "numberAt s p n = foldr (\<lambda>ch x. code ch + 256 * x) (take n (drop p s)) 0"

text \<open>
  The mark of an executable: a header that points to a signature in the file. (A pointer so large that the sum of the
  code wraps around is taken to point outside.)
\<close>

definition executableMark :: "string \<Rightarrow> bool" where
  "executableMark s \<longleftrightarrow>
     40 < length s \<and> numberAt s 0 2 = 0x54AD \<and> numberAt s 36 4 + 4 + 20 + 28 < length s \<and>
     numberAt s (numberAt s 36 4) 4 \<in> {0x5A4D, 0x454E, 0x454C, 0x00004550}"

definition zipAttributes :: "inFile \<Rightarrow> nat" where
  "zipAttributes f =
     (let fa = fileAttributes f in
      (if bit fa 0 then 0x01 else 0) + (if bit fa 1 then 0x02 else 0) + (if bit fa 2 then 0x04 else 0) +
      (if bit fa 4 then 0x10 else 0) + (if bit fa 5 then 0x20 else 0) +
      (if bit fa 4 then 0x40000000 else 0x80000000) + 0x01000000 + (if bit fa 0 then 0 else 0x00800000) +
      (if executableMark (fileBytes f) then 0x00400000 else 0))"

definition fileTimestamp :: "inFile \<Rightarrow> nat" where
  "fileTimestamp f = (case filetime2dosdatetime (lastWriteParts f) of (dosdate, dostime) \<Rightarrow> dostime + dosdate * 65536)"

text \<open>The name after the last dot decides; a name without a dot has no suffix.\<close>

definition HasZipSuffix :: "string \<Rightarrow> bool" where
  "HasZipSuffix fn =
     (case find_last CHR ''.'' fn of None \<Rightarrow> False
      | Some i \<Rightarrow> toLower (drop i fn) \<in> {''.z'', ''.zip'', ''.zoo'', ''.arc'', ''.lzh'', ''.arj'', ''.gz'', ''.tgz''})"

section \<open>The archive being written\<close>

record tzip =
  zOut :: string
  zPos :: nat
  writ :: nat
  zfis :: "zlist list"
  hasputcen :: bool

definition emptyZip :: tzip where
  "emptyZip = \<lparr>zOut = [], zPos = 0, writ = 0, zfis = [], hasputcen = False\<rparr>"

definition zwrite :: "string \<Rightarrow> tzip \<Rightarrow> tzip" where
  "zwrite s z =
     z\<lparr>zOut := take (zPos z) (zOut z) @ s @ drop (zPos z + length s) (zOut z), zPos := zPos z + length s\<rparr>"

definition oseek :: "nat \<Rightarrow> tzip \<Rightarrow> tzip" where
  "oseek p z = z\<lparr>zPos := p\<rparr>"

text \<open>\<open>istore\<close>: the file in pieces of 16384 bytes; with the checksum \<open>read\<close> keeps and the size.\<close>

function istoreLoop :: "string \<Rightarrow> tzip \<Rightarrow> ulg \<Rightarrow> nat \<Rightarrow> tzip \<times> ulg \<times> nat" where
  "istoreLoop rest z crc n =
     (if rest = [] then (z, crc, n)
      else (let piece = take 16384 rest in
            istoreLoop (drop 16384 rest) (zwrite piece z) (crc32 crc piece) (n + length piece)))"
  by pat_completeness auto
termination by (relation "measure (\<lambda>(rest, z, crc, n). length rest)") auto

declare istoreLoop.simps [simp del]

text \<open>\<open>ideflate\<close>: the compressor reads the whole file through the same \<open>read\<close>; level 8 sets the flag \<open>SLOW\<close>.\<close>

definition ideflate :: "(string \<Rightarrow> string) \<Rightarrow> string \<Rightarrow> tzip \<Rightarrow> tzip \<times> ulg \<times> nat" where
  "ideflate deflate bytes z = (let out = deflate bytes in (zwrite out z, crc32 0 bytes, length out))"

text \<open>The extra fields \<open>UT\<close>: three times in the local header, the first of them in the directory.\<close>

definition utLocal :: "inFile \<Rightarrow> string" where
  "utLocal f = ''UT'' @ [byteChar 13, byteChar 0, byteChar 7] @ putlg (filetime2timet (lastWrite f)) @
     putlg (filetime2timet (lastAccess f)) @ putlg (filetime2timet (creation f))"

definition utCentral :: "inFile \<Rightarrow> string" where
  "utCentral f = (take 9 (utLocal f))[2 := byteChar 5]"

datatype zresult = ZR_OK | ZR_NOFILE | ZR_ARGS | ZR_ENDED | ZR_CORRUPT | ZR_READ | ZR_FLATE

definition firstHeader :: "string \<Rightarrow> inFile \<Rightarrow> nat \<Rightarrow> tzip \<Rightarrow> zlist" where
  "firstHeader name f how z =
     \<lparr>zvem = 0xB17, zver = 20, zflg = 8, zhow = how, ztim = fileTimestamp f, zcrc = 0,
      zsiz = (if how = 0 then length (fileBytes f) else 0), zlen = length (fileBytes f), znam = length name,
      zext = 17, zcext = 9, zcom = 0, zdsk = 0, zatt = 0, zlflg = 8, zatx = zipAttributes f, zoff = writ z,
      zextra = utLocal f, zcextra = utCentral f, zcomment = [], ziname = name\<rparr>"

text \<open>
  \<open>TZip::Add\<close> for a file that is given by its name: \<open>src\<close> is None when it cannot be opened. The header is written
  twice: in front of the data, and again over the first one when sizes and checksum are known.
\<close>

definition zipAdd ::
  "(string \<Rightarrow> string) \<Rightarrow> (string \<Rightarrow> nat) \<Rightarrow> string \<Rightarrow> inFile option \<Rightarrow> tzip \<Rightarrow> tzip \<times> zresult" where
  "zipAdd deflate fileType odstzn src z =
     (if hasputcen z then (z, ZR_ENDED)
      else if odstzn = [] then (z, ZR_ARGS)
      else
        (let name = map (\<lambda>ch. if ch = CHR 0x5C then CHR ''/'' else ch) odstzn;
             how = (if HasZipSuffix name then 0 else 8)
         in case src of None \<Rightarrow> (z, ZR_NOFILE)
            | Some f \<Rightarrow>
                (let zfi = firstHeader name f how z;
                     z = zwrite (putlocal zfi) z;
                     z = z\<lparr>writ := writ z + 4 + 26 + znam zfi + zext zfi\<rparr>;
                     (z, crc, csize) = (if how = 8 then ideflate deflate (fileBytes f) z
                                        else istoreLoop (fileBytes f) z 0 0);
                     z = z\<lparr>writ := writ z + csize\<rparr>;
                     flg = (if how = 8 then 2 else 0);
                     zfi = zfi\<lparr>zcrc := unat crc, zsiz := csize, zlen := length (fileBytes f), zflg := flg,
                       zlflg := flg, zatt := (if how = 8 then fileType (fileBytes f) else 0)\<rparr>;
                     z = oseek (writ z) (zwrite (putlocal zfi) (oseek (zoff zfi) z))
                 in (z\<lparr>zfis := zfis z @ [zfi]\<rparr>, ZR_OK))))"

text \<open>\<open>TZip::AddCentral\<close> and \<open>TZip::Close\<close>.\<close>

primrec putCentrals :: "zlist list \<Rightarrow> tzip \<Rightarrow> tzip" where
  "putCentrals [] z = z"
| "putCentrals (zfi # rest) z =
     (let z = zwrite (putcentral zfi) z in
      putCentrals rest (z\<lparr>writ := writ z + 4 + 42 + znam zfi + zcext zfi + zcom zfi\<rparr>))"

definition AddCentral :: "tzip \<Rightarrow> tzip" where
  "AddCentral z =
     (let start = writ z; z' = putCentrals (zfis z) (z\<lparr>zfis := []\<rparr>);
          z' = zwrite (putend (length (zfis z)) (writ z' - start) start []) z' in
      z'\<lparr>writ := writ z' + 4 + 18\<rparr>)"

definition closeZip :: "tzip \<Rightarrow> tzip" where
  "closeZip z = (if hasputcen z then z else AddCentral z)\<lparr>hasputcen := True\<rparr>"

section \<open>The directory that is exported\<close>

text \<open>
  \<open>QDir::entryInfoList\<close> lists files and directories together. A file that cannot be opened has no \<open>inFile\<close>.
\<close>

datatype exportEntry = PlainFile string "inFile option" | SubDirectory string "exportEntry list"

text \<open>
  \<open>RecurseDirectory\<close>: the first directory other than \<open>.\<close> and \<open>..\<close> ends the walk with the result of its own
  content, so what stands after it is not added.
\<close>

function recurseDirectory ::
  "(string \<Rightarrow> string) \<Rightarrow> (string \<Rightarrow> nat) \<Rightarrow> exportEntry list \<Rightarrow> tzip \<Rightarrow> tzip \<times> bool" where
  "recurseDirectory deflate fileType [] z = (z, True)"
| "recurseDirectory deflate fileType (SubDirectory name content # rest) z =
     (if name \<noteq> ''..'' \<and> name \<noteq> ''.'' then recurseDirectory deflate fileType content z
      else recurseDirectory deflate fileType rest z)"
| "recurseDirectory deflate fileType (PlainFile name src # rest) z =
     (case zipAdd deflate fileType name src z of
        (z', r) \<Rightarrow> if r \<noteq> ZR_OK then (z', False) else recurseDirectory deflate fileType rest z')"
  by pat_completeness auto
termination by (relation "measure (\<lambda>(d, t, es, z). size_list size es)") auto

text \<open>
  \<open>CZip::archive\<close>: the file that is left on the disk and the result. Without a file to write to
  (\<open>CreateZip\<close> gives 0) every \<open>ZipAdd\<close> fails, and only a directory without files is a success.
\<close>

function anyFile :: "exportEntry list \<Rightarrow> bool" where
  "anyFile [] = False"
| "anyFile (SubDirectory name content # rest) =
     (if name \<noteq> ''..'' \<and> name \<noteq> ''.'' then anyFile content else anyFile rest)"
| "anyFile (PlainFile name src # rest) = True"
  by pat_completeness auto
termination by (relation "measure (size_list size)") auto

definition archive ::
  "(string \<Rightarrow> string) \<Rightarrow> (string \<Rightarrow> nat) \<Rightarrow> bool \<Rightarrow> exportEntry list \<Rightarrow> string option \<times> bool" where
  "archive deflate fileType canCreate dir =
     (if \<not> canCreate then (None, \<not> anyFile dir)
      else (case recurseDirectory deflate fileType dir emptyZip of (z, ok) \<Rightarrow> (Some (zOut (closeZip z)), ok)))"

end
