(* ===== verification/ZipRead.thy ===== *)
theory ZipRead
  imports ZipWrite
begin

text \<open>
  Reading an archive (\<open>client/src/zip/unzip.cpp\<close>) the way \<open>CZip::extract\<close> (\<open>client/src/zip/czip.cpp\<close>) does it: by
  file name, without a password, item after item below a directory. A run of the code returns, or uses memory nothing
  was stored in (a variable without a value, a byte outside its buffer: \<open>Unspecified\<close>), or has not ended within the
  steps it was given (\<open>Running\<close>). \<open>uLong\<close> has 32 bits, a seek takes a signed offset, files are shorter than 2 GB.
  \<open>UNZ_EOF\<close> and \<open>UNZ_OK\<close> are both 0, so a number that is read at the end of the file is no error. The
  decompressor \<open>inflate\<close> with its state is a parameter.
\<close>

section \<open>Runs\<close>

datatype 'a zrun = Returns 'a | Unspecified | Running

definition run_bind :: "'a zrun \<Rightarrow> ('a \<Rightarrow> 'b zrun) \<Rightarrow> 'b zrun" where
  "run_bind m k = (case m of Returns x \<Rightarrow> k x | Unspecified \<Rightarrow> Unspecified | Running \<Rightarrow> Running)"

lemma run_bind_simps [simp]:
  "run_bind (Returns x) k = k x" "run_bind Unspecified k = Unspecified" "run_bind Running k = Running"
  by (simp_all add: run_bind_def)

datatype unzCode = UNZ_OK | UNZ_ERRNO | UNZ_BADZIPFILE | UNZ_PARAMERROR | UNZ_PASSWORD | UNZ_FLATE

section \<open>Reading numbers\<close>

definition w32 :: "nat \<Rightarrow> nat" where
  "w32 n = n mod 2 ^ 32"

text \<open>\<open>lufseek(\<dots>, SEEK_SET)\<close>: a negative offset fails and leaves the position, which nothing notices.\<close>

definition seekTo :: "nat \<Rightarrow> nat \<Rightarrow> nat" where
  "seekTo p off = (if w32 off < 2 ^ 31 then w32 off else p)"

text \<open>At the end of the file the variable keeps its value.\<close>

definition getByte :: "string \<Rightarrow> nat \<Rightarrow> nat \<Rightarrow> nat \<times> nat" where
  "getByte f p i = (if p < length f then (code (f ! p), Suc p) else (i, p))"

definition getShort :: "string \<Rightarrow> nat \<Rightarrow> (nat \<times> nat) zrun" where
  "getShort f p =
     (if length f \<le> p then Unspecified
      else (case getByte f p 0 of (a, p) \<Rightarrow> case getByte f p a of (b, p) \<Rightarrow> Returns (a + 256 * b, p)))"

definition getLong :: "string \<Rightarrow> nat \<Rightarrow> (nat \<times> nat) zrun" where
  "getLong f p =
     (if length f \<le> p then Unspecified
      else (case getByte f p 0 of (a, p) \<Rightarrow> case getByte f p a of (b, p) \<Rightarrow> case getByte f p b of (c, p) \<Rightarrow>
            case getByte f p c of (d, p) \<Rightarrow> Returns (a + 256 * b + 65536 * c + 16777216 * d, p)))"

text \<open>The fields of a header, each two or four bytes wide.\<close>

primrec getFields :: "string \<Rightarrow> nat list \<Rightarrow> nat \<Rightarrow> (nat list \<times> nat) zrun" where
  "getFields f [] p = Returns ([], p)"
| "getFields f (w # ws) p =
     run_bind (if w = 2 then getShort f p else getLong f p)
       (\<lambda>(x, p). run_bind (getFields f ws p) (\<lambda>(xs, p). Returns (x # xs, p)))"

section \<open>Opening an archive\<close>

definition isSignature :: "string \<Rightarrow> bool" where
  "isSignature s \<longleftrightarrow> map code s = [0x50, 0x4b, 0x05, 0x06]"

text \<open>
  \<open>unzlocal_SearchCentralDir\<close>: one block of at most 1028 bytes at the end of the file is searched from its end; the
  last look is at the byte in front of the buffer, \<open>before\<close>. None stands for \<open>0xFFFFFFFF\<close>. (The loop leaves after
  its first block, because a position that is not found is not 0 either.)
\<close>

definition searchCentralDir :: "char \<Rightarrow> string \<Rightarrow> nat option" where
  "searchCentralDir before f =
     (let n = length f; maxBack = min 0xffff n in
      if 4 < maxBack then
        (let backRead = (if maxBack < 4 + 0x400 then maxBack else 4 + 0x400);
             readPos = n - backRead;
             readSize = min 0x404 (n - readPos);
             buf = before # take readSize (drop readPos f)
         in case find (\<lambda>j. isSignature (take 4 (drop j buf))) (rev [0..<length buf - 3]) of
              None \<Rightarrow> None
            | Some j \<Rightarrow> if readPos + j = 0 then None else Some (readPos + j - 1))
      else None)"

record fileInfo =
  fiVersion :: nat
  fiFlag :: nat
  fiMethod :: nat
  fiDosDate :: nat
  fiCrc :: nat
  fiCompressed :: nat
  fiUncompressed :: nat
  fiNameSize :: nat
  fiExtraSize :: nat
  fiCommentSize :: nat
  fiExternal :: nat
  fiOffset :: nat

text \<open>A time of an entry: the one of its header, in the local zone, or the one of its extra field.\<close>

datatype ztime = DosTime nat nat | UnixTime nat

record zipEntry =
  zeName :: string
  zeAttr :: nat
  zeMtime :: ztime
  zeAtime :: ztime
  zeCtime :: ztime
  zeComp :: nat
  zeUnc :: nat

text \<open>The open archive; a \<open>curInfo\<close> that was never stored is None.\<close>

record unz =
  uFile :: string
  filePos :: nat
  numberEntry :: nat
  byteBefore :: nat
  offsetCentral :: nat
  posInCentral :: nat
  numFile :: nat
  currentOk :: bool
  curInfo :: "fileInfo option"
  cached :: "(nat \<times> zipEntry) option"

definition infoOf :: "nat list \<Rightarrow> fileInfo" where
  "infoOf xs =
     \<lparr>fiVersion = xs ! 1, fiFlag = xs ! 3, fiMethod = xs ! 4, fiDosDate = xs ! 5, fiCrc = xs ! 6,
      fiCompressed = xs ! 7, fiUncompressed = xs ! 8, fiNameSize = xs ! 9, fiExtraSize = xs ! 10,
      fiCommentSize = xs ! 11, fiExternal = xs ! 14, fiOffset = xs ! 15\<rparr>"

text \<open>\<open>unzlocal_GetCurrentFileInfoInternal\<close> up to the name.\<close>

definition currentHeader :: "unz \<Rightarrow> (unzCode \<times> fileInfo \<times> nat) zrun" where
  "currentHeader u =
     run_bind (getFields (uFile u) [4, 2, 2, 2, 2, 4, 4, 4, 4, 2, 2, 2, 2, 2, 4, 4]
         (seekTo (filePos u) (posInCentral u + byteBefore u)))
       (\<lambda>(xs, p). Returns (if xs ! 0 \<noteq> 0x02014b50 then UNZ_BADZIPFILE else UNZ_OK, infoOf xs, p))"

definition goToCurrent :: "unz \<Rightarrow> unz zrun" where
  "goToCurrent u =
     run_bind (currentHeader u)
       (\<lambda>(err, info, p). Returns
          (u\<lparr>filePos := p, currentOk := (err = UNZ_OK),
             curInfo := (if err = UNZ_OK then Some info else curInfo u)\<rparr>))"

definition unzGoToFirstFile :: "unz \<Rightarrow> unz zrun" where
  "unzGoToFirstFile u = goToCurrent (u\<lparr>posInCentral := offsetCentral u, numFile := 0\<rparr>)"

definition unzGoToNextFile :: "unz \<Rightarrow> unz zrun" where
  "unzGoToNextFile u =
     (if \<not> currentOk u \<or> numFile u + 1 = numberEntry u then Returns u
      else (case curInfo u of
          None \<Rightarrow> Unspecified
        | Some i \<Rightarrow> goToCurrent
            (u\<lparr>posInCentral := w32 (posInCentral u + 0x2e + fiNameSize i + fiExtraSize i + fiCommentSize i),
               numFile := numFile u + 1\<rparr>)))"

text \<open>\<open>unzOpenInternal\<close>; None is the null pointer.\<close>

definition unzOpen :: "char \<Rightarrow> string \<Rightarrow> unz option zrun" where
  "unzOpen before f =
     (case searchCentralDir before f of
        None \<Rightarrow> Returns None
      | Some central \<Rightarrow>
          run_bind (getFields f [4, 2, 2, 2, 2, 4, 4, 2] central)
            (\<lambda>(xs, p).
               if xs ! 4 \<noteq> xs ! 3 \<or> xs ! 2 \<noteq> 0 \<or> xs ! 1 \<noteq> 0 \<or> central < w32 (xs ! 6 + xs ! 5) then Returns None
               else run_bind (unzGoToFirstFile
                   \<lparr>uFile = f, filePos = p, numberEntry = xs ! 3, byteBefore = central - w32 (xs ! 6 + xs ! 5),
                    offsetCentral = xs ! 6, posInCentral = 0, numFile = 0, currentOk = False, curInfo = None,
                    cached = None\<rparr>)
                 (\<lambda>u. Returns (Some u))))"

section \<open>The description of an entry\<close>

text \<open>
  \<open>unzGetCurrentFileInfo\<close> with a buffer of 260 bytes for the name. None: it failed, and its result is not looked at.
\<close>

definition currentInfoName :: "unz \<Rightarrow> ((fileInfo \<times> string) option \<times> nat) zrun" where
  "currentInfoName u =
     run_bind (currentHeader u)
       (\<lambda>(err, info, p).
          if err \<noteq> UNZ_OK then Returns (None, p)
          else (let k = min (fiNameSize info) 260; name = take k (drop p (uFile u)) in
                Returns (if length name < k then None else Some (info, name), p + length name)))"

text \<open>\<open>unzlocal_CheckCurrentFileCoherencyHeader\<close>: the result, the size of name and extra field, where the latter is.\<close>

definition checkCoherency :: "unz \<Rightarrow> (bool \<times> nat \<times> nat \<times> nat \<times> nat) zrun" where
  "checkCoherency u =
     (case curInfo u of None \<Rightarrow> Unspecified
      | Some i \<Rightarrow>
          run_bind (getFields (uFile u) [4, 2, 2, 2, 4, 4, 4, 4, 2, 2] (seekTo (filePos u) (fiOffset i + byteBefore u)))
            (\<lambda>(xs, p). Returns
               (xs ! 0 = 0x04034b50 \<and> xs ! 3 = fiMethod i \<and> (fiMethod i = 0 \<or> fiMethod i = 8) \<and>
                (xs ! 5 = fiCrc i \<or> bit (xs ! 2) 3) \<and> (xs ! 6 = fiCompressed i \<or> bit (xs ! 2) 3) \<and>
                (xs ! 7 = fiUncompressed i \<or> bit (xs ! 2) 3) \<and> xs ! 8 = fiNameSize i,
                xs ! 8 + xs ! 9, w32 (fiOffset i + 0x1e + xs ! 8), xs ! 9, p)))"

text \<open>The name without what could lead out of the directory: the loop over \<open>sfn\<close>.\<close>

definition isSlash :: "char \<Rightarrow> bool" where
  "isSlash ch \<longleftrightarrow> ch = CHR 0x5C \<or> ch = CHR ''/''"

definition afterFirst :: "string \<Rightarrow> string \<Rightarrow> string option" where
  "afterFirst pat s = map_option (\<lambda>i. drop (i + length pat) s) (find_sub pat s)"

function chopName :: "string \<Rightarrow> string" where
  "chopName s =
     (if 2 \<le> length s \<and> s ! 1 = CHR '':'' then chopName (drop 2 s)
      else if s \<noteq> [] \<and> isSlash (hd s) then chopName (tl s)
      else case afterFirst [CHR 0x5C, CHR ''.'', CHR ''.'', CHR 0x5C] s of Some t \<Rightarrow> chopName t
      | None \<Rightarrow> (case afterFirst [CHR 0x5C, CHR ''.'', CHR ''.'', CHR ''/''] s of Some t \<Rightarrow> chopName t
      | None \<Rightarrow> (case afterFirst ''/../'' s of Some t \<Rightarrow> chopName t
      | None \<Rightarrow> (case afterFirst [CHR ''/'', CHR ''.'', CHR ''.'', CHR 0x5C] s of Some t \<Rightarrow> chopName t
      | None \<Rightarrow> s))))"
  by pat_completeness auto

lemma find_sub_bound: "find_sub p s = Some i \<Longrightarrow> i + length p \<le> length s"
  by (induction p s arbitrary: i rule: find_sub.induct) (auto split: if_splits dest: prefix_length_le)

lemma afterFirst_shorter: "afterFirst p s = Some t \<Longrightarrow> p \<noteq> [] \<Longrightarrow> length t < length s"
  by (cases p) (auto simp: afterFirst_def dest!: find_sub_bound)

termination chopName
  by (relation "measure length") (auto dest: afterFirst_shorter)

declare chopName.simps [simp del]

text \<open>The attributes: those of the system in the lower half, for the hosts that have them.\<close>

definition entryAttr :: "fileInfo \<Rightarrow> nat" where
  "entryAttr i =
     (let a = fiExternal i; host = fiVersion i div 256;
          own = (host = 0 \<or> host = 7 \<or> host = 11 \<or> host = 14);
          isdir = (if own then bit a 4 else bit a 30);
          readonly = (if own then bit a 0 else \<not> bit a 23);
          hidden = (own \<and> bit a 1); system = (own \<and> bit a 2); archived = (own \<longrightarrow> bit a 5)
      in (if isdir then 0x10 else 0) + (if archived then 0x20 else 0) + (if hidden then 2 else 0) +
         (if readonly then 1 else 0) + (if system then 4 else 0))"

text \<open>
  The extra field \<open>UT\<close>. A field that is not \<open>UT\<close> is skipped by its size, of which only the low byte is taken; how
  much of the buffer is left is asked for the head of a field only.
\<close>

function findUT :: "string \<Rightarrow> nat \<Rightarrow> nat option" where
  "findUT extra epos =
     (if epos + 4 < length extra then
        (if extra ! epos = CHR ''U'' \<and> extra ! (epos + 1) = CHR ''T'' then Some epos
         else findUT extra (epos + (4 + code (extra ! (epos + 2)))))
      else None)"
  by pat_completeness auto
termination by (relation "measure (\<lambda>(extra, epos). length extra - epos)") auto

declare findUT.simps [simp del]

definition timeAt :: "string \<Rightarrow> nat \<Rightarrow> nat zrun" where
  "timeAt extra e = (if e + 4 \<le> length extra then Returns (numberAt extra e 4) else Unspecified)"

definition takeTime :: "bool \<Rightarrow> string \<Rightarrow> nat \<Rightarrow> ztime \<Rightarrow> (ztime \<times> nat) zrun" where
  "takeTime present extra e old =
     (if present then run_bind (timeAt extra e) (\<lambda>t. Returns (UnixTime t, e + 4)) else Returns (old, e))"

definition entryTimes :: "string \<Rightarrow> ztime \<Rightarrow> (ztime \<times> ztime \<times> ztime) zrun" where
  "entryTimes extra dos =
     (case findUT extra 0 of
        None \<Rightarrow> Returns (dos, dos, dos)
      | Some epos \<Rightarrow>
          (let flags = code (extra ! (epos + 4)) in
           run_bind (takeTime (bit flags 0) extra (epos + 5) dos) (\<lambda>(m, e).
           run_bind (takeTime (bit flags 1) extra e dos) (\<lambda>(a, e).
           run_bind (takeTime (bit flags 2) extra e dos) (\<lambda>(c, e). Returns (m, a, c))))))"

text \<open>\<open>timet2filetime\<close>: the 32 bits are taken as a signed number of seconds.\<close>

definition timet2filetime :: "nat \<Rightarrow> int" where
  "timet2filetime t = (if t < 2 ^ 31 then int t else int t - 2 ^ 32) * 10000000 + 116444736000000000"

section \<open>Going to an entry and describing it\<close>

text \<open>\<open>while (num_file < index) unzGoToNextFile\<close>.\<close>

fun moveTo :: "nat \<Rightarrow> unz \<Rightarrow> nat \<Rightarrow> unz zrun" where
  "moveTo 0 u index = Running"
| "moveTo (Suc fuel) u index =
     (if numFile u < index then run_bind (unzGoToNextFile u) (\<lambda>u. moveTo fuel u index) else Returns u)"

definition goToIndex :: "nat \<Rightarrow> unz \<Rightarrow> nat \<Rightarrow> unz zrun" where
  "goToIndex fuel u index =
     run_bind (if index < numFile u then unzGoToFirstFile u else Returns u) (\<lambda>u. moveTo fuel u index)"

definition describe :: "fileInfo \<Rightarrow> string \<Rightarrow> string \<Rightarrow> zipEntry zrun" where
  "describe info fn extra =
     (if CHR 0x00 \<notin> set fn \<and> 260 \<le> length fn then Unspecified
      else run_bind (entryTimes extra (DosTime (fiDosDate info div 65536) (fiDosDate info mod 65536)))
        (\<lambda>(m, a, c). Returns
           \<lparr>zeName = chopName (takeWhile (\<lambda>ch. ch \<noteq> CHR 0x00) fn), zeAttr = entryAttr info, zeMtime = m,
            zeAtime = a, zeCtime = c, zeComp = fiCompressed info, zeUnc = fiUncompressed info\<rparr>))"

text \<open>\<open>TUnzip::Get\<close>. The result of \<open>unzGetCurrentFileInfo\<close> is not looked at; what it did not store is used.\<close>

definition zipGetEntry :: "nat \<Rightarrow> unz \<Rightarrow> nat \<Rightarrow> (unz \<times> zresult \<times> zipEntry option) zrun" where
  "zipGetEntry fuel u index =
     run_bind (goToIndex fuel u index) (\<lambda>u.
     run_bind (currentInfoName u) (\<lambda>(ufi, p).
     run_bind (checkCoherency (u\<lparr>filePos := p\<rparr>)) (\<lambda>(ok, sizeVar, offset, extralen, p).
       if \<not> ok then Returns (u\<lparr>filePos := p\<rparr>, ZR_CORRUPT, None)
       else
         (let p = seekTo p offset; extra = take extralen (drop p (uFile u)); u = u\<lparr>filePos := p + length extra\<rparr> in
          if length extra < extralen then Returns (u, ZR_READ, None)
          else (case ufi of
              None \<Rightarrow> Unspecified
            | Some (info, fn) \<Rightarrow>
                run_bind (describe info fn extra)
                  (\<lambda>ze. Returns (u\<lparr>cached := Some (index, ze)\<rparr>, ZR_OK, Some ze)))))))"

definition zipGet :: "nat \<Rightarrow> unz \<Rightarrow> nat \<Rightarrow> (unz \<times> zresult \<times> zipEntry option) zrun" where
  "zipGet fuel u index =
     (if numberEntry u \<le> index then Returns (u, ZR_ARGS, None)
      else (case cached u of
          Some (i, ze) \<Rightarrow> if i = index then Returns (u, ZR_OK, Some ze) else zipGetEntry fuel u index
        | None \<Rightarrow> zipGetEntry fuel u index))"

section \<open>The data of an entry\<close>

datatype zcode = Z_OK | Z_STREAM_END | Z_ERROR

text \<open>
  One call of \<open>inflate\<close>: the state, what is there to read and how much may be written give the new state, what is
  left to read, what was written and the result.
\<close>

type_synonym 'z inflater = "'z \<Rightarrow> string \<Rightarrow> nat \<Rightarrow> 'z \<times> string \<times> string \<times> zcode"

record 'z pfile =
  pfStream :: 'z
  pfAvail :: string
  pfRestC :: nat
  pfRestU :: nat
  pfPos :: nat
  pfCrc :: ulg
  pfCrcWait :: nat
  pfMethod :: nat
  pfEncrypted :: bool
  pfKeys :: zipKeys
  pfEncLeft :: nat
  pfTest :: nat

text \<open>\<open>unzOpenCurrentFile\<close> without a password: None when it fails.\<close>

definition unzOpenCurrentFile :: "'z \<Rightarrow> unz \<Rightarrow> (unz \<times> 'z pfile option) zrun" where
  "unzOpenCurrentFile init u =
     (if \<not> currentOk u then Returns (u, None)
      else run_bind (checkCoherency u) (\<lambda>(ok, sizeVar, offset, extralen, p).
        (case curInfo u of
           None \<Rightarrow> Unspecified
         | Some i \<Rightarrow> Returns (u\<lparr>filePos := p\<rparr>,
             if \<not> ok then None
             else Some
               \<lparr>pfStream = init, pfAvail = [], pfRestC = fiCompressed i, pfRestU = fiUncompressed i,
                pfPos = w32 (fiOffset i + 0x1e + sizeVar), pfCrc = 0, pfCrcWait = fiCrc i, pfMethod = fiMethod i,
                pfEncrypted = bit (fiFlag i) 0, pfKeys = initialKeys,
                pfEncLeft = (if bit (fiFlag i) 0 then 12 else 0),
                pfTest = (if bit (fiFlag i) 3 then fiDosDate i div 256 mod 256 else fiCrc i div 16777216 mod 256)\<rparr>))))"

primrec zdecodeAll :: "zipKeys \<Rightarrow> string \<Rightarrow> zipKeys \<times> string" where
  "zdecodeAll k [] = (k, [])"
| "zdecodeAll k (ch # s) =
     (case zdecode k ch of (k, x) \<Rightarrow> case zdecodeAll k s of (k, xs) \<Rightarrow> (k, x # xs))"

definition minus32 :: "nat \<Rightarrow> nat \<Rightarrow> nat" where
  "minus32 a b = nat ((int a - int b) mod 2 ^ 32)"

text \<open>The next block of the file, at most 16384 bytes; None when it is not all there.\<close>

definition fillBuffer :: "unz \<Rightarrow> 'z pfile \<Rightarrow> unz \<times> 'z pfile option" where
  "fillBuffer u pf =
     (if pfAvail pf = [] \<and> 0 < pfRestC pf then
        (let m = min 16384 (pfRestC pf); p = seekTo (filePos u) (pfPos pf + byteBefore u);
             piece = take m (drop p (uFile u)); u = u\<lparr>filePos := p + length piece\<rparr>
         in if length piece < m then (u, None)
            else (case (if pfEncrypted pf then zdecodeAll (pfKeys pf) piece else (pfKeys pf, piece)) of
              (keys, piece) \<Rightarrow> (u, Some (pf\<lparr>pfAvail := piece, pfKeys := keys, pfPos := w32 (pfPos pf + m),
                pfRestC := pfRestC pf - m\<rparr>))))
      else (u, Some pf))"

text \<open>The head of an encrypted entry; None for a wrong password.\<close>

definition skipEncHead :: "'z pfile \<Rightarrow> 'z pfile option" where
  "skipEncHead pf =
     (let k = min (pfEncLeft pf) (length (pfAvail pf)) in
      if k = 0 then Some pf
      else if pfEncLeft pf = k \<and> code (pfAvail pf ! (k - 1)) \<noteq> pfTest pf then None
      else Some (pf\<lparr>pfRestU := minus32 (pfRestU pf) k, pfAvail := drop k (pfAvail pf), pfEncLeft := pfEncLeft pf - k\<rparr>))"

text \<open>
  The loop of \<open>unzReadCurrentFile\<close>: how much may still be written, what was written, whether the end was seen. The
  result is an error or the bytes, with the end mark.
\<close>

definition copyStored :: "'z pfile \<Rightarrow> nat \<Rightarrow> 'z pfile \<times> string" where
  "copyStored pf availOut =
     (let k = min availOut (length (pfAvail pf)); piece = take k (pfAvail pf) in
      (pf\<lparr>pfCrc := crc32 (pfCrc pf) piece, pfRestU := minus32 (pfRestU pf) k, pfAvail := drop k (pfAvail pf)\<rparr>, piece))"

fun readLoop ::
  "'z inflater \<Rightarrow> nat \<Rightarrow> unz \<Rightarrow> 'z pfile \<Rightarrow> nat \<Rightarrow> string \<Rightarrow> bool \<Rightarrow>
   (unz \<times> 'z pfile \<times> (unzCode + string) \<times> bool) zrun" where
  "readLoop inflate 0 u pf availOut out eof = Running"
| "readLoop inflate (Suc fuel) u pf availOut out eof =
     (if availOut = 0 then Returns (u, pf, Inr out, eof)
      else (case fillBuffer u pf of
          (u, None) \<Rightarrow> Returns (u, pf, Inl UNZ_ERRNO, eof)
        | (u, Some pf) \<Rightarrow>
            (case skipEncHead pf of
               None \<Rightarrow> Returns (u, pf, Inl UNZ_PASSWORD, eof)
             | Some pf \<Rightarrow>
                 (if pfMethod pf = 0 then
                    (case copyStored pf availOut of (pf, piece) \<Rightarrow>
                       readLoop inflate fuel u pf (availOut - length piece) (out @ piece) (eof \<or> pfRestU pf = 0))
                  else
                    (case inflate (pfStream pf) (pfAvail pf) availOut of (st, rest, piece, c) \<Rightarrow>
                       (let pf = pf\<lparr>pfStream := st, pfAvail := rest, pfCrc := crc32 (pfCrc pf) piece,
                              pfRestU := minus32 (pfRestU pf) (length piece)\<rparr> in
                        if c = Z_STREAM_END \<or> pfRestU pf = 0 then Returns (u, pf, Inr (out @ piece), True)
                        else if c \<noteq> Z_OK then Returns (u, pf, Inl UNZ_FLATE, eof)
                        else readLoop inflate fuel u pf (availOut - length piece) (out @ piece) eof))))))"

definition unzReadCurrentFile ::
  "'z inflater \<Rightarrow> nat \<Rightarrow> unz \<Rightarrow> 'z pfile option \<Rightarrow> (unz \<times> 'z pfile option \<times> (unzCode + string) \<times> bool) zrun" where
  "unzReadCurrentFile inflate fuel u opf =
     (case opf of
        None \<Rightarrow> Returns (u, None, Inl UNZ_PARAMERROR, False)
      | Some pf \<Rightarrow>
          run_bind (readLoop inflate fuel u pf (min 16384 (pfRestU pf)) [] False)
            (\<lambda>(u, pf, r, eof). Returns (u, Some pf, r, eof)))"

text \<open>\<open>unzCloseCurrentFile\<close>: whether the checksum is right, when everything was read. The caller does not look.\<close>

definition unzCloseCurrentFile :: "'z pfile \<Rightarrow> bool" where
  "unzCloseCurrentFile pf \<longleftrightarrow> pfRestU pf \<noteq> 0 \<or> unat (pfCrc pf) = pfCrcWait pf"

section \<open>Unpacking\<close>

text \<open>
  The loop that writes an entry to its file: the bytes that were written and the result.
\<close>

fun unzipLoop ::
  "'z inflater \<Rightarrow> nat \<Rightarrow> unz \<Rightarrow> 'z pfile option \<Rightarrow> string \<Rightarrow> (unz \<times> string \<times> zresult) zrun" where
  "unzipLoop inflate 0 u pf written = Running"
| "unzipLoop inflate (Suc fuel) u pf written =
     run_bind (unzReadCurrentFile inflate (Suc fuel) u pf) (\<lambda>(u, pf, r, eof).
       (case r of
          Inl err \<Rightarrow> Returns (u, written, ZR_FLATE)
        | Inr piece \<Rightarrow>
            if eof then Returns (u, written @ piece, ZR_OK)
            else if piece = [] then Returns (u, written, ZR_FLATE)
            else unzipLoop inflate fuel u pf (written @ piece)))"

text \<open>
  What happens on the disk, in its order: a directory is created unless it is there; a file is created with its
  attributes and written, and its three times are set if that went well.
\<close>

datatype diskEvent = EnsureDir string | WriteFile string nat string "(ztime \<times> ztime \<times> ztime) option"

text \<open>\<open>EnsureDirectory\<close>.\<close>

fun lastSlash :: "string \<Rightarrow> nat option" where
  "lastSlash [] = None"
| "lastSlash (ch # s) = (case lastSlash s of Some i \<Rightarrow> Some (Suc i) | None \<Rightarrow> if isSlash ch then Some 0 else None)"

lemma lastSlash_bound: "lastSlash s = Some i \<Longrightarrow> i < length s"
  by (induction s arbitrary: i) (auto split: option.splits if_splits)

function ensureDirectory :: "string \<Rightarrow> string \<Rightarrow> diskEvent list" where
  "ensureDirectory root dir =
     EnsureDir root #
     (if dir = [] then []
      else (case lastSlash dir of
          None \<Rightarrow> []
        | Some i \<Rightarrow> if i = 0 then [] else ensureDirectory root (take i dir)) @ [EnsureDir (root @ dir)])"
  by pat_completeness auto
termination by (relation "measure (\<lambda>(root, dir). length dir)") (auto dest: lastSlash_bound)

declare ensureDirectory.simps [simp del]

text \<open>
  \<open>TUnzip::Unzip\<close> for an entry that \<open>Get\<close> has described, to the name it has below \<open>rootdir\<close>. A path of 260 or more
  characters does not fit into its buffer. \<open>canWrite\<close> tells whether \<open>CreateFile\<close> succeeds.
\<close>

definition splitPath :: "string \<Rightarrow> string \<times> string" where
  "splitPath s = (case lastSlash s of None \<Rightarrow> ([], s) | Some i \<Rightarrow> (take (Suc i) s, drop (Suc i) s))"

definition unzipTo ::
  "'z inflater \<Rightarrow> 'z \<Rightarrow> (string \<Rightarrow> bool) \<Rightarrow> string \<Rightarrow> nat \<Rightarrow> unz \<Rightarrow> nat \<Rightarrow> string \<Rightarrow>
   (unz \<times> diskEvent list \<times> zresult) zrun" where
  "unzipTo inflate init canWrite root fuel u index ufn =
     (if numberEntry u \<le> index then Returns (u, [], ZR_ARGS)
      else run_bind (goToIndex fuel u index) (\<lambda>u. run_bind (zipGet fuel u index) (\<lambda>(u, r, oze).
        (case oze of
           None \<Rightarrow> Unspecified
         | Some ze \<Rightarrow>
             if bit (zeAttr ze) 4 then
               (if 260 \<le> length (root @ ufn) then Unspecified else Returns (u, ensureDirectory root ufn, ZR_OK))
             else (case splitPath ufn of (dir, name) \<Rightarrow>
               if 260 \<le> length (root @ dir @ name) then Unspecified
               else (let path = root @ dir @ name; dirs = ensureDirectory root dir in
                 if \<not> canWrite path then Returns (u, dirs, ZR_NOFILE)
                 else run_bind (unzOpenCurrentFile init u) (\<lambda>(u, pf).
                   run_bind (unzipLoop inflate fuel u pf []) (\<lambda>(u, written, r).
                     Returns (u, dirs @ [WriteFile path (zeAttr ze) written
                       (if r = ZR_OK then Some (zeMtime ze, zeAtime ze, zeCtime ze) else None)], r)))))))))"

text \<open>\<open>TUnzip::SetUnzipBaseDir\<close>.\<close>

definition baseDir :: "string \<Rightarrow> string" where
  "baseDir dir = (if dir \<noteq> [] \<and> isSlash (last dir) then dir else dir @ [CHR 0x5C])"

text \<open>
  \<open>CZip::extract\<close> for all entries: what happens on the disk and the result. The result of \<open>UnzipItem\<close> is not looked
  at; an entry that cannot be described ends the loop, and only \<open>ZR_FAILED\<close> and \<open>ZR_NOTFOUND\<close>, which \<open>Get\<close>
  never gives, would be a failure.
\<close>

fun extractLoop ::
  "'z inflater \<Rightarrow> 'z \<Rightarrow> (string \<Rightarrow> bool) \<Rightarrow> string \<Rightarrow> nat \<Rightarrow> unz \<Rightarrow> nat \<Rightarrow> diskEvent list \<Rightarrow> diskEvent list zrun" where
  "extractLoop inflate init canWrite root 0 u i evs = Running"
| "extractLoop inflate init canWrite root (Suc fuel) u i evs =
     run_bind (zipGet (Suc fuel) u i) (\<lambda>(u, r, oze).
       (case oze of
          None \<Rightarrow> Returns evs
        | Some ze \<Rightarrow>
            run_bind (unzipTo inflate init canWrite root (Suc fuel) u i (zeName ze))
              (\<lambda>(u, new, r). extractLoop inflate init canWrite root fuel u (Suc i) (evs @ new))))"

definition extractZip ::
  "'z inflater \<Rightarrow> 'z \<Rightarrow> (string \<Rightarrow> bool) \<Rightarrow> char \<Rightarrow> nat \<Rightarrow> string option \<Rightarrow> string \<Rightarrow> (bool \<times> diskEvent list) zrun" where
  "extractZip inflate init canWrite before fuel file dir =
     (case file of
        None \<Rightarrow> Returns (False, [])
      | Some f \<Rightarrow>
          run_bind (unzOpen before f) (\<lambda>ou.
            (case ou of
               None \<Rightarrow> Returns (False, [])
             | Some u \<Rightarrow>
                 if 259 \<le> length dir then Unspecified
                 else run_bind (extractLoop inflate init canWrite (baseDir dir) fuel u 0 []) (\<lambda>evs. Returns (True, evs)))))"

end
