(* ===== verification/ZipFacts.thy ===== *)
theory ZipFacts
  imports ZipRead
begin

text \<open>
  What an archive that was written consists of, and what is read back from its headers.
\<close>

section \<open>Numbers\<close>

lemma code_byteChar [simp]: "code (byteChar n) = n mod 256"
  by (simp add: byteChar_def code_def)

lemma length_putsh [simp]: "length (putsh a) = 2"
  by (simp add: putsh_def)

lemma length_putlg [simp]: "length (putlg a) = 4"
  by (simp add: putlg_def)

lemma short_split: "a mod 256 + 256 * (a div 256 mod 256) = a mod 65536" for a :: nat
  using mod_mult2_eq [of a 256 256] by simp

lemma getShort_putsh: "getShort (pre @ putsh a @ post) (length pre) = Returns (a mod 65536, length pre + 2)"
  by (simp add: getShort_def getByte_def putsh_def nth_append short_split)

lemma long_split: "a mod 65536 + 65536 * (a div 65536 mod 65536) = a mod 2 ^ 32" for a :: nat
  using mod_mult2_eq [of a 65536 65536] by simp

lemma getLong_bytes:
  "getLong (pre @ a # b # c # d # post) (length pre) =
   Returns (code a + 256 * code b + 65536 * code c + 16777216 * code d, Suc (Suc (Suc (Suc (length pre)))))"
  by (simp add: getLong_def getByte_def nth_append)

lemma getLong_putlg: "getLong (pre @ putlg a @ post) (length pre) = Returns (a mod 2 ^ 32, length pre + 4)"
proof -
  have "a mod 65536 mod 256 + 256 * (a mod 65536 div 256 mod 256) + 65536 * (a div 65536 mod 256) +
      16777216 * (a div 65536 div 256 mod 256) =
    a mod 65536 mod 65536 + 65536 * (a div 65536 mod 65536)"
    using short_split [of "a mod 65536"] short_split [of "a div 65536"] by linarith
  also have "\<dots> = a mod 2 ^ 32" using long_split [of a] by (simp only: mod_mod_trivial)
  finally show ?thesis
    using getLong_bytes [of pre "byteChar (a mod 65536)" "byteChar (a mod 65536 div 256)" "byteChar (a div 65536)"
      "byteChar (a div 65536 div 256)" post]
    by (simp only: putlg_def putsh_def append.simps code_byteChar mod_mod_trivial) simp
qed

primrec putFields :: "nat list \<Rightarrow> nat list \<Rightarrow> string" where
  "putFields [] xs = []"
| "putFields (w # ws) xs = (if w = 2 then putsh (hd xs) else putlg (hd xs)) @ putFields ws (tl xs)"

definition width :: "nat \<Rightarrow> nat" where
  "width w = (if w = 2 then 65536 else 2 ^ 32)"

lemma getFields_putFields:
  "length xs = length ws \<Longrightarrow> set ws \<subseteq> {2, 4} \<Longrightarrow>
   getFields (pre @ putFields ws xs @ post) ws (length pre) =
   Returns (map2 (\<lambda>w x. x mod width w) ws xs, length pre + sum_list ws)"
proof (induction ws arbitrary: xs pre)
  case (Cons w ws)
  then obtain x ys where xs: "xs = x # ys" by (cases xs) auto
  let ?h = "if w = 2 then putsh x else putlg x"
  have w: "w = 2 \<or> w = 4" using Cons.prems by auto
  have "getFields ((pre @ ?h) @ putFields ws ys @ post) ws (length (pre @ ?h)) =
      Returns (map2 (\<lambda>w x. x mod width w) ws ys, length (pre @ ?h) + sum_list ws)"
    using Cons.prems xs by (intro Cons.IH) auto
  with w show ?case
    by (auto simp: xs getShort_putsh getLong_putlg width_def)
qed simp

text \<open>The fields at a place of a file, in the form a header is found.\<close>

lemma getFields_at:
  assumes "f = pre @ putFields ws xs @ post" "p = length pre" "length xs = length ws" "set ws \<subseteq> {2, 4}"
    "list_all2 (\<lambda>w x. x < width w) ws xs"
  shows "getFields f ws p = Returns (xs, p + sum_list ws)"
proof -
  have "map2 (\<lambda>w x. x mod width w) ws xs = xs"
    using assms(5) by (induction rule: list_all2_induct) auto
  then show ?thesis using assms getFields_putFields [of xs ws pre post] by simp
qed

section \<open>What is written\<close>

definition atEnd :: "tzip \<Rightarrow> bool" where
  "atEnd z \<longleftrightarrow> zPos z = length (zOut z) \<and> writ z = length (zOut z) \<and> \<not> hasputcen z"

lemma zwrite_end: "zPos z = length (zOut z) \<Longrightarrow> zwrite s z = z\<lparr>zOut := zOut z @ s, zPos := length (zOut z @ s)\<rparr>"
  by (simp add: zwrite_def)

lemma crc32_append: "crc32 (crc32 c a) b = crc32 c (a @ b)"
  by (simp add: crc32_def crcLoop_fold xor.assoc)

lemma crc32_Nil [simp]: "crc32 c [] = c"
  by (simp add: crc32_def crcLoop_fold xor.assoc)

lemma istoreLoop_whole:
  "zPos z = length (zOut z) \<Longrightarrow> istoreLoop rest z crc n =
   (z\<lparr>zOut := zOut z @ rest, zPos := length (zOut z @ rest)\<rparr>, crc32 crc rest, n + length rest)"
proof (induction rest z crc n rule: istoreLoop.induct)
  case (1 rest z crc n)
  show ?case
  proof (cases "rest = []")
    case True
    then show ?thesis by (simp add: istoreLoop.simps [of "[]"] "1.prems" [symmetric])
  next
    case False
    let ?z = "zwrite (take 16384 rest) z"
    have z: "?z = z\<lparr>zOut := zOut z @ take 16384 rest, zPos := length (zOut z @ take 16384 rest)\<rparr>"
      by (rule zwrite_end) (rule 1)
    have "istoreLoop (drop 16384 rest) ?z (crc32 crc (take 16384 rest)) (n + length (take 16384 rest)) =
      (?z\<lparr>zOut := zOut ?z @ drop 16384 rest, zPos := length (zOut ?z @ drop 16384 rest)\<rparr>,
       crc32 (crc32 crc (take 16384 rest)) (drop 16384 rest),
       n + length (take 16384 rest) + length (drop 16384 rest))"
      using False z by (intro "1.IH") auto
    then show ?thesis using False by (simp add: istoreLoop.simps [of rest] z crc32_append Let_def)
  qed
qed

definition entryMethod :: "string \<Rightarrow> nat" where
  "entryMethod name = (if HasZipSuffix name then 0 else 8)"

definition entryData :: "(string \<Rightarrow> string) \<Rightarrow> string \<Rightarrow> inFile \<Rightarrow> string" where
  "entryData deflate name f = (if HasZipSuffix name then fileBytes f else deflate (fileBytes f))"

definition entryHeader :: "(string \<Rightarrow> string) \<Rightarrow> (string \<Rightarrow> nat) \<Rightarrow> string \<Rightarrow> inFile \<Rightarrow> nat \<Rightarrow> zlist" where
  "entryHeader deflate fileType name f off =
     \<lparr>zvem = 0xB17, zver = 20, zflg = (if HasZipSuffix name then 0 else 2), zhow = entryMethod name,
      ztim = fileTimestamp f, zcrc = unat (crc32 0 (fileBytes f)), zsiz = length (entryData deflate name f),
      zlen = length (fileBytes f), znam = length name, zext = 17, zcext = 9, zcom = 0, zdsk = 0,
      zatt = (if HasZipSuffix name then 0 else fileType (fileBytes f)),
      zlflg = (if HasZipSuffix name then 0 else 2), zatx = zipAttributes f, zoff = off,
      zextra = utLocal f, zcextra = utCentral f, zcomment = [], ziname = name\<rparr>"

lemma length_utLocal [simp]: "length (utLocal f) = 17"
  by (simp add: utLocal_def)

lemma length_utCentral [simp]: "length (utCentral f) = 9"
  by (simp add: utCentral_def)

lemma length_putlocal:
  "length (ziname z) = znam z \<Longrightarrow> length (zextra z) = zext z \<Longrightarrow> length (putlocal z) = 30 + znam z + zext z"
  by (simp add: putlocal_def)

lemma length_putcentral:
  "length (ziname z) = znam z \<Longrightarrow> length (zcextra z) = zcext z \<Longrightarrow> zcom z = 0 \<Longrightarrow>
   length (putcentral z) = 46 + znam z + zcext z"
  by (simp add: putcentral_def)

text \<open>One file is one local record at the end of the archive, and its header is kept for the directory.\<close>

lemma zipAdd_file:
  fixes deflate fileType name f z
  assumes "atEnd z" "name \<noteq> []" "CHR 0x5C \<notin> set name"
  defines "h \<equiv> entryHeader deflate fileType name f (length (zOut z))"
  defines "out \<equiv> zOut z @ putlocal h @ entryData deflate name f"
  shows "zipAdd deflate fileType name (Some f) z =
    (z\<lparr>zOut := out, zPos := length out, writ := length out, zfis := zfis z @ [h]\<rparr>, ZR_OK)"
proof -
  have n: "map (\<lambda>ch. if ch = CHR 0x5C then CHR ''/'' else ch) name = name"
    using assms(3) by (intro map_idI) auto
  let ?h1 = "firstHeader name f (entryMethod name) z"
  have l: "length (putlocal ?h1) = 47 + length name" "length (putlocal h) = 47 + length name"
    by (simp_all add: length_putlocal firstHeader_def h_def entryHeader_def)
  have h: "?h1\<lparr>zcrc := unat (crc32 0 (fileBytes f)), zsiz := length (entryData deflate name f),
      zlen := length (fileBytes f), zflg := if HasZipSuffix name then 0 else 2,
      zlflg := if HasZipSuffix name then 0 else 2,
      zatt := if HasZipSuffix name then 0 else fileType (fileBytes f)\<rparr> = h"
    using assms(1) by (simp add: firstHeader_def h_def entryHeader_def atEnd_def)
  have hdr: "znam ?h1 = length name" "zext ?h1 = 17" "zoff ?h1 = writ z"
    by (simp_all add: firstHeader_def)
  show ?thesis
  proof (cases "HasZipSuffix name")
    case True
    then show ?thesis using assms(1,2) l h hdr
      by (simp add: zipAdd_def n Let_def atEnd_def zwrite_end istoreLoop_whole entryMethod_def entryData_def out_def
          oseek_def zwrite_def)
  next
    case False
    then show ?thesis using assms(1,2) l h hdr
      by (simp add: zipAdd_def n Let_def atEnd_def zwrite_end ideflate_def entryMethod_def entryData_def out_def
          oseek_def zwrite_def)
  qed
qed

definition recordLength :: "(string \<Rightarrow> string) \<Rightarrow> string \<times> inFile \<Rightarrow> nat" where
  "recordLength deflate e = 47 + length (fst e) + length (entryData deflate (fst e) (snd e))"

primrec entryHeaders ::
  "(string \<Rightarrow> string) \<Rightarrow> (string \<Rightarrow> nat) \<Rightarrow> nat \<Rightarrow> (string \<times> inFile) list \<Rightarrow> zlist list" where
  "entryHeaders deflate fileType off [] = []"
| "entryHeaders deflate fileType off (e # es) =
     entryHeader deflate fileType (fst e) (snd e) off #
     entryHeaders deflate fileType (off + recordLength deflate e) es"

primrec localPart ::
  "(string \<Rightarrow> string) \<Rightarrow> (string \<Rightarrow> nat) \<Rightarrow> nat \<Rightarrow> (string \<times> inFile) list \<Rightarrow> string" where
  "localPart deflate fileType off [] = []"
| "localPart deflate fileType off (e # es) =
     putlocal (entryHeader deflate fileType (fst e) (snd e) off) @ entryData deflate (fst e) (snd e) @
     localPart deflate fileType (off + recordLength deflate e) es"

definition storableName :: "string \<Rightarrow> bool" where
  "storableName name \<longleftrightarrow> name \<noteq> [] \<and> CHR 0x5C \<notin> set name"

definition plainFiles :: "(string \<times> inFile) list \<Rightarrow> exportEntry list" where
  "plainFiles es = map (\<lambda>e. PlainFile (fst e) (Some (snd e))) es"

lemma length_local [simp]:
  "length (putlocal (entryHeader deflate fileType name f off)) = 47 + length name"
  by (simp add: length_putlocal entryHeader_def)

lemma recurse_files:
  "atEnd z \<Longrightarrow> \<forall>e\<in>set es. storableName (fst e) \<Longrightarrow>
   recurseDirectory deflate fileType (plainFiles es) z =
   (z\<lparr>zOut := zOut z @ localPart deflate fileType (length (zOut z)) es,
      zPos := length (zOut z @ localPart deflate fileType (length (zOut z)) es),
      writ := length (zOut z @ localPart deflate fileType (length (zOut z)) es),
      zfis := zfis z @ entryHeaders deflate fileType (length (zOut z)) es\<rparr>, True)"
proof (induction es arbitrary: z)
  case Nil
  then show ?case by (simp add: plainFiles_def atEnd_def)
next
  case (Cons e es)
  let ?h = "entryHeader deflate fileType (fst e) (snd e) (length (zOut z))"
  let ?out = "zOut z @ putlocal ?h @ entryData deflate (fst e) (snd e)"
  let ?z = "z\<lparr>zOut := ?out, zPos := length ?out, writ := length ?out, zfis := zfis z @ [?h]\<rparr>"
  have a: "zipAdd deflate fileType (fst e) (Some (snd e)) z = (?z, ZR_OK)"
    using Cons.prems by (intro zipAdd_file) (auto simp: storableName_def)
  have z: "atEnd ?z" using Cons.prems by (simp add: atEnd_def)
  have o: "length (zOut ?z) = length (zOut z) + recordLength deflate e"
    by (simp add: recordLength_def)
  have IH: "recurseDirectory deflate fileType (plainFiles es) ?z =
   (?z\<lparr>zOut := zOut ?z @ localPart deflate fileType (length (zOut ?z)) es,
      zPos := length (zOut ?z @ localPart deflate fileType (length (zOut ?z)) es),
      writ := length (zOut ?z @ localPart deflate fileType (length (zOut ?z)) es),
      zfis := zfis ?z @ entryHeaders deflate fileType (length (zOut ?z)) es\<rparr>, True)"
    by (rule Cons.IH [OF z]) (use Cons.prems in simp)
  have "recurseDirectory deflate fileType (plainFiles (e # es)) z =
      recurseDirectory deflate fileType (plainFiles es) ?z"
    by (simp add: plainFiles_def a del: recurseDirectory.simps add: recurseDirectory.simps(3))
  then show ?case unfolding IH o by simp
qed

lemma putCentrals_closed:
  "zPos z = length (zOut z) \<Longrightarrow> writ z = length (zOut z) \<Longrightarrow>
   \<forall>h\<in>set hs. length (ziname h) = znam h \<and> length (zcextra h) = zcext h \<and> zcom h = 0 \<Longrightarrow>
   putCentrals hs z =
   z\<lparr>zOut := zOut z @ concat (map putcentral hs), zPos := length (zOut z @ concat (map putcentral hs)),
     writ := length (zOut z @ concat (map putcentral hs))\<rparr>"
proof (induction hs arbitrary: z)
  case (Cons h hs)
  let ?out = "zOut z @ putcentral h"
  let ?z = "z\<lparr>zOut := ?out, zPos := length ?out, writ := length ?out\<rparr>"
  have "putCentrals (h # hs) z = putCentrals hs ?z"
    using Cons.prems by (simp add: Let_def zwrite_end length_putcentral add_ac)
  also have "\<dots> = ?z\<lparr>zOut := zOut ?z @ concat (map putcentral hs),
     zPos := length (zOut ?z @ concat (map putcentral hs)), writ := length (zOut ?z @ concat (map putcentral hs))\<rparr>"
    using Cons.prems by (intro Cons.IH) auto
  finally show ?case by simp
qed simp

definition centralPart :: "zlist list \<Rightarrow> string" where
  "centralPart hs = concat (map putcentral hs)"

lemma entryHeaders_shape:
  "h \<in> set (entryHeaders deflate fileType off es) \<Longrightarrow>
   length (ziname h) = znam h \<and> length (zcextra h) = zcext h \<and> zcom h = 0"
  by (induction es arbitrary: off) (auto simp: entryHeader_def)

lemma length_entryHeaders [simp]: "length (entryHeaders deflate fileType off es) = length es"
  by (induction es arbitrary: off) auto

definition archiveBytes ::
  "(string \<Rightarrow> string) \<Rightarrow> (string \<Rightarrow> nat) \<Rightarrow> (string \<times> inFile) list \<Rightarrow> string" where
  "archiveBytes deflate fileType es =
     (let l = localPart deflate fileType 0 es; c = centralPart (entryHeaders deflate fileType 0 es) in
      l @ c @ putend (length es) (length c) (length l) [])"

text \<open>The archive of a directory that holds only files.\<close>

lemma archive_files:
  assumes "\<forall>e\<in>set es. storableName (fst e)"
  shows "archive deflate fileType True (plainFiles es) = (Some (archiveBytes deflate fileType es), True)"
proof -
  let ?l = "localPart deflate fileType 0 es" and ?hs = "entryHeaders deflate fileType 0 es"
  let ?z = "emptyZip\<lparr>zOut := ?l, zPos := length ?l, writ := length ?l, zfis := ?hs\<rparr>"
  have r: "recurseDirectory deflate fileType (plainFiles es) emptyZip = (?z, True)"
    using recurse_files [OF _ assms, of emptyZip] by (simp add: atEnd_def emptyZip_def)
  have c: "putCentrals ?hs (?z\<lparr>zfis := []\<rparr>) =
    ?z\<lparr>zfis := [], zOut := ?l @ centralPart ?hs, zPos := length (?l @ centralPart ?hs),
       writ := length (?l @ centralPart ?hs)\<rparr>"
    using entryHeaders_shape [of _ deflate fileType 0 es]
    by (subst putCentrals_closed) (auto simp: centralPart_def)
  have "zOut (closeZip ?z) = archiveBytes deflate fileType es"
    using c by (simp add: closeZip_def AddCentral_def emptyZip_def Let_def archiveBytes_def zwrite_end)
  then show ?thesis by (simp add: archive_def r)
qed

end
