(* ===== verification/ZipOpen.thy ===== *)
theory ZipOpen
  imports ZipFacts
begin

text \<open>
  Reading back an archive that was written: its end is found, the headers are the ones that were written, and each
  entry is described as it was.
\<close>

section \<open>The end of the archive\<close>

lemma find_rev_upt:
  "P j \<Longrightarrow> j < m \<Longrightarrow> (\<And>k. j < k \<Longrightarrow> k < m \<Longrightarrow> \<not> P k) \<Longrightarrow> find P (rev [0..<m]) = Some j"
proof (induction m)
  case (Suc m)
  show ?case
  proof (cases "j = m")
    case False
    then have "\<not> P m" using Suc.prems(2,3) by auto
    then show ?thesis using Suc False by auto
  qed (use Suc.prems in simp)
qed simp

lemma putend_bytes:
  "map code (putend n s c []) =
   [0x50, 0x4b, 5, 6, 0, 0, 0, 0, n mod 256, n div 256 mod 256, n mod 256, n div 256 mod 256,
    s mod 65536 mod 256, s mod 65536 div 256 mod 256, s div 65536 mod 256, s div 65536 div 256 mod 256,
    c mod 65536 mod 256, c mod 65536 div 256 mod 256, c div 65536 mod 256, c div 65536 div 256 mod 256, 0, 0]"
  by (simp add: putend_def putlg_def putsh_def)

lemma length_putend [simp]: "length (putend n s c []) = 22"
  by (simp add: putend_def)

text \<open>No other end mark stands in the end record, if the counts and sizes are small enough.\<close>

lemma no_second_mark_bytes:
  assumes "s3 < (5::nat)" "c3 < 5" "n1 < 0x4c" "\<not> (n0 = 0x50 \<and> n1 = 0x4b)" "d \<in> set [1..<19]"
  shows "take 4 (drop d [0x50, 0x4b, 5, 6, 0, 0, 0, 0, n0, n1, n0, n1, s0, s1, s2, s3, c0, c1, c2, c3, 0, 0])
    \<noteq> [0x50, 0x4b, 5, 6]"
proof -
  have "d \<in> {1, 2, 3, 4, 5, 6, 7, 8, 9, 10, 11, 12, 13, 14, 15, 16, 17, 18}"
    using assms(5) by (simp only: set_upt atLeastLessThan_iff insert_iff empty_iff) presburger
  then show ?thesis using assms(1-4) by (elim insertE emptyE) auto
qed

lemma no_second_mark:
  assumes "n < 0x4b50" "s < 0x05000000" "c < 0x05000000" "0 < d" "d < 19"
  shows "\<not> isSignature (take 4 (drop d (putend n s c [])))"
proof -
  have small: "s div 65536 div 256 mod 256 < 5" "c div 65536 div 256 mod 256 < 5" "n div 256 mod 256 < 0x4c"
    using assms(1-3) by (simp_all add: div_mult2_eq [symmetric] less_mult_imp_div_less)
  have nn: "\<not> (n mod 256 = 0x50 \<and> n div 256 mod 256 = 0x4b)"
  proof
    assume "n mod 256 = 0x50 \<and> n div 256 mod 256 = 0x4b"
    moreover have "n div 256 mod 256 = n div 256" using assms(1) by simp
    ultimately have "n = 0x4b * 256 + 0x50" using div_mult_mod_eq [of n 256] by simp
    with assms(1) show False by simp
  qed
  have "take 4 (drop d (map code (putend n s c []))) \<noteq> [0x50, 0x4b, 5, 6]"
    unfolding putend_bytes using small nn assms(4,5) by (intro no_second_mark_bytes) simp_all
  then show ?thesis by (simp add: isSignature_def take_map drop_map)
qed

lemma searchCentralDir_end:
  assumes "n < 0x4b50" "s < 0x05000000" "c < 0x05000000"
  shows "searchCentralDir before (pre @ putend n s c []) = Some (length pre)"
proof -
  let ?E = "putend n s c []"
  let ?N = "length pre + 22"
  define B where "B = (if min 0xffff ?N < 4 + 0x400 then min 0xffff ?N else 4 + 0x400)"
  have B: "22 \<le> B" "B \<le> ?N" "B \<le> 1028" by (auto simp: B_def)
  let ?buf = "before # drop (?N - B) pre @ ?E"
  have blk: "take (min 0x404 (?N - (?N - B))) (drop (?N - B) (pre @ ?E)) = drop (?N - B) pre @ ?E"
    using B by simp
  have len: "length ?buf - 3 = B - 2" using B by simp
  have dropE: "drop (B - 21 + d) ?buf = drop d ?E" if "d \<le> 22" for d
  proof -
    have "drop (B - 21 + d) ?buf = drop (B - 22 + d) (drop (?N - B) pre @ ?E)"
    proof -
      have "B - 21 + d = Suc (B - 22 + d)" using B by simp
      then show ?thesis by (simp only: drop_Suc_Cons)
    qed
    also have "\<dots> = drop d ?E" using B by simp
    finally show ?thesis .
  qed
  have P: "isSignature (take 4 (drop (B - 21) ?buf))"
    using dropE [of 0] putend_bytes [of n s c] by (simp add: isSignature_def take_map [symmetric])
  have notP: "\<not> isSignature (take 4 (drop k ?buf))" if "B - 21 < k" "k < B - 2" for k
  proof -
    define d where "d = k - (B - 21)"
    have d: "k = B - 21 + d" "0 < d" "d < 19" using that B by (auto simp: d_def)
    show ?thesis using no_second_mark [OF assms d(2,3)] dropE [of d] d by simp
  qed
  have f: "find (\<lambda>j. isSignature (take 4 (drop j ?buf))) (rev [0..<B - 2]) = Some (B - 21)"
    using P notP B by (intro find_rev_upt) auto
  have g: "4 < min 0xffff ?N" by simp
  have N: "length (pre @ ?E) = ?N" by simp
  have "searchCentralDir before (pre @ ?E) =
    (if ?N - B + (B - 21) = 0 then None else Some (?N - B + (B - 21) - 1))"
    unfolding searchCentralDir_def N Let_def B_def [symmetric] blk len if_P [OF g] f by simp
  moreover have "?N - B + (B - 21) = Suc (length pre)" using B by simp
  ultimately show ?thesis by simp
qed

section \<open>The headers\<close>

text \<open>What a file must be like to come back unchanged: a plain name, not a directory, below 4 GB.\<close>

definition plainFileName :: "string \<Rightarrow> bool" where
  "plainFileName name \<longleftrightarrow> name \<noteq> [] \<and> length name < 260 \<and> (\<forall>ch\<in>set name. \<not> isSlash ch \<and> ch \<noteq> CHR '':'' \<and> ch \<noteq> CHR 0x00)"

definition fits :: "(string \<Rightarrow> string) \<Rightarrow> (string \<Rightarrow> nat) \<Rightarrow> (string \<times> inFile) list \<Rightarrow> bool" where
  "fits deflate fileType es \<longleftrightarrow>
     (\<forall>e\<in>set es. plainFileName (fst e) \<and> length (fileBytes (snd e)) < 2 ^ 32 \<and> \<not> bit (fileAttributes (snd e)) 4 \<and>
        fileType (fileBytes (snd e)) < 65536) \<and>
     length es < 0x4b50 \<and> length (archiveBytes deflate fileType es) < 0x05000000"

lemma fits_entry:
  "fits deflate fileType es \<Longrightarrow> e \<in> set es \<Longrightarrow>
   plainFileName (fst e) \<and> length (fileBytes (snd e)) < 2 ^ 32 \<and> \<not> bit (fileAttributes (snd e)) 4 \<and>
   fileType (fileBytes (snd e)) < 65536"
  unfolding fits_def by blast

lemma plainFileName_storable: "plainFileName name \<Longrightarrow> storableName name"
  by (auto simp: plainFileName_def storableName_def isSlash_def)

lemma localPart_split:
  "i < length es \<Longrightarrow>
   \<exists>pre post h. entryHeaders deflate fileType off es ! i = h \<and>
     h = entryHeader deflate fileType (fst (es ! i)) (snd (es ! i)) (off + length pre) \<and>
     localPart deflate fileType off es =
       pre @ putlocal h @ entryData deflate (fst (es ! i)) (snd (es ! i)) @ post"
proof (induction es arbitrary: off i)
  case (Cons e es)
  show ?case
  proof (cases i)
    case 0
    then show ?thesis by (auto intro: exI [of _ "[]"])
  next
    case (Suc j)
    let ?r = "putlocal (entryHeader deflate fileType (fst e) (snd e) off) @ entryData deflate (fst e) (snd e)"
    have r: "length ?r = recordLength deflate e" by (simp add: recordLength_def)
    from Suc Cons.prems have "j < length es" by simp
    from Cons.IH [OF this, of "off + recordLength deflate e"] obtain pre post h where
      h: "entryHeaders deflate fileType (off + recordLength deflate e) es ! j = h"
        "h = entryHeader deflate fileType (fst (es ! j)) (snd (es ! j)) (off + recordLength deflate e + length pre)"
        "localPart deflate fileType (off + recordLength deflate e) es =
           pre @ putlocal h @ entryData deflate (fst (es ! j)) (snd (es ! j)) @ post"
      by blast
    have "h = entryHeader deflate fileType (fst (es ! j)) (snd (es ! j)) (off + length (?r @ pre))"
      using h(2) r by (simp add: add_ac)
    moreover have "localPart deflate fileType off (e # es) =
        (?r @ pre) @ putlocal h @ entryData deflate (fst (es ! j)) (snd (es ! j)) @ post"
      using h(3) by simp
    ultimately show ?thesis using h(1) Suc
      by (intro exI [of _ "?r @ pre"] exI [of _ post] exI [of _ h] conjI) simp_all
  qed
qed simp

lemma putlocal_fields:
  "putlocal z = putFields [4, 2, 2, 2, 4, 4, 4, 4, 2, 2]
     [0x04034b50, zver z, zlflg z, zhow z, ztim z, zcrc z, zsiz z, zlen z, znam z, zext z] @
   take (znam z) (ziname z) @ take (zext z) (zextra z)"
  by (simp add: putlocal_def)

lemma putcentral_fields:
  "putcentral z = putFields [4, 2, 2, 2, 2, 4, 4, 4, 4, 2, 2, 2, 2, 2, 4, 4]
     [0x02014b50, zvem z, zver z, zflg z, zhow z, ztim z, zcrc z, zsiz z, zlen z, znam z, zcext z, zcom z, zdsk z,
      zatt z, zatx z, zoff z] @
   take (znam z) (ziname z) @ take (zcext z) (zcextra z) @ take (zcom z) (zcomment z)"
  by (simp add: putcentral_def)

lemma putend_fields:
  "putend n s c [] = putFields [4, 2, 2, 2, 2, 4, 4, 2] [0x06054b50, 0, 0, n, n, s, c, 0] @ []"
  by (simp add: putend_def)

definition headerInfo :: "zlist \<Rightarrow> fileInfo" where
  "headerInfo z =
     \<lparr>fiVersion = zvem z, fiFlag = zflg z, fiMethod = zhow z, fiDosDate = ztim z, fiCrc = zcrc z,
      fiCompressed = zsiz z, fiUncompressed = zlen z, fiNameSize = znam z, fiExtraSize = zcext z,
      fiCommentSize = zcom z, fiExternal = zatx z, fiOffset = zoff z\<rparr>"

lemma timestamp_bound: "fileTimestamp f < 2 ^ 32"
proof -
  have "nat ((int (wYear (lastWriteParts f)) - 1980) mod 128) \<le> 127" by simp
  moreover have "wMonth (lastWriteParts f) mod 16 \<le> 15" "wDay (lastWriteParts f) mod 32 \<le> 31"
    "wHour (lastWriteParts f) mod 32 \<le> 31" "wMinute (lastWriteParts f) mod 64 \<le> 63"
    "(wSecond (lastWriteParts f) * 2) mod 32 \<le> 31"
    by (simp_all add: less_Suc_eq_le [symmetric] del: mult_Suc)
  ultimately show ?thesis by (simp add: fileTimestamp_def filetime2dosdatetime_def)
qed

lemma if_zero_le: "(if P then a else 0) \<le> (a :: nat)"
  by simp

lemma attributes_bound: "zipAttributes f < 2 ^ 32"
proof -
  have "zipAttributes f \<le>
      1 + 2 + 4 + 0x10 + 0x20 + 0x80000000 + 0x01000000 + 0x00800000 + 0x00400000"
    unfolding zipAttributes_def Let_def
    by (intro add_mono if_zero_le order_refl) simp_all
  also have "\<dots> < 2 ^ 32" by simp
  finally show ?thesis .
qed

lemma crc_bound: "unat (c :: ulg) < 2 ^ 32"
  using unsigned_less [of c] by simp

definition plainFields :: "zlist \<Rightarrow> bool" where
  "plainFields z \<longleftrightarrow>
     list_all2 (\<lambda>w x. x < width w) [4, 2, 2, 2, 4, 4, 4, 4, 2, 2]
       [0x04034b50, zver z, zlflg z, zhow z, ztim z, zcrc z, zsiz z, zlen z, znam z, zext z] \<and>
     list_all2 (\<lambda>w x. x < width w) [4, 2, 2, 2, 2, 4, 4, 4, 4, 2, 2, 2, 2, 2, 4, 4]
       [0x02014b50, zvem z, zver z, zflg z, zhow z, ztim z, zcrc z, zsiz z, zlen z, znam z, zcext z, zcom z, zdsk z,
        zatt z, zatx z, zoff z]"

lemma header_fields:
  assumes "fits deflate fileType es" "i < length es"
  shows "plainFields (entryHeaders deflate fileType 0 es ! i)"
proof -
  from localPart_split [OF assms(2), of deflate fileType 0] obtain pre post h where
    h: "entryHeaders deflate fileType 0 es ! i = h"
      "h = entryHeader deflate fileType (fst (es ! i)) (snd (es ! i)) (length pre)"
      "localPart deflate fileType 0 es = pre @ putlocal h @ entryData deflate (fst (es ! i)) (snd (es ! i)) @ post"
    by auto
  have e: "es ! i \<in> set es" using assms(2) by simp
  have l: "length (localPart deflate fileType 0 es) < 0x05000000"
    using assms(1) by (simp add: fits_def archiveBytes_def Let_def)
  then have b: "length pre < 2 ^ 32" "length (entryData deflate (fst (es ! i)) (snd (es ! i))) < 2 ^ 32"
    using h(3) by auto
  have n: "length (fst (es ! i)) < 65536" "length (fileBytes (snd (es ! i))) < 2 ^ 32"
    "fileType (fileBytes (snd (es ! i))) < 65536"
    using fits_entry [OF assms(1) e] by (simp_all add: plainFileName_def)
  show ?thesis unfolding h(1) plainFields_def
    using b n timestamp_bound [of "snd (es ! i)"] attributes_bound [of "snd (es ! i)"]
      crc_bound [of "crc32 0 (fileBytes (snd (es ! i)))"]
    by (simp add: h(2) entryHeader_def width_def entryMethod_def)
qed

end
