(* ===== verification/ZipEntries.thy ===== *)
theory ZipEntries
  imports ZipOpen
begin

text \<open>
  The open archive at one of its entries: every entry is reached, and described by the name, the attributes and the
  times it was written with.
\<close>

section \<open>Where the headers stand\<close>

definition headers :: "(string \<Rightarrow> string) \<Rightarrow> (string \<Rightarrow> nat) \<Rightarrow> (string \<times> inFile) list \<Rightarrow> zlist list" where
  "headers deflate fileType es = entryHeaders deflate fileType 0 es"

definition centralStart :: "(string \<Rightarrow> string) \<Rightarrow> (string \<Rightarrow> nat) \<Rightarrow> (string \<times> inFile) list \<Rightarrow> nat \<Rightarrow> nat" where
  "centralStart deflate fileType es i =
     length (localPart deflate fileType 0 es) + length (centralPart (take i (headers deflate fileType es)))"

lemma length_headers [simp]: "length (headers deflate fileType es) = length es"
  by (simp add: headers_def)

lemma file_at_central:
  assumes "i < length es"
  shows "\<exists>pre post. archiveBytes deflate fileType es = pre @ putcentral (headers deflate fileType es ! i) @ post \<and>
    length pre = centralStart deflate fileType es i"
proof -
  let ?hs = "headers deflate fileType es" and ?l = "localPart deflate fileType 0 es"
  have "centralPart ?hs = centralPart (take i ?hs) @ putcentral (?hs ! i) @ centralPart (drop (Suc i) ?hs)"
    using assms id_take_nth_drop [of i ?hs] by (simp add: centralPart_def) (metis concat_append concat.simps(2)
      list.simps(9) map_append)
  then have "archiveBytes deflate fileType es =
      (?l @ centralPart (take i ?hs)) @ putcentral (?hs ! i) @
      centralPart (drop (Suc i) ?hs) @ putend (length es) (length (centralPart ?hs)) (length ?l) []"
    by (simp add: archiveBytes_def headers_def Let_def)
  then show ?thesis by (metis centralStart_def length_append)
qed

lemma header_shape:
  assumes "i < length es"
  shows "headers deflate fileType es ! i =
    entryHeader deflate fileType (fst (es ! i)) (snd (es ! i)) (zoff (headers deflate fileType es ! i))"
  using localPart_split [OF assms, of deflate fileType 0] by (auto simp: headers_def entryHeader_def)

lemma file_at_local:
  assumes "i < length es"
  shows "\<exists>pre post. archiveBytes deflate fileType es =
      pre @ putlocal (headers deflate fileType es ! i) @ entryData deflate (fst (es ! i)) (snd (es ! i)) @ post \<and>
    length pre = zoff (headers deflate fileType es ! i)"
proof -
  from localPart_split [OF assms, of deflate fileType 0] obtain pre post h where
    h: "entryHeaders deflate fileType 0 es ! i = h"
      "h = entryHeader deflate fileType (fst (es ! i)) (snd (es ! i)) (length pre)"
      "localPart deflate fileType 0 es = pre @ putlocal h @ entryData deflate (fst (es ! i)) (snd (es ! i)) @ post"
    by auto
  have "zoff h = length pre" by (simp add: h(2) entryHeader_def)
  with h(1,3) show ?thesis by (auto simp: archiveBytes_def headers_def Let_def)
qed

lemma fits_length: "fits deflate fileType es \<Longrightarrow> length (archiveBytes deflate fileType es) < 0x05000000"
  unfolding fits_def by blast

lemma seekTo_small: "off < 2 ^ 31 \<Longrightarrow> seekTo p off = off"
  by (simp add: seekTo_def w32_def)

lemma header_nam [simp]: "i < length es \<Longrightarrow> znam (headers deflate fileType es ! i) = length (fst (es ! i))"
  by (subst header_shape) (simp_all add: entryHeader_def)

lemma header_name [simp]: "i < length es \<Longrightarrow> ziname (headers deflate fileType es ! i) = fst (es ! i)"
  by (subst header_shape) (simp_all add: entryHeader_def)

lemma header_sizes [simp]:
  "i < length es \<Longrightarrow> zext (headers deflate fileType es ! i) = 17"
  "i < length es \<Longrightarrow> zcext (headers deflate fileType es ! i) = 9"
  "i < length es \<Longrightarrow> zcom (headers deflate fileType es ! i) = 0"
  by (subst header_shape; simp add: entryHeader_def)+

lemma header_extra [simp]: "i < length es \<Longrightarrow> zextra (headers deflate fileType es ! i) = utLocal (snd (es ! i))"
  by (subst header_shape) (simp_all add: entryHeader_def)

lemma header_cextra [simp]: "i < length es \<Longrightarrow> zcextra (headers deflate fileType es ! i) = utCentral (snd (es ! i))"
  by (subst header_shape) (simp_all add: entryHeader_def)

lemma header_flags [simp]:
  "i < length es \<Longrightarrow> zlflg (headers deflate fileType es ! i) = zflg (headers deflate fileType es ! i)"
  by (subst (1 2) header_shape) (simp_all add: entryHeader_def)

lemma header_method:
  "i < length es \<Longrightarrow> zhow (headers deflate fileType es ! i) = entryMethod (fst (es ! i))"
  by (subst header_shape) (simp_all add: entryHeader_def)

section \<open>Reading the headers\<close>

lemma currentHeader_at:
  assumes "fits deflate fileType es" "i < length es" "uFile u = archiveBytes deflate fileType es" "byteBefore u = 0"
    "posInCentral u = centralStart deflate fileType es i"
  shows "currentHeader u =
    Returns (UNZ_OK, headerInfo (headers deflate fileType es ! i), centralStart deflate fileType es i + 46)"
proof -
  let ?h = "headers deflate fileType es ! i"
  from file_at_central [OF assms(2)] obtain pre post where
    f: "archiveBytes deflate fileType es = pre @ putcentral ?h @ post" "length pre = centralStart deflate fileType es i"
    by blast
  have small: "centralStart deflate fileType es i < 2 ^ 31"
    using fits_length [OF assms(1)] f by simp
  have p: "plainFields ?h" using header_fields [OF assms(1,2)] by (simp add: headers_def)
  have s: "seekTo (filePos u) (posInCentral u + byteBefore u) = centralStart deflate fileType es i"
    using small assms(4,5) by (simp add: seekTo_small)
  have g: "getFields (uFile u) [4, 2, 2, 2, 2, 4, 4, 4, 4, 2, 2, 2, 2, 2, 4, 4]
      (seekTo (filePos u) (posInCentral u + byteBefore u)) =
    Returns ([0x02014b50, zvem ?h, zver ?h, zflg ?h, zhow ?h, ztim ?h, zcrc ?h, zsiz ?h, zlen ?h, znam ?h, zcext ?h,
      zcom ?h, zdsk ?h, zatt ?h, zatx ?h, zoff ?h], centralStart deflate fileType es i +
      sum_list [4, 2, 2, 2, 2, 4, 4, 4, 4, 2, 2, 2, 2, 2, 4, 4])"
    unfolding s assms(3)
  proof (rule getFields_at [where pre = pre])
    show "archiveBytes deflate fileType es =
      pre @ putFields [4, 2, 2, 2, 2, 4, 4, 4, 4, 2, 2, 2, 2, 2, 4, 4]
        [0x02014b50, zvem ?h, zver ?h, zflg ?h, zhow ?h, ztim ?h, zcrc ?h, zsiz ?h, zlen ?h, znam ?h, zcext ?h,
         zcom ?h, zdsk ?h, zatt ?h, zatx ?h, zoff ?h] @
      (take (znam ?h) (ziname ?h) @ take (zcext ?h) (zcextra ?h) @ take (zcom ?h) (zcomment ?h) @ post)"
      by (simp only: f(1) putcentral_fields append_assoc)
    show "centralStart deflate fileType es i = length pre" by (rule f(2) [symmetric])
    show "list_all2 (\<lambda>w x. x < width w) [4, 2, 2, 2, 2, 4, 4, 4, 4, 2, 2, 2, 2, 2, 4, 4]
      [0x02014b50, zvem ?h, zver ?h, zflg ?h, zhow ?h, ztim ?h, zcrc ?h, zsiz ?h, zlen ?h, znam ?h, zcext ?h,
       zcom ?h, zdsk ?h, zatt ?h, zatx ?h, zoff ?h]" using p unfolding plainFields_def by blast
  qed simp_all
  show ?thesis unfolding currentHeader_def g by (simp add: infoOf_def headerInfo_def)
qed

lemma checkCoherency_at:
  assumes "fits deflate fileType es" "i < length es" "uFile u = archiveBytes deflate fileType es" "byteBefore u = 0"
    "curInfo u = Some (headerInfo (headers deflate fileType es ! i))"
  defines "h \<equiv> headers deflate fileType es ! i"
  shows "checkCoherency u =
    Returns (True, length (fst (es ! i)) + 17, zoff h + 0x1e + length (fst (es ! i)), 17, zoff h + 30)"
proof -
  from file_at_local [OF assms(2), of deflate fileType] obtain pre post where
    f: "archiveBytes deflate fileType es =
        pre @ putlocal h @ entryData deflate (fst (es ! i)) (snd (es ! i)) @ post" "length pre = zoff h"
    unfolding h_def by blast
  have hh: "length (ziname h) = znam h" "length (zextra h) = zext h" "znam h = length (fst (es ! i))" "zext h = 17"
    using assms(2) by (simp_all add: h_def)
  have small: "zoff h + 47 + length (fst (es ! i)) < 2 ^ 31"
    using fits_length [OF assms(1)] f hh by (simp add: length_putlocal)
  have p: "plainFields h" using header_fields [OF assms(1,2)] by (simp add: headers_def h_def)
  have m: "zhow h = 0 \<or> zhow h = 8" using assms(2) by (simp add: h_def header_method entryMethod_def)
  have s: "seekTo (filePos u) (zoff h + byteBefore u) = zoff h"
    using small assms(4) by (simp add: seekTo_small)
  have g: "getFields (uFile u) [4, 2, 2, 2, 4, 4, 4, 4, 2, 2] (seekTo (filePos u) (zoff h + byteBefore u)) =
    Returns ([0x04034b50, zver h, zlflg h, zhow h, ztim h, zcrc h, zsiz h, zlen h, znam h, zext h],
      zoff h + sum_list [4, 2, 2, 2, 4, 4, 4, 4, 2, 2])"
    unfolding s assms(3)
  proof (rule getFields_at [where pre = pre])
    show "archiveBytes deflate fileType es =
      pre @ putFields [4, 2, 2, 2, 4, 4, 4, 4, 2, 2]
        [0x04034b50, zver h, zlflg h, zhow h, ztim h, zcrc h, zsiz h, zlen h, znam h, zext h] @
      (take (znam h) (ziname h) @ take (zext h) (zextra h) @ entryData deflate (fst (es ! i)) (snd (es ! i)) @ post)"
      by (simp only: f(1) putlocal_fields append_assoc)
    show "zoff h = length pre" by (rule f(2) [symmetric])
    show "list_all2 (\<lambda>w x. x < width w) [4, 2, 2, 2, 4, 4, 4, 4, 2, 2]
      [0x04034b50, zver h, zlflg h, zhow h, ztim h, zcrc h, zsiz h, zlen h, znam h, zext h]"
      using p unfolding plainFields_def by blast
  qed simp_all
  show ?thesis
    using small m hh g assms(5)
    by (simp add: checkCoherency_def h_def [symmetric] headerInfo_def w32_def)
qed

definition atEntry ::
  "(string \<Rightarrow> string) \<Rightarrow> (string \<Rightarrow> nat) \<Rightarrow> (string \<times> inFile) list \<Rightarrow> unz \<Rightarrow> nat \<Rightarrow> bool" where
  "atEntry deflate fileType es u i \<longleftrightarrow>
     uFile u = archiveBytes deflate fileType es \<and> numberEntry u = length es \<and> byteBefore u = 0 \<and>
     offsetCentral u = centralStart deflate fileType es 0 \<and> numFile u = i \<and>
     posInCentral u = centralStart deflate fileType es i \<and> currentOk u \<and>
     curInfo u = Some (headerInfo (headers deflate fileType es ! i))"

lemma goToCurrent_at:
  assumes "fits deflate fileType es" "i < length es" "uFile u = archiveBytes deflate fileType es" "byteBefore u = 0"
    "posInCentral u = centralStart deflate fileType es i"
  shows "goToCurrent u = Returns (u\<lparr>filePos := centralStart deflate fileType es i + 46, currentOk := True,
    curInfo := Some (headerInfo (headers deflate fileType es ! i))\<rparr>)"
  unfolding goToCurrent_def currentHeader_at [OF assms] by simp

lemma centralStart_Suc:
  assumes "i < length es"
  shows "centralStart deflate fileType es (Suc i) = centralStart deflate fileType es i + 46 + length (fst (es ! i)) + 9"
proof -
  let ?hs = "headers deflate fileType es"
  have "take (Suc i) ?hs = take i ?hs @ [?hs ! i]" using assms by (simp add: take_Suc_conv_app_nth)
  moreover have "length (putcentral (?hs ! i)) = 46 + length (fst (es ! i)) + 9"
    using assms by (simp add: length_putcentral)
  ultimately show ?thesis by (simp add: centralStart_def centralPart_def)
qed

lemma nextFile_at:
  assumes "fits deflate fileType es" "atEntry deflate fileType es u i" "Suc i < length es"
  shows "\<exists>u'. unzGoToNextFile u = Returns u' \<and> atEntry deflate fileType es u' (Suc i) \<and> cached u' = cached u"
proof -
  have "centralStart deflate fileType es (Suc i) < 2 ^ 31"
    using file_at_central [OF assms(3), of deflate fileType] fits_length [OF assms(1)] by auto
  then have p: "w32 (posInCentral u + 0x2e + length (fst (es ! i)) + 9) = centralStart deflate fileType es (Suc i)"
    using assms(2,3) by (simp add: atEntry_def centralStart_Suc w32_def)
  let ?v = "u\<lparr>posInCentral := centralStart deflate fileType es (Suc i), numFile := numFile u + 1\<rparr>"
  have "unzGoToNextFile u = goToCurrent ?v"
    using assms(2,3) p by (simp add: unzGoToNextFile_def atEntry_def headerInfo_def)
  also have "\<dots> = Returns (?v\<lparr>filePos := centralStart deflate fileType es (Suc i) + 46, currentOk := True,
    curInfo := Some (headerInfo (headers deflate fileType es ! Suc i))\<rparr>)"
    using assms by (intro goToCurrent_at) (auto simp: atEntry_def)
  finally show ?thesis using assms(2) by (simp add: atEntry_def)
qed

section \<open>Opening\<close>

lemma unzOpen_at:
  assumes "fits deflate fileType es" "es \<noteq> []"
  shows "\<exists>u. unzOpen before (archiveBytes deflate fileType es) = Returns (Some u) \<and>
    atEntry deflate fileType es u 0 \<and> cached u = None"
proof -
  let ?l = "localPart deflate fileType 0 es" and ?c = "centralPart (headers deflate fileType es)"
  let ?f = "archiveBytes deflate fileType es"
  have f: "?f = (?l @ ?c) @ putend (length es) (length ?c) (length ?l) []"
    by (simp add: archiveBytes_def headers_def Let_def)
  have small: "length ?l + length ?c + 22 < 0x05000000" using fits_length [OF assms(1)] by (simp add: f)
  have n: "length es < 0x4b50" using assms(1) unfolding fits_def by blast
  have s: "searchCentralDir before ?f = Some (length (?l @ ?c))"
    unfolding f using small n by (intro searchCentralDir_end) simp_all
  have g: "getFields ?f [4, 2, 2, 2, 2, 4, 4, 2] (length (?l @ ?c)) =
    Returns ([0x06054b50, 0, 0, length es, length es, length ?c, length ?l, 0],
      length (?l @ ?c) + sum_list [4, 2, 2, 2, 2, 4, 4, 2])"
  proof (rule getFields_at [where pre = "?l @ ?c" and post = "[]"])
    show "?f = (?l @ ?c) @ putFields [4, 2, 2, 2, 2, 4, 4, 2]
        [0x06054b50, 0, 0, length es, length es, length ?c, length ?l, 0] @ []"
      unfolding putend_fields [symmetric] f by (rule refl)
  qed (use small n in \<open>simp_all add: width_def\<close>)
  have w: "w32 (length ?l + length ?c) = length ?l + length ?c" using small by (simp add: w32_def)
  have start: "centralStart deflate fileType es 0 = length ?l" by (simp add: centralStart_def centralPart_def)
  have go: "goToCurrent \<lparr>uFile = ?f, filePos = q, numberEntry = length es, byteBefore = 0,
      offsetCentral = length ?l, posInCentral = length ?l, numFile = 0, currentOk = False, curInfo = None,
      cached = None\<rparr> =
    Returns \<lparr>uFile = ?f, filePos = length ?l + 46, numberEntry = length es, byteBefore = 0,
      offsetCentral = length ?l, posInCentral = length ?l, numFile = 0, currentOk = True,
      curInfo = Some (headerInfo (headers deflate fileType es ! 0)), cached = None\<rparr>" for q
    using assms start by (subst goToCurrent_at [OF assms(1)]) simp_all
  show ?thesis
    using s g w go start by (simp add: unzOpen_def unzGoToFirstFile_def atEntry_def)
qed

section \<open>Describing an entry\<close>

lemma find_sub_subset: "find_sub p s = Some i \<Longrightarrow> set p \<subseteq> set s"
  by (induction p s arbitrary: i rule: find_sub.induct) (auto split: if_splits dest!: set_mono_prefix)

lemma afterFirst_fresh: "ch \<in> set p \<Longrightarrow> ch \<notin> set s \<Longrightarrow> afterFirst p s = None"
  by (cases "find_sub p s") (auto simp: afterFirst_def dest: find_sub_subset)

lemma chopName_plain: "plainFileName s \<Longrightarrow> chopName s = s"
proof -
  assume p: "plainFileName s"
  then have "s \<noteq> []" by (simp add: plainFileName_def)
  with p have hd: "\<not> isSlash (hd s)" by (auto simp: plainFileName_def)
  have colon: "\<not> (2 \<le> length s \<and> s ! 1 = CHR '':'')"
    using p by (auto simp: plainFileName_def dest!: bspec [where x = "s ! 1"])
  have sl: "CHR 0x5C \<notin> set s" "CHR ''/'' \<notin> set s" using p by (auto simp: plainFileName_def isSlash_def)
  show ?thesis
    using hd colon sl
    by (subst chopName.simps) (auto simp: afterFirst_fresh [of "CHR 0x5C"] afterFirst_fresh [of "CHR ''/''"])
qed

lemma foldr_putlg: "foldr (\<lambda>ch x. code ch + 256 * x) (putlg t) 0 = t mod 2 ^ 32"
proof -
  have "foldr (\<lambda>ch x. code ch + 256 * x) (putlg t) 0 =
    t mod 65536 mod 65536 + 65536 * (t div 65536 mod 65536)"
    using short_split [of "t mod 65536"] short_split [of "t div 65536"] by (simp add: putlg_def putsh_def algebra_simps)
  then show ?thesis using long_split [of t] by (simp only: mod_mod_trivial)
qed

lemma filetime2timet_bound: "filetime2timet ft < 2 ^ 32"
proof -
  have "nat (x mod 2 ^ 32) < 2 ^ 32" for x :: int
    by (simp add: nat_less_iff)
  then show ?thesis unfolding filetime2timet_def Let_def by blast
qed

lemma entryTimes_utLocal:
  "entryTimes (utLocal f) dos =
   Returns (UnixTime (filetime2timet (lastWrite f)), UnixTime (filetime2timet (lastAccess f)),
     UnixTime (filetime2timet (creation f)))"
proof -
  let ?m = "filetime2timet (lastWrite f)" and ?a = "filetime2timet (lastAccess f)"
    and ?c = "filetime2timet (creation f)"
  have u: "utLocal f = CHR ''U'' # CHR ''T'' # byteChar 13 # byteChar 0 # byteChar 7 # putlg ?m @ putlg ?a @ putlg ?c"
    by (simp add: utLocal_def)
  have ut: "findUT (utLocal f) 0 = Some 0"
    by (subst findUT.simps) (simp add: u)
  have fl: "code (utLocal f ! 4) = 7" by (simp add: u)
  have "timeAt (utLocal f) 5 = Returns ?m" "timeAt (utLocal f) 9 = Returns ?a" "timeAt (utLocal f) 13 = Returns ?c"
    using filetime2timet_bound [of "lastWrite f"] filetime2timet_bound [of "lastAccess f"]
      filetime2timet_bound [of "creation f"]
    by (simp_all add: timeAt_def numberAt_def) (simp_all add: u foldr_putlg)
  moreover have "bit (7 :: nat) 0" "bit (7 :: nat) 1" "bit (7 :: nat) 2" by (simp_all add: bit_iff_odd)
  ultimately show ?thesis by (simp add: entryTimes_def ut fl takeTime_def)
qed

definition keptAttributes :: "nat \<Rightarrow> nat" where
  "keptAttributes fa =
     (if bit fa 5 then 0x20 else 0) + (if bit fa 1 then 2 else 0) + (if bit fa 0 then 1 else 0) +
     (if bit fa 2 then 4 else 0)"

lemma low_bits: "j < 6 \<Longrightarrow> bit (a + 64 * k) j \<longleftrightarrow> bit a j" for a k :: nat
proof -
  assume "j < 6"
  have "take_bit 6 (a + 64 * k) = take_bit 6 a" by (simp add: take_bit_eq_mod)
  then show ?thesis using \<open>j < 6\<close> by (metis bit_take_bit_iff)
qed

lemma sum_bits:
  fixes p0 p1 p2 p5 :: bool
  defines "a \<equiv> (if p0 then 0x01 else 0) + (if p1 then 0x02 else 0) + (if p2 then 0x04 else (0::nat)) +
    (if p5 then 0x20 else 0)"
  shows "bit a 0 = p0" "bit a 1 = p1" "bit a 2 = p2" "bit a 4 = False" "bit a 5 = p5"
  by (simp_all add: a_def bit_iff_odd)

lemma entryAttr_written:
  assumes "\<not> bit (fileAttributes f) 4" "fiExternal i = zipAttributes f" "fiVersion i = 0xB17"
  shows "entryAttr i = keptAttributes (fileAttributes f)"
proof -
  let ?fa = "fileAttributes f"
  define low where "low = (if bit ?fa 0 then 0x01 else 0) + (if bit ?fa 1 then 0x02 else 0) +
    (if bit ?fa 2 then 0x04 else (0::nat)) + (if bit ?fa 5 then 0x20 else 0)"
  define high where "high = 0x02000000 + 0x00040000 + (if bit ?fa 0 then 0 else 0x00020000) +
    (if executableMark (fileBytes f) then 0x00010000 else (0::nat))"
  have a: "zipAttributes f = low + 64 * high"
    using assms(1) by (simp add: zipAttributes_def Let_def low_def high_def)
  have b: "bit (zipAttributes f) 0 = bit ?fa 0" "bit (zipAttributes f) 1 = bit ?fa 1" "bit (zipAttributes f) 2 = bit ?fa 2"
    "bit (zipAttributes f) 4 = False" "bit (zipAttributes f) 5 = bit ?fa 5"
    unfolding a by (simp_all only: low_bits low_def sum_bits)
  show ?thesis
    by (simp only: entryAttr_def Let_def assms(2,3) b) (simp add: keptAttributes_def)
qed

definition describedEntry :: "(string \<Rightarrow> string) \<Rightarrow> string \<times> inFile \<Rightarrow> zipEntry" where
  "describedEntry deflate e =
     \<lparr>zeName = fst e, zeAttr = keptAttributes (fileAttributes (snd e)),
      zeMtime = UnixTime (filetime2timet (lastWrite (snd e))), zeAtime = UnixTime (filetime2timet (lastAccess (snd e))),
      zeCtime = UnixTime (filetime2timet (creation (snd e))),
      zeComp = length (entryData deflate (fst e) (snd e)), zeUnc = length (fileBytes (snd e))\<rparr>"

lemma currentInfoName_at:
  assumes "fits deflate fileType es" "i < length es" "atEntry deflate fileType es u i"
  shows "currentInfoName u =
    Returns (Some (headerInfo (headers deflate fileType es ! i), fst (es ! i)),
      centralStart deflate fileType es i + 46 + length (fst (es ! i)))"
proof -
  let ?h = "headers deflate fileType es ! i" and ?n = "fst (es ! i)"
  from file_at_central [OF assms(2), of deflate fileType] obtain pre post where
    f: "archiveBytes deflate fileType es = pre @ putcentral ?h @ post"
      "length pre = centralStart deflate fileType es i"
    by blast
  have c: "currentHeader u = Returns (UNZ_OK, headerInfo ?h, centralStart deflate fileType es i + 46)"
    using assms by (intro currentHeader_at) (simp_all add: atEntry_def)
  have l: "length ?n < 260" using fits_entry [OF assms(1), of "es ! i"] assms(2) by (simp add: plainFileName_def)
  define q where "q = centralStart deflate fileType es i + 46"
  have "take (length ?n) (drop (length pre + 46) (pre @ putcentral ?h @ post)) = ?n"
    using assms(2) by (simp add: putcentral_fields)
  then have t: "take (length ?n) (drop q (uFile u)) = ?n"
    using assms(3) by (simp only: atEntry_def f q_def)
  then have m: "min (length (uFile u) - q) (length ?n) = length ?n" by (metis length_take length_drop min.commute)
  have k: "fiNameSize (headerInfo ?h) = length ?n" using assms(2) by (simp add: headerInfo_def)
  have "currentInfoName u = Returns (Some (headerInfo ?h, ?n), q + length ?n)"
    using l m t by (simp add: currentInfoName_def c q_def [symmetric] k min.absorb1 less_imp_le)
  then show ?thesis by (simp add: q_def)
qed

lemma describe_at:
  assumes "fits deflate fileType es" "i < length es"
  shows "describe (headerInfo (headers deflate fileType es ! i)) (fst (es ! i)) (utLocal (snd (es ! i))) =
    Returns (describedEntry deflate (es ! i))"
proof -
  let ?h = "headers deflate fileType es ! i"
  have p: "plainFileName (fst (es ! i))" and d: "\<not> bit (fileAttributes (snd (es ! i))) 4"
    using fits_entry [OF assms(1), of "es ! i"] assms(2) by auto
  then have t: "takeWhile (\<lambda>ch. ch \<noteq> CHR 0x00) (fst (es ! i)) = fst (es ! i)" "length (fst (es ! i)) < 260"
    by (auto simp: plainFileName_def)
  have a: "entryAttr (headerInfo ?h) = keptAttributes (fileAttributes (snd (es ! i)))"
    using d by (rule entryAttr_written) (subst header_shape [OF assms(2)]; simp add: headerInfo_def entryHeader_def)+
  have s: "zsiz ?h = length (entryData deflate (fst (es ! i)) (snd (es ! i)))"
    "zlen ?h = length (fileBytes (snd (es ! i)))"
    using assms(2) by (subst header_shape; simp add: entryHeader_def)+
  show ?thesis
    unfolding describe_def t(1) entryTimes_utLocal a chopName_plain [OF p]
    using t(2) by (simp add: describedEntry_def) (simp add: headerInfo_def s)
qed

lemma extra_at:
  assumes "i < length es"
  shows "take 17 (drop (zoff (headers deflate fileType es ! i) + 30 + length (fst (es ! i)))
    (archiveBytes deflate fileType es)) = utLocal (snd (es ! i))"
proof -
  let ?h = "headers deflate fileType es ! i"
  from file_at_local [OF assms, of deflate fileType] obtain pre post where
    f: "archiveBytes deflate fileType es =
        pre @ putlocal ?h @ entryData deflate (fst (es ! i)) (snd (es ! i)) @ post" "length pre = zoff ?h"
    by blast
  show ?thesis
    using assms by (simp add: f(1) putlocal_fields f(2) [symmetric])
qed

lemma local_bound:
  assumes "fits deflate fileType es" "i < length es"
  shows "zoff (headers deflate fileType es ! i) + 47 + length (fst (es ! i)) +
    length (entryData deflate (fst (es ! i)) (snd (es ! i))) < 2 ^ 31"
proof -
  from file_at_local [OF assms(2), of deflate fileType] obtain pre post where
    f: "archiveBytes deflate fileType es = pre @ putlocal (headers deflate fileType es ! i) @
        entryData deflate (fst (es ! i)) (snd (es ! i)) @ post"
      "length pre = zoff (headers deflate fileType es ! i)"
    by blast
  show ?thesis
    using fits_length [OF assms(1)] assms(2) by (simp add: f(1) f(2) [symmetric] length_putlocal)
qed

lemma moveTo_at:
  assumes "fits deflate fileType es" "i < length es"
    "atEntry deflate fileType es u i \<or> atEntry deflate fileType es u j \<and> i = Suc j"
  shows "\<exists>u'. goToIndex (Suc (Suc k)) u i = Returns u' \<and> atEntry deflate fileType es u' i \<and> cached u' = cached u"
proof (cases "atEntry deflate fileType es u i")
  case True
  then show ?thesis by (simp add: goToIndex_def) (simp add: atEntry_def)
next
  case False
  then have j: "atEntry deflate fileType es u j" "i = Suc j" using assms(3) by auto
  then have n: "numFile u = j" by (simp add: atEntry_def)
  from nextFile_at [OF assms(1) j(1)] assms(2) j(2) obtain u' where
    u': "unzGoToNextFile u = Returns u'" "atEntry deflate fileType es u' i" "cached u' = cached u" by auto
  then have "numFile u' = i" by (simp add: atEntry_def)
  with u' n j(2) show ?thesis by (simp add: goToIndex_def)
qed

lemma zipGet_at:
  assumes "fits deflate fileType es" "i < length es"
    "atEntry deflate fileType es u i \<or> atEntry deflate fileType es u j \<and> i = Suc j"
    "\<forall>k ze. cached u = Some (k, ze) \<longrightarrow> k \<noteq> i"
  shows "\<exists>u'. zipGet (Suc (Suc k)) u i = Returns (u', ZR_OK, Some (describedEntry deflate (es ! i))) \<and>
    atEntry deflate fileType es u' i \<and> cached u' = Some (i, describedEntry deflate (es ! i))"
proof -
  from moveTo_at [OF assms(1-3)] obtain v where
    v: "goToIndex (Suc (Suc k)) u i = Returns v" "atEntry deflate fileType es v i" by blast
  let ?h = "headers deflate fileType es ! i" and ?n = "fst (es ! i)"
  define q where "q = centralStart deflate fileType es i + 46 + length ?n"
  have c: "currentInfoName v = Returns (Some (headerInfo ?h, ?n), q)"
    unfolding q_def by (rule currentInfoName_at [OF assms(1,2) v(2)])
  have k: "checkCoherency (v\<lparr>filePos := q\<rparr>) =
    Returns (True, length ?n + 17, zoff ?h + 0x1e + length ?n, 17, zoff ?h + 30)"
    using v(2) by (intro checkCoherency_at [OF assms(1,2)]) (simp_all add: atEntry_def)
  have s: "seekTo (zoff ?h + 30) (zoff ?h + 0x1e + length ?n) = zoff ?h + 30 + length ?n"
    using local_bound [OF assms(1,2)] by (simp add: seekTo_small)
  have e: "take 17 (drop (zoff ?h + 30 + length ?n) (uFile v)) = utLocal (snd (es ! i))"
    using extra_at [OF assms(2)] v(2) by (simp add: atEntry_def)
  have m: "min (length (uFile v) - (zoff ?h + 30 + length ?n)) 17 = 17"
    using arg_cong [OF e, of length] by simp
  have g: "zipGetEntry (Suc (Suc k)) u i =
    Returns (v\<lparr>filePos := zoff ?h + 30 + length ?n + 17, cached := Some (i, describedEntry deflate (es ! i))\<rparr>, ZR_OK,
      Some (describedEntry deflate (es ! i)))"
    by (simp add: zipGetEntry_def v(1) c k Let_def s e m describe_at [OF assms(1,2)])
  have "numberEntry u = length es" using assms(3) by (auto simp: atEntry_def)
  then have "zipGet (Suc (Suc k)) u i = zipGetEntry (Suc (Suc k)) u i"
    using assms(2,4) by (auto simp: zipGet_def split: option.splits)
  with g v(2) show ?thesis by (simp add: atEntry_def)
qed

end
