(* ===== verification/ZipRoundtrip.thy ===== *)
theory ZipRoundtrip
  imports ZipEntries
begin

text \<open>
  The data of the entries and the whole round trip. \<open>entry_source\<close> is what a file being unpacked offers to the loop
  that writes it, whether it was stored or deflated; for a deflated entry the decompressor has to keep its promise.
\<close>

section \<open>A file being unpacked\<close>

locale entry_source =
  fixes inflate :: "'z inflater" and owes :: "unz \<Rightarrow> 'z pfile \<Rightarrow> string \<Rightarrow> bool"
  assumes reads: "owes u pf d \<Longrightarrow> d \<noteq> [] \<Longrightarrow> pfRestC pf + 3 \<le> fuel \<Longrightarrow>
      \<exists>p pf'. unzReadCurrentFile inflate fuel u (Some pf) =
          Returns (u\<lparr>filePos := p\<rparr>, Some pf', Inr (take 16384 d), length d \<le> 16384) \<and>
        owes (u\<lparr>filePos := p\<rparr>) pf' (drop 16384 d) \<and> pfRestC pf' \<le> pfRestC pf"
    and nothing_left: "owes u pf [] \<Longrightarrow> pfRestU pf = 0"
begin

lemma unzipLoop_writes:
  "owes u pf d \<Longrightarrow> length d + pfRestC pf + 3 \<le> fuel \<Longrightarrow>
   \<exists>p. unzipLoop inflate fuel u (Some pf) w =
     Returns (u\<lparr>filePos := p\<rparr>, w @ d, if d = [] then ZR_FLATE else ZR_OK)"
proof (induction fuel arbitrary: u pf d w)
  case (Suc fuel)
  show ?case
  proof (cases "d = []")
    case True
    then have "pfRestU pf = 0" using Suc.prems(1) nothing_left by simp
    with True show ?thesis
      by (intro exI [of _ "filePos u"]) (simp add: unzReadCurrentFile_def)
  next
    case False
    have "pfRestC pf + 3 \<le> Suc fuel" using Suc.prems(2) by simp
    from reads [OF Suc.prems(1) False this] obtain p pf' where
      r: "unzReadCurrentFile inflate (Suc fuel) u (Some pf) =
          Returns (u\<lparr>filePos := p\<rparr>, Some pf', Inr (take 16384 d), length d \<le> 16384)"
        "owes (u\<lparr>filePos := p\<rparr>) pf' (drop 16384 d)" "pfRestC pf' \<le> pfRestC pf"
      by blast
    show ?thesis
    proof (cases "length d \<le> 16384")
      case True
      with r False show ?thesis by auto
    next
      case big: False
      then have "length (drop 16384 d) + pfRestC pf' + 3 \<le> fuel" using Suc.prems(2) r(3) by simp
      from Suc.IH [OF r(2) this, of "w @ take 16384 d"] obtain q where
        "unzipLoop inflate fuel (u\<lparr>filePos := p\<rparr>) (Some pf') (w @ take 16384 d) =
          Returns (u\<lparr>filePos := q\<rparr>, w @ d, ZR_OK)"
        using big by auto
      with r(1) big False show ?thesis by auto
    qed
  qed
qed simp

end

section \<open>Stored entries\<close>

definition placed :: "unz \<Rightarrow> 'z pfile \<Rightarrow> string \<Rightarrow> bool" where
  "placed u pf rest \<longleftrightarrow>
     pfRestC pf = length rest \<and> \<not> pfEncrypted pf \<and> pfEncLeft pf = 0 \<and> byteBefore u = 0 \<and>
     pfPos pf + length rest < 2 ^ 31 \<and> take (length rest) (drop (pfPos pf) (uFile u)) = rest"

lemma minus32_le: "b \<le> a \<Longrightarrow> a < 2 ^ 32 \<Longrightarrow> minus32 a b = a - b"
proof -
  assume "b \<le> a" "a < 2 ^ 32"
  then have "(int a - int b) mod 2 ^ 32 = int (a - b)" by (simp add: of_nat_diff)
  then show ?thesis by (simp add: minus32_def)
qed

lemma fillBuffer_placed:
  assumes "placed u pf rest" "pfAvail pf = []" "rest \<noteq> []"
  shows "\<exists>p. fillBuffer u pf = (u\<lparr>filePos := p\<rparr>,
      Some (pf\<lparr>pfAvail := take 16384 rest, pfKeys := pfKeys pf,
        pfPos := pfPos pf + length (take 16384 rest), pfRestC := length (drop 16384 rest)\<rparr>)) \<and>
    placed (u\<lparr>filePos := p\<rparr>) (pf\<lparr>pfAvail := take 16384 rest, pfKeys := pfKeys pf,
        pfPos := pfPos pf + length (take 16384 rest), pfRestC := length (drop 16384 rest)\<rparr>) (drop 16384 rest)"
proof -
  let ?m = "min 16384 (length rest)" and ?f = "drop (pfPos pf) (uFile u)"
  have r: "take (length rest) ?f = rest" using assms(1) by (simp add: placed_def)
  then have l: "length rest \<le> length ?f" by (metis length_take min.cobounded1)
  have piece: "take ?m ?f = take 16384 rest" using arg_cong [OF r, of "take 16384"] by (simp add: min.commute)
  have later: "take (length rest - 16384) (drop (pfPos pf + ?m) (uFile u)) = drop 16384 rest"
  proof (cases "16384 \<le> length rest")
    case True
    have "drop 16384 (take (length rest) ?f) = drop 16384 rest" using r by simp
    then show ?thesis using True by (simp add: drop_take add.commute)
  qed simp
  have s: "seekTo q (pfPos pf + byteBefore u) = pfPos pf" for q
    using assms(1) by (simp add: placed_def seekTo_small)
  have "pfPos pf + ?m < 2 ^ 31" using assms(1) by (simp add: placed_def min_def split: if_splits)
  then have w: "w32 (pfPos pf + ?m) = pfPos pf + ?m" by (simp add: w32_def)
  have pos: "pfPos pf + min (length rest) 16384 + (length rest - 16384) = pfPos pf + length rest"
    by (simp add: min_def)
  show ?thesis
    using assms piece later s w l pos
    by (intro exI [of _ "pfPos pf + ?m"]) (simp add: fillBuffer_def placed_def Let_def min.commute)
qed

definition storedOwes :: "unz \<Rightarrow> 'z pfile \<Rightarrow> string \<Rightarrow> bool" where
  "storedOwes u pf d \<longleftrightarrow>
     pfMethod pf = 0 \<and> pfAvail pf = [] \<and> pfRestU pf = length d \<and> placed u pf d"

lemma skipEncHead_none: "pfEncLeft pf = 0 \<Longrightarrow> skipEncHead pf = Some pf"
  by (simp add: skipEncHead_def)

lemma stored_reads:
  assumes "storedOwes u pf d" "d \<noteq> []" "pfRestC pf + 3 \<le> fuel"
  shows "\<exists>p pf'. unzReadCurrentFile inflate fuel u (Some pf) =
      Returns (u\<lparr>filePos := p\<rparr>, Some pf', Inr (take 16384 d), length d \<le> 16384) \<and>
    storedOwes (u\<lparr>filePos := p\<rparr>) pf' (drop 16384 d) \<and> pfRestC pf' \<le> pfRestC pf"
proof -
  have p: "placed u pf d" and a: "pfAvail pf = []" and m: "pfMethod pf = 0" and ru: "pfRestU pf = length d"
    using assms(1) by (simp_all add: storedOwes_def)
  let ?pf = "pf\<lparr>pfAvail := take 16384 d, pfKeys := pfKeys pf,
        pfPos := pfPos pf + length (take 16384 d), pfRestC := length (drop 16384 d)\<rparr>"
  from fillBuffer_placed [OF p a assms(2)] obtain q where
    q: "fillBuffer u pf = (u\<lparr>filePos := q\<rparr>, Some ?pf)" "placed (u\<lparr>filePos := q\<rparr>) ?pf (drop 16384 d)" by blast
  have e: "skipEncHead ?pf = Some ?pf" using p by (intro skipEncHead_none) (simp add: placed_def)
  let ?pf2 = "?pf\<lparr>pfCrc := crc32 (pfCrc pf) (take 16384 d), pfRestU := length d - min 16384 (length d), pfAvail := []\<rparr>"
  have small: "length d < 2 ^ 32" using p by (simp add: placed_def)
  have c: "copyStored ?pf (min 16384 (length d)) = (?pf2, take 16384 d)"
  proof -
    have k: "min (min 16384 (length d)) (length (pfAvail ?pf)) = min 16384 (length d)" by simp
    have t: "take (min 16384 (length d)) (pfAvail ?pf) = take 16384 d" "drop (min 16384 (length d)) (pfAvail ?pf) = []"
      by (simp_all add: min_def)
    have r: "minus32 (pfRestU ?pf) (min 16384 (length d)) = length d - min 16384 (length d)"
      using small ru by (simp add: minus32_le)
    show ?thesis unfolding copyStored_def Let_def k t r by simp
  qed
  obtain k where k: "fuel = Suc (Suc k)" using assms(3) by (metis add_2_eq_Suc' le_add_diff_inverse2 add.commute
      numeral_3_eq_3 add_Suc_shift Suc_le_D add_Suc_right One_nat_def Suc_eq_plus1 add_leE)
  have "readLoop inflate fuel u pf (min 16384 (length d)) [] False =
      Returns (u\<lparr>filePos := q\<rparr>, ?pf2, Inr (take 16384 d), length d - min 16384 (length d) = 0)"
    unfolding k using q(1) e c assms(2) m by (simp add: min.commute)
  then have "unzReadCurrentFile inflate fuel u (Some pf) =
      Returns (u\<lparr>filePos := q\<rparr>, Some ?pf2, Inr (take 16384 d), length d - min 16384 (length d) = 0)"
    by (simp add: unzReadCurrentFile_def ru)
  moreover have "(length d - min 16384 (length d) = 0) = (length d \<le> 16384)" by auto
  ultimately have rd: "unzReadCurrentFile inflate fuel u (Some pf) =
      Returns (u\<lparr>filePos := q\<rparr>, Some ?pf2, Inr (take 16384 d), length d \<le> 16384)" by (simp only:)
  have "storedOwes (u\<lparr>filePos := q\<rparr>) ?pf2 (drop 16384 d)"
    using q(2) m by (auto simp: storedOwes_def placed_def)
  moreover have "pfRestC ?pf2 \<le> pfRestC pf" using p by (simp add: placed_def)
  ultimately show ?thesis using rd by (intro exI [of _ q] exI [of _ ?pf2] conjI)
qed

interpretation stored: entry_source inflate storedOwes for inflate :: "'z inflater"
  by unfold_locales (rule stored_reads, assumption+, simp add: storedOwes_def)

section \<open>Deflated entries\<close>

text \<open>
  The promise of a decompressor: \<open>owed\<close> is what a state still has to give out for the input that is to come. A call
  with room gives the next part of it and takes input; it stops short only if it has taken all of its input and more is
  to come, or has given all.
\<close>

definition pays :: "'z inflater \<Rightarrow> ('z \<Rightarrow> string \<Rightarrow> string option) \<Rightarrow> bool" where
  "pays inflate owed \<longleftrightarrow>
     (\<forall>st a b n d. owed st (a @ b) = Some d \<longrightarrow> d \<noteq> [] \<longrightarrow> 0 < n \<longrightarrow> (a = [] \<longrightarrow> b = []) \<longrightarrow>
        (\<exists>st' rest k c. inflate st a n = (st', rest, take k d, c) \<and> k \<le> n \<and> k \<le> length d \<and> c \<noteq> Z_ERROR \<and>
           (c = Z_STREAM_END \<longrightarrow> k = length d) \<and> owed st' (rest @ b) = Some (drop k d) \<and>
           (k = n \<or> k = length d \<or> rest = [] \<and> b \<noteq> [])))"

lemma paysE:
  assumes "pays inflate owed" "owed st (a @ b) = Some d" "a = [] \<Longrightarrow> b = []" "d \<noteq> []" "0 < n"
  obtains st' rest k c where
    "inflate st a n = (st', rest, take k d, c)" "k \<le> n" "k \<le> length d" "c \<noteq> Z_ERROR"
    "c = Z_STREAM_END \<longrightarrow> k = length d" "owed st' (rest @ b) = Some (drop k d)"
    "k = n \<or> k = length d \<or> rest = [] \<and> b \<noteq> []"
proof -
  have "\<exists>st' rest k c. inflate st a n = (st', rest, take k d, c) \<and> k \<le> n \<and> k \<le> length d \<and> c \<noteq> Z_ERROR \<and>
      (c = Z_STREAM_END \<longrightarrow> k = length d) \<and> owed st' (rest @ b) = Some (drop k d) \<and>
      (k = n \<or> k = length d \<or> rest = [] \<and> b \<noteq> [])"
    by (rule assms(1) [unfolded pays_def, rule_format, OF assms(2,4,5)]) (use assms(3) in blast)
  then show thesis using that by blast
qed

definition inflaterFor :: "(string \<Rightarrow> string) \<Rightarrow> 'z inflater \<Rightarrow> 'z \<Rightarrow> bool" where
  "inflaterFor deflate inflate init \<longleftrightarrow> (\<exists>owed. pays inflate owed \<and> (\<forall>d. owed init (deflate d) = Some d))"

definition deflatedOwes :: "'z inflater \<Rightarrow> unz \<Rightarrow> 'z pfile \<Rightarrow> string \<Rightarrow> bool" where
  "deflatedOwes inflate u pf d \<longleftrightarrow>
     (\<exists>owed rest. pays inflate owed \<and> owed (pfStream pf) (pfAvail pf @ rest) = Some d \<and> placed u pf rest) \<and>
     pfMethod pf \<noteq> 0 \<and> pfRestU pf = length d \<and> length d < 2 ^ 32"

text \<open>A call finds something to read, unless nothing is left.\<close>

lemma fill_deflated:
  assumes "deflatedOwes inflate u pf d"
  shows "\<exists>p pf' owed rest. fillBuffer u pf = (u\<lparr>filePos := p\<rparr>, Some pf') \<and> pays inflate owed \<and>
    owed (pfStream pf') (pfAvail pf' @ rest) = Some d \<and> placed (u\<lparr>filePos := p\<rparr>) pf' rest \<and>
    (pfAvail pf' = [] \<longrightarrow> rest = []) \<and> pfMethod pf' \<noteq> 0 \<and> pfRestU pf' = length d \<and>
    pfRestC pf' + (if pfAvail pf = [] \<and> 0 < pfRestC pf then 1 else 0) \<le> pfRestC pf"
proof -
  from assms obtain owed rest where
    o: "pays inflate owed" "owed (pfStream pf) (pfAvail pf @ rest) = Some d" "placed u pf rest"
      "pfMethod pf \<noteq> 0" "pfRestU pf = length d"
    unfolding deflatedOwes_def by blast
  show ?thesis
  proof (cases "pfAvail pf = [] \<and> rest \<noteq> []")
    case True
    let ?pf = "pf\<lparr>pfAvail := take 16384 rest, pfKeys := pfKeys pf,
        pfPos := pfPos pf + length (take 16384 rest), pfRestC := length (drop 16384 rest)\<rparr>"
    from fillBuffer_placed [OF o(3)] True obtain p where
      p: "fillBuffer u pf = (u\<lparr>filePos := p\<rparr>, Some ?pf)" "placed (u\<lparr>filePos := p\<rparr>) ?pf (drop 16384 rest)" by blast
    have "pfRestC pf = length rest" using o(3) by (simp add: placed_def)
    moreover have "Suc (length rest - 16384) \<le> length rest" "0 < length rest" using True by (cases rest; simp)+
    ultimately show ?thesis using True o p
      by (intro exI [of _ p] exI [of _ ?pf] exI [of _ owed] exI [of _ "drop 16384 rest"]) auto
  next
    case False
    then have f: "fillBuffer u pf = (u\<lparr>filePos := filePos u\<rparr>, Some pf)"
      using o(3) by (auto simp: fillBuffer_def placed_def)
    have pl: "placed (u\<lparr>filePos := filePos u\<rparr>) pf rest" using o(3) by simp
    have c: "pfRestC pf = length rest" using o(3) by (simp add: placed_def)
    show ?thesis using False o f c pl
      by (intro exI [of _ "filePos u"] exI [of _ pf] exI [of _ owed] exI [of _ rest]) auto
  qed
qed

lemma readLoop_deflated:
  "deflatedOwes inflate u pf d \<Longrightarrow> 0 < n \<Longrightarrow> n \<le> length d \<Longrightarrow>
   pfRestC pf + (if pfAvail pf = [] then 2 else 3) \<le> fuel \<Longrightarrow>
   \<exists>p pf'. readLoop inflate fuel u pf n out False =
       Returns (u\<lparr>filePos := p\<rparr>, pf', Inr (out @ take n d), n = length d) \<and>
     deflatedOwes inflate (u\<lparr>filePos := p\<rparr>) pf' (drop n d) \<and> pfRestC pf' \<le> pfRestC pf"
proof (induction fuel arbitrary: u pf d n out)
  case (Suc fuel)
  from fill_deflated [OF Suc.prems(1)] obtain p pf1 owed rest where
    f: "fillBuffer u pf = (u\<lparr>filePos := p\<rparr>, Some pf1)" "pays inflate owed"
      "owed (pfStream pf1) (pfAvail pf1 @ rest) = Some d" "placed (u\<lparr>filePos := p\<rparr>) pf1 rest"
      "pfAvail pf1 = [] \<Longrightarrow> rest = []" "pfMethod pf1 \<noteq> 0" "pfRestU pf1 = length d"
      "pfRestC pf1 + (if pfAvail pf = [] \<and> 0 < pfRestC pf then 1 else 0) \<le> pfRestC pf"
    by blast
  have d: "d \<noteq> []" "length d < 2 ^ 32" using Suc.prems by (auto simp: deflatedOwes_def)
  from f(2,3,5) d(1) Suc.prems(2) obtain st' left k c where
    i: "inflate (pfStream pf1) (pfAvail pf1) n = (st', left, take k d, c)" "k \<le> n" "k \<le> length d" "c \<noteq> Z_ERROR"
      "c = Z_STREAM_END \<longrightarrow> k = length d" "owed st' (left @ rest) = Some (drop k d)"
      "k = n \<or> k = length d \<or> left = [] \<and> rest \<noteq> []"
    by (rule paysE)
  let ?pf = "pf1\<lparr>pfStream := st', pfAvail := left, pfCrc := crc32 (pfCrc pf1) (take k d),
      pfRestU := length d - k\<rparr>"
  have e: "skipEncHead pf1 = Some pf1" using f(4) by (intro skipEncHead_none) (simp add: placed_def)
  have len: "length (take k d) = k" using i(3) by simp
  have u: "minus32 (length d) k = length d - k" using i(3) d(2) by (intro minus32_le) simp_all
  have owes: "deflatedOwes inflate (u\<lparr>filePos := p\<rparr>) ?pf (drop k d)"
    using f(2,4,6) i(6) d(2) by (auto simp: deflatedOwes_def placed_def intro!: exI [of _ owed] exI [of _ rest])
  have rc: "pfRestC ?pf \<le> pfRestC pf" using f(8) by (simp split: if_splits)
  have step: "readLoop inflate (Suc fuel) u pf n out False =
      (if c = Z_STREAM_END \<or> length d - k = 0 then Returns (u\<lparr>filePos := p\<rparr>, ?pf, Inr (out @ take k d), True)
       else readLoop inflate fuel (u\<lparr>filePos := p\<rparr>) ?pf (n - k) (out @ take k d) False)"
    using Suc.prems(2) f(1,6,7) e i(1,4) len u by (cases c) simp_all
  show ?case
  proof (cases "k = length d")
    case True
    then have "n = k" using i(2) Suc.prems(3) by simp
    with True step owes rc show ?thesis by auto
  next
    case False
    then have s: "readLoop inflate (Suc fuel) u pf n out False =
        readLoop inflate fuel (u\<lparr>filePos := p\<rparr>) ?pf (n - k) (out @ take k d) False"
      using step i(3,5) by auto
    show ?thesis
    proof (cases "k = n")
      case True
      obtain g where g: "fuel = Suc g" using Suc.prems(4) by (cases fuel) (auto split: if_splits)
      show ?thesis
        using s owes rc False True by (auto simp: g)
    next
      case short: False
      then have l: "left = []" "rest \<noteq> []" using i(7) False by auto
      then have av: "pfAvail pf1 \<noteq> []" using f(5) by blast
      have "pfRestC ?pf + (if pfAvail ?pf = [] then 2 else 3) \<le> fuel"
      proof (cases "pfAvail pf = []")
        case True
        have "0 < pfRestC pf"
        proof (rule ccontr)
          assume "\<not> 0 < pfRestC pf"
          then have "fillBuffer u pf = (u, Some pf)" by (simp add: fillBuffer_def)
          with f(1) av True show False by simp
        qed
        with True f(8) Suc.prems(4) l(1) show ?thesis by simp
      next
        case False
        with f(8) Suc.prems(4) l(1) show ?thesis by simp
      qed
      moreover have "0 < n - k" "n - k \<le> length (drop k d)" using short i(2) Suc.prems(3) by simp_all
      ultimately obtain q pf' where
        r: "readLoop inflate fuel (u\<lparr>filePos := p\<rparr>) ?pf (n - k) (out @ take k d) False =
            Returns ((u\<lparr>filePos := p\<rparr>)\<lparr>filePos := q\<rparr>, pf', Inr ((out @ take k d) @ take (n - k) (drop k d)),
              n - k = length (drop k d))"
          "deflatedOwes inflate ((u\<lparr>filePos := p\<rparr>)\<lparr>filePos := q\<rparr>) pf' (drop (n - k) (drop k d))"
          "pfRestC pf' \<le> pfRestC ?pf"
        using Suc.IH [OF owes] by blast
      have "take k d @ take (n - k) (drop k d) = take n d" "drop (n - k) (drop k d) = drop n d"
        using i(2) take_add [of k "n - k" d] by simp_all
      moreover have "(n - k = length (drop k d)) = (n = length d)" using i(2,3) by auto
      ultimately have "readLoop inflate (Suc fuel) u pf n out False =
          Returns (u\<lparr>filePos := q\<rparr>, pf', Inr (out @ take n d), n = length d)"
        "deflatedOwes inflate (u\<lparr>filePos := q\<rparr>) pf' (drop n d)"
        using s r by simp_all
      with r(3) rc show ?thesis by (meson le_trans)
    qed
  qed
qed (simp split: if_splits)

lemma deflated_reads:
  assumes "deflatedOwes inflate u pf d" "d \<noteq> []" "pfRestC pf + 3 \<le> fuel"
  shows "\<exists>p pf'. unzReadCurrentFile inflate fuel u (Some pf) =
      Returns (u\<lparr>filePos := p\<rparr>, Some pf', Inr (take 16384 d), length d \<le> 16384) \<and>
    deflatedOwes inflate (u\<lparr>filePos := p\<rparr>) pf' (drop 16384 d) \<and> pfRestC pf' \<le> pfRestC pf"
proof -
  let ?n = "min 16384 (length d)"
  have t: "take ?n d = take 16384 d" "drop ?n d = drop 16384 d" by (simp_all add: min_def)
  have e: "(?n = length d) = (length d \<le> 16384)" by (simp add: min_def)
  have ru: "pfRestU pf = length d" using assms(1) by (simp add: deflatedOwes_def)
  have "pfRestC pf + (if pfAvail pf = [] then 2 else 3) \<le> fuel" using assms(3) by simp
  from readLoop_deflated [OF assms(1) _ _ this, of ?n "[]"] assms(2) obtain p pf' where
    r: "readLoop inflate fuel u pf ?n [] False = Returns (u\<lparr>filePos := p\<rparr>, pf', Inr (take ?n d), ?n = length d)"
      "deflatedOwes inflate (u\<lparr>filePos := p\<rparr>) pf' (drop ?n d)" "pfRestC pf' \<le> pfRestC pf"
    by auto
  from r(1) have "unzReadCurrentFile inflate fuel u (Some pf) =
      Returns (u\<lparr>filePos := p\<rparr>, Some pf', Inr (take 16384 d), length d \<le> 16384)"
    unfolding t e by (simp add: unzReadCurrentFile_def ru)
  with r(2,3) show ?thesis unfolding t by blast
qed

interpretation deflated: entry_source inflate "deflatedOwes inflate" for inflate :: "'z inflater"
  by unfold_locales (rule deflated_reads, assumption+, simp add: deflatedOwes_def)

section \<open>Unpacking an entry\<close>

text \<open>What the archive holds of the entry is what the state owes when it is opened.\<close>

lemma data_at:
  assumes "i < length es"
  shows "take (length (entryData deflate (fst (es ! i)) (snd (es ! i))))
      (drop (zoff (headers deflate fileType es ! i) + 47 + length (fst (es ! i))) (archiveBytes deflate fileType es)) =
    entryData deflate (fst (es ! i)) (snd (es ! i))"
proof -
  let ?h = "headers deflate fileType es ! i"
  from file_at_local [OF assms, of deflate fileType] obtain pre post where
    f: "archiveBytes deflate fileType es =
        pre @ putlocal ?h @ entryData deflate (fst (es ! i)) (snd (es ! i)) @ post" "length pre = zoff ?h"
    by blast
  have "zoff ?h + 47 + length (fst (es ! i)) = length (pre @ putlocal ?h)"
    using assms f(2) by (simp add: length_putlocal)
  then show ?thesis unfolding f(1) by simp
qed

lemma unzOpenCurrentFile_at:
  assumes "fits deflate fileType es" "i < length es" "atEntry deflate fileType es u i"
  shows "\<exists>p pf. unzOpenCurrentFile init u = Returns (u\<lparr>filePos := p\<rparr>, Some pf) \<and>
    pfStream pf = init \<and> pfAvail pf = [] \<and> pfMethod pf = entryMethod (fst (es ! i)) \<and>
    pfRestU pf = length (fileBytes (snd (es ! i))) \<and>
    placed (u\<lparr>filePos := p\<rparr>) pf (entryData deflate (fst (es ! i)) (snd (es ! i)))"
proof -
  let ?h = "headers deflate fileType es ! i" and ?n = "fst (es ! i)"
  let ?d = "entryData deflate (fst (es ! i)) (snd (es ! i))"
  have c: "checkCoherency u = Returns (True, length ?n + 17, zoff ?h + 0x1e + length ?n, 17, zoff ?h + 30)"
    using assms(3) by (intro checkCoherency_at [OF assms(1,2)]) (simp_all add: atEntry_def)
  have b: "zoff ?h + 47 + length ?n + length ?d < 2 ^ 31" by (rule local_bound [OF assms(1,2)])
  have w: "w32 (zoff ?h + 0x1e + (length ?n + 17)) = zoff ?h + 47 + length ?n"
    using b by (simp add: w32_def)
  have h: "zsiz ?h = length ?d" "zlen ?h = length (fileBytes (snd (es ! i)))" "zhow ?h = entryMethod ?n"
    "\<not> bit (zflg ?h) 0"
    using assms(2) by (subst header_shape; simp add: entryHeader_def bit_iff_odd)+
  show ?thesis
    using assms(3) c w h b data_at [OF assms(2), of deflate fileType]
    by (simp add: unzOpenCurrentFile_def atEntry_def placed_def headerInfo_def) blast
qed

lemma unzipLoop_at:
  assumes "fits deflate fileType es" "inflaterFor deflate inflate init" "i < length es"
    "atEntry deflate fileType es u i"
    "length (fileBytes (snd (es ! i))) + length (entryData deflate (fst (es ! i)) (snd (es ! i))) + 3 \<le> fuel"
  shows "\<exists>p. run_bind (unzOpenCurrentFile init u) (\<lambda>(u, pf). unzipLoop inflate fuel u pf []) =
    Returns (u\<lparr>filePos := p\<rparr>, fileBytes (snd (es ! i)), if fileBytes (snd (es ! i)) = [] then ZR_FLATE else ZR_OK)"
proof -
  let ?d = "entryData deflate (fst (es ! i)) (snd (es ! i))" and ?b = "fileBytes (snd (es ! i))"
  from unzOpenCurrentFile_at [OF assms(1,3,4), of init] obtain p pf where
    o: "unzOpenCurrentFile init u = Returns (u\<lparr>filePos := p\<rparr>, Some pf)" "pfStream pf = init" "pfAvail pf = []"
      "pfMethod pf = entryMethod (fst (es ! i))" "pfRestU pf = length ?b" "placed (u\<lparr>filePos := p\<rparr>) pf ?d"
    by blast
  have fuel: "length ?b + pfRestC pf + 3 \<le> fuel" using assms(5) o(6) by (simp add: placed_def)
  have small: "length ?b < 2 ^ 32" using fits_entry [OF assms(1), of "es ! i"] assms(3) by simp
  have "\<exists>q. unzipLoop inflate fuel (u\<lparr>filePos := p\<rparr>) (Some pf) [] =
      Returns ((u\<lparr>filePos := p\<rparr>)\<lparr>filePos := q\<rparr>, [] @ ?b, if ?b = [] then ZR_FLATE else ZR_OK)"
  proof (cases "HasZipSuffix (fst (es ! i))")
    case True
    then have "storedOwes (u\<lparr>filePos := p\<rparr>) pf ?b"
      using o by (simp add: storedOwes_def entryMethod_def entryData_def)
    from stored.unzipLoop_writes [OF this fuel] show ?thesis .
  next
    case False
    from assms(2) obtain owed where w: "pays inflate owed" "\<And>d. owed init (deflate d) = Some d"
      unfolding inflaterFor_def by blast
    have "deflatedOwes inflate (u\<lparr>filePos := p\<rparr>) pf ?b"
      unfolding deflatedOwes_def
      using o small w False
      by (auto simp: entryMethod_def entryData_def intro!: exI [of _ owed] exI [of _ "deflate ?b"])
    from deflated.unzipLoop_writes [OF this fuel] show ?thesis .
  qed
  then show ?thesis using o(1) by auto
qed

definition unpackedEvents :: "string \<Rightarrow> string \<times> inFile \<Rightarrow> diskEvent list" where
  "unpackedEvents root e =
     [EnsureDir root,
      WriteFile (root @ fst e) (keptAttributes (fileAttributes (snd e))) (fileBytes (snd e))
        (if fileBytes (snd e) = [] then None
         else Some (UnixTime (filetime2timet (lastWrite (snd e))), UnixTime (filetime2timet (lastAccess (snd e))),
           UnixTime (filetime2timet (creation (snd e)))))]"

lemma plain_lastSlash: "plainFileName name \<Longrightarrow> lastSlash name = None"
proof -
  have "\<forall>ch\<in>set s. \<not> isSlash ch \<Longrightarrow> lastSlash s = None" for s by (induction s) auto
  then show "plainFileName name \<Longrightarrow> lastSlash name = None" by (simp add: plainFileName_def)
qed

lemma keptAttributes_no_directory: "\<not> bit (keptAttributes fa) 4"
proof -
  have "keptAttributes fa = (if bit fa 0 then 0x01 else 0) + (if bit fa 1 then 0x02 else 0) +
    (if bit fa 2 then 0x04 else 0) + (if bit fa 5 then 0x20 else 0)" by (simp add: keptAttributes_def)
  then show ?thesis by (simp only: sum_bits) simp
qed

lemma unzipTo_at:
  assumes "fits deflate fileType es" "inflaterFor deflate inflate init" "i < length es"
    "atEntry deflate fileType es u i" "cached u = Some (i, describedEntry deflate (es ! i))"
    "length (root @ fst (es ! i)) < 260" "canWrite (root @ fst (es ! i))"
    "length (fileBytes (snd (es ! i))) + length (entryData deflate (fst (es ! i)) (snd (es ! i))) + 3 \<le> fuel"
  shows "\<exists>p r. unzipTo inflate init canWrite root fuel u i (fst (es ! i)) =
    Returns (u\<lparr>filePos := p\<rparr>, unpackedEvents root (es ! i), r)"
proof -
  let ?e = "es ! i"
  have pn: "plainFileName (fst ?e)" using fits_entry [OF assms(1), of ?e] assms(3) by simp
  obtain k where k: "fuel = Suc k" using assms(8) by (cases fuel) auto
  have n: "numberEntry u = length es" "numFile u = i" using assms(4) by (simp_all add: atEntry_def)
  have go: "goToIndex fuel u i = Returns u" using n by (simp add: goToIndex_def k)
  have get: "zipGet fuel u i = Returns (u, ZR_OK, Some (describedEntry deflate ?e))"
    using n assms(3,5) by (simp add: zipGet_def)
  have dir: "\<not> bit (zeAttr (describedEntry deflate ?e)) 4"
    by (simp add: describedEntry_def keptAttributes_no_directory)
  have sp: "splitPath (fst ?e) = ([], fst ?e)" using plain_lastSlash [OF pn] by (simp add: splitPath_def)
  have ed: "ensureDirectory root [] = [EnsureDir root]" by (simp add: ensureDirectory.simps)
  from unzipLoop_at [OF assms(1-4,8)] obtain p where
    l: "run_bind (unzOpenCurrentFile init u) (\<lambda>(u, pf). unzipLoop inflate fuel u pf []) =
      Returns (u\<lparr>filePos := p\<rparr>, fileBytes (snd ?e), if fileBytes (snd ?e) = [] then ZR_FLATE else ZR_OK)"
    by blast
  from unzOpenCurrentFile_at [OF assms(1,3,4), of init] obtain q pf where
    o: "unzOpenCurrentFile init u = Returns (u\<lparr>filePos := q\<rparr>, Some pf)" by blast
  have l2: "unzipLoop inflate fuel (u\<lparr>filePos := q\<rparr>) (Some pf) [] =
      Returns (u\<lparr>filePos := p\<rparr>, fileBytes (snd ?e), if fileBytes (snd ?e) = [] then ZR_FLATE else ZR_OK)"
    using l by (simp add: o)
  show ?thesis
    using n(1) assms(3,6,7) dir
    by (simp add: unzipTo_def go get sp ed o l2 unpackedEvents_def describedEntry_def) blast
qed

section \<open>The whole archive\<close>

definition fuelFor :: "(string \<Rightarrow> string) \<Rightarrow> (string \<times> inFile) list \<Rightarrow> nat" where
  "fuelFor deflate es =
     (\<Sum>e\<leftarrow>es. length (fileBytes (snd e)) + length (entryData deflate (fst e) (snd e))) + length es + 5"

lemma entry_fuel:
  "i < length es \<Longrightarrow> length (fileBytes (snd (es ! i))) + length (entryData deflate (fst (es ! i)) (snd (es ! i))) \<le>
   (\<Sum>e\<leftarrow>es. length (fileBytes (snd e)) + length (entryData deflate (fst e) (snd e)))"
  using member_le_sum_list [of _ "map (\<lambda>e. length (fileBytes (snd e)) + length (entryData deflate (fst e) (snd e))) es"]
  by simp

lemma extractLoop_at:
  assumes "fits deflate fileType es" "inflaterFor deflate inflate init"
    "\<forall>e\<in>set es. length (root @ fst e) < 260 \<and> canWrite (root @ fst e)"
  shows "i \<le> length es \<Longrightarrow>
    (if i = 0 then es \<noteq> [] \<and> atEntry deflate fileType es u 0 \<and> cached u = None
     else atEntry deflate fileType es u (i - 1) \<and> cached u = Some (i - 1, describedEntry deflate (es ! (i - 1)))) \<Longrightarrow>
    fuelFor deflate es \<le> fuel + i \<Longrightarrow>
    extractLoop inflate init canWrite root fuel u i evs =
      Returns (evs @ concat (map (unpackedEvents root) (drop i es)))"
proof (induction "length es - i" arbitrary: i fuel u evs)
  case 0
  then have i: "i = length es" by simp
  then have "numberEntry u = length es" "i \<noteq> 0" using 0 by (auto simp: atEntry_def split: if_splits)
  moreover obtain k where "fuel = Suc k" using 0 i by (cases fuel) (auto simp: fuelFor_def)
  ultimately show ?case using i by (simp add: zipGet_def)
next
  case (Suc m)
  then have i: "i < length es" by simp
  let ?e = "es ! i"
  obtain k where k: "fuel = Suc (Suc k)" using Suc.prems(3) i
    by (cases fuel; cases "fuel - 1") (auto simp: fuelFor_def)
  have e: "length (fileBytes (snd ?e)) + length (entryData deflate (fst ?e) (snd ?e)) + 3 \<le> fuel"
    using entry_fuel [OF i, of deflate] Suc.prems(3) i by (simp add: fuelFor_def)
  have at: "atEntry deflate fileType es u i \<or> atEntry deflate fileType es u (i - 1) \<and> i = Suc (i - 1)"
    using Suc.prems(2) by (auto split: if_splits)
  have nc: "\<forall>j ze. cached u = Some (j, ze) \<longrightarrow> j \<noteq> i" using Suc.prems(2) by (auto split: if_splits)
  from zipGet_at [OF assms(1) i at nc, of k] obtain v where
    v: "zipGet fuel u i = Returns (v, ZR_OK, Some (describedEntry deflate ?e))"
      "atEntry deflate fileType es v i" "cached v = Some (i, describedEntry deflate ?e)"
    unfolding k by blast
  have w: "length (root @ fst ?e) < 260" "canWrite (root @ fst ?e)" using assms(3) i by auto
  from unzipTo_at [where canWrite = canWrite and root = root, OF assms(1,2) i v(2,3) w e] obtain p r where
    t: "unzipTo inflate init canWrite root fuel v i (fst ?e) =
      Returns (v\<lparr>filePos := p\<rparr>, unpackedEvents root ?e, r)" by blast
  have ih: "extractLoop inflate init canWrite root (Suc k) (v\<lparr>filePos := p\<rparr>) (Suc i) (evs @ unpackedEvents root ?e) =
      Returns ((evs @ unpackedEvents root ?e) @ concat (map (unpackedEvents root) (drop (Suc i) es)))"
    using Suc.hyps(2) Suc.prems(3) i v(2,3) k by (intro Suc.hyps(1)) (auto simp: atEntry_def)
  have nm: "zeName (describedEntry deflate ?e) = fst ?e" by (simp add: describedEntry_def)
  have "extractLoop inflate init canWrite root fuel u i evs =
      extractLoop inflate init canWrite root (Suc k) (v\<lparr>filePos := p\<rparr>) (Suc i) (evs @ unpackedEvents root ?e)"
    using v(1) t by (simp add: k nm)
  also have "\<dots> = Returns (evs @ concat (map (unpackedEvents root) (drop i es)))"
    using ih i by (simp add: Cons_nth_drop_Suc [symmetric])
  finally show ?case .
qed

lemma archive_comes_back:
  assumes "inflaterFor deflate inflate init" "es \<noteq> []" "fits deflate fileType es" "length dir < 259"
    "\<forall>e\<in>set es. length (baseDir dir @ fst e) < 260 \<and> canWrite (baseDir dir @ fst e)"
    "fuelFor deflate es \<le> fuel"
  shows "extractZip inflate init canWrite before fuel (Some (archiveBytes deflate fileType es)) dir =
    Returns (True, concat (map (unpackedEvents (baseDir dir)) es))"
proof -
  from unzOpen_at [OF assms(3,2), of before] obtain u where
    u: "unzOpen before (archiveBytes deflate fileType es) = Returns (Some u)" "atEntry deflate fileType es u 0"
      "cached u = None"
    by blast
  have "extractLoop inflate init canWrite (baseDir dir) fuel u 0 [] =
      Returns ([] @ concat (map (unpackedEvents (baseDir dir)) (drop 0 es)))"
    using assms u by (intro extractLoop_at [where fileType = fileType]) auto
  then show ?thesis using u(1) assms(4) by (simp add: extractZip_def)
qed


text \<open>A codec that meets the hypothesis: nothing is compressed.\<close>

definition plainInflate :: "unit inflater" where
  "plainInflate st a n = ((), drop n a, take n a, Z_OK)"

lemma plainInflate_pays: "inflaterFor (\<lambda>d. d) plainInflate ()"
proof -
  have "pays plainInflate (\<lambda>st s. Some s)"
    unfolding pays_def
  proof (intro allI impI)
    fix st :: unit and a b d :: string and n :: nat
    assume h: "Some (a @ b) = Some d" "d \<noteq> []" "0 < n" "a = [] \<longrightarrow> b = []"
    then have d: "d = a @ b" by simp
    show "\<exists>st' rest k c. plainInflate st a n = (st', rest, take k d, c) \<and> k \<le> n \<and> k \<le> length d \<and> c \<noteq> Z_ERROR \<and>
       (c = Z_STREAM_END \<longrightarrow> k = length d) \<and> Some (rest @ b) = Some (drop k d) \<and>
       (k = n \<or> k = length d \<or> rest = [] \<and> b \<noteq> [])"
      by (intro exI [of _ "()"] exI [of _ "drop n a"] exI [of _ "min n (length a)"] exI [of _ Z_OK])
        (auto simp: plainInflate_def d min_def)
  qed
  then show ?thesis by (auto simp: inflaterFor_def)
qed

definition sampleFile :: "string \<Rightarrow> inFile" where
  "sampleFile s = \<lparr>fileBytes = s, fileAttributes = 0x20, lastAccess = 0, lastWrite = 0, creation = 0,
     lastWriteParts = \<lparr>wYear = 2020, wMonth = 1, wDay = 1, wHour = 0, wMinute = 0, wSecond = 0\<rparr>\<rparr>"

definition sampleDir :: "(string \<times> inFile) list" where
  "sampleDir = [(''a.ovpn'', sampleFile ''dev tun''), (''a.zip'', sampleFile [])]"

lemma length_central_entry:
  "length (putcentral (entryHeader deflate fileType name f off)) = 55 + length name"
  by (simp add: length_putcentral entryHeader_def)

lemma sample_fits: "fits (\<lambda>d. d) (\<lambda>_. 0) sampleDir"
proof -
  have "length (archiveBytes (\<lambda>d. d) (\<lambda>_. 0) sampleDir) < 0x05000000"
    by (simp add: sampleDir_def sampleFile_def archiveBytes_def centralPart_def length_central_entry
        entryData_def recordLength_def)
  moreover have "\<not> bit (0x20 :: nat) 4" by (simp add: bit_iff_odd)
  ultimately show ?thesis
    unfolding fits_def by (simp add: sampleDir_def sampleFile_def plainFileName_def isSlash_def)
qed


end
