(* ===== verification/ZipSafety.thy ===== *)
theory ZipSafety
  imports ZipRoundtrip
begin

text \<open>
  What an archive from elsewhere can do: where its files may go, when unpacking it ends, and what the result of the
  import says.
\<close>

section \<open>Where the files go\<close>

fun pathParts :: "string \<Rightarrow> string list" where
  "pathParts [] = [[]]"
| "pathParts (ch # s) =
     (if isSlash ch then [] # pathParts s
      else (case pathParts s of [] \<Rightarrow> [[ch]] | w # ws \<Rightarrow> (ch # w) # ws))"

text \<open>The depth below the directory a path starts from, and the least depth on the way.\<close>

definition depthAfter :: "int \<Rightarrow> string \<Rightarrow> int" where
  "depthAfter d w = (if w = ''..'' then d - 1 else if w = [] \<or> w = ''.'' then d else d + 1)"

fun lowestDepth :: "int \<Rightarrow> string list \<Rightarrow> int" where
  "lowestDepth d [] = d"
| "lowestDepth d (w # ws) = min d (lowestDepth (depthAfter d w) ws)"

lemma pathParts_neq_Nil [simp]: "pathParts s \<noteq> []"
  by (cases s) (auto split: list.splits)

lemma pathParts_single: "pathParts s = [w] \<Longrightarrow> w = s"
  by (induction s arbitrary: w) (auto split: if_splits list.splits)

lemma pathParts_split:
  "pathParts s = xs @ ys \<Longrightarrow> xs \<noteq> [] \<Longrightarrow> ys \<noteq> [] \<Longrightarrow>
   \<exists>a ch b. s = a @ ch # b \<and> isSlash ch \<and> pathParts a = xs \<and> pathParts b = ys"
proof (induction s arbitrary: xs)
  case Nil
  then show ?case by (cases xs) auto
next
  case (Cons c s)
  show ?case
  proof (cases "isSlash c")
    case True
    then have e: "[] # pathParts s = xs @ ys" using Cons.prems(1) by simp
    then obtain xs' where xs: "xs = [] # xs'" "pathParts s = xs' @ ys"
      using Cons.prems(2) by (auto simp: Cons_eq_append_conv)
    show ?thesis
    proof (cases "xs' = []")
      case True
      with xs \<open>isSlash c\<close> show ?thesis by (intro exI [of _ "[]"] exI [of _ c] exI [of _ s]) simp
    next
      case False
      from Cons.IH [OF xs(2) False Cons.prems(3)] obtain a ch b where
        "s = a @ ch # b" "isSlash ch" "pathParts a = xs'" "pathParts b = ys" by blast
      with \<open>isSlash c\<close> xs(1) show ?thesis by (intro exI [of _ "c # a"] exI [of _ ch] exI [of _ b]) simp
    qed
  next
    case False
    obtain w ws where w: "pathParts s = w # ws" by (cases "pathParts s") auto
    then have "(c # w) # ws = xs @ ys" using Cons.prems(1) False by simp
    then obtain xs' where xs: "xs = (c # w) # xs'" "ws = xs' @ ys"
      using Cons.prems(2) by (auto simp: Cons_eq_append_conv)
    have "pathParts s = (w # xs') @ ys" using w xs by simp
    from Cons.IH [OF this _ Cons.prems(3)] obtain a ch b where
      "s = a @ ch # b" "isSlash ch" "pathParts a = w # xs'" "pathParts b = ys" by blast
    with False xs(1) show ?thesis by (intro exI [of _ "c # a"] exI [of _ ch] exI [of _ b]) simp
  qed
qed

lemma middle_part:
  assumes "pathParts s = xs @ w # ys" "xs \<noteq> []" "ys \<noteq> []"
  shows "\<exists>a c1 c2 b. s = a @ (c1 # w @ [c2]) @ b \<and> isSlash c1 \<and> isSlash c2"
proof -
  from pathParts_split [of s xs "w # ys"] assms obtain a c1 r where
    r: "s = a @ c1 # r" "isSlash c1" "pathParts r = w # ys" by auto
  from pathParts_split [of r "[w]" ys] r(3) assms(3) obtain v c2 b where
    v: "r = v @ c2 # b" "isSlash c2" "pathParts v = [w]" by auto
  from v(3) have "w = v" by (rule pathParts_single)
  with r v show ?thesis by auto
qed

definition climbPatterns :: "string list" where
  "climbPatterns =
     [[CHR 0x5C, CHR ''.'', CHR ''.'', CHR 0x5C], [CHR 0x5C, CHR ''.'', CHR ''.'', CHR ''/''], ''/../'',
      [CHR ''/'', CHR ''.'', CHR ''.'', CHR 0x5C]]"

text \<open>The loop ends only when no cut is left to make.\<close>

definition uncut :: "string \<Rightarrow> bool" where
  "uncut s \<longleftrightarrow> \<not> (2 \<le> length s \<and> s ! 1 = CHR '':'') \<and> \<not> (s \<noteq> [] \<and> isSlash (hd s)) \<and>
     (\<forall>p\<in>set climbPatterns. afterFirst p s = None)"

lemma chopName_uncut: "uncut (chopName s)"
proof (induction s rule: chopName.induct)
  case (1 s)
  consider (drive) "2 \<le> length s \<and> s ! 1 = CHR '':''"
    | (slash) "\<not> (2 \<le> length s \<and> s ! 1 = CHR '':'')" "s \<noteq> [] \<and> isSlash (hd s)"
    | (climb) "\<not> (2 \<le> length s \<and> s ! 1 = CHR '':'')" "\<not> (s \<noteq> [] \<and> isSlash (hd s))" "\<not> uncut s"
    | (done_) "uncut s"
    by blast
  then show ?case
  proof cases
    case drive
    then show ?thesis using "1.IH"(1) by (auto simp: chopName.simps [of s])
  next
    case slash
    then show ?thesis using "1.IH"(2) by (auto simp: chopName.simps [of s])
  next
    case climb
    let ?p1 = "[CHR 0x5C, CHR ''.'', CHR ''.'', CHR 0x5C]" and ?p2 = "[CHR 0x5C, CHR ''.'', CHR ''.'', CHR ''/'']"
      and ?p3 = "''/../''" and ?p4 = "[CHR ''/'', CHR ''.'', CHR ''.'', CHR 0x5C]"
    show ?thesis
    proof (cases "afterFirst ?p1 s")
      case None
      note n1 = None
      show ?thesis
      proof (cases "afterFirst ?p2 s")
        case None
        note n2 = None
        show ?thesis
        proof (cases "afterFirst ?p3 s")
          case None
          note n3 = None
          show ?thesis
          proof (cases "afterFirst ?p4 s")
            case None
            with n1 n2 n3 climb show ?thesis by (simp add: uncut_def climbPatterns_def)
          next
            case (Some t)
            with n1 n2 n3 climb(1,2) "1.IH"(3) [OF climb(1,2) n1 n2 n3 Some]
            show ?thesis by (auto simp: chopName.simps [of s])
          qed
        next
          case (Some t)
          with n1 n2 climb(1,2) "1.IH"(4) [OF climb(1,2) n1 n2 Some] show ?thesis by (auto simp: chopName.simps [of s])
        qed
      next
        case (Some t)
        with n1 climb(1,2) "1.IH"(5) [OF climb(1,2) n1 Some] show ?thesis by (auto simp: chopName.simps [of s])
      qed
    next
      case (Some t)
      with climb(1,2) "1.IH"(6) [OF climb(1,2) Some] show ?thesis by (auto simp: chopName.simps [of s])
    qed
  next
    case done_
    then have "chopName s = s" by (auto simp: chopName.simps [of s] uncut_def climbPatterns_def)
    with done_ show ?thesis by simp
  qed
qed

lemma uncut_sublist: "uncut s \<Longrightarrow> p \<in> set climbPatterns \<Longrightarrow> \<not> sublist p s"
  by (auto simp: uncut_def afterFirst_def find_sub_None_iff)

lemma uncut_middle:
  assumes "uncut s" "pathParts s = xs @ w # ys" "xs \<noteq> []" "ys \<noteq> []"
  shows "w \<noteq> ''..''"
proof
  assume w: "w = ''..''"
  from middle_part [OF assms(2-4)] obtain a c1 c2 b where
    s: "s = a @ (c1 # w @ [c2]) @ b" "isSlash c1" "isSlash c2" by blast
  then have "c1 # w @ [c2] \<in> set climbPatterns" by (auto simp: w isSlash_def climbPatterns_def)
  with uncut_sublist [OF assms(1) this] s(1) show False by (auto simp: sublist_def)
qed

lemma lowestDepth_no_parent: "''..'' \<notin> set ws \<Longrightarrow> lowestDepth d ws = d"
proof (induction ws arbitrary: d)
  case (Cons w ws)
  then show ?case by (auto simp: depthAfter_def)
qed simp

lemma depthAfter_ge: "d - 1 \<le> depthAfter d w"
  by (simp add: depthAfter_def)

text \<open>
  C15. The names the archive code hands out lead at most one directory up: on the way to the directory of an entry, from
  the directory the archive is unpacked in, the depth never falls below -1, whatever the name in the archive is; and the
  name neither starts with a slash nor with a drive.
\<close>

theorem entry_names_lead_at_most_one_level_up:
  "lowestDepth 0 (butlast (pathParts (chopName s))) \<ge> -1 \<and>
   takeWhile isSlash (chopName s) = [] \<and>
   \<not> (2 \<le> length (chopName s) \<and> chopName s ! 1 = CHR '':'')"
proof -
  let ?s = "chopName s"
  have u: "uncut ?s" by (rule chopName_uncut)
  obtain w ws where p: "pathParts ?s = w # ws" by (cases "pathParts ?s") auto
  have "lowestDepth 0 (butlast (w # ws)) \<ge> -1"
  proof (cases ws rule: rev_cases)
    case (snoc mid l)
    have "''..'' \<notin> set mid"
    proof
      assume "''..'' \<in> set mid"
      then obtain as bs where "mid = as @ ''..'' # bs" by (meson split_list)
      with p snoc have "pathParts ?s = (w # as) @ ''..'' # (bs @ [l])" by simp
      from uncut_middle [OF u this] show False by simp
    qed
    then show ?thesis using depthAfter_ge [of 0 w] by (simp add: snoc lowestDepth_no_parent)
  qed simp
  then have "lowestDepth 0 (butlast (pathParts ?s)) \<ge> -1" by (simp only: p)
  moreover have "takeWhile isSlash ?s = []" using u unfolding uncut_def by (cases ?s) auto
  moreover have "\<not> (2 \<le> length ?s \<and> ?s ! 1 = CHR '':'')" using u unfolding uncut_def by blast
  ultimately show ?thesis by blast
qed

lemma slash_count: "afterFirst p s \<noteq> None \<Longrightarrow> length (filter isSlash p) \<le> length (filter isSlash s)"
proof -
  assume "afterFirst p s \<noteq> None"
  then have "sublist p s" by (auto simp: afterFirst_def find_sub_None_iff)
  then obtain a b where "s = a @ p @ b" by (auto simp: sublist_def)
  then show ?thesis by simp
qed

lemma one_slash: "plainFileName n \<Longrightarrow> length (filter isSlash (''..'' @ CHR 0x5C # n)) = 1"
proof -
  assume "plainFileName n"
  then have "filter isSlash n = []" by (auto simp: plainFileName_def filter_empty_conv)
  then show ?thesis by (simp add: isSlash_def)
qed

lemma parent_name_kept:
  assumes "plainFileName n"
  shows "chopName (''..'' @ CHR 0x5C # n) = ''..'' @ CHR 0x5C # n"
proof -
  have "\<forall>p\<in>set climbPatterns. afterFirst p (''..'' @ CHR 0x5C # n) = None"
  proof
    fix p assume "p \<in> set climbPatterns"
    then have "length (filter isSlash p) = 2" by (auto simp: climbPatterns_def isSlash_def)
    with slash_count [of p "''..'' @ CHR 0x5C # n"] one_slash [OF assms] show "afterFirst p (''..'' @ CHR 0x5C # n) = None"
      by fastforce
  qed
  moreover have "\<not> isSlash CHR ''.''" by (simp add: isSlash_def)
  ultimately show ?thesis by (subst chopName.simps) (simp add: climbPatterns_def)
qed

text \<open>
  The bound is reached: a name that starts with the parent directory is handed out as it is, and its file is
  written next to the directory the archive is unpacked in, which is where the other connections are.
\<close>

theorem parent_name_leaves_the_directory:
  assumes "plainFileName n"
  shows "splitPath (chopName (''..'' @ CHR 0x5C # n)) = (''..'' @ [CHR 0x5C], n) \<and>
    lowestDepth 0 (butlast (pathParts (chopName (''..'' @ CHR 0x5C # n)))) = -1"
proof -
  have "lastSlash n = None" by (rule plain_lastSlash [OF assms])
  moreover have "pathParts m = [m]" if "\<forall>ch\<in>set m. \<not> isSlash ch" for m
    using that by (induction m) auto
  then have "pathParts n = [n]" using assms by (simp add: plainFileName_def)
  moreover have "isSlash CHR 0x5C" "\<not> isSlash CHR ''.''" by (simp_all add: isSlash_def)
  ultimately show ?thesis
    unfolding parent_name_kept [OF assms] by (simp add: splitPath_def depthAfter_def)
qed

lemma parent_name_leaves_the_directory_witness:
  "splitPath (chopName (''..'' @ CHR 0x5C # ''vpn'')) = (''..'' @ [CHR 0x5C], ''vpn'')"
  using parent_name_leaves_the_directory [of "''vpn''"] by (simp add: plainFileName_def isSlash_def)

section \<open>Entries that are too short\<close>

lemma starving:
  "pfMethod pf = 0 \<Longrightarrow> pfAvail pf = [] \<Longrightarrow> pfRestC pf = 0 \<Longrightarrow> 0 < n \<Longrightarrow>
   readLoop inflate fuel u pf n out eof = Running"
proof (induction fuel arbitrary: u pf out eof)
  case (Suc fuel)
  have f: "fillBuffer u pf = (u, Some pf)" "skipEncHead pf = Some pf"
    using Suc.prems by (simp_all add: fillBuffer_def skipEncHead_def)
  let ?pf = "pf\<lparr>pfCrc := crc32 (pfCrc pf) [], pfRestU := minus32 (pfRestU pf) 0, pfAvail := []\<rparr>"
  have c: "copyStored pf n = (?pf, [])" using Suc.prems(2) by (simp add: copyStored_def)
  have "readLoop inflate (Suc fuel) u pf n out eof =
      readLoop inflate fuel u ?pf n out (eof \<or> pfRestU ?pf = 0)"
    using Suc.prems f c by simp
  also have "\<dots> = Running" using Suc.prems by (intro Suc.IH) simp_all
  finally show ?case .
qed simp

lemma short_stored_read:
  assumes "pfMethod pf = 0" "pfAvail pf = []" "placed u pf d" "length d < pfRestU pf" "pfRestU pf < 2 ^ 32"
  shows "unzReadCurrentFile inflate fuel u (Some pf) = Running \<or>
    (\<exists>p pf'. unzReadCurrentFile inflate fuel u (Some pf) =
        Returns (u\<lparr>filePos := p\<rparr>, Some pf', Inr (take 16384 d), False) \<and> d \<noteq> [] \<and>
      pfMethod pf' = 0 \<and> pfAvail pf' = [] \<and> placed (u\<lparr>filePos := p\<rparr>) pf' (drop 16384 d) \<and>
      length (drop 16384 d) < pfRestU pf' \<and> pfRestU pf' < 2 ^ 32)"
proof (cases "d = [] \<or> fuel = 0")
  case True
  have "pfRestC pf = length d" using assms(3) by (simp add: placed_def)
  with True assms have "readLoop inflate fuel u pf (min 16384 (pfRestU pf)) [] False = Running"
    by (auto intro: starving)
  then show ?thesis by (simp add: unzReadCurrentFile_def)
next
  case False
  then obtain g where g: "fuel = Suc g" by (cases fuel) auto
  let ?n = "min 16384 (pfRestU pf)"
  let ?pf = "pf\<lparr>pfAvail := take 16384 d, pfKeys := pfKeys pf,
        pfPos := pfPos pf + length (take 16384 d), pfRestC := length (drop 16384 d)\<rparr>"
  from fillBuffer_placed [OF assms(3,2)] False obtain p where
    p: "fillBuffer u pf = (u\<lparr>filePos := p\<rparr>, Some ?pf)" "placed (u\<lparr>filePos := p\<rparr>) ?pf (drop 16384 d)" by blast
  have e: "skipEncHead ?pf = Some ?pf" using assms(3) by (intro skipEncHead_none) (simp add: placed_def)
  let ?pf2 = "?pf\<lparr>pfCrc := crc32 (pfCrc pf) (take 16384 d), pfRestU := pfRestU pf - length (take 16384 d), pfAvail := []\<rparr>"
  have n: "min ?n (length (take 16384 d)) = length (take 16384 d)" using assms(4) by (simp add: min_def)
  have c: "copyStored ?pf ?n = (?pf2, take 16384 d)"
  proof -
    have k: "min ?n (length (pfAvail ?pf)) = length (take 16384 d)" using n by simp
    have r: "minus32 (pfRestU ?pf) (length (take 16384 d)) = pfRestU pf - length (take 16384 d)"
      using assms(4,5) by (simp add: minus32_le)
    have t: "take (length (take 16384 d)) (pfAvail ?pf) = take 16384 d" "drop (length (take 16384 d)) (pfAvail ?pf) = []"
      by (simp_all add: min_def)
    show ?thesis unfolding copyStored_def Let_def k r t by simp
  qed
  have n0: "?n \<noteq> 0" "\<not> pfRestU ?pf2 = 0" using assms(4) by simp_all
  have step: "readLoop inflate fuel u pf ?n [] False =
      readLoop inflate g (u\<lparr>filePos := p\<rparr>) ?pf2 (?n - length (take 16384 d)) (take 16384 d) False"
  proof -
    have m: "pfMethod ?pf = 0" using assms(1) by simp
    have "readLoop inflate (Suc g) u pf ?n [] False =
        readLoop inflate g (u\<lparr>filePos := p\<rparr>) ?pf2 (?n - length (take 16384 d)) ([] @ take 16384 d)
          (False \<or> pfRestU ?pf2 = 0)"
      by (simp only: readLoop.simps(2) if_not_P [OF n0(1)] p(1) prod.case option.case e m c if_True simp_thms)
    then show ?thesis using n0(2) by (simp only: g append_Nil simp_thms)
  qed
  have pl: "placed (u\<lparr>filePos := p\<rparr>) ?pf2 (drop 16384 d)" using p(2) by (simp add: placed_def)
  have left: "length (drop 16384 d) < pfRestU ?pf2" "pfRestU ?pf2 < 2 ^ 32" using assms(4,5) by simp_all
  show ?thesis
  proof (cases "16384 \<le> length d")
    case True
    then have z: "?n - length (take 16384 d) = 0" using assms(4) by simp
    show ?thesis
    proof (cases g)
      case 0
      with step have "readLoop inflate fuel u pf ?n [] False = Running" by simp
      then show ?thesis by (simp add: unzReadCurrentFile_def)
    next
      case (Suc h)
      then have "readLoop inflate fuel u pf ?n [] False = Returns (u\<lparr>filePos := p\<rparr>, ?pf2, Inr (take 16384 d), False)"
        using step z by simp
      then have "unzReadCurrentFile inflate fuel u (Some pf) =
          Returns (u\<lparr>filePos := p\<rparr>, Some ?pf2, Inr (take 16384 d), False)" by (simp add: unzReadCurrentFile_def)
      moreover have "pfMethod ?pf2 = 0" "pfAvail ?pf2 = []" using assms(1) by simp_all
      ultimately show ?thesis using pl left False by blast
    qed
  next
    case short: False
    then have "0 < ?n - length (take 16384 d)" "pfRestC ?pf2 = 0" using assms(4) by auto
    then have "readLoop inflate fuel u pf ?n [] False = Running"
      unfolding step using assms(1) by (intro starving) simp_all
    then show ?thesis by (simp add: unzReadCurrentFile_def)
  qed
qed

text \<open>
  C25. A stored entry whose header names more bytes than it holds is unpacked for ever: however many steps the loop is
  given, it has not ended, because the copy loop waits for input that will not come.
\<close>

theorem short_stored_entry_never_ends:
  "pfMethod pf = 0 \<Longrightarrow> pfAvail pf = [] \<Longrightarrow> placed u pf d \<Longrightarrow> length d < pfRestU pf \<Longrightarrow> pfRestU pf < 2 ^ 32 \<Longrightarrow>
   unzipLoop inflate fuel u (Some pf) written = Running"
proof (induction fuel arbitrary: u pf d written)
  case (Suc fuel)
  from short_stored_read [OF Suc.prems, of inflate "Suc fuel"] show ?case
  proof (elim disjE exE conjE)
    fix p pf'
    assume r: "unzReadCurrentFile inflate (Suc fuel) u (Some pf) =
        Returns (u\<lparr>filePos := p\<rparr>, Some pf', Inr (take 16384 d), False)" "d \<noteq> []"
      and q: "pfMethod pf' = 0" "pfAvail pf' = []" "placed (u\<lparr>filePos := p\<rparr>) pf' (drop 16384 d)"
        "length (drop 16384 d) < pfRestU pf'" "pfRestU pf' < 2 ^ 32"
    from Suc.IH [OF q] r show ?thesis by simp
  qed simp
qed simp

definition emptyEntry :: "unit pfile" where
  "emptyEntry = \<lparr>pfStream = (), pfAvail = [], pfRestC = 0, pfRestU = 1, pfPos = 31, pfCrc = 0, pfCrcWait = 0,
     pfMethod = 0, pfEncrypted = False, pfKeys = initialKeys, pfEncLeft = 0, pfTest = 0\<rparr>"

definition sampleUnz :: unz where
  "sampleUnz = \<lparr>uFile = [], filePos = 0, numberEntry = 1, byteBefore = 0, offsetCentral = 0, posInCentral = 0,
     numFile = 0, currentOk = True, curInfo = None, cached = None\<rparr>"

lemma short_stored_entry_never_ends_witness:
  "\<forall>fuel. unzipLoop plainInflate fuel sampleUnz (Some emptyEntry) [] = Running"
  using short_stored_entry_never_ends [of emptyEntry sampleUnz "[]" plainInflate]
  by (simp add: emptyEntry_def placed_def sampleUnz_def)

section \<open>What the result says\<close>



section \<open>What is exported\<close>

lemma recurse_stops:
  assumes "name \<noteq> ''..''" "name \<noteq> ''.''"
  shows "recurseDirectory deflate fileType (plainFiles es @ SubDirectory name content # rest) z =
    recurseDirectory deflate fileType (plainFiles es @ content) z"
proof (induction es arbitrary: z)
  case Nil
  show ?case using assms by (simp add: plainFiles_def)
next
  case (Cons e es)
  then show ?case by (simp add: plainFiles_def split: prod.split)
qed

text \<open>
  An export stops at the first directory: what stands after it in the directory of the connection is not exported,
  and the export still succeeds if the files of that directory can be read.
\<close>

theorem files_after_a_directory_are_not_exported:
  assumes "name \<noteq> ''..''" "name \<noteq> ''.''"
  shows "archive deflate fileType True (plainFiles es @ SubDirectory name content # rest) =
    archive deflate fileType True (plainFiles es @ content)"
  by (simp add: archive_def recurse_stops [OF assms])

lemma files_after_a_directory_are_not_exported_witness:
  "archive (\<lambda>d. d) (\<lambda>_. 0) True (plainFiles [] @ SubDirectory ''keys'' [] # [PlainFile ''z.ovpn'' None]) =
    archive (\<lambda>d. d) (\<lambda>_. 0) True (plainFiles [] @ [])"
  by (rule files_after_a_directory_are_not_exported) simp_all

end
