(* ===== verification/ConnectionTransfer.thy ===== *)
theory ConnectionTransfer
  imports ConfigSettings ZipSafety
begin

text \<open>
  Export and import of a connection: \<open>client/src/widgets/export/exportwidget.cpp\<close> and the branch of
  \<open>client/src/widgets/import/importwidget.cpp\<close> for files that are not \<open>.ovpn\<close>. The export packs the directory of a
  connection into \<open>export.zip\<close>, writes it encrypted with a password as \<open>.crypt\<close> file and deletes the archive; the
  import does it the other way round. The password is put into \<open>Crypt::secretKey\<close> meanwhile. Message boxes are
  collected by their text. A directory is listed as it is when the archive is made (\<open>listing\<close>).
\<close>

record 'z transferEnv =
  tAccess :: fileAccess
  mayDelete :: "string \<Rightarrow> bool"
  mayRenameFile :: "string \<Rightarrow> bool"
  mayMkdir :: bool
  listing :: "string \<Rightarrow> exportEntry list"
  deflater :: "string \<Rightarrow> string"
  fileTypeOf :: "string \<Rightarrow> nat"
  inflateCall :: "'z inflater"
  inflateInit :: 'z
  byteBeforeBuffer :: char
  stepsGiven :: nat

section \<open>Export\<close>

record exportForm =
  txtDestFile :: string
  txtExportKey :: string
  exportPath :: string

definition SetConfigPath :: "string \<Rightarrow> exportForm \<Rightarrow> exportForm" where
  "SetConfigPath p f = f\<lparr>exportPath := p\<rparr>"

text \<open>\<open>showEvent\<close> clears the fields.\<close>

definition showExport :: "exportForm \<Rightarrow> exportForm" where
  "showExport f = f\<lparr>txtDestFile := [], txtExportKey := []\<rparr>"

definition selectExportDir :: "string \<Rightarrow> exportForm \<Rightarrow> exportForm" where
  "selectExportDir dirname f = (if dirname \<noteq> [] then f\<lparr>txtDestFile := dirname\<rparr> else f)"

record transfer =
  tMessages :: "string list"
  tCrypt :: crypt
  tDisk :: fsys
  tThrown :: bool

definition say :: "string \<Rightarrow> transfer \<Rightarrow> transfer" where
  "say m s = s\<lparr>tMessages := tMessages s @ [m]\<rparr>"

definition exportKey :: "exportForm \<Rightarrow> string" where
  "exportKey f = (if txtExportKey f \<noteq> [] then txtExportKey f else ''insecure'')"

definition exportZipFile :: "exportForm \<Rightarrow> string" where
  "exportZipFile f = txtDestFile f @ ''/export.zip''"

definition exportCryptFile :: "exportForm \<Rightarrow> string" where
  "exportCryptFile f =
     (let cfgName = afterSlash (exportPath f) in
      txtDestFile f @ ''/'' @ qleft cfgName (int (length cfgName) - 5) @ ''.crypt'')"

text \<open>\<open>setSecretKey\<close>.\<close>

definition withKey :: "string \<Rightarrow> crypt \<Rightarrow> crypt" where
  "withKey key c = c\<lparr>secretKey := key\<rparr>"

text \<open>The archive is encrypted into the file, which was emptied when it was opened.\<close>

definition encryptArchive :: "'z transferEnv \<Rightarrow> cryptApi \<Rightarrow> exportForm \<Rightarrow> transfer \<Rightarrow> transfer" where
  "encryptArchive te a f s =
     (case (if mayRead (tAccess te) (exportZipFile f) then readFile (tDisk s) (exportZipFile f) else None) of
        None \<Rightarrow> say (''Can'' @ [CHR 0x27] @ ''t read zip data.'') s
      | Some bytes \<Rightarrow>
          if \<not> mayWrite (tAccess te) (exportCryptFile f) then say (''Can'' @ [CHR 0x27] @ ''t open crypt file.'') s
          else
            (let s1 = s\<lparr>tDisk := writeFile (exportCryptFile f) [] (tDisk s), tCrypt := withKey (exportKey f) (tCrypt s)\<rparr> in
             case encodePlaintextAscii a (tCrypt s1) bytes of
               None \<Rightarrow> s1\<lparr>tThrown := True\<rparr>
             | Some t \<Rightarrow> s1\<lparr>tDisk := writeFile (exportCryptFile f) t (tDisk s1),
                             tCrypt := withKey (secretKey (tCrypt s)) (tCrypt s1)\<rparr>))"

definition removeArchive :: "'z transferEnv \<Rightarrow> exportForm \<Rightarrow> transfer \<Rightarrow> transfer" where
  "removeArchive te f s =
     (if tThrown s then s
      else if readFile (tDisk s) (exportZipFile f) \<noteq> None \<and> \<not> mayDelete te (exportZipFile f) then say ''remove'' s
      else say ''Export successfully ended!'' (s\<lparr>tDisk := removeFile (exportZipFile f) (tDisk s)\<rparr>))"

definition packConfig :: "'z transferEnv \<Rightarrow> cryptApi \<Rightarrow> exportForm \<Rightarrow> transfer \<Rightarrow> transfer" where
  "packConfig te a f s =
     (let folder = qleft (exportPath f) (lastIndexOf (exportPath f) CHR ''/'');
          (bytes, ok) = archive (deflater te) (fileTypeOf te) (mayWrite (tAccess te) (exportZipFile f)) (listing te folder);
          s1 = (case bytes of None \<Rightarrow> s | Some b \<Rightarrow> s\<lparr>tDisk := writeFile (exportZipFile f) b (tDisk s)\<rparr>)
      in if \<not> ok then say (''Can'' @ [CHR 0x27] @ ''t zip the data.'') s1 else removeArchive te f (encryptArchive te a f s1))"

text \<open>\<open>on_cmdExport_clicked\<close>. The target directory is made, or an older file in it removed.\<close>

definition exportConfig :: "'z transferEnv \<Rightarrow> cryptApi \<Rightarrow> exportForm \<Rightarrow> transfer \<Rightarrow> transfer" where
  "exportConfig te a f s =
     (if txtDestFile f = [] then say ''Invalid path specify[empty]!'' s
      else if exportPath f = [] then say ''Export successfully ended!'' (say ''No configuration'' s)
      else if \<not> mayRead (tAccess te) (exportPath f) \<or> readFile (tDisk s) (exportPath f) = None then
        say (''Can'' @ [CHR 0x27] @ ''t open config!'') s
      else if \<not> dirExists (tDisk s) (txtDestFile f) then
        (if \<not> mayMkdir te then say ''Unable to create directory!'' s
         else packConfig te a f (s\<lparr>tDisk := mkpath (txtDestFile f) (tDisk s)\<rparr>))
      else if readFile (tDisk s) (exportCryptFile f) \<noteq> None \<and> \<not> mayDelete te (exportCryptFile f) then say ''remove'' s
      else packConfig te a f (s\<lparr>tDisk := removeFile (exportCryptFile f) (tDisk s)\<rparr>))"

section \<open>Import\<close>

text \<open>The disk after the events of unpacking; Windows takes both slashes for one.\<close>

definition forwardSlashes :: "string \<Rightarrow> string" where
  "forwardSlashes p = map (\<lambda>ch. if ch = CHR 0x5C then CHR ''/'' else ch) p"

definition withoutLastSlash :: "string \<Rightarrow> string" where
  "withoutLastSlash p = (if p \<noteq> [] \<and> last p = CHR ''/'' then butlast p else p)"

fun applyEvent :: "diskEvent \<Rightarrow> fsys \<Rightarrow> fsys" where
  "applyEvent (EnsureDir p) d =
     (let q = withoutLastSlash (forwardSlashes p) in if dirExists d q then d else d\<lparr>dirs := q # dirs d\<rparr>)"
| "applyEvent (WriteFile p attr bytes tm) d = writeFile (forwardSlashes p) bytes d"

definition isEmptyDir :: "string \<Rightarrow> fsys \<Rightarrow> bool" where
  "isEmptyDir p d \<longleftrightarrow>
     \<not> list_ex (\<lambda>e. prefix (p @ ''/'') (fst e)) (files d) \<and> \<not> list_ex (\<lambda>q. prefix (p @ ''/'') q) (dirs d)"

text \<open>\<open>QDir::rmdir\<close> removes an empty directory only.\<close>

definition rmdir :: "string \<Rightarrow> fsys \<Rightarrow> fsys" where
  "rmdir p d = (if isEmptyDir p d then d\<lparr>dirs := filter (\<lambda>q. q \<noteq> p) (dirs d)\<rparr> else d)"

text \<open>The name of the file without the six characters of \<open>.crypt\<close>.\<close>

definition cryptName :: "string \<Rightarrow> string" where
  "cryptName src = qleft (afterSlash src) (int (length (afterSlash src)) - 6)"

text \<open>
  The file is decrypted into an archive in the new directory. None: it cannot be opened. An archive that cannot be
  written is not noticed here.
\<close>

definition decryptArchive ::
  "'z transferEnv \<Rightarrow> cryptApi \<Rightarrow> string \<Rightarrow> string \<Rightarrow> string \<Rightarrow> transfer \<Rightarrow> transfer option" where
  "decryptArchive te a pw src packFile s =
     (case (if mayRead (tAccess te) src then readFile (tDisk s) src else None) of
        None \<Rightarrow> None
      | Some bytes \<Rightarrow> Some
          (if \<not> mayWrite (tAccess te) packFile then s
           else
             (let s1 = s\<lparr>tDisk := writeFile packFile [] (tDisk s), tCrypt := withKey pw (tCrypt s)\<rparr> in
              case decodeToPlaintext a (tCrypt s1) (decodeUtf8 a bytes) of
                None \<Rightarrow> s1\<lparr>tThrown := True\<rparr>
              | Some t \<Rightarrow> s1\<lparr>tDisk := writeFile packFile t (tDisk s1),
                              tCrypt := withKey (secretKey (tCrypt s)) (tCrypt s1)\<rparr>)))"

text \<open>
  What follows the unpacking: the archive is deleted, the configuration gets the chosen name, and it is looked for.
  True: a configuration was found.
\<close>

definition settleImport ::
  "'z transferEnv \<Rightarrow> bool \<Rightarrow> string \<Rightarrow> string \<Rightarrow> string \<Rightarrow> string \<Rightarrow> transfer \<Rightarrow> bool \<times> transfer" where
  "settleImport te custom src dirPath cfgName packFile s =
     (let s1 = (if mayDelete te packFile \<and> readFile (tDisk s) packFile \<noteq> None then
                  s\<lparr>tDisk := removeFile packFile (tDisk s)\<rparr> else say ''remove'' s);
          savePath = dirPath @ ''/'' @ cryptName src @ ''.ovpn'';
          target = dirPath @ ''/'' @ cfgName @ ''.ovpn'';
          s2 = (if custom then s1\<lparr>tDisk := renameFile (mayRenameFile te) savePath target (tDisk s1)\<rparr> else s1)
      in if readFile (tDisk s2) target = None then
           (False, (say ''Import failed! Removing empty directory.'' s2)\<lparr>tDisk := rmdir dirPath (tDisk s2)\<rparr>)
         else (True, s2))"

definition unpackArchive ::
  "'z transferEnv \<Rightarrow> cryptApi \<Rightarrow> string \<Rightarrow> string \<Rightarrow> bool \<Rightarrow> string \<Rightarrow> string \<Rightarrow> transfer \<Rightarrow> (bool \<times> transfer) zrun" where
  "unpackArchive te a pw src custom dirPath cfgName s =
     (let packFile = dirPath @ ''/'' @ cfgName @ ''.zip'' in
      case decryptArchive te a pw src packFile s of
        None \<Rightarrow> Returns (False, say (''Can'' @ [CHR 0x27] @ ''t open crypted file'') s)
      | Some s1 \<Rightarrow>
          if tThrown s1 then Returns (False, s1)
          else run_bind (extractZip (inflateCall te) (inflateInit te) (\<lambda>p. mayWrite (tAccess te) (forwardSlashes p))
                 (byteBeforeBuffer te) (stepsGiven te)
                 (if mayRead (tAccess te) packFile then readFile (tDisk s1) packFile else None) dirPath)
            (\<lambda>(ok, evs). Returns
               (if \<not> ok then (False, (say (''Can'' @ [CHR 0x27] @ ''t open zip file'') s1)\<lparr>tDisk := removeFile packFile (tDisk s1)\<rparr>)
                else settleImport te custom src dirPath cfgName packFile
                  (s1\<lparr>tDisk := fold applyEvent evs (tDisk s1)\<rparr>))))"

text \<open>\<open>FrmMain::checkForNewConfigAndRefreshUI\<close> with the directories as they are then.\<close>

definition refreshAfterImport :: "importEnv \<Rightarrow> string \<Rightarrow> library \<Rightarrow> library" where
  "refreshAfterImport ie portableDir l =
     checkForNewConfigs (configs ie) (userDir ie) (scanned ie (disk l) (userDir ie @ ''/config''))
       portableDir (scanned ie (disk l) (portableDir @ ''/data/config'')) l"

text \<open>
  The branch of \<open>on_cmdImport_clicked\<close>: the password is None when the dialog was closed; \<open>custom\<close> is the name the
  user chose. At the end new configurations are looked for.
\<close>

definition importCrypt ::
  "'z transferEnv \<Rightarrow> importEnv \<Rightarrow> string \<Rightarrow> string option \<Rightarrow> string \<Rightarrow> string option \<Rightarrow> crypt \<Rightarrow>
   library \<Rightarrow> (library \<times> crypt) zrun" where
  "importCrypt te ie portableDir password src custom c l =
     (let ce = configs ie; a = cryptography (ui ce) in
      case password of
        None \<Rightarrow> Returns (l, c)
      | Some pw \<Rightarrow>
          if pw = [] then Returns (notify ''No password specified!'' l, c)
          else if src = [] then Returns (notify ''No import file selected!'' l, c)
          else if custom = Some [] then Returns (notify ''No import name specified!'' l, c)
          else
            (let cfgName = trimmed (case custom of None \<Rightarrow> cryptName src | Some n \<Rightarrow> trimmed n);
                 dirPath = userDir ie @ ''/config/'' @ cfgName
             in if \<not> isLegalFileName ie cfgName then
                  Returns (notify ''Invalid config name. At least one letter of [a-zA-Z0-9-_ ].'' l, c)
                else (case encodePlaintext a c cfgName of
                    None \<Rightarrow> Returns (onApp (\<lambda>s. s\<lparr>fault := True\<rparr>) l, c)
                  | Some en \<Rightarrow>
                      if ask (ui ce) (app l) (nameSql en) \<noteq> None then
                        Returns (notify ''A connection with this name already exits.'' l, c)
                      else if dirExists (disk l) dirPath \<and> \<not> isEmptyDir dirPath (disk l) then
                        Returns (notify ''A directory with this name already exists!'' l, c)
                      else if \<not> dirExists (disk l) dirPath \<and> \<not> mayMkdir te then
                        Returns (notify ''Unable to create directory!'' l, c)
                      else
                        run_bind (unpackArchive te a pw src (custom \<noteq> None) dirPath cfgName
                            \<lparr>tMessages = [], tCrypt = c, tDisk = mkpath dirPath (disk l), tThrown = False\<rparr>)
                          (\<lambda>(ok, s).
                             (let l1 = fold notify (tMessages s) (l\<lparr>disk := tDisk s\<rparr>);
                                  l2 = (if tThrown s then onApp (\<lambda>s. s\<lparr>fault := True\<rparr>) l1 else l1)
                              in Returns (if ok then refreshAfterImport ie portableDir l2 else l2, tCrypt s))))))"

text \<open>
  The widget: \<open>showEvent\<close>, the choice of the file, the slot that takes the password of the dialog, and the button. The
  password is taken out of the widget before it is used.
\<close>

record importForm =
  txtSourceFile :: string
  txtCustomName :: string
  rbCustomName :: bool
  lastDirectory :: string
  cryptPassword :: string

definition showImport :: "importForm \<Rightarrow> importForm" where
  "showImport f = f\<lparr>txtCustomName := [], txtSourceFile := [], rbCustomName := False\<rparr>"

definition selectImportFile :: "string \<Rightarrow> importForm \<Rightarrow> importForm" where
  "selectImportFile importFile f =
     (if importFile = [] then f
      else f\<lparr>lastDirectory := qleft importFile (lastIndexOf importFile CHR ''/''), txtSourceFile := importFile\<rparr>)"

definition cryptKey :: "string \<Rightarrow> importForm \<Rightarrow> importForm" where
  "cryptKey password f = f\<lparr>cryptPassword := password\<rparr>"

text \<open>The answer of the dialog is None when it was closed.\<close>

definition importConfig ::
  "'z transferEnv \<Rightarrow> importEnv \<Rightarrow> string \<Rightarrow> string option \<Rightarrow> crypt \<Rightarrow> importForm \<times> library \<Rightarrow>
   importForm \<times> (library \<times> crypt) zrun" where
  "importConfig te ie portableDir answer c fl =
     (case fl of (f, l) \<Rightarrow>
       (let custom = (if rbCustomName f then Some (txtCustomName f) else None) in
        if Sublist.suffix ''.ovpn'' (txtSourceFile f) then (f, Returns (importOvpn ie (txtSourceFile f) custom l, c))
        else (case answer of
            None \<Rightarrow> (f, importCrypt te ie portableDir None (txtSourceFile f) custom c l)
          | Some password \<Rightarrow>
              (let g = cryptKey password f in
               (cryptKey [] g, importCrypt te ie portableDir (Some (cryptPassword g)) (txtSourceFile g) custom c l)))))"

section \<open>The export\<close>

definition exportFolder :: "exportForm \<Rightarrow> string" where
  "exportFolder f = qleft (exportPath f) (lastIndexOf (exportPath f) CHR ''/'')"

definition exportable :: "'z transferEnv \<Rightarrow> exportForm \<Rightarrow> (string \<times> inFile) list \<Rightarrow> fsys \<Rightarrow> bool" where
  "exportable te f es d \<longleftrightarrow>
     txtDestFile f \<noteq> [] \<and> exportPath f \<noteq> [] \<and> mayRead (tAccess te) (exportPath f) \<and> readFile d (exportPath f) \<noteq> None \<and>
     dirExists d (txtDestFile f) \<and> (readFile d (exportCryptFile f) = None \<or> mayDelete te (exportCryptFile f)) \<and>
     mayWrite (tAccess te) (exportZipFile f) \<and> mayWrite (tAccess te) (exportCryptFile f) \<and>
     mayRead (tAccess te) (exportZipFile f) \<and> mayDelete te (exportZipFile f) \<and>
     listing te (exportFolder f) = plainFiles es \<and> (\<forall>e\<in>set es. storableName (fst e))"

lemma export_names_differ: "exportCryptFile f \<noteq> exportZipFile f"
proof
  assume "exportCryptFile f = exportZipFile f"
  then have "last (exportCryptFile f) = last (exportZipFile f)" by simp
  then show False by (simp add: exportCryptFile_def exportZipFile_def Let_def)
qed

definition cleared :: "exportForm \<Rightarrow> transfer \<Rightarrow> transfer" where
  "cleared f s = s\<lparr>tDisk := removeFile (exportCryptFile f) (tDisk s)\<rparr>"

definition archived :: "'z transferEnv \<Rightarrow> exportForm \<Rightarrow> (string \<times> inFile) list \<Rightarrow> transfer \<Rightarrow> transfer" where
  "archived te f es s =
     s\<lparr>tDisk := writeFile (exportZipFile f) (archiveBytes (deflater te) (fileTypeOf te) es) (tDisk s)\<rparr>"

lemma exportConfig_packs:
  assumes "exportable te f es (tDisk s)"
  shows "exportConfig te a f s = removeArchive te f (encryptArchive te a f (archived te f es (cleared f s)))"
proof -
  have ar: "archive (deflater te) (fileTypeOf te) (mayWrite (tAccess te) (exportZipFile f)) (listing te (exportFolder f)) =
    (Some (archiveBytes (deflater te) (fileTypeOf te) es), True)"
    using assms archive_files [of es "deflater te" "fileTypeOf te"] by (simp add: exportable_def)
  have "exportConfig te a f s = packConfig te a f (cleared f s)"
    using assms by (auto simp: exportConfig_def exportable_def cleared_def)
  also have "\<dots> = removeArchive te f (encryptArchive te a f (archived te f es (cleared f s)))"
    by (simp add: packConfig_def exportFolder_def [symmetric] ar archived_def)
  finally show ?thesis .
qed

lemma export_result:
  assumes "exportable te f es (tDisk s)" "\<not> tThrown s" "openKey a (withKey (exportKey f) (tCrypt s)) = Inr True"
    "encrypt a (keyBytes (exportKey f)) ivBytes (archiveBytes (deflater te) (fileTypeOf te) es) = Some e"
  shows "let s' = exportConfig te a f s in
    readFile (tDisk s') (exportCryptFile f) = Some (toHex e) \<and> readFile (tDisk s') (exportZipFile f) = None \<and>
    tCrypt s' = tCrypt s \<and> tMessages s' = tMessages s @ [''Export successfully ended!'']"
proof -
  have en: "encodePlaintextAscii a (withKey (exportKey f) (tCrypt s)) (archiveBytes (deflater te) (fileTypeOf te) es) =
      Some (toHex e)"
    using assms(3,4) by (simp add: encodePlaintextAscii_def withKey_def)
  have "encryptArchive te a f (archived te f es (cleared f s)) =
      (archived te f es (cleared f s))\<lparr>tDisk := writeFile (exportCryptFile f) (toHex e)
        (writeFile (exportCryptFile f) [] (tDisk (archived te f es (cleared f s))))\<rparr>"
    using assms(1) en by (simp add: encryptArchive_def exportable_def archived_def cleared_def readFile_write withKey_def)
  then show ?thesis
    using assms(1,2) export_names_differ [of f]
    by (simp add: exportConfig_packs [OF assms(1)] removeArchive_def exportable_def archived_def cleared_def say_def
        readFile_write readFile_remove)
qed

text \<open>
  An export that encrypts leaves one file, the encrypted archive, and no archive that can be read without the
  password; and the key of the stored values is the one it was.
\<close>

theorem export_leaves_only_the_encrypted_archive:
  assumes "exportable te f es (tDisk s)" "\<not> tThrown s" "openKey a (withKey (exportKey f) (tCrypt s)) = Inr True"
    "encrypt a (keyBytes (exportKey f)) ivBytes (archiveBytes (deflater te) (fileTypeOf te) es) = Some e"
  shows "let s' = exportConfig te a f s in
    readFile (tDisk s') (exportCryptFile f) = Some (toHex e) \<and> readFile (tDisk s') (exportZipFile f) = None \<and>
    tCrypt s' = tCrypt s \<and> tMessages s' = tMessages s @ [''Export successfully ended!'']"
  by (rule export_result [OF assms])

text \<open>
  C24. When encrypting throws, the export leaves the archive of the connection with its keys on the disk as it is, and
  the password of the export stays the key for the values stored afterwards.
\<close>

theorem failed_export_leaves_the_archive:
  assumes "exportable te f es (tDisk s)"
    "encodePlaintextAscii a (withKey (exportKey f) (tCrypt s)) (archiveBytes (deflater te) (fileTypeOf te) es) = None"
  shows "let s' = exportConfig te a f s in
    readFile (tDisk s') (exportZipFile f) = Some (archiveBytes (deflater te) (fileTypeOf te) es) \<and>
    secretKey (tCrypt s') = exportKey f \<and> tThrown s'"
proof -
  have "encryptArchive te a f (archived te f es (cleared f s)) =
      (archived te f es (cleared f s))\<lparr>tDisk := writeFile (exportCryptFile f) []
        (tDisk (archived te f es (cleared f s))), tCrypt := withKey (exportKey f) (tCrypt s), tThrown := True\<rparr>"
    using assms by (simp add: encryptArchive_def exportable_def archived_def cleared_def readFile_write)
  then show ?thesis
    using export_names_differ [of f]
    by (simp add: exportConfig_packs [OF assms(1)] removeArchive_def archived_def cleared_def readFile_write withKey_def)
qed

section \<open>The import\<close>

lemma forwardSlashes_path:
  assumes "CHR 0x5C \<notin> set dir" "plainFileName n" "\<not> isSlash (last dir)"
  shows "forwardSlashes (baseDir dir @ n) = dir @ ''/'' @ n"
proof -
  have m: "map (\<lambda>ch. if ch = CHR 0x5C then CHR ''/'' else ch) dir = dir"
    using assms(1) by (intro map_idI) auto
  have "map (\<lambda>ch. if ch = CHR 0x5C then CHR ''/'' else ch) n = n"
    using assms(2) by (intro map_idI) (auto simp: plainFileName_def isSlash_def)
  then show ?thesis using m assms(3) by (simp add: forwardSlashes_def baseDir_def)
qed

lemma unpacked_files:
  assumes "CHR 0x5C \<notin> set dir" "\<not> isSlash (last dir)"
  shows "\<forall>e\<in>set es. plainFileName (fst e) \<Longrightarrow> distinct (map fst es) \<Longrightarrow>
    readFile (fold applyEvent (concat (map (unpackedEvents (baseDir dir)) es)) d) (dir @ ''/'' @ n) =
      (case map_of es n of Some f \<Rightarrow> Some (fileBytes f) | None \<Rightarrow> readFile d (dir @ ''/'' @ n))"
proof (induction es arbitrary: d)
  case (Cons e es)
  obtain m x where e: "e = (m, x)" by (cases e)
  let ?d = "fold applyEvent (unpackedEvents (baseDir dir) e) d"
  have r: "readFile ?d (dir @ ''/'' @ n) = (if n = m then Some (fileBytes x) else readFile d (dir @ ''/'' @ n))"
    using Cons.prems(1) forwardSlashes_path [OF assms(1) _ assms(2), of m]
    by (simp add: e unpackedEvents_def readFile_write Let_def) (simp add: readFile_def)
  have "readFile (fold applyEvent (concat (map (unpackedEvents (baseDir dir)) es)) ?d) (dir @ ''/'' @ n) =
      (case map_of es n of Some f \<Rightarrow> Some (fileBytes f) | None \<Rightarrow> readFile ?d (dir @ ''/'' @ n))"
    using Cons.prems by (intro Cons.IH) simp_all
  moreover have "map_of es m = None" using Cons.prems(2) by (simp add: e map_of_eq_None_iff)
  ultimately show ?case using r by (cases "map_of es n") (auto simp: e)
qed simp

definition importable ::
  "'z transferEnv \<Rightarrow> cryptApi \<Rightarrow> (string \<times> inFile) list \<Rightarrow> string \<Rightarrow> string \<Rightarrow> bool" where
  "importable te a es dirPath cfgName \<longleftrightarrow>
     inflaterFor (deflater te) (inflateCall te) (inflateInit te) \<and> es \<noteq> [] \<and> fits (deflater te) (fileTypeOf te) es \<and>
     fuelFor (deflater te) es \<le> stepsGiven te \<and> distinct (map fst es) \<and>
     cfgName @ ''.ovpn'' \<in> fst ` set es \<and> cfgName @ ''.zip'' \<notin> fst ` set es \<and>
     CHR 0x5C \<notin> set dirPath \<and> \<not> isSlash (last dirPath) \<and> length dirPath < 259 \<and>
     (\<forall>e\<in>set es. length (baseDir dirPath @ fst e) < 260 \<and> mayWrite (tAccess te) (dirPath @ ''/'' @ fst e)) \<and>
     mayRead (tAccess te) (dirPath @ ''/'' @ cfgName @ ''.zip'') \<and>
     mayWrite (tAccess te) (dirPath @ ''/'' @ cfgName @ ''.zip'') \<and> mayDelete te (dirPath @ ''/'' @ cfgName @ ''.zip'')"

lemma decryptArchive_exported:
  assumes "inverseCipher a" "encrypt a (keyBytes key) ivBytes bytes = Some e" "keyBytes pw = keyBytes key"
    "openKey a (withKey pw (tCrypt s)) = Inr True" "decodeUtf8 a (toHex e) = toHex e"
    "mayRead (tAccess te) src" "readFile (tDisk s) src = Some (toHex e)" "mayWrite (tAccess te) packFile"
  shows "decryptArchive te a pw src packFile s =
    Some (s\<lparr>tDisk := writeFile packFile bytes (writeFile packFile [] (tDisk s))\<rparr>)"
proof -
  have d: "e \<noteq> []" "decrypt a (keyBytes pw) ivBytes e = Some bytes"
    using assms(1-3) by (auto simp: inverseCipher_def)
  then have "decodeToPlaintext a (withKey pw (tCrypt s)) (toHex e) = Some bytes"
    using assms(4) by (simp add: decodeToPlaintext_def decodeToPlaintextWithKey_def) (simp add: withKey_def)
  then show ?thesis using assms(5-8) by (simp add: decryptArchive_def withKey_def)
qed

text \<open>
  C13. What was exported is imported: from the encrypted archive of an export, carried to another machine, the import
  under the same password, or one with the same first 16 bytes, makes every file of the connection with its content in
  the new directory and finds the configuration; the archive in between is gone and the key is the one it was.
\<close>

theorem exported_connection_is_imported:
  assumes "exportable te1 f es (tDisk s1)" "\<not> tThrown s1" "openKey a (withKey (exportKey f) (tCrypt s1)) = Inr True"
    "encrypt a (keyBytes (exportKey f)) ivBytes (archiveBytes (deflater te1) (fileTypeOf te1) es) = Some e"
    "inverseCipher a" "decodeUtf8 a (toHex e) = toHex e"
    "importable te a es dirPath cfgName" "deflater te = deflater te1" "fileTypeOf te = fileTypeOf te1"
    "keyBytes pw = keyBytes (exportKey f)" "openKey a (withKey pw (tCrypt s)) = Inr True" "\<not> tThrown s"
    "mayRead (tAccess te) src" "readFile (tDisk s) src = readFile (tDisk (exportConfig te1 a f s1)) (exportCryptFile f)"
  shows "\<exists>s'. unpackArchive te a pw src False dirPath cfgName s = Returns (True, s') \<and>
    (\<forall>e\<in>set es. readFile (tDisk s') (dirPath @ ''/'' @ fst e) = Some (fileBytes (snd e))) \<and>
    readFile (tDisk s') (dirPath @ ''/'' @ cfgName @ ''.zip'') = None \<and> tCrypt s' = tCrypt s"
proof -
  let ?pack = "dirPath @ ''/'' @ cfgName @ ''.zip''"
  let ?bytes = "archiveBytes (deflater te) (fileTypeOf te) es"
  let ?evs = "concat (map (unpackedEvents (baseDir dirPath)) es)"
  let ?d1 = "writeFile ?pack ?bytes (writeFile ?pack [] (tDisk s))"
  let ?d2 = "fold applyEvent ?evs ?d1"
  have im: "inflaterFor (deflater te) (inflateCall te) (inflateInit te)" "es \<noteq> []"
    "fits (deflater te) (fileTypeOf te) es" "fuelFor (deflater te) es \<le> stepsGiven te" "distinct (map fst es)"
    "cfgName @ ''.ovpn'' \<in> fst ` set es" "cfgName @ ''.zip'' \<notin> fst ` set es" "CHR 0x5C \<notin> set dirPath"
    "\<not> isSlash (last dirPath)" "length dirPath < 259"
    "\<forall>e\<in>set es. length (baseDir dirPath @ fst e) < 260 \<and> mayWrite (tAccess te) (dirPath @ ''/'' @ fst e)"
    "mayRead (tAccess te) ?pack" "mayWrite (tAccess te) ?pack" "mayDelete te ?pack"
    using assms(7) unfolding importable_def by blast+
  have src: "readFile (tDisk s) src = Some (toHex e)"
    using assms(14) export_result [OF assms(1-4)] by (simp add: Let_def)
  have en: "encrypt a (keyBytes (exportKey f)) ivBytes ?bytes = Some e" using assms(4,8,9) by simp
  have dec: "decryptArchive te a pw src ?pack s = Some (s\<lparr>tDisk := ?d1\<rparr>)"
    by (rule decryptArchive_exported [OF assms(5) en assms(10,11,6,13) src im(13)])
  have names: "\<forall>e\<in>set es. plainFileName (fst e)" using fits_entry [OF im(3)] by blast
  have "extractZip (inflateCall te) (inflateInit te) (\<lambda>p. mayWrite (tAccess te) (forwardSlashes p))
      (byteBeforeBuffer te) (stepsGiven te) (Some ?bytes) dirPath = Returns (True, ?evs)"
    using im(11) names forwardSlashes_path [OF im(8) _ im(9)]
    by (intro archive_comes_back [OF im(1-3,10) _ im(4)]) simp
  then have un: "unpackArchive te a pw src False dirPath cfgName s =
      Returns (settleImport te False src dirPath cfgName ?pack (s\<lparr>tDisk := ?d2\<rparr>))"
    using dec assms(12) im(12) by (simp add: unpackArchive_def Let_def readFile_write)
  have rd: "readFile ?d2 (dirPath @ ''/'' @ n) =
      (case map_of es n of Some x \<Rightarrow> Some (fileBytes x) | None \<Rightarrow> readFile ?d1 (dirPath @ ''/'' @ n))" for n
    by (rule unpacked_files [OF im(8,9) names im(5)])
  have "map_of es (cfgName @ ''.zip'') = None" using im(7) by (simp add: map_of_eq_None_iff)
  then have pk: "readFile ?d2 ?pack = Some ?bytes" using rd [of "cfgName @ ''.zip''"] by (simp add: readFile_write)
  have ne: "dirPath @ ''/'' @ n \<noteq> ?pack" if "n \<in> fst ` set es" for n
  proof
    assume "dirPath @ ''/'' @ n = ?pack"
    then have "n = cfgName @ ''.zip''" by simp
    with im(7) that show False by simp
  qed
  have content: "readFile (removeFile ?pack ?d2) (dirPath @ ''/'' @ fst e) = Some (fileBytes (snd e))" if "e \<in> set es" for e
  proof -
    have "map_of es (fst e) = Some (snd e)" using im(5) that by (intro map_of_is_SomeI) auto
    then show ?thesis using rd [of "fst e"] ne [of "fst e"] that by (simp add: readFile_remove)
  qed
  obtain c where c: "c \<in> set es" "fst c = cfgName @ ''.ovpn''" using im(6) by auto
  have "settleImport te False src dirPath cfgName ?pack (s\<lparr>tDisk := ?d2\<rparr>) = (True, s\<lparr>tDisk := removeFile ?pack ?d2\<rparr>)"
    using im(14) pk content [OF c(1)] c(2) by (simp add: settleImport_def Let_def)
  with un content show ?thesis by (auto simp: readFile_remove)
qed

section \<open>Imports that fail\<close>

lemma rmdir_keeps: "readFile d (p @ ''/'' @ n) = Some t \<Longrightarrow> rmdir p d = d \<and> \<not> isEmptyDir p d"
proof -
  assume "readFile d (p @ ''/'' @ n) = Some t"
  then have "(p @ ''/'' @ n, t) \<in> set (files d)" by (simp add: readFile_def map_of_SomeD)
  then have "list_ex (\<lambda>e. prefix (p @ ''/'') (fst e)) (files d)"
    by (force simp: list_ex_iff prefix_def)
  then show ?thesis by (simp add: rmdir_def isEmptyDir_def)
qed

text \<open>
  C28. An encrypted archive whose file was renamed is not found again: under any other name than the one of the
  configuration in it the import fails, and the directory with the unpacked files stays, so that the name is taken.
\<close>

theorem renamed_archive_blocks_its_name:
  assumes "readFile (tDisk s) (dirPath @ ''/'' @ n) = Some t" "n \<noteq> cfgName @ ''.zip''"
    "readFile (tDisk s) (dirPath @ ''/'' @ cfgName @ ''.ovpn'') = None"
  shows "case settleImport te False src dirPath cfgName (dirPath @ ''/'' @ cfgName @ ''.zip'') s of (ok, s') \<Rightarrow>
    \<not> ok \<and> readFile (tDisk s') (dirPath @ ''/'' @ n) = Some t \<and> \<not> isEmptyDir dirPath (tDisk s')"
proof -
  let ?pack = "dirPath @ ''/'' @ cfgName @ ''.zip''" and ?t = "dirPath @ ''/'' @ cfgName @ ''.ovpn''"
  have ne: "dirPath @ ''/'' @ n \<noteq> ?pack" using assms(2) by simp
  obtain s1 where s1: "(if mayDelete te ?pack \<and> readFile (tDisk s) ?pack \<noteq> None then
      s\<lparr>tDisk := removeFile ?pack (tDisk s)\<rparr> else say ''remove'' s) = s1" by blast
  then have d: "readFile (tDisk s1) (dirPath @ ''/'' @ n) = Some t" "readFile (tDisk s1) ?t = None"
    using assms(1,3) ne by (auto simp: readFile_remove say_def split: if_splits)
  have "settleImport te False src dirPath cfgName ?pack s =
      (False, (say ''Import failed! Removing empty directory.'' s1)\<lparr>tDisk := rmdir dirPath (tDisk s1)\<rparr>)"
    unfolding settleImport_def s1 Let_def using d(2) by simp
  then show ?thesis using d(1) rmdir_keeps [OF d(1)] by simp
qed

section \<open>Samples\<close>

definition sampleConnection :: "(string \<times> inFile) list" where
  "sampleConnection = [(''w.ovpn'', sampleFile ''dev tun'')]"

definition sampleTransfer :: "unit transferEnv" where
  "sampleTransfer = \<lparr>tAccess = anyAccess, mayDelete = (\<lambda>_. True), mayRenameFile = (\<lambda>_. True), mayMkdir = True,
     listing = (\<lambda>_. plainFiles sampleConnection), deflater = (\<lambda>d. d), fileTypeOf = (\<lambda>_. 0),
     inflateCall = plainInflate, inflateInit = (), byteBeforeBuffer = CHR ''x'', stepsGiven = 200\<rparr>"

definition sampleForm :: exportForm where
  "sampleForm = \<lparr>txtDestFile = ''E:'', txtExportKey = ''pw'', exportPath = ''C:/v/w.ovpn''\<rparr>"

definition sampleState :: transfer where
  "sampleState = \<lparr>tMessages = [], tCrypt = newCrypt, tDisk = \<lparr>files = [(''C:/v/w.ovpn'', ''dev tun'')], dirs = [''E:'']\<rparr>,
     tThrown = False\<rparr>"

definition sampleBytes :: string where
  "sampleBytes = archiveBytes (\<lambda>d. d) (\<lambda>_. 0) sampleConnection"

lemma sample_exportable: "exportable sampleTransfer sampleForm sampleConnection (tDisk sampleState)"
  by (simp add: exportable_def sampleTransfer_def sampleForm_def sampleConnection_def sampleState_def anyAccess_def
      readFile_def dirExists_def storableName_def)

lemma transfer_key: "openKey mirrorApi (withKey k newCrypt) = Inr True"
  by (simp add: openKey_def mirrorApi_def newCrypt_def withKey_def)

lemma sample_encrypts:
  "encrypt mirrorApi k v (archiveBytes (deflater sampleTransfer) (fileTypeOf sampleTransfer) sampleConnection) =
   Some (CHR 0x01 # rev sampleBytes)"
  by (simp add: mirrorApi_def sampleTransfer_def sampleBytes_def)

lemma export_leaves_only_the_encrypted_archive_witness:
  "let s' = exportConfig sampleTransfer mirrorApi sampleForm sampleState in
    readFile (tDisk s') (exportCryptFile sampleForm) = Some (toHex (CHR 0x01 # rev sampleBytes)) \<and>
    readFile (tDisk s') (exportZipFile sampleForm) = None \<and> tCrypt s' = newCrypt"
  using export_leaves_only_the_encrypted_archive
    [OF sample_exportable, of mirrorApi "CHR 0x01 # rev sampleBytes"] transfer_key sample_encrypts
  by (simp add: sampleState_def Let_def)

lemma failed_export_leaves_the_archive_witness:
  "secretKey (tCrypt (exportConfig sampleTransfer (mirrorApi\<lparr>acquireContext := BadKeyset False\<rparr>) sampleForm sampleState)) =
   ''pw''"
  using failed_export_leaves_the_archive [OF sample_exportable, of "mirrorApi\<lparr>acquireContext := BadKeyset False\<rparr>"]
  by (simp add: encodePlaintextAscii_def openKey_def Let_def) (simp add: exportKey_def sampleForm_def)

lemma unUtf8_ascii: "\<forall>ch\<in>set s. code ch < 128 \<Longrightarrow> unUtf8 s = s"
  by (induction s) auto

lemma unUtf8_toHex: "unUtf8 (toHex e) = toHex e"
  by (rule unUtf8_ascii) (use toHex_codes in fastforce)

lemma sample_connection_fits: "fits (\<lambda>d. d) (\<lambda>_. 0) sampleConnection"
proof -
  have "length (archiveBytes (\<lambda>d. d) (\<lambda>_. 0) sampleConnection) < 0x05000000"
    by (simp add: sampleConnection_def sampleFile_def archiveBytes_def centralPart_def length_central_entry
        entryData_def recordLength_def)
  moreover have "\<not> bit (0x20 :: nat) 4" by (simp add: bit_iff_odd)
  ultimately show ?thesis
    unfolding fits_def by (simp add: sampleConnection_def sampleFile_def plainFileName_def isSlash_def)
qed

lemma sample_importable: "importable sampleTransfer mirrorApi sampleConnection ''C:/u/config/w'' ''w''"
  unfolding importable_def
  using plainInflate_pays sample_connection_fits
  by (simp add: sampleTransfer_def sampleConnection_def sampleFile_def fuelFor_def entryData_def isSlash_def
      baseDir_def anyAccess_def)

definition carriedState :: transfer where
  "carriedState = \<lparr>tMessages = [], tCrypt = newCrypt,
     tDisk = writeFile ''F:/w.crypt'' (toHex (CHR 0x01 # rev sampleBytes)) (mkpath ''C:/u/config/w'' emptyDisk),
     tThrown = False\<rparr>"

lemma exported_connection_is_imported_witness:
  "\<exists>s'. unpackArchive sampleTransfer mirrorApi ''pw'' ''F:/w.crypt'' False ''C:/u/config/w'' ''w'' carriedState =
      Returns (True, s') \<and>
    (\<forall>e\<in>set sampleConnection. readFile (tDisk s') (''C:/u/config/w'' @ ''/'' @ fst e) = Some (fileBytes (snd e))) \<and>
    readFile (tDisk s') (''C:/u/config/w'' @ ''/'' @ ''w'' @ ''.zip'') = None \<and> tCrypt s' = tCrypt carriedState"
proof (rule exported_connection_is_imported [OF sample_exportable _ _ sample_encrypts mirrorApi_inverse _ sample_importable])
  show "readFile (tDisk carriedState) ''F:/w.crypt'' =
      readFile (tDisk (exportConfig sampleTransfer mirrorApi sampleForm sampleState)) (exportCryptFile sampleForm)"
    using export_result [OF sample_exportable, of mirrorApi "CHR 0x01 # rev sampleBytes"] transfer_key sample_encrypts
    by (simp add: sampleState_def carriedState_def readFile_write Let_def)
next
  show "decodeUtf8 mirrorApi (toHex (CHR 0x01 # rev sampleBytes)) = toHex (CHR 0x01 # rev sampleBytes)"
    by (simp add: mirrorApi_def unUtf8_toHex del: toHex.simps)
qed (simp_all add: sampleState_def carriedState_def transfer_key exportKey_def sampleForm_def sampleTransfer_def
    anyAccess_def)

lemma renamed_archive_blocks_its_name_witness:
  "case settleImport sampleTransfer False ''F:/x.crypt'' ''d'' ''x'' (''d'' @ ''/'' @ ''x'' @ ''.zip'')
      \<lparr>tMessages = [], tCrypt = newCrypt, tDisk = \<lparr>files = [(''d/w.ovpn'', ''dev tun'')], dirs = [''d'']\<rparr>, tThrown = False\<rparr>
    of (ok, s') \<Rightarrow> \<not> ok \<and> readFile (tDisk s') (''d'' @ ''/'' @ ''w.ovpn'') = Some ''dev tun'' \<and> \<not> isEmptyDir ''d'' (tDisk s')"
  by (rule renamed_archive_blocks_its_name) (simp_all add: readFile_def)

end
