(* ===== verification/Spec2Isabelle.thy ===== *)
theory Spec2Isabelle
  imports ServiceApp EditorRoundtrip UpdateCheck ClientStart ConnectionTransfer
begin

text \<open>
  A model of the Securepoint OpenVPN client for Windows. The program consists of three processes:

    \<^item> the \<^emph>\<open>service\<close> (\<open>src/service\<close>), which runs as local system, owns the OpenVPN
      processes, the vault of configurations and the checksums in the registry;
    \<^item> the \<^emph>\<open>client\<close> (\<open>src/client\<close>), the user's window: it keeps the list of connections and the
      stored credentials, and asks the service over a local TLS socket;
    \<^item> the \<^emph>\<open>checksum tool\<close> (\<open>src/checksum\<close>), started with administrator rights when the checksum of
      a configuration is to be stored.

  A connection is opened like this: the client reads the configuration file, normalises and encodes
  it, and sends \<open>Open\<close> (\<open>ConnectionData.connect\<close>); the service looks the checksum up that the tool has
  stored, compares, drops the lines the service does not trust (\<open>Connection.sanitize\<close>), writes the configuration to the vault and
  starts OpenVPN (\<open>Connection.cmdOpen\<close>); what OpenVPN prints becomes messages \<open>LOG\<close>, \<open>UNEEDED\<close>,
  \<open>RECEIVEDIP\<close> and so on (\<open>OpenVpn.readProcessData\<close>), which the client turns into states, dialogs and
  scripts (\<open>Client.dispatchClient\<close>); what the user enters goes back as a request (\<open>dialogOk\<close>) and ends
  in the process' standard input. The properties of this theory follow a value along that way.

  \<^bold>\<open>Theories and sources.\<close>
  \<open>Prelude\<close>: Qt's strings, lists and numbers as far as used; the collection \<open>qt_simps\<close>.
  \<open>TextFacts\<close>, \<open>Encoding\<close>: lemmas on text; \<open>QByteArray::toBase64\<close> and \<open>fromBase64\<close>.
  \<open>Wire\<close>: the frames of the socket (\<open>service/srvcli.cpp\<close>, \<open>client/src/service/srvcli.cpp\<close>, the head of
  both \<open>slotStartRead\<close>).
  \<open>Stores\<close>: the contracts of keyed lists and stores; files and registry.
  Service: \<open>OpenVpn\<close> (\<open>service/openvpn.cpp\<close>) with its guarantees in \<open>Sessions\<close>; \<open>TapDriver\<close>
  (\<open>service/tapdriver.cpp\<close>, \<open>service/settings.cpp\<close>); \<open>Connection\<close> (\<open>service/sslserverconnection.cpp\<close>,
  \<open>service/sslconnections.cpp\<close>) with \<open>ConnectionFacts\<close>; \<open>SslServer\<close> (\<open>service/sslserver.cpp\<close>);
  \<open>Service\<close>, the step relation \<open>serverStep\<close> of the whole and its properties; \<open>ServiceApp\<close>
  (\<open>service/debug.cpp\<close>, \<open>service/service.cpp\<close>).
  Client: \<open>Crypt\<close> (\<open>database/crypt.cpp\<close>), \<open>Proxy\<close> (\<open>proxysettings.cpp\<close>), \<open>ConnectionData\<close>
  (\<open>widgets/mainview/connectiondata.cpp\<close>, \<open>service/servicelogdata.cpp\<close>, \<open>FrmMain::setIcon\<close>), \<open>Client\<close> (the
  client's \<open>srvcli.cpp\<close>, the slots of \<open>frmmain.cpp\<close>, \<open>dialogs/frmgetuserdata.cpp\<close>) with \<open>ClientFacts\<close>
  (the step relation \<open>clientStep\<close>), \<open>ClientProps\<close> and \<open>ClientIsolation\<close>; \<open>Daemon\<close>
  (\<open>FrmMain::startDaemon\<close>); \<open>Configs\<close> with \<open>ConfigFacts\<close> (\<open>config/Configs.cpp\<close>, removal), \<open>ConfigValues\<close>
  (\<open>config/configvalues.cpp\<close>), \<open>Import\<close> (\<open>importwidget.cpp\<close>, \<open>wiz_vpnwizard.cpp\<close>), \<open>AdvConfig\<close> (the editor
  of all options, \<open>widgets/settings/config/advconfigsettingswidget.cpp\<close>, \<open>dialogs/inlineWindow.cpp\<close>) with
  \<open>AdvConfigFacts\<close> (reading), \<open>AdvConfigSave\<close> (what is written and what of it is read) and
  \<open>EditorRoundtrip\<close>; \<open>ConfigSettings\<close> (\<open>configsettingswidget.cpp\<close>, \<open>quickeditwidget.cpp\<close>); \<open>UpdateCheck\<close>
  (\<open>update/updatecheck.cpp\<close>); \<open>ClientSettings\<close> (\<open>widgets/settings/client/settings.cpp\<close> and the page
  \<open>clientsettingswidget.cpp\<close>) and \<open>Database\<close> (\<open>database/database.cpp\<close>, the table of settings over any number
  of starts); \<open>CommandLine\<close> (\<open>CommandLineToArgvA\<close> of \<open>client/src/main.cpp\<close> with a reference that cuts off one
  word after the other) and \<open>ClientStart\<close> (\<open>WinMain\<close> and \<open>single_application.cpp\<close>). The archives in which connections
  are carried to another machine: \<open>Crc\<close> (the checksum with the division by its polynomial as reference, the cipher of
  entries), \<open>ZipWrite\<close> (\<open>client/src/zip/zip.cpp\<close>) and \<open>ZipRead\<close> (\<open>client/src/zip/unzip.cpp\<close>) with the two
  functions of \<open>client/src/zip/czip.cpp\<close>; \<open>ZipFacts\<close> (what is written), \<open>ZipOpen\<close> (the end record is found),
  \<open>ZipEntries\<close> (entries are described as they were added) and \<open>ZipRoundtrip\<close> (their data comes back: the locale
  \<open>entry_source\<close> for stored and for compressed data); \<open>ZipSafety\<close> (archives from elsewhere); and \<open>ConnectionTransfer\<close>, the
  export (\<open>widgets/export/exportwidget.cpp\<close>) and the import of an encrypted archive. Both sides of the checksum: \<open>ChecksumTool\<close> (\<open>client/src/checksum.cpp\<close>,
  \<open>checksum/main.cpp\<close>).

  \<^bold>\<open>State.\<close> An object is a record of its members; a slot or handler is a function from the state
  to the state, its messages and effects being lists in the order they are sent. Objects that the
  code reaches through pointers in a list (\<open>SslConnections\<close>, \<open>vpnList\<close>, \<open>Configs\<close>) are
  values of a keyed list, so a change through a pointer is an update at its key. Errors are values: \<open>Inl\<close> for
  a refused request, \<open>None\<close> for a thrown exception or a missing file, the flag \<open>fault\<close> for a read outside
  a string.

  \<^bold>\<open>Groups of lemmas.\<close> Locales state what one part relies on in another and are interpreted on
  the model: \<open>frame_receiver\<close> (messages arrive complete and in order, however the bytes are
  cut), \<open>keyed_list\<close> and \<open>keyed_store\<close> (sessions, connections, logs, files, registry),
  \<open>session_invariant\<close> (what every slot of a session keeps), \<open>svc_invariant\<close> (what every command of the
  service keeps), \<open>client_invariant\<close> (what every message,
  dialog and command of the client keeps), \<open>journal\<close> (the client's log) and \<open>entry_source\<close> (what the next call of the
  reader still owes of an entry). Frame lemmas say what a building
  block leaves alone; the properties are short consequences of the interpretations.

  \<^bold>\<open>Bounds.\<close> Text is Latin-1: one \<open>char\<close> is one UTF-16 unit below 256, which the properties on
  lengths and on UTF-8 depend on. Integers are checked where Qt checks them (\<open>toInt\<close>, 32 bits) and
  reduced where C++ reduces them (\<open>u32\<close>, the block size of a frame). Loops are structural or have a measure; the
  client's start tries six times, the update check asks three times for a login, the client cuts
  a log line after 300 characters, exactly as the code does. Waiting for a device of the client has no
  limit in the code and gives an option. Reading an archive is given a number of steps, because its loops may run for
  ever: \<open>fuelFor\<close> is enough for an archive of the own writer, and \<open>short_stored_entry_never_ends\<close> shows that no number
  is enough for some others. Memory that was never written is a result of its own (\<open>Unspecified\<close>).

  \<^bold>\<open>Parameters.\<close> What the code asks of the outside is a field of an environment record: the
  SHA-256 function, the decoder of bytes to text, WinINet, the CryptoAPI, the TCP table and
  signatures of Windows, \<open>tapinstall.exe\<close>, the rows the database returns, \<open>std::sort\<close>, the splitting of
  a command line, \<open>PathCleanupSpec\<close>, absolute paths, and the compressor and decompressor of archives. Properties name what they need of them
  (\<open>decodesUtf8\<close>, \<open>splitsAtSpaces\<close>, \<open>sortsByName\<close>, \<open>inflaterFor\<close>), and their witnesses use concrete functions.

  \<^bold>\<open>Not modelled.\<close> Nested event loops (\<open>processEvents\<close>, \<open>exec\<close>) are taken to deliver nothing. Threads are
  sequences of steps. Painting, layout, menus, translation and the pages of dialogs and wizard,
  which only call Qt; of the editor of all options the enabled states of widgets; of the zip code \<open>deflate\<close> and \<open>inflate\<close> (third party, parameters), archives in memory, on
  handles or with a password when writing, single entries by name, comments and the texts of errors, none of which the
  client uses, files of 2 GB and more, and writes that fail after a file was opened; the vendored service framework; of the client's start the style sheets, the translation and what the window shows; the
  SQL of the table \<open>vpn\<close>, whose statements and answers are seen. Between \<open>refreshConfigs\<close> and
  \<open>loadConnections\<close> the view keeps pointers to deleted objects: the properties on the client's
  state speak of the moments after.
\<close>

section \<open>A connection is opened\<close>

lemma ascii_toBase64: "ascii (toBase64 s)"
proof -
  have d: "code (b64Digit d) < 128" if "d < 64" for d using b64Digit_code [OF that] by auto
  have e: "code CHR ''='' < 128" by (simp add: code_def)
  show ?thesis
  proof (induction s rule: toBase64.induct)
    case (1 a b c bs)
    have "(code a * 65536 + code b * 256 + code c) div 262144 < 64"
      by (rule less_mult_imp_div_less)
        (use code_less_256 [of a] code_less_256 [of b] code_less_256 [of c] in linarith)
    with 1 show ?case by (simp add: Let_def d)
  next
    case (2 a b)
    have "(code a * 1024 + code b * 4) div 4096 < 64"
      by (rule less_mult_imp_div_less) (use code_less_256 [of a] code_less_256 [of b] in linarith)
    then show ?case by (simp add: Let_def d e)
  next
    case (3 a)
    have "code a * 16 div 64 < 64" by (rule less_mult_imp_div_less) (use code_less_256 [of a] in linarith)
    then show ?case by (simp add: Let_def d e)
  qed simp
qed

definition normalizedText :: "string \<Rightarrow> string" where
  "normalizedText content =
     concat (map (\<lambda>l. trimmed l @ [CHR 0x0A]) (splitOn CHR 0x0A (qreplace content [CHR 0x0D, CHR 0x0A] [CHR 0x0A])))"

lemma normalizeContent_text: "normalizeContent content = utf8 (normalizedText content)"
  by (simp add: normalizeContent_def normalizedText_def)

lemma utf8_base64: "fromBase64 (utf8 (toBase64 s)) = s"
  by (simp add: utf8_ascii ascii_toBase64)

definition decodesUtf8 :: "(string \<Rightarrow> string) \<Rightarrow> bool" where
  "decodesUtf8 d \<longleftrightarrow> (\<forall>x. d (utf8 x) = x)"

lemma parse_openParams:
  assumes "inInt32 (cdId c)" and "CHR '';'' \<notin> set content"
    and "list_all (\<lambda>x. CHR '';'' \<notin> set x)
      [logonUser e, logonSID e, cdConfigPath c, openVpnProxyString (systemProxy e) (proxyOf e)]"
  shows "parseOpen (openParams e c content) =
    Some \<lparr>configId = cdId c, username = logonUser e, userSID = logonSID e, configFullPath = cdConfigPath c,
      content64 = content, interact = (if useInteract e then ''0'' else ''1''),
      proxy = openVpnProxyString (systemProxy e) (proxyOf e)\<rparr>"
proof -
  have "splitOn CHR '';'' (openParams e c content) =
      [number (cdId c), logonUser e, logonSID e, cdConfigPath c, content,
       if useInteract e then ''0'' else ''1'', openVpnProxyString (systemProxy e) (proxyOf e),
       if isPortable e then ''1'' else ''0'']"
    unfolding openParams_def using assms(2,3) by (intro splitOn_joinWith) auto
  then show ?thesis using assms(1) by (simp add: parseOpen_def)
qed

lemma sendToService_effects:
  "sendToService e cmd p s = (True, s') \<Longrightarrow> effects s' = effects s @ [Request cmd p]"
  by (auto simp: sendToService_def makeFastConnection_def split: if_splits)

lemma connect_request:
  assumes "getObj k s = Some c" and "fst (connect e k s)" and "fileText e (cdConfigPath c) = Some t"
    and "mayOpen e (cdConfigPath c)"
  shows "last (effects (snd (connect e k s))) =
    Request ''Open'' (openParams e c (toBase64 (normalizeContent (joinWith [CHR 0x0A] (textLines t)))))"
proof -
  define s1 where "s1 = runScript e k ''BC'' (setState e k Connecting s)"
  have c: "connect e k s = sendToService e ''Open''
      (openParams e c (toBase64 (normalizeContent (joinWith [CHR 0x0A] (textLines t))))) s1"
    using assms by (simp add: connect_def Let_def s1_def base64OfFileContent_def)
  obtain b s2 where b: "sendToService e ''Open''
      (openParams e c (toBase64 (normalizeContent (joinWith [CHR 0x0A] (textLines t))))) s1 = (b, s2)" by fastforce
  with assms(2) c have "b" by simp
  with b c sendToService_effects show ?thesis by simp
qed

text \<open>C1. What the user connects is what the service gets: the request a connect sends is parsed by the service into the same id, user, SID, path and proxy, and the configuration it decodes, hashes and writes to the vault is the normalised text of the user's file.\<close>

theorem open_request_carries_the_configuration:
  assumes "getObj k s = Some c" and "fst (connect e k s)" and "fileText e (cdConfigPath c) = Some t"
    and "mayOpen e (cdConfigPath c)" and "inInt32 (cdId c)" and "decodesUtf8 (fromUtf8 se)"
    and "list_all (\<lambda>x. CHR '';'' \<notin> set x)
      [logonUser e, logonSID e, cdConfigPath c, openVpnProxyString (systemProxy e) (proxyOf e)]"
  shows "case last (effects (snd (connect e k s))) of
      Request cmd p \<Rightarrow> cmd = ''Open'' \<and>
        (case parseOpen p of None \<Rightarrow> False
         | Some q \<Rightarrow> (configId q, username q, userSID q, configFullPath q, proxy q) =
             (cdId c, logonUser e, logonSID e, cdConfigPath c, openVpnProxyString (systemProxy e) (proxyOf e)) \<and>
             receivedConfig se q = normalizedText (joinWith [CHR 0x0A] (textLines t)))
    | _ \<Rightarrow> False"
  unfolding connect_request [OF assms(1-4)]
  using parse_openParams [OF assms(5) toBase64_no_semicolon assms(7)] assms(6)
  by (simp add: receivedConfig_def utf8_base64 normalizeContent_text decodesUtf8_def)

lemma connect_reaches: "getObj k s = Some c \<Longrightarrow> serviceReachable e \<Longrightarrow> fst (connect e k s)"
  by (auto simp: connect_def Let_def sendToService_def makeFastConnection_def split: prod.split)

definition fileEnv :: cenv where
  "fileEnv = clientEnv\<lparr>fileText := (\<lambda>p. if p = ''C:/vpn/office.ovpn'' then Some ''dev tun'' else None), proxyOf := storedProxy\<rparr>"

definition utf8Senv :: senv where
  "utf8Senv = sampleSenv\<lparr>fromUtf8 := unUtf8\<rparr>"

lemma open_request_carries_the_configuration_witness:
  "case last (effects (snd (connect fileEnv 1 oneClient))) of
      Request cmd p \<Rightarrow> cmd = ''Open'' \<and>
        (case parseOpen p of None \<Rightarrow> False
         | Some q \<Rightarrow> (configId q, username q, userSID q, configFullPath q, proxy q) =
             (cdId oneConnection, logonUser fileEnv, logonSID fileEnv, cdConfigPath oneConnection, openVpnProxyString (systemProxy fileEnv) (proxyOf fileEnv)) \<and>
             receivedConfig utf8Senv q = normalizedText (joinWith [CHR 0x0A] (textLines ''dev tun'')))
    | _ \<Rightarrow> False"
proof (rule open_request_carries_the_configuration)
  show g: "getObj 1 oneClient = Some oneConnection" by (simp add: getObj_def oneClient_def)
  show "fst (connect fileEnv 1 oneClient)" by (rule connect_reaches [OF g]) (simp add: fileEnv_def clientEnv_def)
  show "fileText fileEnv (cdConfigPath oneConnection) = Some ''dev tun''" "mayOpen fileEnv (cdConfigPath oneConnection)"
    by (simp_all add: fileEnv_def clientEnv_def oneConnection_def)
  show "inInt32 (cdId oneConnection)" by (simp add: oneConnection_def inInt32_def)
  show "decodesUtf8 (fromUtf8 utf8Senv)" by (simp add: decodesUtf8_def utf8Senv_def)
  show "list_all (\<lambda>x. CHR '';'' \<notin> set x) [logonUser fileEnv, logonSID fileEnv, cdConfigPath oneConnection,
      openVpnProxyString (systemProxy fileEnv) (proxyOf fileEnv)]"
    by (simp add: fileEnv_def clientEnv_def oneConnection_def openVpnProxyString_def storedProxy_def serverParts_def)
qed

section \<open>Checksums\<close>

lemma tool_guards_open:
  assumes "splitsAtSpaces argv" and "\<not> isPortable e" and "plainWord (logonUser e)" and "plainWord (logonSID e)"
    and "plainPath p" and "plainWord (contentHash e content)" and "inInt32 i" and "i \<noteq> -1"
    and "wordsOf p = w # ws" and "\<forall>x \<in> set ws. x \<notin> set toolOptions"
    and "userSID q = logonSID e" and "configId q = i" and "simplified (contentHash e content) \<noteq> []"
  shows "isl (checkChecksum se t q (s\<lparr>registry := snd (checksumMain True (argv (toolParams e content i p)) reg)\<rparr>)) \<longleftrightarrow>
    receivedConfig se q = [] \<or> sha256hex se (utf8 (receivedConfig se q)) \<noteq> contentHash e content"
proof -
  define reg' where "reg' = snd (checksumMain True (argv (toolParams e content i p)) reg)"
  have "map_of reg' (checksumKey (logonSID e) i) = Some (contentHash e content)"
    using tool_stores [OF assms(1-10), of reg] by (auto simp: reg'_def checksumKey_def split: prod.splits)
  then have "regValue (checksumKey (userSID q) (configId q)) (s\<lparr>registry := reg'\<rparr>) = contentHash e content"
    by (simp add: regValue_def assms(11,12))
  then show ?thesis using assms(13) unfolding reg'_def [symmetric]
    by (simp add: checkChecksum_def refuse_def Let_def receivedConfig_def)
qed

text \<open>C5. The checksum the client has stored guards the connection: with the registry as the tool leaves it, the service refuses a request of that user for that connection exactly when it carries no configuration or one with another hash than the content the checksum was made of.\<close>

theorem stored_checksum_guards_open:
  assumes "splitsAtSpaces argv" and "\<not> isPortable e" and "plainWord (logonUser e)" and "plainWord (logonSID e)"
    and "plainPath p" and "plainWord (contentHash e content)" and "inInt32 i" and "i \<noteq> -1"
    and "wordsOf p = w # ws" and "\<forall>x \<in> set ws. x \<notin> set toolOptions"
    and "userSID q = logonSID e" and "configId q = i" and "simplified (contentHash e content) \<noteq> []"
  shows "isl (checkChecksum se t q (s\<lparr>registry := snd (checksumMain True (argv (toolParams e content i p)) reg)\<rparr>)) \<longleftrightarrow>
    receivedConfig se q = [] \<or> sha256hex se (utf8 (receivedConfig se q)) \<noteq> contentHash e content"
  by (rule tool_guards_open [OF assms])

lemma stored_checksum_guards_open_witness:
  "isl (checkChecksum sampleSenv 0 sampleRequest ((sampleSvc [])\<lparr>registry :=
      snd (checksumMain True (wordsOf (toolParams toolEnv [] 7 ''C:/my vpn/a.ovpn'')) [])\<rparr>)) \<longleftrightarrow>
    receivedConfig sampleSenv sampleRequest = [] \<or>
    sha256hex sampleSenv (utf8 (receivedConfig sampleSenv sampleRequest)) \<noteq> contentHash toolEnv []"
proof (rule stored_checksum_guards_open [where w = "''C:/my''" and ws = "[''vpn/a.ovpn'']"])
  show "simplified (contentHash toolEnv []) \<noteq> []"
    by (simp add: toolEnv_def contentHash_def simplified_def isSpace_def code_def)
qed (simp_all add: splitsAtSpaces_def toolEnv_def plainWord_def plainPath_def contentHash_def inInt32_def
      wordsOf_def toolOptions_def sampleRequest_def)

text \<open>Both programs use the same hash, which is printed in hexadecimal.\<close>

definition hexHash :: "(string \<Rightarrow> string) \<Rightarrow> bool" where
  "hexHash h \<longleftrightarrow> (\<forall>x. h x \<noteq> [] \<and> set (h x) \<subseteq> set ''0123456789abcdef'')"

lemma hexHash_char:
  assumes "hexHash h" and "c \<in> set (h x)"
  shows "\<not> isSpace c \<and> c \<notin> {CHR '' '', CHR ''%'', CHR 0x22, CHR 0x09}"
proof -
  have "list_all (\<lambda>c. \<not> isSpace c \<and> c \<notin> {CHR '' '', CHR ''%'', CHR 0x22, CHR 0x09}) ''0123456789abcdef''"
    by (simp add: isSpace_def code_def)
  moreover have "c \<in> set ''0123456789abcdef''" using assms unfolding hexHash_def by blast
  ultimately show ?thesis unfolding list_all_iff by (rule bspec)
qed

lemma simplified_no_space:
  assumes "w \<noteq> []" and "\<And>c. c \<in> set w \<Longrightarrow> \<not> isSpace c"
  shows "simplified w = w"
proof -
  have "simp_words w = [w]" using assms(2) by (induction w) auto
  with assms(1) show ?thesis by (simp add: simplified_def)
qed

lemma hexHash_plain:
  assumes "hexHash h"
  shows "plainWord (h x)" "simplified (h x) \<noteq> []"
proof -
  have n: "h x \<noteq> []" using assms unfolding hexHash_def by blast
  then show "plainWord (h x)" using hexHash_char [OF assms, of _ x] by (auto simp: plainWord_def)
  show "simplified (h x) \<noteq> []" using simplified_no_space [OF n] hexHash_char [OF assms, of _ x] n by simp
qed

lemma normalizedText_filled: "normalizedText t \<noteq> []"
  using splitOn_neq_Nil by (auto simp: normalizedText_def)

text \<open>C12. What the editor of all options has saved can be connected: when the tool it starts has run and the user connects, the service finds the checksum it expects, so a configuration is never refused because of its own editor.\<close>

theorem saved_configuration_is_accepted:
  assumes "saveEditor ie stamp c (f, l) = Some (f', l')" and "e = seeing (configs ie) l'"
    and "mayWrite (access ie) (cdConfigPath c)" and "mayOpen e (cdConfigPath c)" and "cdConfigPath c \<noteq> dirOf c @ ''/scripts.conf''"
    and "\<not> isPortable e" and "toolStarts e" and "getObj k (app l') = Some c" and "fst (connect e k (app l'))"
    and "inInt32 (cdId c)" and "cdId c \<noteq> -1" and "hashHex e = sha256hex se" and "hexHash (sha256hex se)"
    and "decodesUtf8 (decodeUtf8 (cryptography e))" and "decodesUtf8 (fromUtf8 se)" and "splitsAtSpaces argv"
    and "plainWord (logonUser e)" and "plainWord (logonSID e)" and "plainPath (cdConfigPath c)"
    and "wordsOf (cdConfigPath c) = w # ws" and "\<forall>x \<in> set ws. x \<notin> set toolOptions"
    and "list_all (\<lambda>x. CHR '';'' \<notin> set x)
      [logonUser e, logonSID e, cdConfigPath c, openVpnProxyString (systemProxy e) (proxyOf e)]"
  shows "\<exists>params p q. RunTool ''checksum.exe'' params \<in> set (drop (length (effects (app l))) (effects (app l'))) \<and>
    last (effects (snd (connect e k (app l')))) = Request ''Open'' p \<and> parseOpen p = Some q \<and>
    \<not> isl (checkChecksum se t q (s\<lparr>registry := snd (checksumMain True (argv params) reg)\<rparr>))"
proof -
  let ?p = "cdConfigPath c" and ?u = "ui (configs ie)"
  have e: "mayOpen ?u = mayOpen e" "isPortable ?u = isPortable e" "toolStarts ?u = toolStarts e"
    "toolParams ?u = toolParams e" "fileText e = readFile (disk l')"
    by (simp_all add: assms(2) seeing_def toolParams_def contentHash_def fun_eq_iff)
  obtain x where x: "readFile (disk l') ?p = Some x"
    using editor_file [OF assms(1,3,5)] by blast
  define n where "n = joinWith [CHR 0x0A] (textLines x)"
  define q where "q = \<lparr>configId = cdId c, username = logonUser e, userSID = logonSID e, configFullPath = ?p,
      content64 = base64OfContent n, interact = (if useInteract e then ''0'' else ''1''),
      proxy = openVpnProxyString (systemProxy e) (proxyOf e)\<rparr>"
  have f: "fileContent64 ie l' ?p = base64OfContent n"
    using fileContent64_written [OF x] assms(4) e(1) by (simp add: n_def)
  have r: "last (effects (snd (connect e k (app l')))) = Request ''Open'' (openParams e c (base64OfContent n))"
    using connect_request [OF assms(8,9) _ assms(4)] x by (simp add: e(5) n_def base64OfContent_def)
  have p: "parseOpen (openParams e c (base64OfContent n)) = Some q"
    using parse_openParams [OF assms(10) _ assms(22)] toBase64_no_semicolon by (simp add: q_def base64OfContent_def)
  have h: "contentHash e (base64OfContent n) = sha256hex se (utf8 (normalizedText n))"
    using assms(12,14) by (simp add: contentHash_def base64OfContent_def utf8_base64 normalizeContent_text decodesUtf8_def)
  have i: "userSID q = logonSID e" "configId q = cdId c" by (simp_all add: q_def)
  have c: "receivedConfig se q = normalizedText n"
    using assms(15) by (simp add: receivedConfig_def q_def base64OfContent_def utf8_base64 normalizeContent_text decodesUtf8_def)
  have "RunTool ''checksum.exe'' (toolParams e (base64OfContent n) (cdId c) ?p)
      \<in> set (drop (length (effects (app l))) (effects (app l')))"
    using editor_runs_tool [OF assms(1,3) _ assms(5)] assms(4,6,7) by (simp add: e f)
  moreover have "\<not> isl (checkChecksum se t q (s\<lparr>registry := snd (checksumMain True (argv (toolParams e (base64OfContent n) (cdId c) ?p)) reg)\<rparr>))"
    using tool_guards_open [OF assms(16,6,17,18,19) _ assms(10,11,20,21), where q = q and content = "base64OfContent n"]
      hexHash_plain [OF assms(13)] normalizedText_filled [of n]
    by (simp add: h c i)
  ultimately show ?thesis using r p by blast
qed

text \<open>A stand-in for SHA-256, which only keeps the length.\<close>

definition lengthHash :: "string \<Rightarrow> string" where
  "lengthHash x = [''0123456789abcdef'' ! (length x mod 16)]"

definition savingImport :: importEnv where
  "savingImport = sampleImport\<lparr>configs := sampleConfigs\<lparr>ui := clientEnv\<lparr>hashHex := lengthHash\<rparr>\<rparr>\<rparr>"

definition savingLibrary :: library where
  "savingLibrary = \<lparr>app = oneClient, disk = \<lparr>files = [(''C:/vpn/office.ovpn'', unlines [''client'', ''pull''])], dirs = [''C:/vpn'']\<rparr>\<rparr>"

lemma saving_lines:
  "configLinesOf savingImport savingLibrary (cdConfigPath oneConnection) = Some [''client'', ''pull'']"
  "otherLines None [''client'', ''pull''] = Some [''pull'']"
  by (simp add: configLinesOf_def savingLibrary_def oneConnection_def readFile_def savingImport_def sampleImport_def anyAccess_def
      textRead_def textLines_def stripCR_def) code_simp

lemma lengthHash_hex: "hexHash lengthHash"
proof -
  have "''0123456789abcdef'' ! (n mod 16) \<in> set ''0123456789abcdef''" for n by (rule nth_mem) simp
  then show ?thesis by (simp only: hexHash_def lengthHash_def) simp
qed

lemma saved_configuration_is_accepted_witness:
  "\<exists>l' params p q. saveEditor savingImport ''today'' oneConnection (newForm, savingLibrary) = Some (newForm, l') \<and>
    RunTool ''checksum.exe'' params \<in> set (drop (length (effects (app savingLibrary))) (effects (app l'))) \<and>
    last (effects (snd (connect (seeing (configs savingImport) l') 1 (app l')))) = Request ''Open'' p \<and> parseOpen p = Some q \<and>
    \<not> isl (checkChecksum (utf8Senv\<lparr>sha256hex := lengthHash\<rparr>) 0 q
      ((sampleSvc [])\<lparr>registry := snd (checksumMain True (wordsOf params) [])\<rparr>))"
proof -
  have p: "cdConfigPath oneConnection = ''C:/vpn/office.ovpn''" "cdId oneConnection = 1" by (simp_all add: oneConnection_def)
  have d: "cdConfigPath oneConnection \<noteq> dirOf oneConnection @ ''/scripts.conf''"
    by (simp add: p dirOf_def qleft_def lastIndexOf_def index_or_minus_one_def)
  have n: "plainForm newForm" "untaggedInline newForm" "inlineLines newForm = []" "withTags newForm = newForm"
    by (simp_all add: plainForm_def newForm_def wordText_def unquotedWord_def keepsPkcs12_def namesFile_def fillCipherCombo_def
        untaggedInline_def untaggedText_def inlineLines_def blockLines_def withTags_def withTag_def)
  have w: "mayWrite (access savingImport) (cdConfigPath oneConnection)" by (simp add: savingImport_def sampleImport_def anyAccess_def)
  obtain l' where s: "saveEditor savingImport ''today'' oneConnection (newForm, savingLibrary) = Some (newForm, l')"
    using saved_file [OF saving_lines w d n(1-3), of "''today''"] n(4) by (auto simp: rawLine_def)
  have g: "getObj 1 (app l') = Some oneConnection"
    using editor_objs [OF s] by (simp add: getObj_def savingLibrary_def oneClient_def)
  have e: "seeing (configs savingImport) l' = clientEnv\<lparr>hashHex := lengthHash, fileText := readFile (disk l')\<rparr>"
    by (simp add: savingImport_def seeing_def)
  have "fst (connect (seeing (configs savingImport) l') 1 (app l'))"
    by (rule connect_reaches [OF g]) (simp add: e clientEnv_def)
  from saved_configuration_is_accepted [OF s refl w _ d _ _ g this, where se = "utf8Senv\<lparr>sha256hex := lengthHash\<rparr>"
      and argv = wordsOf and t = 0 and s = "sampleSvc []" and reg = "[]" and w = "''C:/vpn/office.ovpn''" and ws = "[]"]
  show ?thesis using s lengthHash_hex
    by (simp add: e p clientEnv_def inInt32_def decodesUtf8_def mirrorApi_def utf8Senv_def splitsAtSpaces_def plainWord_def
        plainPath_def wordsOf_def storedProxy_def openVpnProxyString_def serverParts_def)
qed

text \<open>The abstract view of the registry: the checksum of a user's connection.\<close>

definition plainSid :: "string \<Rightarrow> bool" where
  "plainSid sid \<longleftrightarrow> CHR ''%'' \<notin> set sid \<and> CHR '';'' \<notin> set sid \<and> CHR ''/'' \<notin> set sid"

definition absRegistry :: "(string \<times> string) list \<Rightarrow> string \<times> int \<Rightarrow> string option" where
  "absRegistry reg p = (if plainSid (fst p) then map_of reg (checksumKey (fst p) (snd p)) else None)"

lemma number_no_slash: "CHR ''/'' \<notin> set (number i)"
  by (rule number_fresh) (simp_all add: code_def)

lemma key_words:
  "plainSid sid \<Longrightarrow> splitOn CHR ''/'' (checksumKey sid i) = [''Users'', sid, ''Security'', number i, ''Checksum'']"
  using number_no_slash [of i] by (simp add: security_keys(2) plainSid_def)

lemma key_inj:
  assumes "plainSid sid" and "plainSid sid'"
  shows "checksumKey sid i = checksumKey sid' j \<longleftrightarrow> sid = sid' \<and> i = j"
proof
  assume "checksumKey sid i = checksumKey sid' j"
  then have "[''Users'', sid, ''Security'', number i, ''Checksum''] = [''Users'', sid', ''Security'', number j, ''Checksum'']"
    by (simp only: key_words [OF assms(1), symmetric] key_words [OF assms(2), symmetric])
  then show "sid = sid' \<and> i = j" by (simp add: number_inj)
qed simp

lemma under_key:
  assumes "plainSid sid" and "plainSid sid'"
  shows "under (''Users/'' @ sid @ ''/Security/'' @ number i) (checksumKey sid' j) \<longleftrightarrow> sid = sid' \<and> i = j"
proof
  let ?k = "''Users/'' @ sid @ ''/Security/'' @ number i"
  have w: "splitOn CHR ''/'' ?k = [''Users'', sid, ''Security'', number i]"
    using assms(1) number_no_slash [of i] by (simp add: plainSid_def)
  assume "under ?k (checksumKey sid' j)"
  then consider "checksumKey sid' j = ?k" | z where "checksumKey sid' j = ?k @ CHR ''/'' # z"
    by (auto simp: under_def prefix_def)
  then show "sid = sid' \<and> i = j"
  proof cases
    case 1
    with w key_words [OF assms(2), of j] show ?thesis by simp
  next
    case 2
    then have "[''Users'', sid', ''Security'', number j, ''Checksum''] = splitOn CHR ''/'' ?k @ splitOn CHR ''/'' z"
      using key_words [OF assms(2), of j] splitOn_append_sep [of "CHR ''/''" ?k z] by (simp only:)
    with w number_inj [of i j] show ?thesis by simp
  qed
next
  assume "sid = sid' \<and> i = j"
  with assms(1) show "under (''Users/'' @ sid @ ''/Security/'' @ number i) (checksumKey sid' j)"
    by (simp add: under_def security_keys(2) plainSid_def)
qed

text \<open>C6. The registry of checksums implements a map from user and connection: the tool's run is the update of one entry, the service's \<open>REMOVE_CHECKSUM\<close> the removal of one, and neither touches another user or connection.\<close>

theorem registry_refines_checksum_map:
  assumes "plainSid sid" and "inInt32 i" and "complete a" and "\<not> argPortable a" and "argSid a = sid" and "argId a = i"
    and "parseArgs args noArgs = a" and "CHR '';'' \<notin> set user" and "CHR '';'' \<notin> set flag" and "\<not> portable (os e)"
  shows "absRegistry (snd (checksumMain True args reg)) = (absRegistry reg)((sid, i) \<mapsto> argSum a) \<and>
    absRegistry (registry (fst (dispatch e t ''REMOVE_CHECKSUM'' (number i @ '';'' @ user @ '';'' @ sid @ '';'' @ flag) s))) =
      (absRegistry (registry s))((sid, i) := None)"
proof
  have "snd (checksumMain True args reg) = regSet (checksumKey sid i) (argSum a) reg"
    using assms(3-7) by (simp add: checksumMain_def checksumKey_def Let_def)
  then show "absRegistry (snd (checksumMain True args reg)) = (absRegistry reg)((sid, i) \<mapsto> argSum a)"
    using assms(1) key_inj by (auto simp: absRegistry_def regSet_value fun_eq_iff)
  let ?s' = "fst (dispatch e t ''REMOVE_CHECKSUM'' (number i @ '';'' @ user @ '';'' @ sid @ '';'' @ flag) s)"
  have sid: "CHR '';'' \<notin> set sid" "CHR ''%'' \<notin> set sid" using assms(1) by (simp_all add: plainSid_def)
  have m: "map_of (registry ?s') (checksumKey sid' j) =
      (if sid = sid' \<and> i = j then None else map_of (registry s) (checksumKey sid' j))" if "plainSid sid'" for sid' j
  proof -
    have "splitOn CHR ''/'' (''Users/'' @ sid) = [''Users'', sid]" using assms(1) by (simp add: plainSid_def)
    then have "checksumKey sid' j \<noteq> ''Users/'' @ sid" using key_words [OF that, of j] by auto
    with checksum_removed [OF assms(8) sid(1) assms(9) sid(2) assms(2,10) refl this] under_key [OF assms(1) that]
    show ?thesis by simp
  qed
  show "absRegistry (registry ?s') = (absRegistry (registry s))((sid, i) := None)"
    using assms(1) m by (auto simp: absRegistry_def fun_eq_iff)
qed

lemma registry_refines_checksum_map_witness:
  "absRegistry (snd (checksumMain True [''-user'', ''me'', ''-sid'', ''S1'', ''-path'', ''p'', ''-sum'', ''ab'', ''-id'', ''7''] [])) =
     (absRegistry [])((''S1'', 7) \<mapsto> ''ab'') \<and>
   absRegistry (registry (fst (dispatch sampleSenv 0 ''REMOVE_CHECKSUM'' (number 7 @ '';'' @ ''me'' @ '';'' @ ''S1'' @ '';'' @ ''0'') (sampleSvc [])))) =
     (absRegistry (registry (sampleSvc [])))((''S1'', 7) := None)"
proof -
  let ?a = "\<lparr>argUser = ''me'', argSid = ''S1'', argPath = ''p'', argPortable = False, argSum = ''ab'', argId = 7\<rparr>"
  have "toInt ''7'' = 7" using toInt_number [of 7] by (simp add: qt_simps inInt32_def)
  then have "parseArgs [''-user'', ''me'', ''-sid'', ''S1'', ''-path'', ''p'', ''-sum'', ''ab'', ''-id'', ''7''] noArgs = ?a"
    by (simp add: noArgs_def)
  from registry_refines_checksum_map [OF _ _ _ _ _ _ this, of "''S1''" 7 "''me''" "''0''" sampleSenv "[]" 0 "sampleSvc []"]
  show ?thesis by (simp add: plainSid_def inInt32_def complete_def sampleSenv_def sampleEnv_def)
qed

section \<open>Answers of the user\<close>

lemma appends_saveUserData: "\<exists>xs. effects (saveUserData e k t v b s) = effects s @ xs"
  by (auto simp: saveUserData_def updateUserConfig_def Let_def split: option.split)

lemma appends_slot: "\<exists>xs. effects (saveUserDataSlot e i t v b s) = effects s @ xs"
  using appends_saveUserData by (auto simp: saveUserDataSlot_def withConnection_def split: option.split)

text \<open>C33. A password entered in the dialog reaches OpenVPN: the request the dialog sends makes the service write it, as it was typed, to the input of the process of that session; it is the first thing the dialog causes, before anything is stored.\<close>

theorem entered_password_reaches_the_process:
  assumes "serviceOnline s" and "inInt32 i" and "lookupVpn t i sv = Some v" and "writable (proc v)"
  shows "case drop (length (effects s)) (effects (dialogOk e Password i pw save s)) of
      Request cmd p # _ \<Rightarrow>
        map_option (\<lambda>v'. stdin (proc v')) (lookupVpn t i (fst (dispatch se t cmd p sv))) = Some (stdin (proc v) @ [answerBytes pw])
    | _ \<Rightarrow> False"
proof -
  let ?s1 = "requestService e ''PWDNEEDED'' (pair (number i) pw) s"
  have 1: "effects ?s1 = effects s @ [Request ''PWDNEEDED'' (number i @ '';'' @ pw)]"
    using assms(1) by (simp add: requestService_def sendToService_def pair_def qarg_12)
  obtain xs where "effects (saveUserDataSlot e i 1 pw save ?s1) = effects ?s1 @ xs" using appends_slot by blast
  moreover have "\<exists>ys. effects (requestService e c p u) = effects u @ ys" for c p u
    by (auto simp: requestService_def sendToService_def makeFastConnection_def)
  ultimately obtain ys where "effects (dialogOk e Password i pw save s) =
      effects s @ Request ''PWDNEEDED'' (number i @ '';'' @ pw) # ys"
    using 1 unfolding dialogOk_def Let_def by (metis append.assoc append_Cons append_Nil inputType.simps(58))
  with password_delivered [OF assms(3,4,2) refl, of se pw] show ?thesis by auto
qed

lemma entered_password_reaches_the_process_witness:
  "case drop (length (effects oneClient)) (effects (dialogOk clientEnv Password 7 ''a;b'' True oneClient)) of
      Request cmd p # _ \<Rightarrow>
        map_option (\<lambda>v'. stdin (proc v')) (lookupVpn 0 7 (fst (dispatch sampleSenv 0 cmd p
          ((startSvc sampleDisk [])\<lparr>conns := [(0, newConn\<lparr>vpnList := [(7, sampleVpn\<lparr>proc := newProcess\<lparr>writable := True\<rparr>\<rparr>)]\<rparr>)]\<rparr>)))) =
          Some (stdin (proc (sampleVpn\<lparr>proc := newProcess\<lparr>writable := True\<rparr>\<rparr>)) @ [answerBytes ''a;b''])
    | _ \<Rightarrow> False"
  by (rule entered_password_reaches_the_process)
    (simp_all add: oneClient_def inInt32_def lookupVpn_def getConn_def foundItemInList_def)

text \<open>A reconnect that gets no new address announcement ends the client's reading: the second message the session sends is a \<open>LOG\<close> with an empty text, for which the client reads the character before the first.\<close>

theorem reconnect_breaks_the_reader:
  "case outs (readProcessData e [] ''Initialization Sequence Completed'' (freshRun sampleVpn d)) of
      [_, Send t kind, _] \<Rightarrow> fault (fst (dispatchClient ce kind t s))
    | _ \<Rightarrow> False"
proof -
  have "number 7 = ''7''" by (simp add: qt_simps)
  then have "idAndText ''7;'' = Some (7, [])" using idAndText_number [of 7 "[]"] by (simp add: inInt32_def)
  then show ?thesis unfolding reconnect_logs_empty_line by (simp add: dispatch_simps onLog_def)
qed

section \<open>The command line\<close>

text \<open>C19. Disconnecting from the command line reaches the session: when the program is called with \<open>-disconnect\<close> and the numbers of a client and a connection, and the connection is active in the list it reads, it sends one request, on which the service disconnects that connection of that client and touches nothing else.\<close>

theorem disconnect_option_ends_that_session:
  assumes "quote \<notin> set path" and "nul \<notin> set path" and "toIntOk c = Some m" and "toIntOk i = Some n"
    and "managementReachable e" and "listedActive e n s"
  shows "\<exists>p. requests (fst (winMain e (disconnectLine path c i) s)) = requests s @ [(''Close'', p)] \<and>
    dispatch se t ''Close'' p sv =
      (case otherWithId t m sv of None \<Rightarrow> sv | Some t' \<Rightarrow> onVpn t' n (disconnectVpn (os se) False) sv, Continue)"
proof (intro exI conjI)
  show "requests (fst (winMain e (disconnectLine path c i) s)) = requests s @ [(''Close'', c @ '';'' @ i)]"
    using disconnect_request [OF assms(1-4), of e s] assms(5,6) by simp
  note c = number_text_plain [OF assms(3)] and i = number_text_plain [OF assms(4)]
  have p: "0 < indexOf (c @ '';'' @ i) '';''"
  proof -
    have "\<not> contains (c @ butlast '';'') '';''" using c(3) by (auto simp: contains_sublist sublist_def)
    then have "indexOf (c @ '';'' @ i) '';'' = int (length c)" by (rule indexOf_at) simp
    then show ?thesis using c(5) by simp
  qed
  have w: "splitOn CHR '';'' (c @ '';'' @ i) = [c, i]" using c(3) i(3) by simp
  have "toUpper (trimmed ''Close'') = ''CLOSE''" by code_simp
  then have "dispatch se t ''Close'' (c @ '';'' @ i) sv = cmdClose se t (c @ '';'' @ i) sv" by (simp add: dispatch_def)
  also have "\<dots> = (case otherWithId t m sv of None \<Rightarrow> sv | Some t' \<Rightarrow> onVpn t' n (disconnectVpn (os se) False) sv, Continue)"
    unfolding cmdClose_def w if_P [OF p] using assms(3,4) by (simp add: Let_def toInt_def split: option.split)
  finally show "dispatch se t ''Close'' (c @ '';'' @ i) sv =
    (case otherWithId t m sv of None \<Rightarrow> sv | Some t' \<Rightarrow> onVpn t' n (disconnectVpn (os se) False) sv, Continue)" .
qed

definition closingStart :: startEnv where
  "closingStart = firstStart\<lparr>configSide := sampleConfigs\<rparr>"

lemma disconnect_option_ends_that_session_witness:
  "\<forall>se t sv. \<exists>p. requests (fst (winMain closingStart (disconnectLine ''vpn.exe'' ''2'' ''1'') (newStartup None None [] sampleLibrary))) = [(''Close'', p)] \<and>
    dispatch se t ''Close'' p sv =
      (case otherWithId t 2 sv of None \<Rightarrow> sv | Some t' \<Rightarrow> onVpn t' 1 (disconnectVpn (os se) False) sv, Continue)"
proof (intro allI)
  fix se t sv
  have "toIntOk ''2'' = Some 2" "toIntOk ''1'' = Some 1" by code_simp+
  moreover have "fileText (seeing sampleConfigs sampleLibrary) [] \<noteq> None" by (simp add: seeing_def sampleLibrary_def readFile_def)
  then have "listedActive closingStart 1 (newStartup None None [] sampleLibrary)"
    using sample_texts
    by (auto simp: listedActive_def closingStart_def firstStart_def newStartup_def refreshConfigs_def onApp_def sampleLibrary_def
      oneClient_def sampleConfigs_def oneRow_def statements_def deleteSql_def officeRow_def isConfigInList_def configWithId_def
      keepIds_def oneConnection_def split: if_splits)
  moreover have "managementReachable closingStart" by (simp add: closingStart_def firstStart_def)
  ultimately show "\<exists>p. requests (fst (winMain closingStart (disconnectLine ''vpn.exe'' ''2'' ''1'') (newStartup None None [] sampleLibrary))) = [(''Close'', p)] \<and>
    dispatch se t ''Close'' p sv =
      (case otherWithId t 2 sv of None \<Rightarrow> sv | Some t' \<Rightarrow> onVpn t' 1 (disconnectVpn (os se) False) sv, Continue)"
    using disconnect_option_ends_that_session [of "''vpn.exe''" "''2''" 2 "''1''" 1 closingStart "newStartup None None [] sampleLibrary" se t sv]
    by (simp add: quote_def nul_def newStartup_def)
qed

section \<open>The client's state\<close>

definition ownIds :: "entry list \<Rightarrow> bool" where
  "ownIds l \<longleftrightarrow> list_all (\<lambda>x. cdId (snd x) = u32 (fst x)) l"

definition wfClient :: "client \<Rightarrow> bool" where
  "wfClient s \<longleftrightarrow> distinct (map fst (objs s)) \<and> ownIds (objs s) \<and> list_all (\<lambda>k. getObj k s \<noteq> None) (rows s)"

lemma wfClient_shape:
  assumes "shape s' = shape s" and "wfClient s"
  shows "wfClient s'"
proof -
  let ?f = "\<lambda>(k :: int, c). (k, cdId c, cdName c, cdConfigPath c)"
  have m: "map ?f (objs s') = map ?f (objs s)" and r: "rows s' = rows s" using assms(1) by (simp_all add: shape_def)
  have k: "map fst (objs s') = map fst (objs s)"
    using arg_cong [OF m, of "map fst"] by (simp add: comp_def case_prod_beta)
  have i: "map (\<lambda>x. (fst x, cdId (snd x))) (objs s') = map (\<lambda>x. (fst x, cdId (snd x))) (objs s)"
    using arg_cong [OF m, of "map (\<lambda>x. (fst x, fst (snd x)))"] by (simp add: comp_def case_prod_beta)
  have o: "ownIds l \<longleftrightarrow> list_all (\<lambda>x. snd x = u32 (fst x)) (map (\<lambda>x. (fst x, cdId (snd x))) l)" for l
    by (simp add: ownIds_def list_all_iff)
  have "getObj j s' = None \<longleftrightarrow> getObj j s = None" for j
    unfolding getObj_def map_of_eq_None_iff by (metis k list.set_map)
  then show ?thesis using assms(2) by (simp add: wfClient_def k r o i)
qed

lemma wfClient_loaded:
  assumes "goodTable ce (tableOf ce l)" and "sortsByName (stdSort ce)" and "distinct (map fst (objs (app l)))"
    and "ownIds (objs (app l))"
  shows "wfClient (loadConnections (app (refreshConfigs ce l)))"
proof -
  let ?s = "app (refreshConfigs ce l)"
  have "set (objs ?s) \<subseteq> set (objs (app l)) \<union> set (newEntries ce (seeing ce l) (tableOf ce l) (fst ` set (objs (app l))))"
    unfolding refreshConfigs_objs(1) [OF assms(1)] sorted_perm(1) [OF assms(2)] by auto
  moreover have "cdId (snd x) = u32 (fst x)" if "x \<in> set (newEntries ce (seeing ce l) (tableOf ce l) ks)" for x ks
    using that by (auto simp: newEntries_def entryOfRow_def loadedConnection_def)
  ultimately have "ownIds (objs ?s)" using assms(4) by (auto simp: ownIds_def list_all_iff)
  moreover have "getObj j (loadConnections ?s) \<noteq> None" if "j \<in> set (map fst (objs ?s))" for j
    using that by (auto simp: getObj_def loadConnections_def map_of_eq_None_iff)
  ultimately show ?thesis using refreshed_keys(2) [OF assms(1-3)]
    by (simp add: wfClient_def list_all_iff) (simp add: loadConnections_def)
qed

text \<open>C8. The client's state is well-formed from the moment the list is loaded, whatever the service, the user and the scripts do afterwards: every object is listed once, carries its own id, and every row of the view has its object, so that no handler follows a dangling pointer.\<close>

theorem client_state_stays_well_formed:
  assumes "goodTable ce (tableOf ce l)" and "sortsByName (stdSort ce)" and "distinct (map fst (objs (app l)))"
    and "ownIds (objs (app l))" and "clientRuns (\<lambda>_. True) (loadConnections (app (refreshConfigs ce l))) s'"
  shows "wfClient s'"
  using shape.keep_runs [OF assms(5) refl] wfClient_loaded [OF assms(1-4)] by (rule wfClient_shape)

lemma client_state_stays_well_formed_witness:
  "wfClient (snd (connect clientEnv 1 (loadConnections (app (refreshConfigs sampleConfigs sampleLibrary)))))"
proof (rule client_state_stays_well_formed [OF sample_table sample_sorts])
  show "distinct (map fst (objs (app sampleLibrary)))" "ownIds (objs (app sampleLibrary))"
    by (simp_all add: sampleLibrary_def oneClient_def ownIds_def oneConnection_def u32_def)
  show "clientRuns (\<lambda>_. True) (loadConnections (app (refreshConfigs sampleConfigs sampleLibrary)))
      (snd (connect clientEnv 1 (loadConnections (app (refreshConfigs sampleConfigs sampleLibrary)))))"
    unfolding clientRuns_def by (blast intro: clientStep.Connects)
qed

end
